(* ===== verification/Prelude.thy ===== *)
theory Prelude
  imports
    Complex_Main
    "HOL-Library.Word"
    "HOL-Library.Char_ord"
    "HOL-Library.List_Lexorder"
    "HOL-Library.Product_Lexorder"
begin

text \<open>
  What every component shares: Python exceptions as values, computations that read and write a
  state and may raise, transactions, loops that stop at the first exception, preservation of an
  invariant by such computations, and reachability under a set of them. The unfolding rules, the
  preservation rules and the facts on tables are gathered in the named collections declared here.
\<close>

named_theorems act_simps \<open>unfolding rules for state-and-exception computations\<close>
named_theorems preserves_intros \<open>composition rules for invariant preservation\<close>
named_theorems table_simps \<open>keys and membership after table updates\<close>

section \<open>Exceptions and computations\<close>

text \<open>
  An exception is its class name and the fixed part of its message. Where a message quotes a
  run-time value, only the text around the value is kept: no code of the system inspects it.
\<close>

datatype exn = Exn (exn_class: string) (exn_message: string)

abbreviation ValueError :: "string \<Rightarrow> exn" where
  "ValueError \<equiv> Exn ''ValueError''"

abbreviation TypeError :: "string \<Rightarrow> exn" where
  "TypeError \<equiv> Exn ''TypeError''"

abbreviation IntegrityError :: "string \<Rightarrow> exn" where
  "IntegrityError \<equiv> Exn ''IntegrityError''"

text \<open>\<open>HTTPException\<close> by its status code; the message is the detail.\<close>

abbreviation HTTP400 :: "string \<Rightarrow> exn" where
  "HTTP400 \<equiv> Exn ''HTTPException:400''"

abbreviation HTTP404 :: "string \<Rightarrow> exn" where
  "HTTP404 \<equiv> Exn ''HTTPException:404''"

abbreviation HTTP409 :: "string \<Rightarrow> exn" where
  "HTTP409 \<equiv> Exn ''HTTPException:409''"

type_synonym 'a res = "exn + 'a"

text \<open>
  A computation over a state \<open>'s\<close> that returns a value or raises; the state reached is given in
  both cases, since a caller that catches the exception goes on from there.
\<close>

type_synonym ('s, 'a) act = "'s \<Rightarrow> (exn + 'a) \<times> 's"

definition act_return :: "'a \<Rightarrow> ('s, 'a) act" where
  "act_return x = (\<lambda>s. (Inr x, s))"

definition act_raise :: "exn \<Rightarrow> ('s, 'a) act" where
  "act_raise e = (\<lambda>s. (Inl e, s))"

definition act_bind :: "('s, 'a) act \<Rightarrow> ('a \<Rightarrow> ('s, 'b) act) \<Rightarrow> ('s, 'b) act" where
  "act_bind m f =
     (\<lambda>s. case m s of (Inl e, s') \<Rightarrow> (Inl e, s') | (Inr x, s') \<Rightarrow> f x s')"

definition act_get :: "('s \<Rightarrow> 'a) \<Rightarrow> ('s, 'a) act" where
  "act_get f = (\<lambda>s. (Inr (f s), s))"

definition act_modify :: "('s \<Rightarrow> 's) \<Rightarrow> ('s, unit) act" where
  "act_modify f = (\<lambda>s. (Inr (), f s))"

definition act_lift :: "'a res \<Rightarrow> ('s, 'a) act" where
  "act_lift r = (\<lambda>s. (r, s))"

text \<open>A read session: the value or exception of a query on the current state.\<close>

definition act_read :: "('s \<Rightarrow> 'a res) \<Rightarrow> ('s, 'a) act" where
  "act_read f = (\<lambda>s. (f s, s))"

text \<open>\<open>except\<close>: the handler sees the exception and starts in the state that was reached.\<close>

definition act_catch :: "('s, 'a) act \<Rightarrow> (exn \<Rightarrow> ('s, 'a) act) \<Rightarrow> ('s, 'a) act" where
  "act_catch m h =
     (\<lambda>s. case m s of (Inl e, s') \<Rightarrow> h e s' | (Inr x, s') \<Rightarrow> (Inr x, s'))"

text \<open>
  A write session: \<open>async with self._write_session_factory() as session\<close>. Leaving the block
  by an exception rolls back every statement of the transaction.
\<close>

definition transaction :: "('s, 'a) act \<Rightarrow> ('s, 'a) act" where
  "transaction m =
     (\<lambda>s. case m s of (Inl e, s') \<Rightarrow> (Inl e, s) | (Inr x, s') \<Rightarrow> (Inr x, s'))"

text \<open>A step outside the model that either succeeds or raises.\<close>

definition raise_opt :: "exn option \<Rightarrow> ('s, unit) act" where
  "raise_opt e = (case e of None \<Rightarrow> act_return () | Some x \<Rightarrow> act_raise x)"

declare act_return_def [act_simps] act_raise_def [act_simps] act_bind_def [act_simps]
  act_get_def [act_simps] act_modify_def [act_simps] act_lift_def [act_simps]
  act_read_def [act_simps]
  act_catch_def [act_simps] transaction_def [act_simps]

lemma act_return_bind [simp]: "act_bind (act_return x) f = f x"
  by (simp add: act_simps)

lemma act_raise_bind [simp]: "act_bind (act_raise e) f = act_raise e"
  by (simp add: act_simps)

lemma act_bind_assoc: "act_bind (act_bind m f) g = act_bind m (\<lambda>x. act_bind (f x) g)"
  by (rule ext) (simp add: act_simps split: prod.split sum.split)

lemma act_bind_Inr:
  "act_bind m f s = (Inr y, t) \<longleftrightarrow> (\<exists>x u. m s = (Inr x, u) \<and> f x u = (Inr y, t))"
  by (auto simp: act_bind_def split: prod.splits sum.splits)

lemma transaction_Inr: "transaction m s = (Inr x, t) \<longleftrightarrow> m s = (Inr x, t)"
  by (auto simp: transaction_def split: prod.splits sum.splits)

text \<open>All-or-nothing: a transaction that raises leaves the state as it found it.\<close>

lemma transaction_Inl: "transaction m s = (Inl e, t) \<Longrightarrow> t = s"
  by (auto simp: transaction_def split: prod.splits sum.splits)

definition res_bind :: "'a res \<Rightarrow> ('a \<Rightarrow> 'b res) \<Rightarrow> 'b res" where
  "res_bind r f = (case r of Inl e \<Rightarrow> Inl e | Inr x \<Rightarrow> f x)"

lemma res_bind_simps [simp]:
  "res_bind (Inl e) f = Inl e"
  "res_bind (Inr x) f = f x"
  by (simp_all add: res_bind_def)

lemma res_bind_Inr: "res_bind r f = Inr y \<longleftrightarrow> (\<exists>x. r = Inr x \<and> f x = Inr y)"
  by (cases r) auto

lemma res_bind_Inl: "res_bind r f = Inl e \<longleftrightarrow> r = Inl e \<or> (\<exists>x. r = Inr x \<and> f x = Inl e)"
  by (cases r) auto

text \<open>A loop over a list that stops at the first exception.\<close>

fun res_map :: "('a \<Rightarrow> 'b res) \<Rightarrow> 'a list \<Rightarrow> 'b list res" where
  "res_map f [] = Inr []"
| "res_map f (x # xs) = res_bind (f x) (\<lambda>y. res_bind (res_map f xs) (\<lambda>ys. Inr (y # ys)))"

lemma res_map_total: "(\<And>x. x \<in> set xs \<Longrightarrow> f x = Inr (g x)) \<Longrightarrow> res_map f xs = Inr (map g xs)"
  by (induction xs) auto

lemma res_map_Inr_length: "res_map f xs = Inr ys \<Longrightarrow> length ys = length xs"
  by (induction xs arbitrary: ys) (auto simp: res_bind_Inr)

fun act_foreach :: "('a \<Rightarrow> ('s, 'b) act) \<Rightarrow> 'a list \<Rightarrow> ('s, 'b list) act" where
  "act_foreach f [] = act_return []"
| "act_foreach f (x # xs) =
     act_bind (f x) (\<lambda>y. act_bind (act_foreach f xs) (\<lambda>ys. act_return (y # ys)))"

lemma insort_key_append:
  "\<forall>y \<in> set ys. k x \<le> k y \<Longrightarrow> insort_key k x (xs @ ys) = insort_key k x xs @ ys"
  by (induction xs) (auto simp: insort_is_Cons)

text \<open>Rows that come after all others stay where they are.\<close>

lemma sort_key_append_later:
  assumes "sorted (map k ys)" and "\<forall>x \<in> set xs. \<forall>y \<in> set ys. k x \<le> k y"
  shows "sort_key k (xs @ ys) = sort_key k xs @ ys"
  using assms(2) by (induction xs) (simp_all add: sort_key_id_if_sorted [OF assms(1)] insort_key_append)

lemma sort_key_Nil_iff [simp]: "sort_key k xs = [] \<longleftrightarrow> xs = []"
  by (metis set_empty2 set_sort)

section \<open>Invariant preservation\<close>

definition preserves :: "('s \<Rightarrow> bool) \<Rightarrow> ('s, 'a) act \<Rightarrow> bool" where
  "preserves I m \<longleftrightarrow> (\<forall>s. I s \<longrightarrow> I (snd (m s)))"

lemma preservesI: "(\<And>s. I s \<Longrightarrow> I (snd (m s))) \<Longrightarrow> preserves I m"
  by (simp add: preserves_def)

lemma preservesD: "preserves I m \<Longrightarrow> I s \<Longrightarrow> I (snd (m s))"
  by (simp add: preserves_def)

lemma preserves_result: "preserves I m \<Longrightarrow> I s \<Longrightarrow> m s = (r, t) \<Longrightarrow> I t"
  by (metis preservesD snd_conv)

lemma preserves_return [preserves_intros]: "preserves I (act_return x)"
  by (simp add: preserves_def act_simps)

lemma preserves_raise [preserves_intros]: "preserves I (act_raise e)"
  by (simp add: preserves_def act_simps)

lemma preserves_get [preserves_intros]: "preserves I (act_get f)"
  by (simp add: preserves_def act_simps)

lemma preserves_lift [preserves_intros]: "preserves I (act_lift r)"
  by (simp add: preserves_def act_simps)

lemma preserves_read [preserves_intros]: "preserves I (act_read f)"
  by (simp add: preserves_def act_simps)

lemma preserves_modify: "(\<And>s. I s \<Longrightarrow> I (f s)) \<Longrightarrow> preserves I (act_modify f)"
  by (simp add: preserves_def act_simps)

lemma preserves_bind [preserves_intros]:
  assumes "preserves I m" and "\<And>x. preserves I (f x)"
  shows "preserves I (act_bind m f)"
  using assms unfolding preserves_def act_bind_def
  by (auto split: prod.splits sum.splits)

lemma preserves_catch [preserves_intros]:
  assumes "preserves I m" and "\<And>e. preserves I (h e)"
  shows "preserves I (act_catch m h)"
  using assms unfolding preserves_def act_catch_def
  by (auto split: prod.splits sum.splits)

lemma preserves_transaction [preserves_intros]:
  "preserves I m \<Longrightarrow> preserves I (transaction m)"
  unfolding preserves_def transaction_def
  by (auto split: prod.splits sum.splits)

lemma preserves_if [preserves_intros]:
  "preserves I m \<Longrightarrow> preserves I n \<Longrightarrow> preserves I (if b then m else n)"
  by simp

lemma preserves_case_option [preserves_intros]:
  "preserves I m \<Longrightarrow> (\<And>x. preserves I (f x)) \<Longrightarrow>
   preserves I (case opt of None \<Rightarrow> m | Some x \<Rightarrow> f x)"
  by (cases opt) auto

lemma preserves_foreach [preserves_intros]:
  "(\<And>x. preserves I (f x)) \<Longrightarrow> preserves I (act_foreach f xs)"
  by (induction xs) (auto intro!: preserves_intros)

text \<open>Reachability under a set of computations, and the invariant rule for it.\<close>

inductive reaches :: "('s, 'a) act set \<Rightarrow> 's \<Rightarrow> 's \<Rightarrow> bool" for A s where
  reaches_refl: "reaches A s s"
| reaches_step: "reaches A s t \<Longrightarrow> m \<in> A \<Longrightarrow> reaches A s (snd (m t))"

lemma reaches_invariant:
  assumes "reaches A s t" and "I s" and "\<And>m. m \<in> A \<Longrightarrow> preserves I m"
  shows "I t"
  using assms(1) by (induction rule: reaches.induct) (use assms(2,3) in \<open>auto dest: preservesD\<close>)

end
