(* ===== verification/Python.thy ===== *)
theory Python
  imports Prelude
begin

text \<open>
  The parts of Python that the source relies on: dynamically typed objects with the
  \<open>isinstance\<close> tests the code makes, the \<open>str\<close> methods, and datetimes with and without a UTC
  offset. A \<open>char\<close> stands for one character of a \<open>str\<close>, so lengths count characters; the
  characters are those of Latin-1. A \<open>float\<close> is a rational or one of the three non-finite
  values; rounding of arithmetic is not modelled.
\<close>

section \<open>Datetimes\<close>

text \<open>
  A \<open>datetime\<close> is its wall-clock reading (microseconds since 1970-01-01 00:00) and its UTC offset
  in minutes, absent for a naive datetime.
\<close>

datatype datetime = DT (wall_us: int) (utc_offset: "int option")

text \<open>\<open>_normalize_datetime\<close>: \<open>value.replace(tzinfo=UTC)\<close> for a naive value.\<close>

fun normalize_datetime :: "datetime \<Rightarrow> datetime" where
  "normalize_datetime (DT w None) = DT w (Some 0)"
| "normalize_datetime (DT w (Some k)) = DT w (Some k)"

definition offset_us :: "int option \<Rightarrow> int" where
  "offset_us z = (case z of None \<Rightarrow> 0 | Some k \<Rightarrow> k * 60000000)"

text \<open>The instant on the UTC time line; comparisons of aware datetimes compare instants.\<close>

definition instant :: "datetime \<Rightarrow> int" where
  "instant d = wall_us d - offset_us (utc_offset d)"

definition is_aware :: "datetime \<Rightarrow> bool" where
  "is_aware d \<longleftrightarrow> utc_offset d \<noteq> None"

definition dt_plus_us :: "datetime \<Rightarrow> int \<Rightarrow> datetime" where
  "dt_plus_us d us = DT (wall_us d + us) (utc_offset d)"

definition seconds_us :: "int \<Rightarrow> int" where
  "seconds_us n = n * 1000000"

definition days_us :: "int \<Rightarrow> int" where
  "days_us n = n * 86400 * 1000000"

lemma normalize_aware [simp]: "is_aware (normalize_datetime d)"
  by (cases d rule: normalize_datetime.cases) (simp_all add: is_aware_def)

lemma normalize_idem [simp]: "normalize_datetime (normalize_datetime d) = normalize_datetime d"
  by (cases d rule: normalize_datetime.cases) simp_all

lemma normalize_of_aware [simp]: "is_aware d \<Longrightarrow> normalize_datetime d = d"
  by (cases d rule: normalize_datetime.cases) (simp_all add: is_aware_def)

lemma instant_normalize [simp]: "instant (normalize_datetime d) = instant d"
  by (cases d rule: normalize_datetime.cases) (simp_all add: instant_def offset_us_def)

lemma instant_plus [simp]: "instant (dt_plus_us d us) = instant d + us"
  by (simp add: instant_def dt_plus_us_def)

lemma aware_plus [simp]: "is_aware (dt_plus_us d us) = is_aware d"
  by (simp add: is_aware_def dt_plus_us_def)

text \<open>
  The text of a datetime in a SQLite column. The \<open>sqlite3\<close> adapter writes
  \<open>isoformat(' ')\<close>, \<open>YYYY-MM-DD HH:MM:SS[.ffffff][+HH:MM]\<close>, and \<open>CURRENT_TIMESTAMP\<close> writes the
  same form with neither fraction nor offset. The first nineteen characters are ordered as the
  wall-clock seconds they show, so the text is ordered as the pair of those seconds and the
  remaining characters, which are written out.
\<close>

definition digit_char :: "int \<Rightarrow> char" where
  "digit_char n = char_of (48 + nat (n mod 10))"

fun pad_digits :: "nat \<Rightarrow> int \<Rightarrow> string" where
  "pad_digits 0 n = []"
| "pad_digits (Suc k) n = pad_digits k (n div 10) @ [digit_char n]"

definition frac_text :: "int \<Rightarrow> string" where
  "frac_text us = (if us = 0 then [] else CHR ''.'' # pad_digits 6 us)"

definition offset_text :: "int option \<Rightarrow> string" where
  "offset_text z =
     (case z of None \<Rightarrow> []
      | Some k \<Rightarrow> (if k < 0 then CHR ''-'' else CHR ''+'')
                 # pad_digits 2 (\<bar>k\<bar> div 60) @ CHR '':'' # pad_digits 2 (\<bar>k\<bar> mod 60))"

text \<open>
  The date of a day number (days since 1970-01-01) in the proleptic Gregorian calendar, and the
  whole text.
\<close>

definition civil_from_days :: "int \<Rightarrow> int \<times> int \<times> int" where
  "civil_from_days z =
     (let z' = z + 719468;
          era = z' div 146097;
          doe = z' mod 146097;
          yoe = (doe - doe div 1460 + doe div 36524 - doe div 146096) div 365;
          doy = doe - (365 * yoe + yoe div 4 - yoe div 100);
          mp = (5 * doy + 2) div 153;
          day = doy - (153 * mp + 2) div 5 + 1;
          month = (if mp < 10 then mp + 3 else mp - 9);
          year = yoe + era * 400 + (if month \<le> 2 then 1 else 0)
      in (year, month, day))"

definition dt_text :: "datetime \<Rightarrow> string" where
  "dt_text d =
     (let secs = wall_us d div 1000000; sod = secs mod 86400 in
      case civil_from_days (secs div 86400) of (y, m, dd) \<Rightarrow>
        pad_digits 4 y @ ''-'' @ pad_digits 2 m @ ''-'' @ pad_digits 2 dd @ '' '' @
        pad_digits 2 (sod div 3600) @ '':'' @ pad_digits 2 (sod div 60 mod 60) @ '':'' @
        pad_digits 2 (sod mod 60) @ frac_text (wall_us d mod 1000000) @
        offset_text (utc_offset d))"

definition text_key :: "datetime \<Rightarrow> int \<times> string" where
  "text_key d =
     (wall_us d div 1000000, frac_text (wall_us d mod 1000000) @ offset_text (utc_offset d))"

definition text_less :: "datetime \<Rightarrow> datetime \<Rightarrow> bool" where
  "text_less a b \<longleftrightarrow> text_key a < text_key b"

section \<open>Dynamically typed objects\<close>

datatype pyfloat = Finite rat | PosInf | NegInf | NotANumber

fun isfinite :: "pyfloat \<Rightarrow> bool" where
  "isfinite (Finite q) = True"
| "isfinite _ = False"

type_synonym bytes = "8 word list"

text \<open>
  \<open>PIso d s\<close> is a \<open>str\<close> with characters \<open>s\<close> that \<open>datetime.fromisoformat\<close> reads as \<open>d\<close>;
  \<open>PStr\<close> is a \<open>str\<close> it rejects. \<open>POther\<close> is an object of any other class, by its class name.
\<close>

datatype pyobj =
    PNone
  | PBool bool
  | PInt int
  | PFloat pyfloat
  | PStr string
  | PIso datetime string
  | PBytes bytes
  | PDatetime datetime
  | PList "pyobj list"
  | PDict "(pyobj \<times> pyobj) list"
  | POther string

text \<open>A \<open>DateTime\<close> column, as a text query returns it.\<close>

definition dt_obj :: "datetime \<Rightarrow> pyobj" where
  "dt_obj d = PIso d (dt_text d)"

type_synonym row_map = "(string \<times> pyobj) list"

text \<open>\<open>row_map.get(key)\<close>.\<close>

definition row_get :: "row_map \<Rightarrow> string \<Rightarrow> pyobj" where
  "row_get row k = (case map_of row k of None \<Rightarrow> PNone | Some v \<Rightarrow> v)"

definition opt_obj :: "('a \<Rightarrow> pyobj) \<Rightarrow> 'a option \<Rightarrow> pyobj" where
  "opt_obj f x = (case x of None \<Rightarrow> PNone | Some v \<Rightarrow> f v)"

lemma opt_obj_simps [simp]:
  "opt_obj f None = PNone"
  "opt_obj f (Some v) = f v"
  by (simp_all add: opt_obj_def)

fun is_none :: "pyobj \<Rightarrow> bool" where
  "is_none PNone = True"
| "is_none _ = False"

text \<open>\<open>result.get(key)\<close> on a mapping; the characters of a \<open>str\<close>.\<close>

definition dict_get :: "(pyobj \<times> pyobj) list \<Rightarrow> string \<Rightarrow> pyobj" where
  "dict_get kvs k = (case map_of kvs (PStr k) of None \<Rightarrow> PNone | Some v \<Rightarrow> v)"

fun as_str :: "pyobj \<Rightarrow> string option" where
  "as_str (PStr s) = Some s"
| "as_str (PIso d s) = Some s"
| "as_str _ = None"

text \<open>\<open>_is_json_value\<close> over decoded JSON, and the JSON text columns.\<close>

fun is_json_value :: "pyobj \<Rightarrow> bool" where
  "is_json_value PNone = True"
| "is_json_value (PBool b) = True"
| "is_json_value (PInt i) = True"
| "is_json_value (PFloat f) = isfinite f"
| "is_json_value (PStr s) = True"
| "is_json_value (PIso d s) = True"
| "is_json_value (PList xs) = (\<forall>x \<in> set xs. is_json_value x)"
| "is_json_value (PDict kvs) =
     (\<forall>kv \<in> set kvs. (case fst kv of PStr _ \<Rightarrow> True | PIso _ _ \<Rightarrow> True | _ \<Rightarrow> False)
        \<and> is_json_value (snd kv))"
| "is_json_value _ = False"

text \<open>
  A JSON text column holds either a text that \<open>json.loads\<close> reads as the given document, or a
  text it rejects.
\<close>

datatype jtext = JText pyobj | JMalformed string

definition json_loads :: "jtext \<Rightarrow> pyobj option" where
  "json_loads t = (case t of JText v \<Rightarrow> Some v | JMalformed _ \<Rightarrow> None)"

text \<open>
  \<open>json.dumps(value, allow_nan=False)\<close> raises on an object that is not serialisable and on a
  non-finite float; on a document it writes a text that reads back as the document.
\<close>

definition json_dumps :: "pyobj \<Rightarrow> jtext option" where
  "json_dumps v = (if is_json_value v then Some (JText v) else None)"

lemma json_dumps_loads: "json_dumps v = Some t \<Longrightarrow> json_loads t = Some v"
  by (auto simp: json_dumps_def json_loads_def split: if_splits)

section \<open>Strings\<close>

definition isspace_char :: "char \<Rightarrow> bool" where
  "isspace_char c \<longleftrightarrow> of_char c \<in> {9, 10, 11, 12, 13, 28, 29, 30, 31, 32, 133, 160 :: nat}"

definition py_strip :: "string \<Rightarrow> string" where
  "py_strip s = rev (dropWhile isspace_char (rev (dropWhile isspace_char s)))"

lemma dropWhile_idem_hd: "dropWhile P (dropWhile P xs) = dropWhile P xs"
  by (induction xs) auto

lemma dropWhile_rev_dropWhile:
  "dropWhile P (rev (dropWhile P (rev (dropWhile P xs)))) = rev (dropWhile P (rev (dropWhile P xs)))"
proof (cases "dropWhile P xs")
  case Nil
  then show ?thesis unfolding Nil by simp
next
  case (Cons y ys)
  then have y: "\<not> P y" by (metis hd_dropWhile list.distinct(1) list.sel(1))
  have "\<exists>zs. rev (dropWhile P (rev (y # ys))) = y # zs"
  proof -
    have "dropWhile P (rev ys @ [y]) = dropWhile P (rev ys) @ [y]" 
      using y by (induction "rev ys" arbitrary: ys) (auto simp: dropWhile_append3 dropWhile_append)
    then show ?thesis by simp
  qed
  with y Cons show ?thesis by auto
qed

lemma py_strip_idem [simp]: "py_strip (py_strip s) = py_strip s"
  unfolding py_strip_def by (simp add: dropWhile_rev_dropWhile dropWhile_idem_hd)

text \<open>
  \<open>str.isdigit\<close> also accepts the superscript digits, which \<open>int\<close> rejects.
\<close>

definition decimal_char :: "char \<Rightarrow> bool" where
  "decimal_char c \<longleftrightarrow> 48 \<le> (of_char c :: nat) \<and> (of_char c :: nat) \<le> 57"

definition py_isdigit :: "string \<Rightarrow> bool" where
  "py_isdigit s \<longleftrightarrow> s \<noteq> [] \<and>
     (\<forall>c \<in> set s. decimal_char c \<or> of_char c \<in> {178, 179, 185 :: nat})"

definition decimal_value :: "string \<Rightarrow> int" where
  "decimal_value s = foldl (\<lambda>n c. n * 10 + (int (of_char c) - 48)) 0 s"

definition py_int_digits :: "string \<Rightarrow> int res" where
  "py_int_digits s =
     (if \<forall>c \<in> set s. decimal_char c then Inr (decimal_value s)
      else Inl (ValueError ''invalid literal for int() with base 10''))"

text \<open>\<open>str(n)\<close> of an integer, and \<open>str.lower\<close>.\<close>

fun nat_text :: "nat \<Rightarrow> string" where
  "nat_text n = (if n < 10 then [] else nat_text (n div 10)) @ [char_of (48 + n mod 10)]"

declare nat_text.simps [simp del]

definition int_text :: "int \<Rightarrow> string" where
  "int_text i = (if i < 0 then CHR ''-'' # nat_text (nat (- i)) else nat_text (nat i))"

definition lower_char :: "char \<Rightarrow> char" where
  "lower_char c =
     (let n = of_char c :: nat in
      if 65 \<le> n \<and> n \<le> 90 \<or> 192 \<le> n \<and> n \<le> 222 \<and> n \<noteq> 215 then char_of (n + 32) else c)"

definition py_lower :: "string \<Rightarrow> string" where
  "py_lower s = map lower_char s"

lemma of_char_digit: "(of_char (char_of (48 + n mod 10 :: nat)) :: nat) = 48 + n mod 10"
  by simp

lemma decimal_value_snoc: "decimal_value (s @ [c]) = decimal_value s * 10 + (int (of_char c) - 48)"
  by (simp add: decimal_value_def)

text \<open>The digits of a number determine it, and begin with no sign.\<close>

lemma decimal_value_nat_text: "decimal_value (nat_text n) = int n"
proof (induction n rule: nat_text.induct)
  case (1 n)
  have "decimal_value (nat_text n) = decimal_value (if n < 10 then [] else nat_text (n div 10)) * 10 + int (n mod 10)"
    by (subst nat_text.simps) (simp add: decimal_value_snoc of_char_digit)
  also have "\<dots> = int n"
    using 1 by (auto simp: decimal_value_def zdiv_int zmod_int)
  finally show ?case .
qed

lemma nat_text_inj: "nat_text m = nat_text n \<Longrightarrow> m = n"
  by (metis decimal_value_nat_text of_nat_eq_iff)

lemma nat_text_digits: "c \<in> set (nat_text n) \<Longrightarrow> decimal_char c"
proof (induction n rule: nat_text.induct)
  case (1 n)
  then show ?case
    by (subst (asm) (2) nat_text.simps) (auto simp: decimal_char_def of_char_digit split: if_splits)
qed

lemma int_text_inj: "int_text i = int_text j \<Longrightarrow> i = j"
proof -
  have sign: "nat_text n \<noteq> CHR ''-'' # s" for n s
    using nat_text_digits [of "CHR ''-''" n] by (auto simp: decimal_char_def)
  assume "int_text i = int_text j"
  then show "i = j"
    by (auto simp: int_text_def sign sign [symmetric] dest!: nat_text_inj split: if_splits)
qed

text \<open>\<open>bool(value)\<close> and \<open>str(value)\<close>; \<open>repr_of\<close> gives the texts of floats and containers.\<close>

fun py_truthy :: "pyobj \<Rightarrow> bool" where
  "py_truthy PNone = False"
| "py_truthy (PBool b) = b"
| "py_truthy (PInt i) = (i \<noteq> 0)"
| "py_truthy (PFloat f) = (f \<noteq> Finite 0)"
| "py_truthy (PStr s) = (s \<noteq> [])"
| "py_truthy (PIso d s) = (s \<noteq> [])"
| "py_truthy (PBytes b) = (b \<noteq> [])"
| "py_truthy (PList xs) = (xs \<noteq> [])"
| "py_truthy (PDict kvs) = (kvs \<noteq> [])"
| "py_truthy v = True"

fun py_str :: "(pyobj \<Rightarrow> string) \<Rightarrow> pyobj \<Rightarrow> string" where
  "py_str repr_of PNone = ''None''"
| "py_str repr_of (PBool b) = (if b then ''True'' else ''False'')"
| "py_str repr_of (PInt i) = int_text i"
| "py_str repr_of (PStr s) = s"
| "py_str repr_of (PIso d s) = s"
| "py_str repr_of v = repr_of v"

text \<open>
  \<open>int(s)\<close> of a text: white space around it, a sign, decimal digits with single underscores
  between them, at most 4300 digits; otherwise \<open>ValueError\<close>.
\<close>

fun underscores_ok :: "bool \<Rightarrow> string \<Rightarrow> bool" where
  "underscores_ok after_digit [] = after_digit"
| "underscores_ok after_digit (c # cs) =
     (if c = CHR ''_'' then after_digit \<and> underscores_ok False cs
      else decimal_char c \<and> underscores_ok True cs)"

definition py_int_text :: "string \<Rightarrow> int option" where
  "py_int_text s =
     (let t = py_strip s;
          negative = (t \<noteq> [] \<and> hd t = CHR ''-'');
          body = (if t \<noteq> [] \<and> (hd t = CHR ''-'' \<or> hd t = CHR ''+'') then tl t else t);
          digits = filter (\<lambda>c. c \<noteq> CHR ''_'') body in
      if underscores_ok False body \<and> length digits \<le> 4300
      then Some (if negative then - decimal_value digits else decimal_value digits)
      else None)"

text \<open>
  The coercions that the repositories write out again and again: an integer column
  (\<open>rejects_bool\<close> says whether the code tests \<open>isinstance(value, bool)\<close> first), an optional
  integer, a text, an optional text, and datetimes, each with the exception that the repository
  raises.
\<close>

fun coerce_int_with :: "bool \<Rightarrow> exn \<Rightarrow> pyobj \<Rightarrow> int res" where
  "coerce_int_with rejects_bool e (PBool b) = (if rejects_bool then Inl e else Inr (of_bool b))"
| "coerce_int_with rejects_bool e (PInt i) = Inr i"
| "coerce_int_with rejects_bool e (PStr s) =
     (if py_isdigit s then py_int_digits s else Inl e)"
| "coerce_int_with rejects_bool e (PIso d s) =
     (if py_isdigit s then py_int_digits s else Inl e)"
| "coerce_int_with rejects_bool e v = Inl e"

text \<open>\<open>isinstance(value, int)\<close>, which a \<open>bool\<close> satisfies too.\<close>

fun is_int_obj :: "pyobj \<Rightarrow> int option" where
  "is_int_obj (PInt i) = Some i"
| "is_int_obj (PBool b) = Some (of_bool b)"
| "is_int_obj v = None"

definition int_or_raise :: "exn \<Rightarrow> pyobj \<Rightarrow> int res" where
  "int_or_raise e v = (case is_int_obj v of None \<Rightarrow> Inl e | Some i \<Rightarrow> Inr i)"

definition coerce_opt_with :: "(pyobj \<Rightarrow> 'a res) \<Rightarrow> pyobj \<Rightarrow> 'a option res" where
  "coerce_opt_with f v = (if is_none v then Inr None else res_bind (f v) (\<lambda>x. Inr (Some x)))"

fun coerce_str_with :: "exn \<Rightarrow> pyobj \<Rightarrow> string res" where
  "coerce_str_with e (PStr s) = Inr s"
| "coerce_str_with e (PIso d s) = Inr s"
| "coerce_str_with e v = Inl e"

text \<open>
  \<open>normalizes_objects\<close>: whether a \<open>datetime\<close> object (not a text) is also given the UTC zone when
  it has none.
\<close>

fun coerce_datetime_with :: "bool \<Rightarrow> exn \<Rightarrow> exn \<Rightarrow> pyobj \<Rightarrow> datetime res" where
  "coerce_datetime_with normalizes_objects bad missing (PDatetime d) =
     Inr (if normalizes_objects then normalize_datetime d else d)"
| "coerce_datetime_with normalizes_objects bad missing (PIso d s) = Inr (normalize_datetime d)"
| "coerce_datetime_with normalizes_objects bad missing (PStr s) = Inl bad"
| "coerce_datetime_with normalizes_objects bad missing v = Inl missing"

lemma coerce_dt_obj [simp]:
  "coerce_datetime_with n bad missing (dt_obj d) = Inr (normalize_datetime d)"
  "\<not> is_none (dt_obj d)"
  by (simp_all add: dt_obj_def)

lemma coerce_opt_with_simps [simp]:
  "coerce_opt_with f PNone = Inr None"
  "f v = Inr x \<Longrightarrow> \<not> is_none v \<Longrightarrow> coerce_opt_with f v = Inr (Some x)"
  by (simp_all add: coerce_opt_with_def)

lemma coerce_opt_obj:
  "(\<And>x. f (g x) = Inr (h x)) \<Longrightarrow> (\<And>x. \<not> is_none (g x)) \<Longrightarrow>
   coerce_opt_with f (opt_obj g v) = Inr (map_option h v)"
  by (cases v) simp_all

section \<open>SQL clauses over lists of rows\<close>

text \<open>
  The rowid of a new row: one more than the largest in use, 1 for an empty table (tables whose
  key is \<open>INTEGER PRIMARY KEY\<close> without \<open>AUTOINCREMENT\<close>).
\<close>

fun sql_next_id :: "int list \<Rightarrow> int" where
  "sql_next_id [] = 1"
| "sql_next_id (x # xs) = fold max xs x + 1"

definition update_where :: "('r \<Rightarrow> bool) \<Rightarrow> ('r \<Rightarrow> 'r) \<Rightarrow> 'r list \<Rightarrow> 'r list" where
  "update_where p f rows = map (\<lambda>r. if p r then f r else r) rows"

definition delete_where :: "('r \<Rightarrow> bool) \<Rightarrow> 'r list \<Rightarrow> 'r list" where
  "delete_where p rows = filter (\<lambda>r. \<not> p r) rows"

text \<open>\<open>LENGTH\<close> of a text stops at the first NUL character.\<close>

definition sql_length :: "string \<Rightarrow> nat" where
  "sql_length s = length (takeWhile (\<lambda>c. of_char c \<noteq> (0 :: nat)) s)"

text \<open>\<open>result.mappings().one_or_none()\<close> and \<open>.one()\<close>.\<close>

fun one_or_none :: "'r list \<Rightarrow> 'r option res" where
  "one_or_none [] = Inr None"
| "one_or_none [r] = Inr (Some r)"
| "one_or_none (r # r' # rs) = Inl (Exn ''MultipleResultsFound'' [])"

lemma fold_max_ge: "x \<in> set (y # ys) \<Longrightarrow> x \<le> fold max ys (y :: int)"
proof (induction ys arbitrary: x y)
  case Nil
  then show ?case by simp
next
  case (Cons z zs)
  have "max z y \<le> fold max zs (max z y)" by (rule Cons.IH) simp
  with Cons show ?case by fastforce
qed

lemma sql_next_id_greater: "x \<in> set ids \<Longrightarrow> x < sql_next_id ids"
  by (cases ids) (use fold_max_ge in fastforce)+

lemma sql_next_id_fresh [simp]: "sql_next_id ids \<notin> set ids"
  using sql_next_id_greater by blast

lemma sql_next_id_image_fresh [simp]: "sql_next_id (map f rows) \<notin> f ` set rows"
  using sql_next_id_fresh [of "map f rows"] by simp

lemma set_update_where: "set (update_where p f rows) = (\<lambda>r. if p r then f r else r) ` set rows"
  by (simp add: update_where_def)

lemma ball_update_where:
  "(\<forall>r \<in> set (update_where p f rows). Q r) \<longleftrightarrow> (\<forall>r \<in> set rows. Q (if p r then f r else r))"
  by (auto simp: update_where_def)

lemma map_update_where [table_simps]:
  "(\<And>r. r \<in> set rows \<Longrightarrow> p r \<Longrightarrow> g (f r) = g r) \<Longrightarrow> map g (update_where p f rows) = map g rows"
  by (simp add: update_where_def)

lemma length_update_where [simp]: "length (update_where p f rows) = length rows"
  by (simp add: update_where_def)

lemma set_delete_where [simp]: "set (delete_where p rows) = {r \<in> set rows. \<not> p r}"
  by (auto simp: delete_where_def)

lemma distinct_map_filter: "distinct (map f xs) \<Longrightarrow> distinct (map f (filter p xs))"
  by (induction xs) auto

lemma distinct_delete_where [table_simps]:
  "distinct (map f rows) \<Longrightarrow> distinct (map f (delete_where p rows))"
  by (simp add: delete_where_def distinct_map_filter)

lemma filter_key_unique:
  "distinct (map f rows) \<Longrightarrow> r \<in> set rows \<Longrightarrow> filter (\<lambda>x. f x = f r) rows = [r]"
  by (induction rows) (auto simp: filter_empty_conv image_iff)

lemma filter_key_absent: "k \<notin> f ` set rows \<Longrightarrow> filter (\<lambda>x. f x = k) rows = []"
  by (auto simp: filter_empty_conv)

lemma find_eq_hd_filter:
  "find p xs = (case filter p xs of [] \<Rightarrow> None | y # ys \<Rightarrow> Some y)"
  by (induction xs) auto

lemma one_or_none_key:
  assumes "distinct (map f rows)"
  shows "one_or_none (filter (\<lambda>x. f x = k) rows) = Inr (find (\<lambda>x. f x = k) rows)"
proof (cases "\<exists>r \<in> set rows. f r = k")
  case True
  then obtain r where r: "r \<in> set rows" "f r = k" by blast
  then have eq: "filter (\<lambda>x. f x = k) rows = [r]"
    using filter_key_unique [OF assms r(1)] by simp
  then have "find (\<lambda>x. f x = k) rows = Some r"
    by (simp add: find_eq_hd_filter)
  with eq show ?thesis by simp
next
  case False
  then have "filter (\<lambda>x. f x = k) rows = []" by (auto simp: filter_empty_conv)
  moreover have "find (\<lambda>x. f x = k) rows = None" using False by (auto simp: find_None_iff)
  ultimately show ?thesis by simp
qed

text \<open>Lookup by key after each kind of table update.\<close>

lemma find_update_key:
  "(\<And>r. k (f r) = k r) \<Longrightarrow>
   find (\<lambda>r. k r = x) (update_where (\<lambda>r. k r = y) f rows) =
   (if x = y then map_option f (find (\<lambda>r. k r = x) rows) else find (\<lambda>r. k r = x) rows)"
  by (induction rows) (auto simp: update_where_def)

lemma find_append:
  "find p (xs @ ys) = (case find p xs of None \<Rightarrow> find p ys | Some x \<Rightarrow> Some x)"
  by (induction xs) auto

lemma find_delete_key:
  "find (\<lambda>r. k r = x) (delete_where (\<lambda>r. k r = y) rows) =
   (if x = y then None else find (\<lambda>r. k r = x) rows)"
  by (induction rows) (auto simp: delete_where_def)

lemma find_key_None: "find (\<lambda>r. k r = x) rows = None \<longleftrightarrow> x \<notin> k ` set rows"
  by (auto simp: find_None_iff)

lemma find_key_Some: "find (\<lambda>r. k r = x) rows = Some r \<Longrightarrow> r \<in> set rows \<and> k r = x"
  by (auto simp: find_Some_iff)

lemma find_key_in:
  "distinct (map k rows) \<Longrightarrow> r \<in> set rows \<Longrightarrow> k r = x \<Longrightarrow> find (\<lambda>r. k r = x) rows = Some r"
  using filter_key_unique [of k rows r] by (simp add: find_eq_hd_filter)

end
