(* ===== verification/Database.thy ===== *)
theory Database
  imports Python
begin

text \<open>
  The SQLite database that the migrations under \<open>alembic/versions\<close> create: one record per table
  row, one field of \<open>db\<close> per table, the integrity constraints of the schema as executable
  predicates, and \<open>DELETE\<close> with the \<open>ON DELETE\<close> actions of the foreign keys (every connection
  runs \<open>PRAGMA foreign_keys=ON\<close>, \<open>tca/storage/db.py\<close>). Lemmas: the constraints survive every
  deletion.
\<close>

section \<open>Rows\<close>

record account_row =
  acc_id :: int
  acc_api_id :: int
  acc_api_hash_encrypted :: jtext
  acc_phone_number :: "string option"
  acc_session_encrypted :: "jtext option"
  acc_key_version :: int
  acc_paused_at :: "datetime option"
  acc_pause_reason :: "string option"
  acc_created_at :: datetime
  acc_updated_at :: datetime

record channel_row =
  ch_id :: int
  ch_account_id :: int
  ch_telegram_channel_id :: int
  ch_name :: string
  ch_username :: "string option"
  ch_is_enabled :: bool
  ch_created_at :: datetime
  ch_updated_at :: datetime

record group_row =
  gr_id :: int
  gr_name :: string
  gr_description :: "string option"
  gr_horizon_override :: "int option"
  gr_created_at :: datetime
  gr_updated_at :: datetime

record group_member_row =
  gm_group_id :: int
  gm_channel_id :: int
  gm_created_at :: datetime

record channel_state_row =
  cs_channel_id :: int
  cs_cursor_json :: "jtext option"
  cs_paused_until :: "datetime option"
  cs_last_success_at :: "datetime option"
  cs_updated_at :: datetime

record raw_message_row =
  raw_id :: int
  raw_channel_id :: int
  raw_message_id :: int
  raw_payload_json :: jtext
  raw_created_at :: datetime
  raw_updated_at :: datetime

record item_row =
  it_id :: int
  it_channel_id :: int
  it_message_id :: int
  it_raw_message_id :: "int option"
  it_published_at :: "datetime option"
  it_title :: "string option"
  it_body :: "string option"
  it_canonical_url :: "string option"
  it_canonical_url_hash :: "string option"
  it_content_hash :: "string option"
  it_dedupe_state :: string
  it_embedding :: "bytes option"
  it_created_at :: datetime
  it_updated_at :: datetime

record cluster_row =
  cl_id :: int
  cl_key :: string
  cl_representative :: "int option"
  cl_created_at :: datetime
  cl_updated_at :: datetime

record member_row =
  mb_cluster_id :: int
  mb_item_id :: int
  mb_created_at :: datetime

record decision_row =
  dec_id :: int
  dec_item_id :: int
  dec_cluster_id :: "int option"
  dec_candidate_item_id :: "int option"
  dec_strategy_name :: string
  dec_outcome :: string
  dec_reason_code :: "string option"
  dec_score :: "pyfloat option"
  dec_metadata_json :: "jtext option"
  dec_created_at :: datetime

record ingest_error_row =
  ie_id :: int
  ie_channel_id :: "int option"
  ie_stage :: string
  ie_error_code :: string
  ie_error_message :: string
  ie_payload_ref :: "string option"
  ie_created_at :: datetime

record notification_row =
  nt_id :: int
  nt_type :: string
  nt_severity :: string
  nt_message :: string
  nt_payload_json :: "jtext option"
  nt_is_acknowledged :: bool
  nt_acknowledged_at :: "datetime option"
  nt_created_at :: datetime

record setting_row =
  st_id :: int
  st_key :: string
  st_value_json :: jtext
  st_updated_at :: datetime

record poll_job_row =
  pj_id :: int
  pj_channel_id :: int
  pj_correlation_id :: string
  pj_created_at :: datetime

record delivery_row =
  bd_id :: int
  bd_cluster_id :: int
  bd_delivered_at :: datetime
  bd_telegram_message_id :: "string option"

record auth_session_row =
  au_session_id :: string
  au_phone_number :: string
  au_status :: string
  au_expires_at :: int
  au_telegram_session :: "string option"
  au_created_at :: datetime
  au_updated_at :: datetime

record rotation_row =
  kr_id :: int
  kr_target_key_version :: int
  kr_last_rotated_account_id :: int
  kr_started_at :: datetime
  kr_updated_at :: datetime
  kr_completed_at :: "datetime option"

text \<open>
  \<open>clock\<close> is the reading of the system clock in microseconds; it advances between operations,
  never inside one.
\<close>

record db =
  accounts :: "account_row list"
  channels :: "channel_row list"
  channel_groups :: "group_row list"
  group_members :: "group_member_row list"
  channel_states :: "channel_state_row list"
  raw_messages :: "raw_message_row list"
  items :: "item_row list"
  clusters :: "cluster_row list"
  members :: "member_row list"
  decisions :: "decision_row list"
  ingest_errors :: "ingest_error_row list"
  notifications :: "notification_row list"
  settings :: "setting_row list"
  poll_jobs :: "poll_job_row list"
  deliveries :: "delivery_row list"
  auth_sessions :: "auth_session_row list"
  rotations :: "rotation_row list"
  clock :: int

definition empty_db :: "int \<Rightarrow> db" where
  "empty_db t =
     \<lparr> accounts = [], channels = [], channel_groups = [], group_members = [],
       channel_states = [], raw_messages = [], items = [], clusters = [], members = [],
       decisions = [], ingest_errors = [], notifications = [], settings = [], poll_jobs = [],
       deliveries = [], auth_sessions = [], rotations = [], clock = t \<rparr>"

text \<open>\<open>CURRENT_TIMESTAMP\<close> (whole seconds, no offset) and \<open>datetime.now(UTC)\<close>.\<close>

definition current_timestamp :: "db \<Rightarrow> datetime" where
  "current_timestamp d = DT (clock d div 1000000 * 1000000) None"

definition utc_now :: "db \<Rightarrow> datetime" where
  "utc_now d = DT (clock d) (Some 0)"

section \<open>Integrity constraints\<close>

definition pk :: "('r \<Rightarrow> 'k) \<Rightarrow> 'r list \<Rightarrow> bool" where
  "pk k rows \<longleftrightarrow> distinct (map k rows)"

text \<open>A \<open>UNIQUE\<close> column that admits any number of nulls.\<close>

definition unique_opt :: "('r \<Rightarrow> 'k option) \<Rightarrow> 'r list \<Rightarrow> bool" where
  "unique_opt k rows \<longleftrightarrow> distinct (List.map_filter k rows)"

definition fk :: "('r \<Rightarrow> 'k) \<Rightarrow> 'r list \<Rightarrow> 'k set \<Rightarrow> bool" where
  "fk f rows S \<longleftrightarrow> (\<forall>r \<in> set rows. f r \<in> S)"

definition fk_opt :: "('r \<Rightarrow> 'k option) \<Rightarrow> 'r list \<Rightarrow> 'k set \<Rightarrow> bool" where
  "fk_opt f rows S \<longleftrightarrow> (\<forall>r \<in> set rows. case f r of None \<Rightarrow> True | Some k \<Rightarrow> k \<in> S)"

abbreviation account_ids :: "db \<Rightarrow> int set" where
  "account_ids d \<equiv> acc_id ` set (accounts d)"

abbreviation channel_ids :: "db \<Rightarrow> int set" where
  "channel_ids d \<equiv> ch_id ` set (channels d)"

abbreviation group_ids :: "db \<Rightarrow> int set" where
  "group_ids d \<equiv> gr_id ` set (channel_groups d)"

abbreviation raw_ids :: "db \<Rightarrow> int set" where
  "raw_ids d \<equiv> raw_id ` set (raw_messages d)"

abbreviation item_ids :: "db \<Rightarrow> int set" where
  "item_ids d \<equiv> it_id ` set (items d)"

abbreviation cluster_ids :: "db \<Rightarrow> int set" where
  "cluster_ids d \<equiv> cl_id ` set (clusters d)"

definition channels_ok :: "db \<Rightarrow> bool" where
  "channels_ok d \<longleftrightarrow>
     pk acc_id (accounts d) \<and>
     pk ch_id (channels d) \<and> pk ch_telegram_channel_id (channels d) \<and>
     fk ch_account_id (channels d) (account_ids d) \<and>
     pk gr_id (channel_groups d) \<and>
     pk gm_channel_id (group_members d) \<and>
     fk gm_group_id (group_members d) (group_ids d) \<and>
     fk gm_channel_id (group_members d) (channel_ids d) \<and>
     pk cs_channel_id (channel_states d) \<and>
     fk cs_channel_id (channel_states d) (channel_ids d)"

definition content_ok :: "db \<Rightarrow> bool" where
  "content_ok d \<longleftrightarrow>
     pk raw_id (raw_messages d) \<and>
     pk (\<lambda>r. (raw_channel_id r, raw_message_id r)) (raw_messages d) \<and>
     fk raw_channel_id (raw_messages d) (channel_ids d) \<and>
     pk it_id (items d) \<and>
     pk (\<lambda>r. (it_channel_id r, it_message_id r)) (items d) \<and>
     unique_opt it_raw_message_id (items d) \<and>
     fk it_channel_id (items d) (channel_ids d) \<and>
     fk_opt it_raw_message_id (items d) (raw_ids d)"

definition dedupe_ok :: "db \<Rightarrow> bool" where
  "dedupe_ok d \<longleftrightarrow>
     pk cl_id (clusters d) \<and> pk cl_key (clusters d) \<and>
     fk_opt cl_representative (clusters d) (item_ids d) \<and>
     pk (\<lambda>r. (mb_cluster_id r, mb_item_id r)) (members d) \<and>
     fk mb_cluster_id (members d) (cluster_ids d) \<and>
     fk mb_item_id (members d) (item_ids d) \<and>
     pk dec_id (decisions d) \<and>
     fk dec_item_id (decisions d) (item_ids d) \<and>
     fk_opt dec_cluster_id (decisions d) (cluster_ids d) \<and>
     fk_opt dec_candidate_item_id (decisions d) (item_ids d)"

definition ingest_stages :: "string list" where
  "ingest_stages = [''fetch'', ''normalize'', ''dedupe'', ''auth'']"

definition ops_ok :: "db \<Rightarrow> bool" where
  "ops_ok d \<longleftrightarrow>
     pk ie_id (ingest_errors d) \<and>
     fk ie_stage (ingest_errors d) (set ingest_stages) \<and>
     fk_opt ie_channel_id (ingest_errors d) (channel_ids d) \<and>
     pk nt_id (notifications d) \<and>
     pk st_id (settings d) \<and> pk st_key (settings d) \<and>
     pk pj_id (poll_jobs d) \<and> pk pj_correlation_id (poll_jobs d) \<and>
     fk pj_channel_id (poll_jobs d) (channel_ids d) \<and>
     pk bd_id (deliveries d) \<and> pk bd_cluster_id (deliveries d) \<and>
     fk bd_cluster_id (deliveries d) (cluster_ids d) \<and>
     pk au_session_id (auth_sessions d) \<and>
     pk kr_id (rotations d)"

definition db_ok :: "db \<Rightarrow> bool" where
  "db_ok d \<longleftrightarrow> channels_ok d \<and> content_ok d \<and> dedupe_ok d \<and> ops_ok d"

lemmas db_ok_defs = db_ok_def channels_ok_def content_ok_def dedupe_ok_def ops_ok_def

lemma db_ok_empty: "db_ok (empty_db t)"
  by (simp add: db_ok_defs empty_db_def pk_def unique_opt_def fk_def fk_opt_def)

subsection \<open>Constraints under table updates\<close>

lemma pk_delete [table_simps]: "pk k rows \<Longrightarrow> pk k (delete_where p rows)"
  by (simp add: pk_def distinct_delete_where)

lemma pk_insert [table_simps]: "pk k (rows @ [r]) \<longleftrightarrow> pk k rows \<and> k r \<notin> k ` set rows"
  by (auto simp: pk_def)

lemma pk_update [table_simps]:
  "(\<And>r. r \<in> set rows \<Longrightarrow> p r \<Longrightarrow> k (f r) = k r) \<Longrightarrow> pk k (update_where p f rows) = pk k rows"
  unfolding pk_def by (subst map_update_where) auto

lemma unique_opt_Cons:
  "unique_opt k (r # rows) \<longleftrightarrow>
   unique_opt k rows \<and> (case k r of None \<Rightarrow> True | Some v \<Rightarrow> Some v \<notin> k ` set rows)"
proof -
  have "v \<in> set (List.map_filter k rows) \<longleftrightarrow> Some v \<in> k ` set rows" for v
    by (induction rows) (auto simp: List.map_filter_simps split: option.splits)
  then show ?thesis
    by (auto simp: unique_opt_def List.map_filter_simps split: option.splits)
qed

lemma unique_opt_Nil [simp]: "unique_opt k []"
  by (simp add: unique_opt_def List.map_filter_simps)

lemma unique_opt_delete [table_simps]: "unique_opt k rows \<Longrightarrow> unique_opt k (delete_where p rows)"
  unfolding delete_where_def
  by (induction rows) (auto simp: unique_opt_Cons image_iff split: option.splits)

lemma unique_opt_insert [table_simps]:
  "unique_opt k (rows @ [r]) \<longleftrightarrow>
   unique_opt k rows \<and> (case k r of None \<Rightarrow> True | Some v \<Rightarrow> Some v \<notin> k ` set rows)"
  by (induction rows) (auto simp: unique_opt_Cons image_iff split: option.splits)

lemma unique_opt_map_cong: "map k rows = map k rows' \<Longrightarrow> unique_opt k rows = unique_opt k rows'"
proof (induction rows arbitrary: rows')
  case (Cons r rows)
  then obtain r' rest where eq: "rows' = r' # rest" "k r = k r'" "map k rows = map k rest"
    by (cases rows') auto
  then have "k ` set rows = k ` set rest" by (metis list.set_map)
  with eq Cons.IH show ?case by (simp add: unique_opt_Cons split: option.split)
qed simp

lemma unique_opt_update_same:
  "(\<And>r. r \<in> set rows \<Longrightarrow> p r \<Longrightarrow> k (f r) = k r) \<Longrightarrow>
   unique_opt k (update_where p f rows) = unique_opt k rows"
  by (rule unique_opt_map_cong) (rule map_update_where)

lemma unique_opt_update_null:
  "unique_opt k rows \<Longrightarrow> (\<And>r. r \<in> set rows \<Longrightarrow> p r \<Longrightarrow> k (f r) = None) \<Longrightarrow>
   unique_opt k (update_where p f rows)"
proof (induction rows)
  case (Cons r rows)
  have "Some v \<in> k ` set (update_where p f rows) \<Longrightarrow> Some v \<in> k ` set rows" for v
    using Cons.prems(2) by (fastforce simp: update_where_def)
  with Cons show ?case
    by (auto simp: unique_opt_Cons update_where_def split: option.splits)
qed (simp add: update_where_def)

lemma fk_delete [table_simps]: "fk f rows S \<Longrightarrow> fk f (delete_where p rows) S"
  by (simp add: fk_def)

lemma fk_opt_delete [table_simps]: "fk_opt f rows S \<Longrightarrow> fk_opt f (delete_where p rows) S"
  by (simp add: fk_opt_def)

lemma fk_insert [table_simps]: "fk f (rows @ [r]) S \<longleftrightarrow> fk f rows S \<and> f r \<in> S"
  by (auto simp: fk_def)

lemma fk_opt_insert [table_simps]:
  "fk_opt f (rows @ [r]) S \<longleftrightarrow> fk_opt f rows S \<and> (case f r of None \<Rightarrow> True | Some k \<Rightarrow> k \<in> S)"
  by (auto simp: fk_opt_def)

lemma fk_opt_fk: "fk_opt f rows S = fk f rows ({None} \<union> Some ` S)"
  by (auto simp: fk_opt_def fk_def image_iff split: option.splits) (metis not_None_eq)

lemma fk_image: "fk f rows S \<longleftrightarrow> f ` set rows \<subseteq> S"
  by (auto simp: fk_def)

lemma image_update_where [table_simps]:
  "(\<And>r. r \<in> set rows \<Longrightarrow> p r \<Longrightarrow> k (f r) = k r) \<Longrightarrow> k ` set (update_where p f rows) = k ` set rows"
  by (metis list.set_map map_update_where)

lemma fk_update [table_simps]:
  "(\<And>r. r \<in> set rows \<Longrightarrow> p r \<Longrightarrow> f (g r) = f r) \<Longrightarrow> fk f (update_where p g rows) S = fk f rows S"
  by (simp add: fk_image image_update_where)

lemma fk_opt_update [table_simps]:
  "(\<And>r. r \<in> set rows \<Longrightarrow> p r \<Longrightarrow> f (g r) = f r) \<Longrightarrow>
   fk_opt f (update_where p g rows) S = fk_opt f rows S"
  using fk_update [of rows p "\<lambda>r. f r" g "{None} \<union> Some ` S"]
  by (simp add: fk_opt_fk)

lemma fk_mono: "fk f rows S \<Longrightarrow> S \<subseteq> T \<Longrightarrow> fk f rows T"
  by (auto simp: fk_def)

lemma fk_opt_mono: "fk_opt f rows S \<Longrightarrow> S \<subseteq> T \<Longrightarrow> fk_opt f rows T"
  by (auto simp: fk_opt_def split: option.splits)

lemma fk_insert_target: "fk f rows S \<Longrightarrow> fk f rows (insert x S)"
  by (auto simp: fk_def)

lemma fk_opt_insert_target: "fk_opt f rows S \<Longrightarrow> fk_opt f rows (insert x S)"
  by (auto simp: fk_opt_def split: option.splits)

lemma fk_opt_Some: "fk_opt f rows S \<Longrightarrow> r \<in> set rows \<Longrightarrow> f r = Some k \<Longrightarrow> k \<in> S"
  by (auto simp: fk_opt_def split: option.splits)

lemma fkD: "fk f rows S \<Longrightarrow> r \<in> set rows \<Longrightarrow> f r \<in> S"
  by (simp add: fk_def)

text \<open>Keys that remain after a deletion, when the key identifies the row.\<close>

lemma ids_after_delete:
  "pk k rows \<Longrightarrow> k ` set (delete_where p rows) = k ` set rows - k ` {r \<in> set rows. p r}"
  by (auto simp: pk_def distinct_map inj_on_def)

section \<open>DELETE with the foreign-key actions\<close>

text \<open>\<open>CASCADE\<close> drops the referring rows; \<open>SET NULL\<close> clears the reference.\<close>

definition cascade :: "('r \<Rightarrow> 'k) \<Rightarrow> 'k set \<Rightarrow> 'r list \<Rightarrow> 'r list" where
  "cascade f gone rows = delete_where (\<lambda>r. f r \<in> gone) rows"

definition set_null ::
  "('r \<Rightarrow> 'k option) \<Rightarrow> (('k option \<Rightarrow> 'k option) \<Rightarrow> 'r \<Rightarrow> 'r) \<Rightarrow> 'k set \<Rightarrow> 'r list \<Rightarrow> 'r list" where
  "set_null f upd gone rows =
     update_where (\<lambda>r. case f r of None \<Rightarrow> False | Some k \<Rightarrow> k \<in> gone) (upd (\<lambda>_. None)) rows"

lemma set_cascade [simp]: "set (cascade f gone rows) = {r \<in> set rows. f r \<notin> gone}"
  by (simp add: cascade_def)

lemma cascade_keeps [table_simps]:
  "pk k rows \<Longrightarrow> pk k (cascade f gone rows)"
  "fk g rows S \<Longrightarrow> fk g (cascade f gone rows) S"
  "fk_opt h rows S \<Longrightarrow> fk_opt h (cascade f gone rows) S"
  "unique_opt h rows \<Longrightarrow> unique_opt h (cascade f gone rows)"
  by (simp_all add: cascade_def pk_delete fk_delete fk_opt_delete unique_opt_delete)

lemma fk_cascade: "fk f rows S \<Longrightarrow> fk f (cascade f gone rows) (S - gone)"
  by (simp add: fk_def)

definition clears :: "('r \<Rightarrow> 'k option) \<Rightarrow> (('k option \<Rightarrow> 'k option) \<Rightarrow> 'r \<Rightarrow> 'r) \<Rightarrow> bool" where
  "clears f upd \<longleftrightarrow> (\<forall>r. f (upd (\<lambda>_. None) r) = None)"

lemma fk_opt_set_null:
  "clears f upd \<Longrightarrow> fk_opt f rows S \<Longrightarrow> fk_opt f (set_null f upd gone rows) (S - gone)"
  by (auto simp: fk_opt_def set_null_def set_update_where clears_def split: option.splits)

text \<open>\<open>DELETE FROM items WHERE P\<close>.\<close>

definition delete_items_where :: "(item_row \<Rightarrow> bool) \<Rightarrow> db \<Rightarrow> db" where
  "delete_items_where P d =
     (let gone = it_id ` set (filter P (items d)) in
      d\<lparr> items := delete_where P (items d),
         members := cascade mb_item_id gone (members d),
         decisions :=
           set_null dec_candidate_item_id dec_candidate_item_id_update gone
             (cascade dec_item_id gone (decisions d)),
         clusters := set_null cl_representative cl_representative_update gone (clusters d) \<rparr>)"

text \<open>\<open>DELETE FROM raw_messages WHERE P\<close>.\<close>

definition delete_raw_messages_where :: "(raw_message_row \<Rightarrow> bool) \<Rightarrow> db \<Rightarrow> db" where
  "delete_raw_messages_where P d =
     (let gone = raw_id ` set (filter P (raw_messages d)) in
      d\<lparr> raw_messages := delete_where P (raw_messages d),
         items := set_null it_raw_message_id it_raw_message_id_update gone (items d) \<rparr>)"

text \<open>\<open>DELETE FROM dedupe_clusters WHERE P\<close>.\<close>

definition delete_clusters_where :: "(cluster_row \<Rightarrow> bool) \<Rightarrow> db \<Rightarrow> db" where
  "delete_clusters_where P d =
     (let gone = cl_id ` set (filter P (clusters d)) in
      d\<lparr> clusters := delete_where P (clusters d),
         members := cascade mb_cluster_id gone (members d),
         decisions := set_null dec_cluster_id dec_cluster_id_update gone (decisions d),
         deliveries := cascade bd_cluster_id gone (deliveries d) \<rparr>)"

text \<open>
  \<open>DELETE FROM telegram_channels WHERE P\<close>: the cascade reaches the raw messages and the items of
  the channel, and from there what refers to those.
\<close>

definition delete_channels_where :: "(channel_row \<Rightarrow> bool) \<Rightarrow> db \<Rightarrow> db" where
  "delete_channels_where P d =
     (let gone = ch_id ` set (filter P (channels d));
          d1 = delete_raw_messages_where (\<lambda>r. raw_channel_id r \<in> gone) d;
          d2 = delete_items_where (\<lambda>r. it_channel_id r \<in> gone) d1 in
      d2\<lparr> channels := delete_where P (channels d2),
          group_members := cascade gm_channel_id gone (group_members d2),
          channel_states := cascade cs_channel_id gone (channel_states d2),
          ingest_errors :=
            set_null ie_channel_id ie_channel_id_update gone (ingest_errors d2),
          poll_jobs := cascade pj_channel_id gone (poll_jobs d2) \<rparr>)"

text \<open>\<open>DELETE FROM channel_groups WHERE P\<close>.\<close>

definition delete_groups_where :: "(group_row \<Rightarrow> bool) \<Rightarrow> db \<Rightarrow> db" where
  "delete_groups_where P d =
     (let gone = gr_id ` set (filter P (channel_groups d)) in
      d\<lparr> channel_groups := delete_where P (channel_groups d),
         group_members := cascade gm_group_id gone (group_members d) \<rparr>)"

lemma clears_simps [simp]:
  "clears cl_representative cl_representative_update"
  "clears dec_cluster_id dec_cluster_id_update"
  "clears dec_candidate_item_id dec_candidate_item_id_update"
  "clears it_raw_message_id it_raw_message_id_update"
  "clears ie_channel_id ie_channel_id_update"
  by (simp_all add: clears_def)

lemma set_null_keeps [table_simps]:
  assumes "\<And>r. k (upd (\<lambda>_. None) r) = k r"
  shows "map k (set_null f upd gone rows) = map k rows"
    and "k ` set (set_null f upd gone rows) = k ` set rows"
    and "pk k (set_null f upd gone rows) = pk k rows"
    and "fk k (set_null f upd gone rows) S = fk k rows S"
  using assms by (simp_all add: set_null_def map_update_where image_update_where pk_update fk_update)

lemma set_null_keeps_opt [table_simps]:
  assumes "\<And>r. h (upd (\<lambda>_. None) r) = h r"
  shows "fk_opt h (set_null f upd gone rows) S = fk_opt h rows S"
    and "unique_opt h (set_null f upd gone rows) = unique_opt h rows"
  using assms by (simp_all add: set_null_def fk_opt_update unique_opt_update_same)

lemma unique_opt_set_null [table_simps]:
  "clears f upd \<Longrightarrow> unique_opt f rows \<Longrightarrow> unique_opt f (set_null f upd gone rows)"
  unfolding set_null_def by (rule unique_opt_update_null) (simp_all add: clears_def)

lemma ids_after_delete_where:
  "pk k rows \<Longrightarrow> k ` set (delete_where p rows) = k ` set rows - k ` set (filter p rows)"
  by (simp add: ids_after_delete del: set_delete_where)

lemma db_ok_pk:
  assumes "db_ok d"
  shows "pk acc_id (accounts d)" and "pk ch_id (channels d)" and "pk gr_id (channel_groups d)"
    and "pk raw_id (raw_messages d)" and "pk it_id (items d)" and "pk cl_id (clusters d)"
    and "pk (\<lambda>r. (mb_cluster_id r, mb_item_id r)) (members d)"
  using assms by (simp_all add: db_ok_defs)

lemmas delete_ok_simps = Let_def table_simps ids_after_delete_where fk_cascade fk_opt_set_null

lemma delete_items_where_ok:
  assumes "db_ok d" shows "db_ok (delete_items_where P d)"
  using assms unfolding delete_items_where_def
  by (simp add: db_ok_defs delete_ok_simps del: set_delete_where set_cascade)

lemma delete_raw_messages_where_ok:
  assumes "db_ok d" shows "db_ok (delete_raw_messages_where P d)"
  using assms unfolding delete_raw_messages_where_def
  by (simp add: db_ok_defs delete_ok_simps del: set_delete_where set_cascade)

lemma delete_clusters_where_ok:
  assumes "db_ok d" shows "db_ok (delete_clusters_where P d)"
  using assms unfolding delete_clusters_where_def
  by (simp add: db_ok_defs delete_ok_simps del: set_delete_where set_cascade)

lemma delete_groups_where_ok:
  assumes "db_ok d" shows "db_ok (delete_groups_where P d)"
  using assms unfolding delete_groups_where_def
  by (simp add: db_ok_defs delete_ok_simps del: set_delete_where set_cascade)

lemma delete_channels_where_ok:
  assumes "db_ok d" shows "db_ok (delete_channels_where P d)"
proof -
  define gone where "gone = ch_id ` set (filter P (channels d))"
  define d2 where "d2 = delete_items_where (\<lambda>r. it_channel_id r \<in> gone)
     (delete_raw_messages_where (\<lambda>r. raw_channel_id r \<in> gone) d)"
  have ok: "db_ok d2"
    using assms by (simp add: d2_def delete_items_where_ok delete_raw_messages_where_ok)
  have chans: "channels d2 = channels d"
    by (simp add: d2_def delete_items_where_def delete_raw_messages_where_def Let_def)
  have raws: "\<forall>r \<in> set (raw_messages d2). raw_channel_id r \<notin> gone"
    and its: "\<forall>r \<in> set (items d2). it_channel_id r \<notin> gone"
    by (simp_all add: d2_def delete_items_where_def delete_raw_messages_where_def Let_def)
  have shape: "delete_channels_where P d =
      d2\<lparr> channels := delete_where P (channels d2),
          group_members := cascade gm_channel_id gone (group_members d2),
          channel_states := cascade cs_channel_id gone (channel_states d2),
          ingest_errors := set_null ie_channel_id ie_channel_id_update gone (ingest_errors d2),
          poll_jobs := cascade pj_channel_id gone (poll_jobs d2) \<rparr>"
    by (simp add: delete_channels_where_def d2_def gone_def Let_def)
  have minus: "fk raw_channel_id (raw_messages d2) (channel_ids d2 - gone)"
      "fk it_channel_id (items d2) (channel_ids d2 - gone)"
    using ok raws its by (simp_all add: db_ok_defs fk_def)
  show ?thesis
    using ok minus unfolding shape
    by (simp add: db_ok_defs delete_ok_simps gone_def chans del: set_delete_where set_cascade)
qed

subsection \<open>Deleting in two rounds\<close>

lemma delete_where_twice: "delete_where q (delete_where p rows) = delete_where (\<lambda>r. p r \<or> q r) rows"
  by (auto simp: delete_where_def intro: filter_cong)

lemma gone_twice:
  "k ` {r \<in> S. p r} \<union> k ` {r \<in> S. \<not> p r \<and> q r} = k ` {r \<in> S. p r \<or> q r}"
  by auto

lemma cascade_twice: "cascade f h (cascade f g rows) = cascade f (g \<union> h) rows"
  by (auto simp: cascade_def delete_where_def intro: filter_cong)

lemma set_null_twice:
  "clears f upd \<Longrightarrow> set_null f upd h (set_null f upd g rows) = set_null f upd (g \<union> h) rows"
  by (auto simp: set_null_def update_where_def clears_def split: option.splits)

lemma cascade_set_null:
  "(\<And>r. f (upd (\<lambda>_. None) r) = f r) \<Longrightarrow>
   cascade f g (set_null h upd h' rows) = set_null h upd h' (cascade f g rows)"
  by (induction rows) (auto simp: cascade_def delete_where_def set_null_def update_where_def)

lemma delete_where_none: "filter p rows = [] \<Longrightarrow> delete_where p rows = rows"
  by (auto simp: delete_where_def filter_empty_conv filter_id_conv)

lemma cascade_empty [simp]: "cascade f {} rows = rows"
  by (simp add: cascade_def delete_where_def)

lemma set_null_empty [simp]: "set_null f upd {} rows = rows"
  by (auto simp: set_null_def update_where_def intro!: map_idI split: option.splits)

lemma delete_raw_messages_none:
  "filter P (raw_messages d) = [] \<Longrightarrow> delete_raw_messages_where P d = d"
  unfolding delete_raw_messages_where_def by (simp add: delete_where_none del: set_filter)

lemma delete_items_none: "filter P (items d) = [] \<Longrightarrow> delete_items_where P d = d"
  unfolding delete_items_where_def by (simp add: delete_where_none del: set_filter)

lemma delete_raw_messages_twice:
  "delete_raw_messages_where Q (delete_raw_messages_where P d) =
   delete_raw_messages_where (\<lambda>r. P r \<or> Q r) d"
  unfolding delete_raw_messages_where_def Let_def
  by (simp add: delete_where_twice set_null_twice gone_twice)

lemma delete_items_twice:
  "delete_items_where Q (delete_items_where P d) = delete_items_where (\<lambda>r. P r \<or> Q r) d"
  unfolding delete_items_where_def Let_def
  by (simp add: delete_where_twice set_null_twice cascade_twice cascade_set_null gone_twice)

lemma delete_raw_messages_cong:
  "(\<And>r. r \<in> set (raw_messages d) \<Longrightarrow> P r = Q r) \<Longrightarrow>
   delete_raw_messages_where P d = delete_raw_messages_where Q d"
  unfolding delete_raw_messages_where_def delete_where_def by (simp cong: filter_cong)

lemma delete_items_cong:
  "(\<And>r. r \<in> set (items d) \<Longrightarrow> P r = Q r) \<Longrightarrow> delete_items_where P d = delete_items_where Q d"
  unfolding delete_items_where_def delete_where_def by (simp cong: filter_cong)

section \<open>Inserts shared by several repositories\<close>

text \<open>
  \<open>INSERT INTO dedupe_decisions ... RETURNING id\<close>. The row is given with any \<open>dec_id\<close> and
  \<open>dec_created_at\<close>; both are assigned here. A foreign key that refers to no row raises.
\<close>

definition insert_decision :: "decision_row \<Rightarrow> (db, int) act" where
  "insert_decision r d =
     (let n = sql_next_id (map dec_id (decisions d));
          row = r\<lparr> dec_id := n, dec_created_at := current_timestamp d \<rparr> in
      if dec_item_id r \<in> item_ids d
         \<and> (case dec_cluster_id r of None \<Rightarrow> True | Some c \<Rightarrow> c \<in> cluster_ids d)
         \<and> (case dec_candidate_item_id r of None \<Rightarrow> True | Some i \<Rightarrow> i \<in> item_ids d)
      then (Inr n, d\<lparr> decisions := decisions d @ [row] \<rparr>)
      else (Inl (IntegrityError ''FOREIGN KEY constraint failed''), d))"

lemma insert_decision_ok [preserves_intros]: "preserves db_ok (insert_decision r)"
  by (rule preservesI)
    (simp add: insert_decision_def Let_def db_ok_defs table_simps del: set_delete_where)

text \<open>
  \<open>INSERT INTO notifications (type, severity, message, payload_json)\<close>; the other columns take
  their defaults.
\<close>

definition notification_of :: "string \<Rightarrow> string \<Rightarrow> string \<Rightarrow> jtext option \<Rightarrow> db \<Rightarrow> notification_row" where
  "notification_of type severity message payload d =
     \<lparr> nt_id = sql_next_id (map nt_id (notifications d)), nt_type = type, nt_severity = severity,
       nt_message = message, nt_payload_json = payload, nt_is_acknowledged = False,
       nt_acknowledged_at = None, nt_created_at = current_timestamp d \<rparr>"

definition insert_notification ::
  "string \<Rightarrow> string \<Rightarrow> string \<Rightarrow> jtext option \<Rightarrow> (db, notification_row) act" where
  "insert_notification type severity message payload d =
     (let row = notification_of type severity message payload d in
      (Inr row, d\<lparr> notifications := notifications d @ [row] \<rparr>))"

lemma insert_notification_ok [preserves_intros]:
  "preserves db_ok (insert_notification type severity message payload)"
  by (rule preservesI)
    (simp add: insert_notification_def notification_of_def Let_def db_ok_defs table_simps)

end
