(* ===== verification/Representatives.thy ===== *)
theory Representatives
  imports Database
begin

text \<open>
  The choice of a cluster's representative item: the ranking that the SQL text of
  \<open>tca/storage/dedupe_clusters_repo.py\<close>, \<open>tca/ops/prune_job.py\<close> and
  \<open>tca/storage/channels_repo.py\<close> repeats word for word, and the \<open>UPDATE\<close> that stores it. The
  locale \<open>ranking\<close> states what the choice rests on (a key that identifies the item) and derives
  that the chosen row does not depend on the order in which the rows are stored; it is
  interpreted on the ranking of the code. Lemmas: the representative is the least member of the
  cluster, and the update keeps the schema's constraints.
\<close>

section \<open>Rankings with an identifying key\<close>

locale ranking =
  fixes key :: "'a \<Rightarrow> 'k :: linorder"
    and ident :: "'a \<Rightarrow> 'i"
  assumes key_ident: "key x = key y \<Longrightarrow> ident x = ident y"
begin

definition best :: "'a list \<Rightarrow> 'a option" where
  "best xs = (case sort_key key xs of [] \<Rightarrow> None | x # _ \<Rightarrow> Some x)"

lemma best_None_iff: "best xs = None \<longleftrightarrow> xs = []"
proof (cases "sort_key key xs")
  case Nil
  then have "xs = []" by simp
  with Nil show ?thesis by (simp add: best_def)
next
  case (Cons y ys)
  then have "xs \<noteq> []" by auto
  with Cons show ?thesis by (simp add: best_def)
qed

lemma best_least:
  assumes "best xs = Some x"
  shows "x \<in> set xs" and "\<forall>y \<in> set xs. key x \<le> key y"
proof -
  from assms obtain rest where r: "sort_key key xs = x # rest"
    by (auto simp: best_def split: list.splits)
  then have members: "set (x # rest) = set xs" by (metis set_sort)
  then show "x \<in> set xs" by auto
  have "sorted (map key (x # rest))" using sorted_sort_key [of key xs] r by simp
  with members show "\<forall>y \<in> set xs. key x \<le> key y" by auto
qed

lemma best_unique:
  assumes "best xs = Some x" and "y \<in> set xs" and "\<forall>z \<in> set xs. key y \<le> key z"
  shows "ident y = ident x"
  using assms best_least [OF assms(1)] by (metis antisym key_ident)

text \<open>The choice depends on the set of rows only.\<close>

lemma best_set:
  assumes "set xs = set ys"
  shows "map_option ident (best xs) = map_option ident (best ys)"
proof (cases "best xs")
  case None
  with assms have "best ys = None" by (simp add: best_None_iff)
  with None show ?thesis by simp
next
  case (Some x)
  then have "ys \<noteq> []" using assms best_None_iff [of xs] by auto
  then obtain y where y: "best ys = Some y" by (metis best_None_iff not_None_eq)
  have "ident x = ident y"
    using best_unique [OF y, of x] best_least [OF Some] assms by simp
  with Some y show ?thesis by simp
qed

end

section \<open>The ranking of the code\<close>

text \<open>
  A canonical URL first, then the longer text, then known before unknown publication time, the
  earlier text of that time, the smaller id.
\<close>

definition nonempty_url :: "item_row \<Rightarrow> bool" where
  "nonempty_url i = (case it_canonical_url i of None \<Rightarrow> False | Some u \<Rightarrow> u \<noteq> [])"

definition text_size :: "item_row \<Rightarrow> int" where
  "text_size i =
     (case it_title i of None \<Rightarrow> 0 | Some t \<Rightarrow> int (sql_length t)) +
     (case it_body i of None \<Rightarrow> 0 | Some b \<Rightarrow> int (sql_length b))"

definition rank_key :: "item_row \<Rightarrow> int \<times> int \<times> int \<times> (int \<times> string) \<times> int" where
  "rank_key i =
     (if nonempty_url i then 0 else 1,
      - text_size i,
      case it_published_at i of None \<Rightarrow> 1 | Some _ \<Rightarrow> 0,
      case it_published_at i of None \<Rightarrow> (0, []) | Some p \<Rightarrow> text_key p,
      it_id i)"

interpretation rk: ranking rank_key it_id
  by unfold_locales (simp add: rank_key_def)

text \<open>\<open>dedupe_members INNER JOIN items\<close> of one cluster, and the row of rank 1.\<close>

definition cluster_items :: "int \<Rightarrow> db \<Rightarrow> item_row list" where
  "cluster_items c d =
     concat (map (\<lambda>m. filter (\<lambda>i. it_id i = mb_item_id m) (items d))
       (filter (\<lambda>m. mb_cluster_id m = c) (members d)))"

definition representative :: "int \<Rightarrow> db \<Rightarrow> int option" where
  "representative c d =
     (case sort_key rank_key (cluster_items c d) of [] \<Rightarrow> None | i # _ \<Rightarrow> Some (it_id i))"

definition recompute_representatives :: "int list \<Rightarrow> db \<Rightarrow> db" where
  "recompute_representatives cs d =
     d\<lparr> clusters :=
         update_where (\<lambda>c. cl_id c \<in> set cs)
           (\<lambda>c. c\<lparr> cl_representative := representative (cl_id c) d \<rparr>) (clusters d) \<rparr>"

section \<open>Membership\<close>

text \<open>The items that the membership table puts in a cluster.\<close>

definition member_items :: "int \<Rightarrow> db \<Rightarrow> int set" where
  "member_items c d = mb_item_id ` {m \<in> set (members d). mb_cluster_id m = c}"

lemma member_items_iff:
  "i \<in> member_items c d \<longleftrightarrow> (\<exists>m \<in> set (members d). mb_cluster_id m = c \<and> mb_item_id m = i)"
  by (auto simp: member_items_def)

lemma member_items_other_tables [simp]:
  "member_items c (d\<lparr>decisions := x\<rparr>) = member_items c d"
  "member_items c (d\<lparr>clusters := y\<rparr>) = member_items c d"
  "member_items c (d\<lparr>items := z\<rparr>) = member_items c d"
  by (simp_all add: member_items_def)

lemma cluster_items_ids: "i \<in> set (cluster_items c d) \<Longrightarrow> it_id i \<in> member_items c d"
  by (auto simp: cluster_items_def member_items_iff)

lemma cluster_items_set:
  "set (cluster_items c d) = {i \<in> set (items d). it_id i \<in> member_items c d}"
  by (auto simp: cluster_items_def member_items_iff)

lemma cluster_items_of_ok:
  assumes "fk mb_item_id (members d) (item_ids d)"
  shows "it_id ` set (cluster_items c d) = member_items c d"
proof -
  have "member_items c d \<subseteq> item_ids d" using assms by (auto simp: member_items_iff fk_def)
  then show ?thesis unfolding cluster_items_set by auto
qed

lemma representative_best: "representative c d = map_option it_id (rk.best (cluster_items c d))"
  by (simp add: representative_def rk.best_def split: list.split)

lemma representative_member: "representative c d = Some i \<Longrightarrow> i \<in> member_items c d"
  using rk.best_least(1) cluster_items_ids by (fastforce simp: representative_best)

lemma representative_None_iff:
  assumes "fk mb_item_id (members d) (item_ids d)"
  shows "representative c d = None \<longleftrightarrow> member_items c d = {}"
proof -
  have "cluster_items c d = [] \<longleftrightarrow> member_items c d = {}"
    using cluster_items_of_ok [OF assms, of c] by (metis image_is_empty set_empty)
  then show ?thesis by (simp add: representative_best rk.best_None_iff)
qed

text \<open>Two states with the same items and the same members of a cluster choose alike.\<close>

lemma representative_cong:
  assumes "set (items d) = set (items d')" and "member_items c d = member_items c' d'"
  shows "representative c d = representative c' d'"
  unfolding representative_best
  by (rule rk.best_set) (simp add: cluster_items_set assms)

lemma recompute_fields [simp]:
  "items (recompute_representatives cs d) = items d"
  "members (recompute_representatives cs d) = members d"
  "decisions (recompute_representatives cs d) = decisions d"
  "deliveries (recompute_representatives cs d) = deliveries d"
  "member_items c (recompute_representatives cs d) = member_items c d"
  by (simp_all add: recompute_representatives_def member_items_def)

lemma recompute_cluster_ids [simp]:
  "map cl_id (clusters (recompute_representatives cs d)) = map cl_id (clusters d)"
  "cluster_ids (recompute_representatives cs d) = cluster_ids d"
  by (simp_all add: recompute_representatives_def map_update_where image_update_where)

lemma recompute_representatives_ok:
  assumes "db_ok d" shows "db_ok (recompute_representatives cs d)"
proof -
  have fkm: "fk mb_item_id (members d) (item_ids d)" using assms by (simp add: db_ok_defs)
  have "fk_opt cl_representative (clusters d) (item_ids d)" using assms by (simp add: db_ok_defs)
  moreover have "representative c d = Some i \<Longrightarrow> i \<in> item_ids d" for c i
    using representative_member fkm by (fastforce simp: member_items_iff fk_def)
  ultimately have "fk_opt cl_representative
      (update_where (\<lambda>c. cl_id c \<in> set cs)
         (\<lambda>c. c\<lparr>cl_representative := representative (cl_id c) d\<rparr>) (clusters d)) (item_ids d)"
    by (auto simp: fk_opt_def update_where_def split: option.splits)
  with assms show ?thesis
    by (simp add: recompute_representatives_def db_ok_defs table_simps)
qed

text \<open>
  The application's own invariant on clusters: each one has a representative, which is one of
  its members; so no cluster is empty.
\<close>

definition represented :: "db \<Rightarrow> cluster_row \<Rightarrow> bool" where
  "represented d c =
     (case cl_representative c of None \<Rightarrow> False
      | Some i \<Rightarrow> \<exists>m \<in> set (members d). mb_cluster_id m = cl_id c \<and> mb_item_id m = i)"

definition reps_ok :: "db \<Rightarrow> bool" where
  "reps_ok d \<longleftrightarrow> (\<forall>c \<in> set (clusters d). represented d c)"

definition store_ok :: "db \<Rightarrow> bool" where
  "store_ok d \<longleftrightarrow> db_ok d \<and> reps_ok d"

lemma reps_ok_cong:
  "members d' = members d \<Longrightarrow> clusters d' = clusters d \<Longrightarrow> reps_ok d' = reps_ok d"
  unfolding reps_ok_def represented_def by (simp only:)

lemma represented_iff:
  "represented d c \<longleftrightarrow> (\<exists>i. cl_representative c = Some i \<and> i \<in> member_items (cl_id c) d)"
  by (auto simp: represented_def member_items_iff split: option.splits)

lemma represented_nonempty: "represented d c \<Longrightarrow> member_items (cl_id c) d \<noteq> {}"
  by (auto simp: represented_iff)

text \<open>After recomputation of the non-empty clusters given, exactly the others must have been right.\<close>

lemma recompute_row:
  assumes "c \<in> set (clusters (recompute_representatives cs d))" and "cl_id c \<in> set cs"
  shows "cl_representative c = representative (cl_id c) d"
  using assms by (auto simp: recompute_representatives_def update_where_def split: if_splits)

lemma recompute_other_row:
  "cl_id c \<notin> set cs \<Longrightarrow>
   c \<in> set (clusters (recompute_representatives cs d)) \<longleftrightarrow> c \<in> set (clusters d)"
  by (auto simp: recompute_representatives_def update_where_def split: if_splits)

lemma recompute_represented:
  assumes "fk mb_item_id (members d) (item_ids d)"
    and "c \<in> set (clusters (recompute_representatives cs d))"
    and "cl_id c \<in> set cs" and "member_items (cl_id c) d \<noteq> {}"
  shows "represented (recompute_representatives cs d) c"
    and "cl_representative c = representative (cl_id c) d"
proof -
  show rep: "cl_representative c = representative (cl_id c) d"
    using assms(2,3) by (rule recompute_row)
  obtain i where "representative (cl_id c) d = Some i"
    using representative_None_iff [OF assms(1)] assms(4) by fastforce
  with rep representative_member show "represented (recompute_representatives cs d) c"
    by (fastforce simp: represented_iff)
qed

end
