(* ===== verification/Samples.thy ===== *)
theory Samples
  imports Representatives
begin

text \<open>
  Small concrete databases on which the hypotheses of the theorems are evaluated: one account,
  two channels, three items in two clusters, one group, one setting per kind of table that a
  theorem needs.
\<close>

definition sample_time :: datetime where
  "sample_time = DT 1700000000000000 None"

definition sample_account :: "int \<Rightarrow> account_row" where
  "sample_account n =
     \<lparr> acc_id = n, acc_api_id = 7, acc_api_hash_encrypted = JMalformed ''x'', acc_phone_number = None,
       acc_session_encrypted = None, acc_key_version = 1, acc_paused_at = None,
       acc_pause_reason = None, acc_created_at = sample_time, acc_updated_at = sample_time \<rparr>"

definition sample_channel :: "int \<Rightarrow> channel_row" where
  "sample_channel n =
     \<lparr> ch_id = n, ch_account_id = 1, ch_telegram_channel_id = 100 + n, ch_name = ''news'',
       ch_username = None, ch_is_enabled = True, ch_created_at = sample_time,
       ch_updated_at = sample_time \<rparr>"

definition sample_item :: "int \<Rightarrow> string option \<Rightarrow> item_row" where
  "sample_item n url =
     \<lparr> it_id = n, it_channel_id = 1, it_message_id = n, it_raw_message_id = None,
       it_published_at = None, it_title = Some ''t'', it_body = None, it_canonical_url = url,
       it_canonical_url_hash = None, it_content_hash = None, it_dedupe_state = ''pending'',
       it_embedding = None, it_created_at = sample_time, it_updated_at = sample_time \<rparr>"

definition sample_cluster :: "int \<Rightarrow> string \<Rightarrow> int \<Rightarrow> cluster_row" where
  "sample_cluster n key rep =
     \<lparr> cl_id = n, cl_key = key, cl_representative = Some rep, cl_created_at = sample_time,
       cl_updated_at = sample_time \<rparr>"

definition sample_member :: "int \<Rightarrow> int \<Rightarrow> member_row" where
  "sample_member c i = \<lparr> mb_cluster_id = c, mb_item_id = i, mb_created_at = sample_time \<rparr>"

text \<open>Cluster 1 holds item 1, cluster 2 holds items 2 and 3; only item 3 has a URL.\<close>

definition sample_db :: db where
  "sample_db =
     (empty_db 1800000000000000)
       \<lparr> accounts := [sample_account 1],
         channels := [sample_channel 1, sample_channel 2],
         items := [sample_item 1 None, sample_item 2 None, sample_item 3 (Some ''http://e.x'')],
         clusters := [sample_cluster 1 ''a'' 1, sample_cluster 2 ''b'' 3],
         members := [sample_member 1 1, sample_member 2 2, sample_member 2 3] \<rparr>"

lemma sample_db_ok: "store_ok sample_db"
  by code_simp

end
