(* ===== verification/Clusters.thy ===== *)
theory Clusters
  imports Samples
begin

text \<open>
  \<open>tca/storage/dedupe_clusters_repo.py\<close>: assignment of an item to a cluster and the merge of
  clusters, each one write transaction over the database. The abstract view \<open>clustering\<close> maps a
  cluster id to its set of items; \<open>abs_merge\<close> and \<open>abs_assign\<close> say what the two operations mean
  there, and the lemmas show that the SQL statements implement them, keep the schema's
  constraints and keep every cluster represented by one of its members.
\<close>

section \<open>Data and helpers\<close>

definition MIN_MERGE_CLUSTER_COUNT :: nat where
  "MIN_MERGE_CLUSTER_COUNT = 2"

record cluster_assignment_result =
  ca_cluster_id :: int
  ca_created_cluster :: bool
  ca_created_membership :: bool

record cluster_merge_result =
  cm_target_cluster_id :: int
  cm_source_cluster_ids :: "int list"
  cm_moved_member_count :: nat
  cm_removed_cluster_count :: nat
  cm_recorded_event :: bool

fun coerce_int :: "pyobj \<Rightarrow> int res" where
  "coerce_int (PBool b) = Inl (TypeError ''missing integer'')"
| "coerce_int (PInt i) = Inr i"
| "coerce_int v = Inl (TypeError ''missing integer'')"

definition normalize_cluster_ids :: "pyobj list \<Rightarrow> int list res" where
  "normalize_cluster_ids matched =
     res_bind (res_map coerce_int matched) (\<lambda>ids. Inr (sort (remdups ids)))"

section \<open>Assignment\<close>

text \<open>
  The two \<open>INSERT\<close> statements. The first returns the new rowid; the second returns whether a row
  was inserted, and checks the foreign keys only when there is no conflict.
\<close>

definition create_cluster :: "string \<Rightarrow> int \<Rightarrow> (db, int) act" where
  "create_cluster key item d =
     (let n = sql_next_id (map cl_id (clusters d));
          row = \<lparr> cl_id = n, cl_key = key, cl_representative = Some item,
                  cl_created_at = current_timestamp d, cl_updated_at = current_timestamp d \<rparr> in
      if key \<in> cl_key ` set (clusters d)
      then (Inl (IntegrityError ''UNIQUE constraint failed''), d)
      else if item \<notin> item_ids d
      then (Inl (IntegrityError ''FOREIGN KEY constraint failed''), d)
      else (Inr n, d\<lparr> clusters := clusters d @ [row] \<rparr>))"

definition member_row :: "int \<Rightarrow> int \<Rightarrow> db \<Rightarrow> member_row" where
  "member_row c i d = \<lparr> mb_cluster_id = c, mb_item_id = i, mb_created_at = current_timestamp d \<rparr>"

definition has_member :: "int \<Rightarrow> int \<Rightarrow> db \<Rightarrow> bool" where
  "has_member c i d = (\<exists>m \<in> set (members d). mb_cluster_id m = c \<and> mb_item_id m = i)"

definition add_member :: "int \<Rightarrow> int \<Rightarrow> (db, bool) act" where
  "add_member c i d =
     (if has_member c i d then (Inr False, d)
      else if c \<notin> cluster_ids d \<or> i \<notin> item_ids d
      then (Inl (IntegrityError ''FOREIGN KEY constraint failed''), d)
      else (Inr True, d\<lparr> members := members d @ [member_row c i d] \<rparr>))"

text \<open>\<open>cluster_key\<close> is the value of \<open>str(uuid4())\<close>.\<close>

definition assign_item_to_cluster ::
  "string \<Rightarrow> int \<Rightarrow> int option \<Rightarrow> (db, cluster_assignment_result) act" where
  "assign_item_to_cluster cluster_key item_id matched_cluster_id =
     transaction
       (act_bind
         (case matched_cluster_id of
            None \<Rightarrow> act_bind (create_cluster cluster_key item_id) (\<lambda>c. act_return (c, True))
          | Some c \<Rightarrow> act_return (c, False))
         (\<lambda>(cluster_id, created_cluster).
            act_bind (add_member cluster_id item_id) (\<lambda>created_membership.
              act_return \<lparr> ca_cluster_id = cluster_id, ca_created_cluster = created_cluster,
                           ca_created_membership = created_membership \<rparr>)))"

section \<open>Merge\<close>

text \<open>
  \<open>INSERT ... SELECT ... ON CONFLICT DO NOTHING\<close>. The item that a selected row refers to exists,
  and so does the target cluster, which the transaction has just read.
\<close>

definition move_member :: "int \<Rightarrow> member_row \<Rightarrow> db \<Rightarrow> db" where
  "move_member target m d =
     (if has_member target (mb_item_id m) d then d
      else d\<lparr> members := members d @ [member_row target (mb_item_id m) d] \<rparr>)"

definition move_members :: "int \<Rightarrow> int list \<Rightarrow> db \<Rightarrow> db" where
  "move_members target sources d =
     fold (move_member target) (filter (\<lambda>m. mb_cluster_id m \<in> set sources) (members d)) d"

text \<open>The representative stored for the target, or else the smallest member id.\<close>

definition merge_event_item :: "int \<Rightarrow> db \<Rightarrow> int option" where
  "merge_event_item target d =
     (case find (\<lambda>c. cl_id c = target) (clusters d) of
        None \<Rightarrow> None
      | Some c \<Rightarrow>
         (case cl_representative c of
            Some i \<Rightarrow> Some i
          | None \<Rightarrow>
             (case sort (map mb_item_id (filter (\<lambda>m. mb_cluster_id m = target) (members d))) of
                [] \<Rightarrow> None | i # _ \<Rightarrow> Some i)))"

definition merge_metadata :: "int \<Rightarrow> int list \<Rightarrow> pyobj" where
  "merge_metadata target sources =
     PDict [(PStr ''source_cluster_ids'', PList (map PInt sources)),
            (PStr ''target_cluster_id'', PInt target)]"

definition merge_event :: "int \<Rightarrow> int list \<Rightarrow> int \<Rightarrow> decision_row" where
  "merge_event target sources item =
     \<lparr> dec_id = 0, dec_item_id = item, dec_cluster_id = Some target,
       dec_candidate_item_id = None, dec_strategy_name = ''cluster_merge'',
       dec_outcome = ''DUPLICATE'', dec_reason_code = Some ''cluster_merge'', dec_score = None,
       dec_metadata_json = json_dumps (merge_metadata target sources),
       dec_created_at = DT 0 None \<rparr>"

text \<open>The body of the write session, from the lookup of the target to the commit.\<close>

definition merge_session :: "int \<Rightarrow> int list \<Rightarrow> (db, cluster_merge_result) act" where
  "merge_session target sources d =
     (if target \<notin> cluster_ids d
      then (Inl (ValueError ''target cluster does not exist''), d)
      else
        let moved = length (filter (\<lambda>m. mb_cluster_id m \<in> set sources) (members d));
            removed = length (filter (\<lambda>c. cl_id c \<in> set sources) (clusters d));
            result = \<lparr> cm_target_cluster_id = target, cm_source_cluster_ids = sources,
                       cm_moved_member_count = moved, cm_removed_cluster_count = removed,
                       cm_recorded_event = True \<rparr> in
        if moved = 0 \<and> removed = 0
        then (Inr (result\<lparr> cm_recorded_event := False \<rparr>), d)
        else
          let d1 = move_members target sources d;
              d2 = delete_clusters_where (\<lambda>c. cl_id c \<in> set sources) d1;
              d3 = recompute_representatives [target] d2 in
          case merge_event_item target d3 of
            None \<Rightarrow> (Inl (ValueError ''cannot record merge event without target cluster item''), d3)
          | Some item \<Rightarrow>
              act_bind (insert_decision (merge_event target sources item))
                (\<lambda>_. act_return result) d3)"

definition merge_clusters :: "pyobj list \<Rightarrow> (db, cluster_merge_result) act" where
  "merge_clusters matched_cluster_ids =
     act_bind (act_lift (normalize_cluster_ids matched_cluster_ids)) (\<lambda>ids.
       if length ids < MIN_MERGE_CLUSTER_COUNT
       then act_raise (ValueError ''need at least two clusters to merge'')
       else transaction (merge_session (hd ids) (tl ids)))"

section \<open>The abstract view\<close>

type_synonym clustering = "int \<Rightarrow> int set option"

definition clustering :: "db \<Rightarrow> clustering" where
  "clustering d = (\<lambda>c. if c \<in> cluster_ids d then Some (member_items c d) else None)"

definition abs_assign :: "int \<Rightarrow> int \<Rightarrow> clustering \<Rightarrow> clustering" where
  "abs_assign c item f =
     f(c \<mapsto> insert item (case f c of None \<Rightarrow> {} | Some S \<Rightarrow> S))"

definition abs_items :: "clustering \<Rightarrow> int set \<Rightarrow> int set" where
  "abs_items f C = \<Union> {S. \<exists>c \<in> C. f c = Some S}"

definition abs_merge :: "int \<Rightarrow> int set \<Rightarrow> clustering \<Rightarrow> clustering" where
  "abs_merge target sources f =
     (\<lambda>c. if c = target then Some (abs_items f (insert target sources))
          else if c \<in> sources then None else f c)"

subsection \<open>Normalised ids\<close>

lemma normalize_cluster_ids_props:
  assumes "normalize_cluster_ids vs = Inr ids"
  shows "sorted ids" and "distinct ids" and "set ids = {i. PInt i \<in> set vs}"
    and "\<forall>v \<in> set vs. \<exists>i. v = PInt i"
proof -
  have coerced: "v = PInt i" if "coerce_int v = Inr i" for v i
    using that by (cases v rule: coerce_int.cases) auto
  obtain xs where xs: "res_map coerce_int vs = Inr xs" "ids = sort (remdups xs)"
    using assms by (auto simp: normalize_cluster_ids_def res_bind_Inr)
  have vs: "vs = map PInt xs"
    using xs(1) by (induction vs arbitrary: xs) (auto simp: res_bind_Inr coerced)
  show "sorted ids" "distinct ids" using xs(2) by simp_all
  show "set ids = {i. PInt i \<in> set vs}" using xs(2) vs by auto
  show "\<forall>v \<in> set vs. \<exists>i. v = PInt i" using vs by auto
qed

lemma normalize_cluster_ids_ints: "normalize_cluster_ids (map PInt xs) = Inr (sort (remdups xs))"
proof -
  have "res_map coerce_int (map PInt xs) = Inr xs" by (induction xs) auto
  then show ?thesis by (simp add: normalize_cluster_ids_def)
qed

lemma normalize_cluster_ids_Inl:
  "normalize_cluster_ids vs = Inl e \<longleftrightarrow>
   e = TypeError ''missing integer'' \<and> (\<exists>v \<in> set vs. \<forall>i. v \<noteq> PInt i)"
proof -
  have one: "coerce_int v = Inl e \<longleftrightarrow> e = TypeError ''missing integer'' \<and> (\<forall>i. v \<noteq> PInt i)" for v e
    by (cases v rule: coerce_int.cases) auto
  have two: "(\<exists>i. coerce_int v = Inr i) \<longleftrightarrow> (\<exists>i. v = PInt i)" for v
    by (cases v rule: coerce_int.cases) auto
  have "res_map coerce_int vs = Inl e \<longleftrightarrow>
      e = TypeError ''missing integer'' \<and> (\<exists>v \<in> set vs. \<forall>i. v \<noteq> PInt i)"
  proof (induction vs)
    case (Cons v vs)
    have "res_map coerce_int (v # vs) = Inl e \<longleftrightarrow>
        coerce_int v = Inl e \<or> (\<exists>i. coerce_int v = Inr i) \<and> res_map coerce_int vs = Inl e"
      by (auto simp: res_bind_Inl)
    then show ?case using Cons.IH one [of v e] two [of v] by auto
  qed simp
  then show ?thesis by (auto simp: normalize_cluster_ids_def res_bind_Inl)
qed

subsection \<open>Adding members\<close>

lemma has_member_iff: "has_member c i d \<longleftrightarrow> i \<in> member_items c d"
  by (simp add: has_member_def member_items_iff)

lemma member_items_append:
  "member_items c (d\<lparr>members := members d @ [member_row c' i d']\<rparr>) =
   (if c = c' then insert i (member_items c d) else member_items c d)"
  by (rule set_eqI) (auto simp: member_items_iff member_row_def)

lemma db_ok_append_member:
  assumes "db_ok d" and "\<not> has_member c i d" and "c \<in> cluster_ids d" and "i \<in> item_ids d"
  shows "db_ok (d\<lparr>members := members d @ [member_row c i d']\<rparr>)"
proof -
  have "(c, i) \<notin> (\<lambda>r. (mb_cluster_id r, mb_item_id r)) ` set (members d)"
    using assms(2) by (auto simp: has_member_def)
  with assms show ?thesis by (simp add: db_ok_defs table_simps member_row_def)
qed

lemma add_member_ok [preserves_intros]: "preserves db_ok (add_member c i)"
  by (rule preservesI) (auto simp: add_member_def db_ok_append_member)

lemma create_cluster_ok [preserves_intros]: "preserves db_ok (create_cluster key item)"
proof (rule preservesI)
  fix d assume ok: "db_ok d"
  show "db_ok (snd (create_cluster key item d))"
  proof (cases "key \<in> cl_key ` set (clusters d) \<or> item \<notin> item_ids d")
    case True
    with ok show ?thesis by (auto simp: create_cluster_def Let_def)
  next
    case False
    with ok show ?thesis
      by (simp add: create_cluster_def Let_def db_ok_defs table_simps fk_insert_target
          fk_opt_insert_target)
  qed
qed

lemma assign_item_to_cluster_ok: "preserves db_ok (assign_item_to_cluster key item matched)"
  unfolding assign_item_to_cluster_def
  by (auto intro!: preserves_intros simp: case_prod_unfold)

subsection \<open>Moving members\<close>

lemma move_member_fields [simp]:
  "items (move_member t m d) = items d"
  "clusters (move_member t m d) = clusters d"
  "decisions (move_member t m d) = decisions d"
  by (simp_all add: move_member_def)

lemma fold_move_member_fields:
  "items (fold (move_member t) ms d) = items d"
  "clusters (fold (move_member t) ms d) = clusters d"
  "decisions (fold (move_member t) ms d) = decisions d"
  by (induction ms arbitrary: d) simp_all

lemma member_items_move_member:
  "member_items c (move_member t m d) =
   (if c = t then insert (mb_item_id m) (member_items c d) else member_items c d)"
  by (auto simp: move_member_def member_items_append has_member_iff)

lemma member_items_fold_move_member:
  "member_items c (fold (move_member t) ms d) =
   (if c = t then member_items c d \<union> mb_item_id ` set ms else member_items c d)"
  by (induction ms arbitrary: d) (auto simp: member_items_move_member)

lemma fold_move_member_ok:
  assumes "db_ok d" and "t \<in> cluster_ids d" and "mb_item_id ` set ms \<subseteq> item_ids d"
  shows "db_ok (fold (move_member t) ms d)"
  using assms
proof (induction ms arbitrary: d)
  case (Cons m ms)
  then have "db_ok (move_member t m d)"
    by (auto simp: move_member_def db_ok_append_member)
  with Cons show ?case by simp
qed simp

lemma move_members_fields [simp]:
  "items (move_members t ss d) = items d"
  "clusters (move_members t ss d) = clusters d"
  "decisions (move_members t ss d) = decisions d"
  by (simp_all add: move_members_def fold_move_member_fields)

lemma member_items_move_members:
  "member_items c (move_members t ss d) =
   (if c = t then member_items c d \<union> (\<Union>s \<in> set ss. member_items s d) else member_items c d)"
  by (rule set_eqI)
    (auto simp: move_members_def member_items_fold_move_member member_items_iff image_iff)

lemma move_members_ok:
  assumes "db_ok d" and "t \<in> cluster_ids d"
  shows "db_ok (move_members t ss d)"
  unfolding move_members_def using assms
  by (intro fold_move_member_ok) (auto simp: db_ok_defs fk_def)

subsection \<open>The state after a merge\<close>

definition merged :: "int \<Rightarrow> int list \<Rightarrow> db \<Rightarrow> db" where
  "merged t ss d =
     recompute_representatives [t]
       (delete_clusters_where (\<lambda>c. cl_id c \<in> set ss) (move_members t ss d))"

lemma member_items_delete_clusters:
  assumes "pk cl_id (clusters d)" and "fk mb_cluster_id (members d) (cluster_ids d)"
  shows "member_items c (delete_clusters_where (\<lambda>r. cl_id r \<in> C) d) =
    (if c \<in> C then {} else member_items c d)"
proof -
  have gone: "cl_id ` set (filter (\<lambda>r. cl_id r \<in> C) (clusters d)) = cluster_ids d \<inter> C" by auto
  show ?thesis
    using assms(2)
    by (intro set_eqI) (auto simp: member_items_iff delete_clusters_where_def Let_def fk_def gone)
qed

lemma delete_clusters_fields [simp]:
  "items (delete_clusters_where P d) = items d"
  "clusters (delete_clusters_where P d) = delete_where P (clusters d)"
  by (simp_all add: delete_clusters_where_def Let_def)

lemma merged_ok:
  assumes "db_ok d" and "t \<in> cluster_ids d" shows "db_ok (merged t ss d)"
  using assms unfolding merged_def
  by (intro recompute_representatives_ok delete_clusters_where_ok move_members_ok)

lemma merged_items [simp]: "items (merged t ss d) = items d"
  by (simp add: merged_def)

lemma merged_cluster_ids: "cluster_ids (merged t ss d) = cluster_ids d - set ss"
  unfolding merged_def recompute_cluster_ids by auto

lemma merged_member_items:
  assumes "db_ok d" and "t \<in> cluster_ids d" and "t \<notin> set ss"
  shows "member_items c (merged t ss d) =
    (if c = t then member_items t d \<union> (\<Union>s \<in> set ss. member_items s d)
     else if c \<in> set ss then {} else member_items c d)"
proof -
  have "db_ok (move_members t ss d)" using assms by (simp add: move_members_ok)
  then have "pk cl_id (clusters (move_members t ss d))"
      "fk mb_cluster_id (members (move_members t ss d)) (cluster_ids (move_members t ss d))"
    by (simp_all add: db_ok_defs)
  from member_items_delete_clusters [OF this, of c "set ss"] show ?thesis
    using assms(3) by (auto simp: merged_def member_items_move_members)
qed

lemma member_items_no_cluster:
  "db_ok d \<Longrightarrow> c \<notin> cluster_ids d \<Longrightarrow> member_items c d = {}"
  by (auto simp: member_items_iff db_ok_defs fk_def)

lemma abs_items_clustering:
  "db_ok d \<Longrightarrow> abs_items (clustering d) C = (\<Union>s \<in> C. member_items s d)"
  by (rule set_eqI) (use member_items_no_cluster [of d] in \<open>force simp: abs_items_def clustering_def\<close>)

lemma merged_clustering:
  assumes "db_ok d" and "t \<in> cluster_ids d" and "t \<notin> set ss"
  shows "clustering (merged t ss d) = abs_merge t (set ss) (clustering d)"
proof
  fix c
  note items = abs_items_clustering [OF assms(1)]
  have ids: "c \<in> cluster_ids (merged t ss d) \<longleftrightarrow> c \<in> cluster_ids d \<and> c \<notin> set ss"
    unfolding merged_cluster_ids by blast
  show "clustering (merged t ss d) c = abs_merge t (set ss) (clustering d) c"
    using assms(2,3)
    unfolding clustering_def abs_merge_def ids items [unfolded clustering_def]
    by (simp add: merged_member_items [OF assms])
qed

text \<open>The target's row after the merge carries the recomputed representative.\<close>

lemma merged_target_row:
  assumes "db_ok d" and "t \<in> cluster_ids d" and "t \<notin> set ss"
    and "c \<in> set (clusters (merged t ss d))" and "cl_id c = t"
  shows "cl_representative c = representative t (merged t ss d)"
proof -
  let ?d = "delete_clusters_where (\<lambda>c. cl_id c \<in> set ss) (move_members t ss d)"
  have "cl_representative c = representative t ?d"
    using assms(4,5) recompute_row [of c "[t]" ?d] by (simp add: merged_def)
  also have "\<dots> = representative t (merged t ss d)"
    by (rule representative_cong) (simp_all add: merged_def)
  finally show ?thesis .
qed

lemma merge_event_item_merged:
  assumes "db_ok d" and "t \<in> cluster_ids d" and "t \<notin> set ss"
  shows "merge_event_item t (merged t ss d) = representative t (merged t ss d)"
proof -
  let ?m = "merged t ss d"
  have "t \<in> cluster_ids ?m" using assms by (simp add: merged_cluster_ids del: recompute_cluster_ids)
  then obtain c where c: "find (\<lambda>c. cl_id c = t) (clusters ?m) = Some c"
    by (metis (mono_tags, lifting) find_None_iff imageE not_None_eq)
  then have "c \<in> set (clusters ?m)" "cl_id c = t" by (auto simp: find_Some_iff)
  with merged_target_row [OF assms] have rep: "cl_representative c = representative t ?m" by simp
  show ?thesis
  proof (cases "representative t ?m")
    case (Some i)
    with c rep show ?thesis by (simp add: merge_event_item_def)
  next
    case None
    have "fk mb_item_id (members ?m) (item_ids ?m)"
      using merged_ok [OF assms(1,2), of ss] by (simp add: db_ok_defs)
    with None have "member_items t ?m = {}" by (simp add: representative_None_iff)
    then have "filter (\<lambda>m. mb_cluster_id m = t) (members ?m) = []"
      by (simp add: member_items_def filter_empty_conv)
    with c rep None show ?thesis by (simp add: merge_event_item_def)
  qed
qed

subsection \<open>The whole merge\<close>

definition merge_result :: "int \<Rightarrow> int list \<Rightarrow> db \<Rightarrow> bool \<Rightarrow> cluster_merge_result" where
  "merge_result t ss d recorded =
     \<lparr> cm_target_cluster_id = t, cm_source_cluster_ids = ss,
       cm_moved_member_count = length (filter (\<lambda>m. mb_cluster_id m \<in> set ss) (members d)),
       cm_removed_cluster_count = length (filter (\<lambda>c. cl_id c \<in> set ss) (clusters d)),
       cm_recorded_event = recorded \<rparr>"

definition with_merge_event :: "int \<Rightarrow> int list \<Rightarrow> int \<Rightarrow> db \<Rightarrow> db" where
  "with_merge_event t ss i d =
     d\<lparr> decisions := decisions d @
          [(merge_event t ss i)\<lparr> dec_id := sql_next_id (map dec_id (decisions d)),
                                 dec_created_at := current_timestamp d \<rparr>] \<rparr>"

lemma with_merge_event_fields [simp]:
  "items (with_merge_event t ss i d) = items d"
  "clusters (with_merge_event t ss i d) = clusters d"
  "members (with_merge_event t ss i d) = members d"
  "member_items c (with_merge_event t ss i d) = member_items c d"
  "clustering (with_merge_event t ss i d) = clustering d"
  by (simp_all add: with_merge_event_def clustering_def fun_eq_iff)

lemma no_sources_iff:
  assumes "db_ok d"
  shows "filter (\<lambda>m. mb_cluster_id m \<in> set ss) (members d) = [] \<and>
      filter (\<lambda>c. cl_id c \<in> set ss) (clusters d) = [] \<longleftrightarrow> set ss \<inter> cluster_ids d = {}"
  using assms by (auto simp: filter_empty_conv db_ok_defs fk_def)

lemma merge_session_eq:
  assumes "db_ok d" and "t \<in> cluster_ids d" and "t \<notin> set ss"
  shows "merge_session t ss d =
    (if set ss \<inter> cluster_ids d = {} then (Inr (merge_result t ss d False), d)
     else case representative t (merged t ss d) of
       None \<Rightarrow> (Inl (ValueError ''cannot record merge event without target cluster item''),
                 merged t ss d)
     | Some i \<Rightarrow> (Inr (merge_result t ss d True), with_merge_event t ss i (merged t ss d)))"
proof (cases "set ss \<inter> cluster_ids d = {}")
  case True
  with assms(2) no_sources_iff [OF assms(1), of ss] show ?thesis
    by (simp add: merge_session_def merge_result_def Let_def)
next
  case False
  let ?m = "merged t ss d"
  have some: "\<not> (length (filter (\<lambda>m. mb_cluster_id m \<in> set ss) (members d)) = 0 \<and>
      length (filter (\<lambda>c. cl_id c \<in> set ss) (clusters d)) = 0)"
    using False no_sources_iff [OF assms(1), of ss] by simp
  have insert: "insert_decision (merge_event t ss i) ?m = (Inr n, with_merge_event t ss i ?m)"
    if "representative t ?m = Some i" and "n = sql_next_id (map dec_id (decisions ?m))" for i n
  proof -
    have "i \<in> item_ids ?m"
      using representative_member [OF that(1)] merged_ok [OF assms(1,2), of ss]
      by (auto simp: member_items_iff db_ok_defs fk_def)
    moreover have "t \<in> cluster_ids ?m" unfolding merged_cluster_ids using assms(2,3) by blast
    ultimately show ?thesis
      by (simp add: insert_decision_def merge_event_def with_merge_event_def that(2) Let_def)
  qed
  have "merge_session t ss d =
      (case merge_event_item t ?m of
         None \<Rightarrow> (Inl (ValueError ''cannot record merge event without target cluster item''), ?m)
       | Some item \<Rightarrow> act_bind (insert_decision (merge_event t ss item))
           (\<lambda>_. act_return (merge_result t ss d True)) ?m)"
    unfolding merge_session_def merge_result_def merged_def Let_def using assms(2) some by auto
  also have "\<dots> = (case representative t ?m of
       None \<Rightarrow> (Inl (ValueError ''cannot record merge event without target cluster item''), ?m)
     | Some i \<Rightarrow> (Inr (merge_result t ss d True), with_merge_event t ss i ?m))"
    unfolding merge_event_item_merged [OF assms]
    by (simp add: insert act_bind_def act_return_def split: option.split)
  finally show ?thesis using False by simp
qed

lemma with_merge_event_ok:
  assumes "db_ok d" and "i \<in> item_ids d" and "t \<in> cluster_ids d"
  shows "db_ok (with_merge_event t ss i d)"
  using assms by (simp add: with_merge_event_def merge_event_def db_ok_defs table_simps)

lemma reps_ok_merged:
  assumes "store_ok d" and "t \<in> cluster_ids d" and "t \<notin> set ss"
  shows "reps_ok (merged t ss d)" and "\<exists>i. representative t (merged t ss d) = Some i"
proof -
  let ?m = "merged t ss d"
  have ok: "db_ok d" and reps: "reps_ok d" using assms(1) by (simp_all add: store_ok_def)
  have "db_ok ?m" by (rule merged_ok [OF ok assms(2)])
  then have fkm: "fk mb_item_id (members ?m) (item_ids ?m)" by (simp add: db_ok_defs)
  from assms(2) obtain c0 where "c0 \<in> set (clusters d)" "cl_id c0 = t" by auto
  with reps have "member_items t d \<noteq> {}" by (auto simp: reps_ok_def represented_nonempty)
  then have "member_items t ?m \<noteq> {}" by (simp add: merged_member_items [OF ok assms(2,3)])
  then show rep: "\<exists>i. representative t ?m = Some i"
    using representative_None_iff [OF fkm] by fastforce
  show "reps_ok ?m" unfolding reps_ok_def
  proof
    fix c assume c: "c \<in> set (clusters ?m)"
    show "represented ?m c"
    proof (cases "cl_id c = t")
      case True
      with merged_target_row [OF ok assms(2,3) c] rep show ?thesis
        by (auto simp: represented_iff dest: representative_member)
    next
      case False
      then have old: "c \<in> set (clusters d)" "cl_id c \<notin> set ss"
        using c by (auto simp: merged_def recompute_other_row)
      with reps have "represented d c" by (simp add: reps_ok_def)
      with False old(2) show ?thesis
        by (simp add: represented_iff merged_member_items [OF ok assms(2,3)])
    qed
  qed
qed

lemma merge_clusters_unfold:
  assumes "normalize_cluster_ids vs = Inr (t # ss)" and "ss \<noteq> []"
  shows "merge_clusters vs d = transaction (merge_session t ss) d" and "t \<notin> set ss"
proof -
  show "merge_clusters vs d = transaction (merge_session t ss) d"
    using assms
    by (cases ss) (simp_all add: merge_clusters_def act_simps MIN_MERGE_CLUSTER_COUNT_def)
  show "t \<notin> set ss" using normalize_cluster_ids_props(2) [OF assms(1)] by simp
qed

text \<open>The outcome of a merge of at least two ids on a state that satisfies the invariant.\<close>

lemma merge_clusters_outcome:
  assumes "store_ok d" and "normalize_cluster_ids vs = Inr (t # ss)" and "ss \<noteq> []"
    and "t \<in> cluster_ids d"
  obtains (nothing) "set ss \<inter> cluster_ids d = {}"
      "merge_clusters vs d = (Inr (merge_result t ss d False), d)"
  | (merged) i where "set ss \<inter> cluster_ids d \<noteq> {}"
      "representative t (merged t ss d) = Some i"
      "merge_clusters vs d =
         (Inr (merge_result t ss d True), with_merge_event t ss i (merged t ss d))"
proof -
  note u = merge_clusters_unfold [OF assms(2,3)]
  have ok: "db_ok d" using assms(1) by (simp add: store_ok_def)
  obtain i where i: "representative t (merged t ss d) = Some i"
    using reps_ok_merged(2) [OF assms(1,4) u(2)] by blast
  show thesis
  proof (cases "set ss \<inter> cluster_ids d = {}")
    case True
    then show thesis
      by (rule nothing) (use True in \<open>simp add: u merge_session_eq [OF ok assms(4) u(2)] transaction_def\<close>)
  next
    case False
    then show thesis
      by (rule merged [OF _ i])
        (use False i in \<open>simp add: u merge_session_eq [OF ok assms(4) u(2)] transaction_def\<close>)
  qed
qed

lemma merge_event_state_ok:
  assumes "store_ok d" and "t \<in> cluster_ids d" and "t \<notin> set ss"
    and "representative t (merged t ss d) = Some i"
  shows "store_ok (with_merge_event t ss i (merged t ss d))"
proof -
  let ?m = "merged t ss d"
  have ok: "db_ok ?m" using assms merged_ok by (simp add: store_ok_def)
  have "i \<in> item_ids ?m"
    using representative_member [OF assms(4)] ok by (auto simp: member_items_iff db_ok_defs fk_def)
  moreover have "t \<in> cluster_ids ?m" unfolding merged_cluster_ids using assms(2,3) by blast
  ultimately have "db_ok (with_merge_event t ss i ?m)" using ok by (simp add: with_merge_event_ok)
  moreover have "reps_ok (with_merge_event t ss i ?m)"
    using reps_ok_merged(1) [OF assms(1-3)] by (simp add: reps_ok_def represented_iff)
  ultimately show ?thesis by (simp add: store_ok_def)
qed

lemma abs_merge_nothing:
  assumes "db_ok d" and "t \<in> cluster_ids d" and "set ss \<inter> cluster_ids d = {}"
  shows "abs_merge t (set ss) (clustering d) = clustering d"
proof
  fix c
  have "member_items s d = {}" if "s \<in> set ss" for s
    using assms(3) that member_items_no_cluster [OF assms(1)] by blast
  then have "abs_items (clustering d) (insert t (set ss)) = member_items t d"
    by (simp add: abs_items_clustering [OF assms(1)])
  then show "abs_merge t (set ss) (clustering d) c = clustering d c"
    using assms(2,3) by (auto simp: abs_merge_def clustering_def)
qed

lemma length_filter_keys:
  assumes "pk k rows" shows "length (filter (\<lambda>r. k r \<in> S) rows) = card (S \<inter> k ` set rows)"
proof -
  have "distinct (map k (filter (\<lambda>r. k r \<in> S) rows))"
    using assms by (simp add: pk_def distinct_map_filter)
  then have "length (filter (\<lambda>r. k r \<in> S) rows) = card (set (map k (filter (\<lambda>r. k r \<in> S) rows)))"
    by (metis distinct_card length_map)
  also have "set (map k (filter (\<lambda>r. k r \<in> S) rows)) = S \<inter> k ` set rows" by auto
  finally show ?thesis .
qed

section \<open>Properties\<close>

text \<open>
  C1. Merging clusters implements the abstract merge: on a database that satisfies the
  invariant, for at least two distinct ids of which the smallest exists, the merge returns; the
  smallest id then holds exactly the union of the items of all given clusters, the other given
  ids no longer exist, every other cluster has the same items, no item is added or removed, the
  reported count of removed clusters is the number of source clusters that existed, and the
  invariant holds again.
\<close>

theorem merge_clusters_refines:
  assumes "store_ok d" and "normalize_cluster_ids vs = Inr (t # ss)" and "ss \<noteq> []"
    and "t \<in> cluster_ids d"
  shows "\<exists>r d'. merge_clusters vs d = (Inr r, d') \<and> store_ok d' \<and> items d' = items d \<and>
     clustering d' = abs_merge t (set ss) (clustering d) \<and>
     cm_target_cluster_id r = t \<and> cm_source_cluster_ids r = ss \<and>
     cm_removed_cluster_count r = card (set ss \<inter> cluster_ids d)"
proof -
  have ok: "db_ok d" using assms(1) by (simp add: store_ok_def)
  note nin = merge_clusters_unfold(2) [OF assms(2,3)]
  have count: "cm_removed_cluster_count (merge_result t ss d b) = card (set ss \<inter> cluster_ids d)" for b
    using ok length_filter_keys [of cl_id "clusters d" "set ss"]
    by (simp add: merge_result_def db_ok_defs)
  from assms show ?thesis
  proof (cases rule: merge_clusters_outcome)
    case nothing
    with assms(1) count abs_merge_nothing [OF ok assms(4)] show ?thesis
      by (simp add: merge_result_def)
  next
    case (merged i)
    with count merge_event_state_ok [OF assms(1,4) nin] merged_clustering [OF ok assms(4) nin]
    show ?thesis by (simp add: merge_result_def)
  qed
qed

theorem merge_clusters_refines_witness:
  "store_ok sample_db \<and> (\<exists>r d'. merge_clusters [PInt 2, PInt 1, PInt 2] sample_db = (Inr r, d') \<and>
     clustering d' 1 = Some {1, 2, 3} \<and> clustering d' 2 = None)"
proof -
  have ids: "normalize_cluster_ids [PInt 2, PInt 1, PInt 2] = Inr (1 # [2])" by code_simp
  have target: "1 \<in> cluster_ids sample_db" by code_simp
  have items: "abs_items (clustering sample_db) {1, 2} = {1, 2, 3}"
  proof -
    have "db_ok sample_db" using sample_db_ok by (simp add: store_ok_def)
    moreover have "member_items 1 sample_db = {1}" "member_items 2 sample_db = {2, 3}"
      by code_simp+
    ultimately show ?thesis by (auto simp: abs_items_clustering)
  qed
  from merge_clusters_refines [OF sample_db_ok ids _ target] sample_db_ok items show ?thesis
    by (auto simp: abs_merge_def)
qed

text \<open>
  After a merge that removes at least one cluster, the target's stored representative is the
  item of the merged cluster that comes first in the ranking (canonical URL, longer text, known
  and earlier publication, smaller id), and the last row of the decision log is the merge event,
  filed under that item and the target cluster.
\<close>

lemma merge_clusters_representative:
  assumes "store_ok d" and "normalize_cluster_ids vs = Inr (t # ss)" and "ss \<noteq> []"
    and "t \<in> cluster_ids d" and "set ss \<inter> cluster_ids d \<noteq> {}"
    and "merge_clusters vs d = (Inr r, d')"
  shows "\<exists>c \<in> set (clusters d'). \<exists>i \<in> set (items d'). cl_id c = t \<and>
     cl_representative c = Some (it_id i) \<and> it_id i \<in> member_items t d' \<and>
     (\<forall>j \<in> set (items d'). it_id j \<in> member_items t d' \<longrightarrow> rank_key i \<le> rank_key j) \<and>
     dec_item_id (last (decisions d')) = it_id i \<and>
     dec_cluster_id (last (decisions d')) = Some t \<and> cm_recorded_event r"
proof -
  let ?m = "merged t ss d"
  have ok: "db_ok d" using assms(1) by (simp add: store_ok_def)
  note nin = merge_clusters_unfold(2) [OF assms(2,3)]
  from assms(1-4) obtain i where i: "representative t ?m = Some i"
      and r: "r = merge_result t ss d True" and d': "d' = with_merge_event t ss i ?m"
    by (cases rule: merge_clusters_outcome) (use assms(5,6) in auto)
  obtain it where it: "rk.best (cluster_items t ?m) = Some it" "it_id it = i"
    using i by (auto simp: representative_best)
  have "t \<in> cluster_ids ?m" unfolding merged_cluster_ids using assms(4) nin by blast
  then obtain c where c: "c \<in> set (clusters ?m)" "cl_id c = t" by auto
  have least: "it \<in> set (cluster_items t ?m)" "\<forall>j \<in> set (cluster_items t ?m). rank_key it \<le> rank_key j"
    using rk.best_least [OF it(1)] by simp_all
  have "cl_representative c = Some (it_id it)"
    using merged_target_row [OF ok assms(4) nin c] i it(2) by simp
  moreover have "dec_item_id (last (decisions d')) = i" "dec_cluster_id (last (decisions d')) = Some t"
    by (simp_all add: d' with_merge_event_def merge_event_def)
  ultimately show ?thesis
    using c(2) least it(2)
    by (intro bexI [of _ c] bexI [of _ it]) (simp_all add: d' r merge_result_def cluster_items_set c(1))
qed

lemma merge_clusters_representative_witness:
  "\<exists>r d'. merge_clusters [PInt 1, PInt 2] sample_db = (Inr r, d') \<and> cm_recorded_event r \<and>
     (\<exists>c \<in> set (clusters d'). cl_id c = 1)"
proof -
  have ids: "normalize_cluster_ids [PInt 1, PInt 2] = Inr (1 # [2])" by code_simp
  have target: "1 \<in> cluster_ids sample_db" and source: "set [2] \<inter> cluster_ids sample_db \<noteq> {}"
    by code_simp+
  obtain r d' where m: "merge_clusters [PInt 1, PInt 2] sample_db = (Inr r, d')"
    using sample_db_ok ids _ target by (rule merge_clusters_outcome) simp
  from merge_clusters_representative [OF sample_db_ok ids _ target source m] m show ?thesis by auto
qed

text \<open>
  The value that a merge returns, on every branch: a non-integer id raises \<open>TypeError\<close>, fewer
  than two distinct ids raise \<open>ValueError\<close>, and so does a missing target; otherwise the result
  names the smallest id as the target and the other ids, in increasing order, as the sources,
  counts the source memberships and source clusters, and says that an event was recorded exactly
  when one of the sources existed. Whenever it raises, the database is unchanged.
\<close>

lemma merge_clusters_result:
  assumes "store_ok d"
  shows "(isl (fst (merge_clusters vs d)) \<longrightarrow> snd (merge_clusters vs d) = d) \<and>
    fst (merge_clusters vs d) =
     (let ids = sorted_list_of_set {i. PInt i \<in> set vs}; t = hd ids; ss = tl ids in
      if \<exists>v \<in> set vs. \<forall>i. v \<noteq> PInt i then Inl (TypeError ''missing integer'')
      else if length ids < 2 then Inl (ValueError ''need at least two clusters to merge'')
      else if t \<notin> cluster_ids d then Inl (ValueError ''target cluster does not exist'')
      else Inr (merge_result t ss d (set ss \<inter> cluster_ids d \<noteq> {})))"
proof (cases "normalize_cluster_ids vs")
  case (Inl e)
  then show ?thesis
    using normalize_cluster_ids_Inl [of vs e] by (simp add: merge_clusters_def act_simps)
next
  case (Inr ids)
  note props = normalize_cluster_ids_props [OF Inr]
  have ids: "sorted_list_of_set {i. PInt i \<in> set vs} = ids"
    using props(1-3) by (metis sorted_list_of_set.idem_if_sorted_distinct)
  have ints: "\<not> (\<exists>v \<in> set vs. \<forall>i. v \<noteq> PInt i)" using props(4) by blast
  show ?thesis
  proof (cases "length ids < 2")
    case True
    with Inr ids ints show ?thesis
      by (simp add: merge_clusters_def act_simps MIN_MERGE_CLUSTER_COUNT_def Let_def)
  next
    case False
    then obtain t ss where ts: "ids = t # ss" "ss \<noteq> []"
      by (cases ids; cases "tl ids") auto
    note u = merge_clusters_unfold [OF Inr [unfolded ts(1)] ts(2)]
    show ?thesis
    proof (cases "t \<in> cluster_ids d")
      case True
      from assms Inr [unfolded ts(1)] ts(2) True show ?thesis
        by (cases rule: merge_clusters_outcome)
          (use ints True ts False in \<open>simp_all add: ids Let_def\<close>)
    next
      case absent: False
      then have "merge_clusters vs d = (Inl (ValueError ''target cluster does not exist''), d)"
        by (simp add: u transaction_def merge_session_def)
      with absent False ts ints show ?thesis by (simp add: ids Let_def)
    qed
  qed
qed

lemma merge_clusters_result_witness:
  "store_ok sample_db \<and>
   fst (merge_clusters [PInt 9, PInt 1] sample_db) =
     Inr \<lparr> cm_target_cluster_id = 1, cm_source_cluster_ids = [9], cm_moved_member_count = 0,
           cm_removed_cluster_count = 0, cm_recorded_event = False \<rparr>"
proof -
  have keys: "{i. PInt i \<in> set [PInt 9, PInt 1]} = set [1, 9]" by auto
  have ints: "\<not> (\<exists>v \<in> set [PInt 9, PInt 1]. \<forall>i. v \<noteq> PInt i)" by auto
  have ids: "sorted_list_of_set {i. PInt i \<in> set [PInt 9, PInt 1]} = [1, 9]"
    unfolding keys by (rule sorted_list_of_set.idem_if_sorted_distinct) simp_all
  have c: "1 \<in> cluster_ids sample_db" "set [9] \<inter> cluster_ids sample_db = {}"
    "merge_result 1 [9] sample_db False = \<lparr> cm_target_cluster_id = 1, cm_source_cluster_ids = [9],
       cm_moved_member_count = 0, cm_removed_cluster_count = 0, cm_recorded_event = False \<rparr>"
    by code_simp+
  from merge_clusters_result [OF sample_db_ok, of "[PInt 9, PInt 1]"] show ?thesis
    unfolding ids Let_def using ints c sample_db_ok by simp
qed

subsection \<open>Assignment\<close>

lemma assign_new_eq:
  assumes "db_ok d" and "item \<in> item_ids d" and "key \<notin> cl_key ` set (clusters d)"
    and "n = sql_next_id (map cl_id (clusters d))"
  shows "assign_item_to_cluster key item None d =
    (Inr \<lparr> ca_cluster_id = n, ca_created_cluster = True, ca_created_membership = True \<rparr>,
     d\<lparr> clusters := clusters d @
           [\<lparr> cl_id = n, cl_key = key, cl_representative = Some item,
              cl_created_at = current_timestamp d, cl_updated_at = current_timestamp d \<rparr>],
        members := members d @ [member_row n item d] \<rparr>)"
proof -
  have "n \<notin> cluster_ids d" using assms(4) by simp
  then have "\<not> has_member n item d"
    using member_items_no_cluster [OF assms(1)] by (auto simp: has_member_iff)
  then show ?thesis
    using assms(2-4)
    by (simp add: assign_item_to_cluster_def create_cluster_def add_member_def act_simps Let_def
        has_member_def member_row_def current_timestamp_def)
qed

lemma assign_new_fail:
  "key \<in> cl_key ` set (clusters d) \<Longrightarrow>
   assign_item_to_cluster key item None d = (Inl (IntegrityError ''UNIQUE constraint failed''), d)"
  "key \<notin> cl_key ` set (clusters d) \<Longrightarrow> item \<notin> item_ids d \<Longrightarrow>
   assign_item_to_cluster key item None d = (Inl (IntegrityError ''FOREIGN KEY constraint failed''), d)"
  by (simp_all add: assign_item_to_cluster_def create_cluster_def act_simps Let_def)

lemma assign_matched_eq:
  "assign_item_to_cluster key item (Some c) d =
    (if has_member c item d
     then (Inr \<lparr> ca_cluster_id = c, ca_created_cluster = False, ca_created_membership = False \<rparr>, d)
     else if c \<in> cluster_ids d \<and> item \<in> item_ids d
     then (Inr \<lparr> ca_cluster_id = c, ca_created_cluster = False, ca_created_membership = True \<rparr>,
           d\<lparr> members := members d @ [member_row c item d] \<rparr>)
     else (Inl (IntegrityError ''FOREIGN KEY constraint failed''), d))"
  by (simp add: assign_item_to_cluster_def add_member_def act_simps)

lemma reps_ok_append_member:
  assumes "reps_ok d" and "c \<in> cluster_ids d"
  shows "reps_ok (d\<lparr>members := members d @ [member_row c item d']\<rparr>)"
  using assms(1) by (auto simp: reps_ok_def represented_iff member_items_append)

lemma assign_new_ok:
  assumes "store_ok d" and "assign_item_to_cluster key item None d = (r, d')"
  shows "store_ok d'"
proof -
  have ok: "db_ok d" and reps: "reps_ok d" using assms(1) by (simp_all add: store_ok_def)
  have ok': "db_ok d'"
    using preserves_result [OF assign_item_to_cluster_ok ok assms(2)] .
  show ?thesis
  proof (cases "item \<in> item_ids d \<and> key \<notin> cl_key ` set (clusters d)")
    case True
    let ?n = "sql_next_id (map cl_id (clusters d))"
    let ?row = "\<lparr> cl_id = ?n, cl_key = key, cl_representative = Some item,
        cl_created_at = current_timestamp d, cl_updated_at = current_timestamp d \<rparr>"
    have d': "d' = d\<lparr> clusters := clusters d @ [?row], members := members d @ [member_row ?n item d] \<rparr>"
      using assign_new_eq [OF ok _ _ refl, of item key] True assms(2) by simp
    have grow: "member_items c d' = (if c = ?n then insert item (member_items c d) else member_items c d)" for c
      unfolding d' using member_items_append [of c "d\<lparr>clusters := clusters d @ [?row]\<rparr>" ?n item d]
      by simp
    have "represented d' c" if "c \<in> set (clusters d')" for c
    proof (cases "c = ?row")
      case True then show ?thesis by (simp add: represented_iff grow)
    next
      case False
      with that have "represented d c" using reps by (auto simp: d' reps_ok_def)
      then show ?thesis by (auto simp: represented_iff grow)
    qed
    with ok' show ?thesis by (simp add: store_ok_def reps_ok_def)
  next
    case False
    then have "d' = d" using assms(2) assign_new_fail [of key d item] by auto
    with assms(1) show ?thesis by simp
  qed
qed

lemma assign_item_to_cluster_store_ok:
  "preserves store_ok (assign_item_to_cluster key item matched)"
proof (cases matched)
  case None
  then show ?thesis by (intro preservesI) (metis assign_new_ok prod.collapse)
next
  case (Some c)
  then show ?thesis
    by (intro preservesI)
      (auto simp: assign_matched_eq store_ok_def db_ok_append_member reps_ok_append_member)
qed

lemma merge_clusters_store_ok: "preserves store_ok (merge_clusters vs)"
proof (rule preservesI)
  fix d assume d: "store_ok d"
  show "store_ok (snd (merge_clusters vs d))"
  proof (cases "isl (fst (merge_clusters vs d))")
    case True
    then obtain e d' where m: "merge_clusters vs d = (Inl e, d')"
      by (metis isl_def prod.collapse)
    have "d' = d"
    proof (cases "normalize_cluster_ids vs")
      case (Inl e')
      with m show ?thesis by (simp add: merge_clusters_def act_simps)
    next
      case (Inr ids)
      with m show ?thesis
        by (auto simp: merge_clusters_def act_bind_def act_lift_def act_raise_def
            split: if_splits dest: transaction_Inl)
    qed
    with d m show ?thesis by simp
  next
    case False
    then obtain r d' where m: "merge_clusters vs d = (Inr r, d')"
      by (metis isl_def prod.collapse sum.exhaust_sel sum.disc(1))
    then obtain ids where ids: "normalize_cluster_ids vs = Inr ids" "\<not> length ids < 2"
        "transaction (merge_session (hd ids) (tl ids)) d = (Inr r, d')"
      by (auto simp: merge_clusters_def act_bind_def act_lift_def act_raise_def
          MIN_MERGE_CLUSTER_COUNT_def split: if_splits sum.splits)
    then obtain t ss where ts: "ids = t # ss" "ss \<noteq> []" by (cases ids; cases "tl ids") auto
    then have t: "t \<in> cluster_ids d"
      using ids(3) by (auto simp: transaction_Inr merge_session_def split: if_splits)
    note norm = ids(1) [unfolded ts(1)]
    from d norm ts(2) t show ?thesis
      by (cases rule: merge_clusters_outcome)
        (use d merge_event_state_ok [OF d t merge_clusters_unfold(2) [OF norm ts(2)]] in auto)
  qed
qed

text \<open>
  C6. Assigning an existing item refines the abstract assignment: without a match a new cluster,
  whose id no other cluster has, is created with the item as its only member; with the id of an
  existing cluster the item joins it and every other cluster keeps its items, and the result
  reports a new membership exactly when the item was not in the cluster before. With an id that
  no cluster has, the call raises an integrity error and the database is unchanged.
\<close>

theorem assign_item_to_cluster_refines:
  assumes "db_ok d" and "item \<in> item_ids d" and "key \<notin> cl_key ` set (clusters d)"
  shows "(case assign_item_to_cluster key item matched d of
      (Inr r, d') \<Rightarrow>
        clustering d' = abs_assign (ca_cluster_id r) item (clustering d) \<and>
        (case matched of
           None \<Rightarrow> ca_cluster_id r \<notin> cluster_ids d \<and> ca_created_cluster r \<and> ca_created_membership r
         | Some c \<Rightarrow> c \<in> cluster_ids d \<and> ca_cluster_id r = c \<and> \<not> ca_created_cluster r \<and>
             ca_created_membership r = (item \<notin> member_items c d))
    | (Inl e, d') \<Rightarrow> exn_class e = ''IntegrityError'' \<and> d' = d \<and>
        (\<exists>c. matched = Some c \<and> c \<notin> cluster_ids d))"
proof (cases matched)
  case None
  define n where "n = sql_next_id (map cl_id (clusters d))"
  have n: "n \<notin> cluster_ids d" by (simp add: n_def)
  have "mb_cluster_id m \<noteq> n" if "m \<in> set (members d)" for m
    using assms(1) n that by (auto simp: db_ok_defs fk_def)
  with n show ?thesis
    unfolding None assign_new_eq [OF assms n_def]
    by (auto simp: clustering_def abs_assign_def fun_eq_iff member_items_iff member_row_def)
next
  case (Some c)
  show ?thesis
  proof (cases "c \<in> cluster_ids d")
    case True
    have "clustering d = abs_assign c item (clustering d)" if "item \<in> member_items c d"
      using that True by (auto simp: clustering_def abs_assign_def insert_absorb)
    moreover have "clustering (d\<lparr>members := members d @ [member_row c item d]\<rparr>) =
        abs_assign c item (clustering d)"
      using True by (simp add: clustering_def abs_assign_def member_items_append fun_eq_iff)
    ultimately show ?thesis
      using True assms(2) by (simp add: Some assign_matched_eq has_member_iff)
  next
    case False
    then show ?thesis
      using member_items_no_cluster [OF assms(1) False]
      by (simp add: Some assign_matched_eq has_member_iff)
  qed
qed

theorem assign_item_to_cluster_refines_witness:
  "clustering (snd (assign_item_to_cluster ''new'' 2 None sample_db)) 3 = Some {2}"
proof -
  have hyps: "db_ok sample_db" "2 \<in> item_ids sample_db" "''new'' \<notin> cl_key ` set (clusters sample_db)"
    by code_simp+
  have res: "fst (assign_item_to_cluster ''new'' 2 None sample_db) =
      Inr \<lparr> ca_cluster_id = 3, ca_created_cluster = True, ca_created_membership = True \<rparr>"
    by code_simp
  have "clustering sample_db 3 = None" by code_simp
  with assign_item_to_cluster_refines [OF hyps, of None] res show ?thesis
    by (cases "assign_item_to_cluster ''new'' 2 None sample_db") (simp add: abs_assign_def)
qed

end
