(* ===== verification/Item_Removal.thy ===== *)
theory Item_Removal
  imports Clusters
begin

text \<open>
  What the retention job (\<open>tca/ops/prune_job.py\<close>) and the channel purge
  (\<open>tca/storage/channels_repo.py\<close>) have in common: items are deleted, the representatives of the
  clusters they were in are recomputed, and the clusters left without members are deleted. For any
  predicate on items, the lemmas show the effect on the clustering (\<open>abs_prune\<close>) and that the
  store's invariant holds again at the end.
\<close>

definition abs_prune :: "int set \<Rightarrow> clustering \<Rightarrow> clustering" where
  "abs_prune gone f =
     (\<lambda>c. case f c of None \<Rightarrow> None
         | Some S \<Rightarrow> if S - gone = {} then None else Some (S - gone))"

definition removed_ids :: "(item_row \<Rightarrow> bool) \<Rightarrow> db \<Rightarrow> int set" where
  "removed_ids P d = it_id ` {i \<in> set (items d). P i}"

definition clusters_of_items :: "int set \<Rightarrow> db \<Rightarrow> int set" where
  "clusters_of_items ids d = mb_cluster_id ` set (filter (\<lambda>m. mb_item_id m \<in> ids) (members d))"

definition is_empty_cluster :: "db \<Rightarrow> cluster_row \<Rightarrow> bool" where
  "is_empty_cluster d c \<longleftrightarrow> \<not> (\<exists>m \<in> set (members d). mb_cluster_id m = cl_id c)"

lemma delete_raw_fields [simp]:
  "members (delete_raw_messages_where P d) = members d"
  "clusters (delete_raw_messages_where P d) = clusters d"
  "ingest_errors (delete_raw_messages_where P d) = ingest_errors d"
  "raw_messages (delete_raw_messages_where P d) = delete_where P (raw_messages d)"
  "member_items c (delete_raw_messages_where P d) = member_items c d"
  by (simp_all add: delete_raw_messages_where_def Let_def member_items_def)

lemma member_items_delete_items:
  "member_items c (delete_items_where P d) = member_items c d - it_id ` {i \<in> set (items d). P i}"
  by (rule set_eqI) (auto simp: member_items_iff delete_items_where_def Let_def)

lemma delete_items_clusters:
  "clusters (delete_items_where P d) =
   set_null cl_representative cl_representative_update (it_id ` {i \<in> set (items d). P i}) (clusters d)"
  by (simp add: delete_items_where_def Let_def)

lemma delete_items_cluster_ids [simp]: "cluster_ids (delete_items_where P d) = cluster_ids d"
  by (simp add: delete_items_clusters set_null_keeps)

lemma delete_items_unaffected_row:
  assumes "c \<in> set (clusters (delete_items_where P d))" and "reps_ok d"
    and "member_items (cl_id c) d \<inter> it_id ` {i \<in> set (items d). P i} = {}"
  shows "represented (delete_items_where P d) c"
proof -
  let ?gone = "it_id ` {i \<in> set (items d). P i}"
  obtain c0 where c0: "c0 \<in> set (clusters d)" "cl_id c = cl_id c0"
      "c = (if case cl_representative c0 of None \<Rightarrow> False | Some k \<Rightarrow> k \<in> ?gone
            then cl_representative_update (\<lambda>_. None) c0 else c0)"
    using assms(1) unfolding delete_items_clusters set_null_def update_where_def by auto
  obtain i where i: "cl_representative c0 = Some i" "i \<in> member_items (cl_id c0) d"
    using assms(2) c0(1) by (auto simp: reps_ok_def represented_iff)
  then have "i \<notin> ?gone" using assms(3) c0(2) by auto
  with i c0 show ?thesis by (simp add: represented_iff member_items_delete_items)
qed

lemma affected_iff:
  "c \<in> clusters_of_items E d \<longleftrightarrow> member_items c d \<inter> E \<noteq> {}"
  by (auto simp: clusters_of_items_def member_items_def)

lemma recompute_none [simp]: "recompute_representatives [] d = d"
  by (simp add: recompute_representatives_def update_where_def)

lemma delete_clusters_none: "filter P (clusters d) = [] \<Longrightarrow> delete_clusters_where P d = d"
  unfolding delete_clusters_where_def by (simp add: delete_where_none del: set_filter)

lemma is_empty_cluster_iff: "is_empty_cluster d c \<longleftrightarrow> member_items (cl_id c) d = {}"
  by (auto simp: is_empty_cluster_def member_items_def)

text \<open>From a store that satisfies the invariant to one that does again.\<close>

definition remove_items :: "(item_row \<Rightarrow> bool) \<Rightarrow> db \<Rightarrow> db" where
  "remove_items P d =
     (let d2 = delete_items_where P d;
          A = clusters_of_items (removed_ids P d) d;
          d3 = recompute_representatives (sorted_list_of_set A) d2 in
      delete_clusters_where (\<lambda>c. cl_id c \<in> A \<and> is_empty_cluster d3 c) d3)"

lemma finite_clusters_of_items [simp]: "finite (clusters_of_items E d)"
  by (simp add: clusters_of_items_def)

definition emptied_clusters :: "(item_row \<Rightarrow> bool) \<Rightarrow> db \<Rightarrow> int set" where
  "emptied_clusters P d =
     {c \<in> clusters_of_items (removed_ids P d) d. member_items c d - removed_ids P d = {}}"

definition recomputed :: "(item_row \<Rightarrow> bool) \<Rightarrow> db \<Rightarrow> db" where
  "recomputed P d =
     recompute_representatives (sorted_list_of_set (clusters_of_items (removed_ids P d) d))
       (delete_items_where P d)"

lemma recomputed_members: "member_items c (recomputed P d) = member_items c d - removed_ids P d"
  by (simp add: recomputed_def member_items_delete_items removed_ids_def)

lemma recomputed_ok: "db_ok d \<Longrightarrow> db_ok (recomputed P d)"
  by (simp add: recomputed_def recompute_representatives_ok delete_items_where_ok)

lemma recomputed_cluster_ids: "cluster_ids (recomputed P d) = cluster_ids d"
  unfolding recomputed_def recompute_cluster_ids by simp

lemma remove_items_eq:
  "remove_items P d =
   delete_clusters_where (\<lambda>c. cl_id c \<in> emptied_clusters P d) (recomputed P d)"
proof -
  have "(\<lambda>c. cl_id c \<in> clusters_of_items (removed_ids P d) d \<and> is_empty_cluster (recomputed P d) c) =
      (\<lambda>c. cl_id c \<in> emptied_clusters P d)"
    by (simp add: fun_eq_iff emptied_clusters_def is_empty_cluster_iff recomputed_members)
  then show ?thesis by (simp add: remove_items_def Let_def recomputed_def)
qed

lemma remove_items_db_ok: "db_ok d \<Longrightarrow> db_ok (remove_items P d)"
  by (simp add: remove_items_eq delete_clusters_where_ok recomputed_ok)

lemma remove_items_members:
  assumes "db_ok d"
  shows "member_items c (remove_items P d) = member_items c d - removed_ids P d"
proof -
  have "db_ok (recomputed P d)" by (rule recomputed_ok [OF assms])
  then have "pk cl_id (clusters (recomputed P d))"
    "fk mb_cluster_id (members (recomputed P d)) (cluster_ids (recomputed P d))"
    by (simp_all add: db_ok_defs)
  from member_items_delete_clusters [OF this, of c "emptied_clusters P d"] show ?thesis
    unfolding remove_items_eq by (simp add: recomputed_members emptied_clusters_def)
qed

lemma store_member_items_nonempty:
  assumes "store_ok d" and "c \<in> cluster_ids d" shows "member_items c d \<noteq> {}"
  using assms by (auto simp: store_ok_def reps_ok_def represented_nonempty)

lemma remove_items_cluster_ids:
  assumes "store_ok d"
  shows "c \<in> cluster_ids (remove_items P d) \<longleftrightarrow>
    c \<in> cluster_ids d \<and> member_items c d - removed_ids P d \<noteq> {}"
proof -
  have "c \<in> cluster_ids (remove_items P d) \<longleftrightarrow>
      c \<in> cluster_ids (recomputed P d) \<and> c \<notin> emptied_clusters P d"
    by (auto simp: remove_items_eq)
  also have "\<dots> \<longleftrightarrow> c \<in> cluster_ids d \<and> c \<notin> emptied_clusters P d"
    by (simp only: recomputed_cluster_ids)
  also have "\<dots> \<longleftrightarrow> c \<in> cluster_ids d \<and> member_items c d - removed_ids P d \<noteq> {}"
    using store_member_items_nonempty [OF assms]
    unfolding emptied_clusters_def affected_iff by blast
  finally show ?thesis .
qed

lemma remove_items_clustering:
  assumes "store_ok d"
  shows "clustering (remove_items P d) = abs_prune (removed_ids P d) (clustering d)"
proof
  fix c
  have ok: "db_ok d" using assms by (simp add: store_ok_def)
  show "clustering (remove_items P d) c = abs_prune (removed_ids P d) (clustering d) c"
    unfolding clustering_def abs_prune_def remove_items_cluster_ids [OF assms]
    by (simp add: remove_items_members [OF ok])
qed

lemma remove_items_store_ok:
  assumes "store_ok d" shows "store_ok (remove_items P d)"
proof -
  let ?A = "clusters_of_items (removed_ids P d) d"
  let ?d2 = "delete_items_where P d"
  let ?p = "remove_items P d"
  have ok: "db_ok d" and reps: "reps_ok d" using assms by (simp_all add: store_ok_def)
  have fk2: "fk mb_item_id (members ?d2) (item_ids ?d2)"
    using delete_items_where_ok [OF ok, of P] by (simp add: db_ok_defs)
  have same: "member_items c ?p = member_items c (recomputed P d)" for c
    by (simp add: remove_items_members [OF ok] recomputed_members)
  have "represented ?p c" if c: "c \<in> set (clusters ?p)" for c
  proof -
    have row: "c \<in> set (clusters (recomputed P d))"
      using c by (simp add: remove_items_eq)
    have left: "member_items (cl_id c) d - removed_ids P d \<noteq> {}"
      using c remove_items_cluster_ids [OF assms, of "cl_id c"] by auto
    have "represented (recomputed P d) c"
    proof (cases "cl_id c \<in> ?A")
      case True
      with row left recompute_represented(1) [OF fk2, of c "sorted_list_of_set ?A"] show ?thesis
        by (simp add: recomputed_def member_items_delete_items removed_ids_def)
    next
      case False
      then have old: "c \<in> set (clusters ?d2)"
        using row by (simp add: recomputed_def recompute_other_row)
      from False have "member_items (cl_id c) d \<inter> it_id ` {i \<in> set (items d). P i} = {}"
        by (simp add: affected_iff removed_ids_def)
      from delete_items_unaffected_row [OF old reps this] show ?thesis
        by (simp add: represented_iff recomputed_members member_items_delete_items removed_ids_def)
    qed
    then show ?thesis by (simp add: represented_iff same)
  qed
  then show ?thesis using remove_items_db_ok [OF ok] by (simp add: store_ok_def reps_ok_def)
qed

lemma delete_raw_store_ok: "store_ok d \<Longrightarrow> store_ok (delete_raw_messages_where P d)"
  by (simp add: store_ok_def delete_raw_messages_where_ok reps_ok_def represented_iff)

end
