(* ===== verification/Settings.thy ===== *)
theory Settings
  imports Samples
begin

text \<open>
  \<open>tca/storage/settings_repo.py\<close>, \<open>tca/storage/settings_seed.py\<close>, \<open>tca/config/resolution.py\<close>
  (the global horizon) and \<open>tca/api/routes/settings.py\<close>. The table is a key-value store of JSON
  documents. The locale \<open>kv_store\<close> is the contract its clients rely on; it is interpreted on the
  repository's operations, and the seeding result is derived inside it.
\<close>

section \<open>Records and errors\<close>

record setting_record =
  sr_key :: string
  sr_value :: pyobj

abbreviation SettingAlreadyExistsError :: exn where
  "SettingAlreadyExistsError \<equiv> Exn ''SettingAlreadyExistsError'' ''Setting already exists for key''"

abbreviation SettingValueEncodeError :: exn where
  "SettingValueEncodeError \<equiv> Exn ''SettingValueEncodeError'' ''Setting value is not JSON-serializable''"

abbreviation SettingValueDecodeError :: exn where
  "SettingValueDecodeError \<equiv>
     Exn ''SettingValueDecodeError'' ''Stored setting value is not valid JSON payload''"

text \<open>
  Values have the type \<open>JSONValue\<close> of the source, whose objects have text keys. \<open>JText v\<close> is the
  compact text that the encoder writes for \<open>v\<close>, the only writer of the column.
\<close>

definition encode_value_json :: "pyobj \<Rightarrow> jtext res" where
  "encode_value_json v =
     (case json_dumps v of None \<Rightarrow> Inl SettingValueEncodeError | Some t \<Rightarrow> Inr t)"

definition decode_value_json :: "jtext \<Rightarrow> pyobj res" where
  "decode_value_json t =
     (case json_loads t of
        None \<Rightarrow> Inl SettingValueDecodeError
      | Some v \<Rightarrow> if is_json_value v then Inr v else Inl SettingValueDecodeError)"

text \<open>Both columns are \<open>NOT NULL\<close> texts, so the type tests of \<open>_decode_row\<close> succeed.\<close>

definition setting_decode_row :: "setting_row \<Rightarrow> setting_record res" where
  "setting_decode_row r =
     res_bind (decode_value_json (st_value_json r))
       (\<lambda>v. Inr \<lparr> sr_key = st_key r, sr_value = v \<rparr>)"

section \<open>The repository\<close>

definition insert_setting :: "string \<Rightarrow> jtext \<Rightarrow> (db, setting_row) act" where
  "insert_setting key enc d =
     (let row = \<lparr> st_id = sql_next_id (map st_id (settings d)), st_key = key, st_value_json = enc,
                  st_updated_at = current_timestamp d \<rparr> in
      if key \<in> st_key ` set (settings d)
      then (Inl (IntegrityError ''UNIQUE constraint failed: settings.key''), d)
      else (Inr row, d\<lparr> settings := settings d @ [row] \<rparr>))"

definition is_duplicate_key_integrity_error :: "exn \<Rightarrow> bool" where
  "is_duplicate_key_integrity_error e \<longleftrightarrow>
     exn_class e = ''IntegrityError'' \<and>
     exn_message e = ''UNIQUE constraint failed: settings.key''"

definition setting_create :: "string \<Rightarrow> pyobj \<Rightarrow> (db, setting_record) act" where
  "setting_create key value =
     act_bind (act_lift (encode_value_json value)) (\<lambda>enc.
     act_bind
       (transaction
         (act_catch (insert_setting key enc)
           (\<lambda>e. act_raise (if is_duplicate_key_integrity_error e
                           then SettingAlreadyExistsError else e))))
       (\<lambda>row. act_lift (setting_decode_row row)))"

definition setting_get_by_key :: "string \<Rightarrow> db \<Rightarrow> setting_record option res" where
  "setting_get_by_key key d =
     res_bind (one_or_none (filter (\<lambda>r. st_key r = key) (settings d))) (\<lambda>row.
       case row of
         None \<Rightarrow> Inr None
       | Some r \<Rightarrow> res_bind (setting_decode_row r) (\<lambda>rec. Inr (Some rec)))"

definition set_value_json :: "jtext \<Rightarrow> db \<Rightarrow> setting_row \<Rightarrow> setting_row" where
  "set_value_json enc d r = r\<lparr> st_value_json := enc, st_updated_at := current_timestamp d \<rparr>"

definition setting_update :: "string \<Rightarrow> pyobj \<Rightarrow> (db, setting_record option) act" where
  "setting_update key value =
     act_bind (act_lift (encode_value_json value)) (\<lambda>enc.
     act_bind
       (transaction (\<lambda>d.
          let d' = d\<lparr> settings :=
                 update_where (\<lambda>r. st_key r = key) (set_value_json enc d) (settings d) \<rparr> in
          (one_or_none (filter (\<lambda>r. st_key r = key) (settings d')), d')))
       (\<lambda>row. case row of
          None \<Rightarrow> act_return None
        | Some r \<Rightarrow> act_lift (res_bind (setting_decode_row r) (\<lambda>rec. Inr (Some rec)))))"

definition setting_upsert :: "string \<Rightarrow> pyobj \<Rightarrow> (db, setting_record) act" where
  "setting_upsert key value =
     act_bind (act_lift (encode_value_json value)) (\<lambda>enc.
     act_bind
       (transaction (\<lambda>d.
          case find (\<lambda>r. st_key r = key) (settings d) of
            None \<Rightarrow> insert_setting key enc d
          | Some r \<Rightarrow>
             (Inr (set_value_json enc d r),
              d\<lparr> settings :=
                  update_where (\<lambda>r. st_key r = key) (set_value_json enc d) (settings d) \<rparr>)))
       (\<lambda>row. act_lift (setting_decode_row row)))"

definition setting_delete_if_value_matches :: "string \<Rightarrow> pyobj \<Rightarrow> (db, bool) act" where
  "setting_delete_if_value_matches key value =
     act_bind (act_lift (encode_value_json value)) (\<lambda>enc.
       transaction (\<lambda>d.
         let hit = (\<lambda>r. st_key r = key \<and> st_value_json r = enc) in
         (res_bind (one_or_none (filter hit (settings d))) (\<lambda>row. Inr (row \<noteq> None)),
          d\<lparr> settings := delete_where hit (settings d) \<rparr>)))"

definition setting_delete :: "string \<Rightarrow> (db, unit) act" where
  "setting_delete key =
     transaction (act_modify (\<lambda>d.
       d\<lparr> settings := delete_where (\<lambda>r. st_key r = key) (settings d) \<rparr>))"

section \<open>Seeding and the API\<close>

definition DYNAMIC_SETTINGS_DEFAULTS :: "(string \<times> pyobj) list" where
  "DYNAMIC_SETTINGS_DEFAULTS =
     [(''dedupe.default_horizon_minutes'', PInt 1440),
      (''dedupe.threshold.title_similarity'', PFloat (Finite (92 / 100))),
      (''scheduler.default_poll_interval_seconds'', PInt 300),
      (''scheduler.max_pages_per_poll'', PInt 5),
      (''scheduler.max_messages_per_poll'', PInt 500),
      (''retention.raw_messages_days'', PInt 30),
      (''retention.items_days'', PInt 365),
      (''retention.ingest_errors_days'', PInt 90),
      (''retention.dedupe_decisions_days'', PInt 180),
      (''backup.retain_count'', PInt 14),
      (''bot.delivery_interval_seconds'', PInt 60),
      (''bot.delivery_batch_size'', PInt 10)]"

text \<open>The loop over the defaults; the result is the number of keys inserted.\<close>

definition seed_one :: "string \<times> pyobj \<Rightarrow> (db, nat) act" where
  "seed_one kv =
     act_catch (act_bind (setting_create (fst kv) (snd kv)) (\<lambda>_. act_return 1))
       (\<lambda>e. if exn_class e = ''SettingAlreadyExistsError'' then act_return 0 else act_raise e)"

definition seed_default_dynamic_settings :: "(db, nat) act" where
  "seed_default_dynamic_settings =
     act_bind (act_foreach seed_one DYNAMIC_SETTINGS_DEFAULTS)
       (\<lambda>counts. act_return (sum_list counts))"

definition validate_allowed_setting_key :: "string \<Rightarrow> unit res" where
  "validate_allowed_setting_key key =
     (if key \<in> fst ` set DYNAMIC_SETTINGS_DEFAULTS then Inr ()
      else Inl (HTTP400 ''Unknown setting key''))"

definition resolve_effective_setting_value :: "string \<Rightarrow> db \<Rightarrow> setting_record res" where
  "resolve_effective_setting_value key d =
     res_bind (setting_get_by_key key d) (\<lambda>rec.
       case rec of
         Some r \<Rightarrow> Inr r
       | None \<Rightarrow>
          (case map_of DYNAMIC_SETTINGS_DEFAULTS key of
             None \<Rightarrow> Inl (Exn ''KeyError'' [])
           | Some v \<Rightarrow> Inr \<lparr> sr_key = key, sr_value = v \<rparr>))"

definition get_setting :: "string \<Rightarrow> (db, setting_record) act" where
  "get_setting key =
     act_bind (act_lift (validate_allowed_setting_key key)) (\<lambda>_.
       act_read (resolve_effective_setting_value key))"

definition put_setting :: "string \<Rightarrow> pyobj \<Rightarrow> (db, setting_record) act" where
  "put_setting key value =
     act_bind (act_lift (validate_allowed_setting_key key)) (\<lambda>_.
     act_bind (setting_update key value) (\<lambda>updated.
       case updated of
         None \<Rightarrow> setting_create key value
       | Some r \<Rightarrow> act_return r))"

section \<open>Resolution of the global horizon\<close>

definition DEDUPE_DEFAULT_HORIZON_MINUTES_KEY :: string where
  "DEDUPE_DEFAULT_HORIZON_MINUTES_KEY = ''dedupe.default_horizon_minutes''"

definition resolve_seeded_default_horizon_minutes :: "int res" where
  "resolve_seeded_default_horizon_minutes =
     (case map_of DYNAMIC_SETTINGS_DEFAULTS DEDUPE_DEFAULT_HORIZON_MINUTES_KEY of
        Some (PInt n) \<Rightarrow> Inr n
      | _ \<Rightarrow> Inl (Exn ''MissingSeedDefaultError'' ''Missing seeded dynamic default for setting key''))"

definition resolve_global_dedupe_horizon_minutes :: "db \<Rightarrow> int res" where
  "resolve_global_dedupe_horizon_minutes d =
     res_bind (setting_get_by_key DEDUPE_DEFAULT_HORIZON_MINUTES_KEY d) (\<lambda>rec.
       case rec of
         None \<Rightarrow> resolve_seeded_default_horizon_minutes
       | Some r \<Rightarrow>
          (case sr_value r of
             PInt n \<Rightarrow> Inr n
           | _ \<Rightarrow> Inl (Exn ''ConfigValueTypeError'' ''Resolved dynamic setting has invalid type'')))"

section \<open>The key-value contract\<close>

locale kv_store =
  fixes get :: "'s \<Rightarrow> 'k \<Rightarrow> 'v option"
    and put :: "'k \<Rightarrow> 'v \<Rightarrow> 's \<Rightarrow> 's"
    and remove :: "'k \<Rightarrow> 's \<Rightarrow> 's"
    and inv :: "'s \<Rightarrow> bool"
    and valid :: "'v \<Rightarrow> bool"
  assumes get_put: "inv s \<Longrightarrow> valid v \<Longrightarrow> get (put k v s) = (get s)(k \<mapsto> v)"
    and inv_put: "inv s \<Longrightarrow> valid v \<Longrightarrow> inv (put k v s)"
    and get_remove: "inv s \<Longrightarrow> get (remove k s) = (get s)(k := None)"
    and inv_remove: "inv s \<Longrightarrow> inv (remove k s)"
begin

definition put_if_absent :: "'k \<times> 'v \<Rightarrow> 's \<Rightarrow> 's" where
  "put_if_absent kv s = (case get s (fst kv) of None \<Rightarrow> put (fst kv) (snd kv) s | Some _ \<Rightarrow> s)"

text \<open>Defaults fill the gaps and never overwrite; running them again changes nothing.\<close>

lemma fill_defaults:
  assumes "inv s" and "\<forall>kv \<in> set kvs. valid (snd kv)"
  shows "get (fold put_if_absent kvs s) = map_of kvs ++ get s \<and> inv (fold put_if_absent kvs s)"
  using assms
proof (induction kvs arbitrary: s)
  case (Cons kv kvs)
  obtain k v where kv: "kv = (k, v)" by (cases kv)
  show ?case
  proof (cases "get s k")
    case None
    have "get (put k v s) = (get s)(k \<mapsto> v)" "inv (put k v s)"
      using Cons.prems kv by (simp_all add: get_put inv_put)
    with Cons kv None show ?thesis
      by (auto simp: put_if_absent_def fun_eq_iff map_add_def split: option.split)
  next
    case (Some w)
    with Cons kv show ?thesis
      by (auto simp: put_if_absent_def fun_eq_iff map_add_def split: option.split)
  qed
qed simp

lemma fill_defaults_again:
  assumes "inv s" and "\<forall>kv \<in> set kvs. valid (snd kv)"
  shows "fold put_if_absent kvs (fold put_if_absent kvs s) = fold put_if_absent kvs s"
proof -
  have stable: "fold put_if_absent xs t = t" if "\<forall>kv \<in> set xs. get t (fst kv) \<noteq> None" for xs t
    using that by (induction xs) (auto simp: put_if_absent_def)
  have "get (fold put_if_absent kvs s) (fst kv) \<noteq> None" if "kv \<in> set kvs" for kv
  proof -
    have "map_of kvs (fst kv) \<noteq> None" using that by (metis map_of_eq_None_iff image_eqI)
    then show ?thesis using fill_defaults [OF assms] by (auto simp: map_add_def split: option.split)
  qed
  then show ?thesis by (intro stable) blast
qed

end

section \<open>The repository as a key-value store\<close>

definition setting_value :: "db \<Rightarrow> string \<Rightarrow> pyobj option" where
  "setting_value d k =
     (case find (\<lambda>r. st_key r = k) (settings d) of
        None \<Rightarrow> None | Some r \<Rightarrow> json_loads (st_value_json r))"

definition json_column_ok :: "jtext \<Rightarrow> bool" where
  "json_column_ok t = (case t of JText v \<Rightarrow> is_json_value v | JMalformed _ \<Rightarrow> False)"

definition settings_ok :: "db \<Rightarrow> bool" where
  "settings_ok d \<longleftrightarrow> pk st_id (settings d) \<and> pk st_key (settings d) \<and>
     (\<forall>r \<in> set (settings d). json_column_ok (st_value_json r))"

lemma encode_value_json_valid [simp]: "is_json_value v \<Longrightarrow> encode_value_json v = Inr (JText v)"
  by (simp add: encode_value_json_def json_dumps_def)

lemma encode_value_json_invalid [simp]:
  "\<not> is_json_value v \<Longrightarrow> encode_value_json v = Inl SettingValueEncodeError"
  by (simp add: encode_value_json_def json_dumps_def)

lemma decode_value_json_valid [simp]: "is_json_value v \<Longrightarrow> decode_value_json (JText v) = Inr v"
  by (simp add: decode_value_json_def json_loads_def)

lemma setting_row_decodes:
  assumes "settings_ok d" and "r \<in> set (settings d)"
  shows "\<exists>v. st_value_json r = JText v \<and> is_json_value v \<and>
    setting_decode_row r = Inr \<lparr> sr_key = st_key r, sr_value = v \<rparr>"
  using assms
  by (cases "st_value_json r") (auto simp: settings_ok_def json_column_ok_def setting_decode_row_def)

lemma setting_get_by_key_value:
  assumes "settings_ok d"
  shows "setting_get_by_key k d =
    Inr (map_option (\<lambda>v. \<lparr> sr_key = k, sr_value = v \<rparr>) (setting_value d k))"
proof (cases "find (\<lambda>r. st_key r = k) (settings d)")
  case None
  with assms show ?thesis
    by (simp add: setting_get_by_key_def setting_value_def settings_ok_def pk_def one_or_none_key)
next
  case (Some r)
  from find_key_Some [OF this] setting_row_decodes [OF assms, of r] Some assms show ?thesis
    by (auto simp: setting_get_by_key_def setting_value_def settings_ok_def pk_def
        one_or_none_key json_loads_def)
qed

text \<open>The two ways a row is written, as state transformers.\<close>

definition append_setting :: "string \<Rightarrow> pyobj \<Rightarrow> db \<Rightarrow> db" where
  "append_setting k v d =
     d\<lparr> settings := settings d @
          [\<lparr> st_id = sql_next_id (map st_id (settings d)), st_key = k, st_value_json = JText v,
             st_updated_at = current_timestamp d \<rparr>] \<rparr>"

definition overwrite_setting :: "string \<Rightarrow> pyobj \<Rightarrow> db \<Rightarrow> db" where
  "overwrite_setting k v d =
     d\<lparr> settings :=
          update_where (\<lambda>r. st_key r = k) (set_value_json (JText v) d) (settings d) \<rparr>"

definition store_setting :: "string \<Rightarrow> pyobj \<Rightarrow> db \<Rightarrow> db" where
  "store_setting k v d =
     (if setting_value d k = None then append_setting k v d else overwrite_setting k v d)"

definition erase_setting :: "string \<Rightarrow> db \<Rightarrow> db" where
  "erase_setting k d = d\<lparr> settings := delete_where (\<lambda>r. st_key r = k) (settings d) \<rparr>"

lemma setting_value_None_iff:
  assumes "settings_ok d"
  shows "setting_value d k = None \<longleftrightarrow> k \<notin> st_key ` set (settings d)"
proof (cases "find (\<lambda>r. st_key r = k) (settings d)")
  case None
  then show ?thesis by (simp add: setting_value_def flip: find_key_None)
next
  case (Some r)
  from find_key_Some [OF this] setting_row_decodes [OF assms, of r] Some show ?thesis
    by (auto simp: setting_value_def json_loads_def)
qed

lemma set_value_json_key [simp]:
  "st_key (set_value_json t d r) = st_key r" "st_id (set_value_json t d r) = st_id r"
  "st_value_json (set_value_json t d r) = t"
  by (simp_all add: set_value_json_def)

lemma append_setting_value:
  assumes "settings_ok d" and "is_json_value v" and "setting_value d k = None"
  shows "setting_value (append_setting k v d) = (setting_value d)(k \<mapsto> v)"
    and "settings_ok (append_setting k v d)"
proof -
  have fresh: "k \<notin> st_key ` set (settings d)" using assms by (simp add: setting_value_None_iff)
  then have "find (\<lambda>r. st_key r = k) (settings d) = None" by (simp add: find_key_None)
  then show "setting_value (append_setting k v d) = (setting_value d)(k \<mapsto> v)"
    by (auto simp: setting_value_def append_setting_def find_append json_loads_def fun_eq_iff
        split: option.split)
  show "settings_ok (append_setting k v d)"
    using assms(1,2) fresh
    by (simp add: settings_ok_def append_setting_def table_simps json_column_ok_def)
qed

lemma overwrite_setting_value:
  assumes "settings_ok d" and "is_json_value v" and "setting_value d k \<noteq> None"
  shows "setting_value (overwrite_setting k v d) = (setting_value d)(k \<mapsto> v)"
    and "settings_ok (overwrite_setting k v d)"
proof -
  obtain r where "find (\<lambda>r. st_key r = k) (settings d) = Some r"
    using assms(3) by (auto simp: setting_value_def split: option.splits)
  then show "setting_value (overwrite_setting k v d) = (setting_value d)(k \<mapsto> v)"
    by (auto simp: setting_value_def overwrite_setting_def find_update_key json_loads_def fun_eq_iff)
  show "settings_ok (overwrite_setting k v d)"
    using assms(1,2)
    by (simp add: settings_ok_def overwrite_setting_def pk_update ball_update_where json_column_ok_def)
qed

lemma erase_setting_value:
  assumes "settings_ok d"
  shows "setting_value (erase_setting k d) = (setting_value d)(k := None)"
    and "settings_ok (erase_setting k d)"
  using assms
  by (auto simp: setting_value_def erase_setting_def find_delete_key fun_eq_iff settings_ok_def pk_delete)

interpretation kv: kv_store setting_value store_setting erase_setting settings_ok is_json_value
  by unfold_locales
    (simp_all add: store_setting_def append_setting_value overwrite_setting_value erase_setting_value)

lemma setting_create_eq:
  assumes "settings_ok d" and "is_json_value v"
  shows "setting_create k v d =
    (if setting_value d k = None
     then (Inr \<lparr> sr_key = k, sr_value = v \<rparr>, append_setting k v d)
     else (Inl SettingAlreadyExistsError, d))"
  using assms
  by (simp add: setting_create_def insert_setting_def act_simps Let_def append_setting_def
      setting_value_None_iff is_duplicate_key_integrity_error_def setting_decode_row_def)

lemma setting_update_eq:
  assumes "settings_ok d" and "is_json_value v"
  shows "setting_update k v d =
    (if setting_value d k = None then (Inr None, d)
     else (Inr (Some \<lparr> sr_key = k, sr_value = v \<rparr>), overwrite_setting k v d))"
proof (cases "find (\<lambda>r. st_key r = k) (settings d)")
  case None
  then have absent: "k \<notin> st_key ` set (settings d)" by (simp add: find_key_None)
  then have "update_where (\<lambda>r. st_key r = k) (set_value_json (JText v) d) (settings d) = settings d"
    by (auto simp: update_where_def intro!: map_idI)
  moreover have "filter (\<lambda>r. st_key r = k) (settings d) = []"
    using absent by (auto simp: filter_empty_conv)
  ultimately show ?thesis
    using assms None by (simp add: setting_update_def act_simps Let_def setting_value_def)
next
  case (Some r)
  then have "setting_value d k \<noteq> None"
    using find_key_Some [OF Some] setting_row_decodes [OF assms(1), of r]
    by (auto simp: setting_value_def json_loads_def)
  moreover have "pk st_key (update_where (\<lambda>r. st_key r = k) (set_value_json (JText v) d) (settings d))"
    using assms(1) by (simp add: settings_ok_def pk_update)
  ultimately show ?thesis
    using assms Some find_key_Some [OF Some]
    by (simp add: setting_update_def act_simps Let_def overwrite_setting_def pk_def one_or_none_key
        find_update_key setting_decode_row_def)
qed

lemma setting_upsert_eq:
  assumes "settings_ok d" and "is_json_value v"
  shows "setting_upsert k v d = (Inr \<lparr> sr_key = k, sr_value = v \<rparr>, store_setting k v d)"
proof (cases "find (\<lambda>r. st_key r = k) (settings d)")
  case None
  then have "k \<notin> st_key ` set (settings d)" by (simp add: find_key_None)
  with None assms show ?thesis
    by (simp add: setting_upsert_def insert_setting_def act_simps Let_def store_setting_def
        append_setting_def setting_value_def setting_decode_row_def)
next
  case (Some r)
  then have "setting_value d k \<noteq> None"
    using find_key_Some [OF Some] setting_row_decodes [OF assms(1), of r]
    by (auto simp: setting_value_def json_loads_def)
  with assms Some find_key_Some [OF Some] show ?thesis
    by (auto simp: setting_upsert_def act_simps store_setting_def overwrite_setting_def
        setting_decode_row_def)
qed

lemma setting_delete_eq: "setting_delete k d = (Inr (), erase_setting k d)"
  by (simp add: setting_delete_def act_simps erase_setting_def)

lemma seed_one_eq:
  assumes "settings_ok d" and "is_json_value (snd kv)"
  shows "seed_one kv d = (Inr (if setting_value d (fst kv) = None then 1 else 0), kv.put_if_absent kv d)"
  using assms
  by (auto simp: seed_one_def act_simps setting_create_eq kv.put_if_absent_def store_setting_def
      split: option.split)

lemma seed_loop:
  assumes "settings_ok d" and "\<forall>kv \<in> set kvs. is_json_value (snd kv)"
  shows "\<exists>counts. act_foreach seed_one kvs d = (Inr counts, fold kv.put_if_absent kvs d)"
  using assms
proof (induction kvs arbitrary: d)
  case (Cons kv kvs)
  have "settings_ok (kv.put_if_absent kv d)"
    using kv.fill_defaults [of d "[kv]"] Cons.prems by simp
  with Cons.IH [of "kv.put_if_absent kv d"] Cons.prems show ?case
    by (auto simp: act_simps seed_one_eq)
qed (simp add: act_simps)

lemma defaults_are_json: "\<forall>kv \<in> set DYNAMIC_SETTINGS_DEFAULTS. is_json_value (snd kv)"
  by (simp add: DYNAMIC_SETTINGS_DEFAULTS_def)

section \<open>Properties\<close>

text \<open>
  The settings table behaves as a key-value store of JSON documents: after an upsert the key
  reads back as the value stored and every other key as before; a document that is not JSON
  (a non-finite number, a foreign object) raises the encode error and changes nothing; a deleted
  key reads as absent and the others as before.
\<close>

lemma settings_store_laws:
  assumes "settings_ok d"
  shows "(is_json_value v \<longrightarrow>
      (\<exists>d'. setting_upsert k v d = (Inr \<lparr> sr_key = k, sr_value = v \<rparr>, d') \<and> settings_ok d' \<and>
        (\<forall>j. setting_get_by_key j d' =
           (if j = k then Inr (Some \<lparr> sr_key = k, sr_value = v \<rparr>) else setting_get_by_key j d)))) \<and>
    (\<not> is_json_value v \<longrightarrow> setting_upsert k v d = (Inl SettingValueEncodeError, d)) \<and>
    (\<exists>d'. setting_delete k d = (Inr (), d') \<and> settings_ok d' \<and>
        (\<forall>j. setting_get_by_key j d' = (if j = k then Inr None else setting_get_by_key j d)))"
proof (intro conjI impI)
  assume v: "is_json_value v"
  show "\<exists>d'. setting_upsert k v d = (Inr \<lparr> sr_key = k, sr_value = v \<rparr>, d') \<and> settings_ok d' \<and>
        (\<forall>j. setting_get_by_key j d' =
           (if j = k then Inr (Some \<lparr> sr_key = k, sr_value = v \<rparr>) else setting_get_by_key j d))"
    using assms v
    by (simp add: setting_upsert_eq kv.inv_put setting_get_by_key_value kv.get_put)
next
  assume "\<not> is_json_value v"
  then show "setting_upsert k v d = (Inl SettingValueEncodeError, d)"
    by (simp add: setting_upsert_def act_simps)
next
  show "\<exists>d'. setting_delete k d = (Inr (), d') \<and> settings_ok d' \<and>
        (\<forall>j. setting_get_by_key j d' = (if j = k then Inr None else setting_get_by_key j d))"
    using assms
    by (simp add: setting_delete_eq kv.inv_remove setting_get_by_key_value kv.get_remove)
qed

lemma settings_store_laws_witness:
  "\<exists>d'. setting_upsert ''k'' (PInt 3) sample_db = (Inr \<lparr> sr_key = ''k'', sr_value = PInt 3 \<rparr>, d') \<and>
     setting_get_by_key ''k'' d' = Inr (Some \<lparr> sr_key = ''k'', sr_value = PInt 3 \<rparr>)"
proof -
  have "settings_ok sample_db" by code_simp
  from settings_store_laws [OF this, of "PInt 3" "''k''"] show ?thesis by auto
qed

text \<open>
  Seeding the defaults at startup never overwrites a stored value: afterwards every key of the
  default list has a value, which is the value it had before if it had one and the default
  otherwise, all other keys are untouched, and seeding a second time changes nothing.
\<close>

lemma seed_default_dynamic_settings_fills:
  assumes "settings_ok d"
  shows "\<exists>n d'. seed_default_dynamic_settings d = (Inr n, d') \<and> settings_ok d' \<and>
     setting_value d' = map_of DYNAMIC_SETTINGS_DEFAULTS ++ setting_value d \<and>
     snd (seed_default_dynamic_settings d') = d'"
proof -
  let ?d = "fold kv.put_if_absent DYNAMIC_SETTINGS_DEFAULTS d"
  have filled: "setting_value ?d = map_of DYNAMIC_SETTINGS_DEFAULTS ++ setting_value d" "settings_ok ?d"
    using kv.fill_defaults [OF assms defaults_are_json] by simp_all
  have run: "\<exists>n. seed_default_dynamic_settings e =
      (Inr n, fold kv.put_if_absent DYNAMIC_SETTINGS_DEFAULTS e)" if "settings_ok e" for e
    using seed_loop [OF that defaults_are_json]
    by (auto simp: seed_default_dynamic_settings_def act_simps)
  show ?thesis
    using run [OF assms] run [OF filled(2)] filled
      kv.fill_defaults_again [OF assms defaults_are_json] by auto
qed

lemma seed_default_dynamic_settings_fills_witness:
  "\<exists>n d'. seed_default_dynamic_settings sample_db = (Inr n, d') \<and>
     setting_value d' ''backup.retain_count'' = Some (PInt 14)"
proof -
  have ok: "settings_ok sample_db" by code_simp
  have "setting_value sample_db ''backup.retain_count'' = None" by code_simp
  with seed_default_dynamic_settings_fills [OF ok] show ?thesis
    by (auto simp: DYNAMIC_SETTINGS_DEFAULTS_def map_add_def)
qed

text \<open>
  C9. A setting written through the API is the one the API reads back. For a key of the
  allowlist and a JSON value, PUT answers with the key and value, the next GET of the key answers
  the same, and the GET of every other key answers what it answered before; for a key outside
  the allowlist both answer 400 and the database is unchanged. A GET of an allowlisted key never fails
  on a table that satisfies its constraints.
\<close>

theorem put_get_setting_roundtrip:
  assumes "settings_ok d"
  shows "(if k \<in> fst ` set DYNAMIC_SETTINGS_DEFAULTS
     then (is_json_value v \<longrightarrow>
            (\<exists>d'. put_setting k v d = (Inr \<lparr> sr_key = k, sr_value = v \<rparr>, d') \<and>
               get_setting k d' = (Inr \<lparr> sr_key = k, sr_value = v \<rparr>, d') \<and>
               (\<forall>k'. k' \<noteq> k \<longrightarrow> fst (get_setting k' d') = fst (get_setting k' d)))) \<and>
          (\<exists>r. get_setting k d = (Inr r, d) \<and> sr_key r = k)
     else put_setting k v d = (Inl (HTTP400 ''Unknown setting key''), d) \<and>
          get_setting k d = (Inl (HTTP400 ''Unknown setting key''), d))"
proof (cases "k \<in> fst ` set DYNAMIC_SETTINGS_DEFAULTS")
  case True
  have get: "get_setting l e =
      (Inr \<lparr> sr_key = l, sr_value = (case setting_value e l of None \<Rightarrow> the (map_of DYNAMIC_SETTINGS_DEFAULTS l) | Some x \<Rightarrow> x) \<rparr>, e)"
    if known: "settings_ok e" "l \<in> fst ` set DYNAMIC_SETTINGS_DEFAULTS" for e l
  proof -
    obtain w where "map_of DYNAMIC_SETTINGS_DEFAULTS l = Some w"
      using known(2) by (metis map_of_eq_None_iff not_None_eq)
    then show ?thesis
      using known
      by (simp add: get_setting_def validate_allowed_setting_key_def act_simps
          resolve_effective_setting_value_def setting_get_by_key_value split: option.split)
  qed
  have put: "put_setting k v d = (Inr \<lparr> sr_key = k, sr_value = v \<rparr>, store_setting k v d)"
    if "is_json_value v"
    using True assms that
    by (simp add: put_setting_def validate_allowed_setting_key_def act_simps setting_update_eq
        setting_create_eq store_setting_def)
  have ok: "settings_ok (store_setting k v d)" if "is_json_value v" using kv.inv_put [OF assms that] .
  have stored: "setting_value (store_setting k v d) = (setting_value d)(k \<mapsto> v)" if "is_json_value v"
    using kv.get_put [OF assms that] by (simp add: fun_eq_iff)
  have "fst (get_setting l (store_setting k v d)) = fst (get_setting l d)" if "is_json_value v" "l \<noteq> k" for l
  proof (cases "l \<in> fst ` set DYNAMIC_SETTINGS_DEFAULTS")
    case True
    with that show ?thesis by (simp add: get [OF ok] get [OF assms] stored)
  qed (simp add: get_setting_def validate_allowed_setting_key_def act_simps)
  with True show ?thesis by (simp add: get [OF ok] get [OF assms] put stored)
next
  case False
  then show ?thesis
    by (simp add: put_setting_def get_setting_def validate_allowed_setting_key_def act_simps)
qed

theorem put_get_setting_roundtrip_witness:
  "\<exists>d'. put_setting ''backup.retain_count'' (PInt 3) sample_db =
       (Inr \<lparr> sr_key = ''backup.retain_count'', sr_value = PInt 3 \<rparr>, d') \<and>
     get_setting ''backup.retain_count'' d' =
       (Inr \<lparr> sr_key = ''backup.retain_count'', sr_value = PInt 3 \<rparr>, d') \<and>
     fst (get_setting ''retention.items_days'' d') = fst (get_setting ''retention.items_days'' sample_db)"
proof -
  have "settings_ok sample_db" by code_simp
  from put_get_setting_roundtrip [OF this, of "''backup.retain_count''" "PInt 3"] show ?thesis
    by (auto simp: DYNAMIC_SETTINGS_DEFAULTS_def)
qed

end
