(* ===== verification/Prune.thy ===== *)
theory Prune
  imports Item_Removal Settings
begin

text \<open>
  \<open>tca/ops/prune_job.py\<close>: the retention job. Its two batch loops run until no expired row is left;
  the lemmas show that they terminate and have the effect of one \<open>DELETE\<close> over all expired rows,
  and that the six steps together implement the abstract prune of the clustering (every cluster
  loses its expired items and disappears when it has none left) while the invariant of the store
  holds again at the end.
\<close>

section \<open>Settings and cutoffs\<close>

definition DELETE_BATCH_SIZE :: nat where
  "DELETE_BATCH_SIZE = 500"

record retention_settings =
  raw_messages_days :: int
  items_days :: int
  ingest_errors_days :: int

record prune_summary =
  ps_executed_steps :: "string list"
  ps_raw_messages_deleted :: nat
  ps_items_deleted :: nat
  ps_raw_message_batch_sizes :: "nat list"
  ps_item_batch_sizes :: "nat list"
  ps_recomputed_cluster_count :: nat
  ps_deleted_empty_cluster_count :: nat
  ps_orphaned_members_deleted :: nat
  ps_orphaned_decisions_deleted :: nat
  ps_ingest_errors_deleted :: nat
  ps_affected_cluster_ids :: "int list"

definition resolve_days_numeric :: "int \<Rightarrow> bool \<Rightarrow> int \<Rightarrow> int" where
  "resolve_days_numeric value allow_zero default_value =
     (if value > 0 then value else if allow_zero \<and> value = 0 then 0 else default_value)"

fun days_of_value :: "pyobj \<Rightarrow> int \<Rightarrow> bool \<Rightarrow> int" where
  "days_of_value (PBool b) default_value allow_zero = default_value"
| "days_of_value (PInt n) default_value allow_zero = resolve_days_numeric n allow_zero default_value"
| "days_of_value (PFloat (Finite q)) default_value allow_zero =
     (if of_int \<lfloor>q\<rfloor> = q then resolve_days_numeric \<lfloor>q\<rfloor> allow_zero default_value else default_value)"
| "days_of_value _ default_value allow_zero = default_value"

definition resolve_positive_days_setting :: "string \<Rightarrow> int \<Rightarrow> bool \<Rightarrow> db \<Rightarrow> int res" where
  "resolve_positive_days_setting key default_value allow_zero d =
     res_bind (setting_get_by_key key d) (\<lambda>rec.
       case rec of
         None \<Rightarrow> Inr default_value
       | Some r \<Rightarrow> Inr (days_of_value (sr_value r) default_value allow_zero))"

definition prune_resolve_settings :: "db \<Rightarrow> retention_settings res" where
  "prune_resolve_settings d =
     res_bind (resolve_positive_days_setting ''retention.raw_messages_days'' 30 False d) (\<lambda>raw_days.
     res_bind (resolve_positive_days_setting ''retention.items_days'' 365 True d) (\<lambda>it_days.
     res_bind (resolve_positive_days_setting ''retention.ingest_errors_days'' 90 False d) (\<lambda>err_days.
       Inr \<lparr> raw_messages_days = raw_days, items_days = it_days, ingest_errors_days = err_days \<rparr>)))"

text \<open>
  \<open>now - timedelta(days=n)\<close>; the first representable day is 0001-01-01 and a \<open>timedelta\<close> has at
  most 999999999 days.
\<close>

definition datetime_min_us :: int where
  "datetime_min_us = - 62135596800 * 1000000"

definition minus_days :: "datetime \<Rightarrow> int \<Rightarrow> datetime res" where
  "minus_days t n =
     (if n > 999999999 \<or> wall_us t - days_us n < datetime_min_us
      then Inl (Exn ''OverflowError'' ''date value out of range'')
      else Inr (dt_plus_us t (- days_us n)))"

section \<open>The steps\<close>

definition batch_ids :: "int list \<Rightarrow> int list" where
  "batch_ids ids = take DELETE_BATCH_SIZE (sort ids)"

definition raw_expired :: "datetime \<Rightarrow> raw_message_row \<Rightarrow> bool" where
  "raw_expired cutoff r = text_less (raw_created_at r) cutoff"

definition expired_raw_batch :: "datetime \<Rightarrow> db \<Rightarrow> int list" where
  "expired_raw_batch cutoff d = batch_ids (map raw_id (filter (raw_expired cutoff) (raw_messages d)))"

lemma batch_ids_subset: "set (batch_ids ids) \<subseteq> set ids"
  using set_take_subset [of DELETE_BATCH_SIZE "sort ids"] by (auto simp: batch_ids_def)

lemma batch_ids_Nil [simp]: "batch_ids ids = [] \<longleftrightarrow> ids = []"
  by (auto simp: batch_ids_def DELETE_BATCH_SIZE_def)

lemma delete_where_shorter:
  assumes "r \<in> set rows" and "P r" shows "length (delete_where P rows) < length rows"
  unfolding delete_where_def using assms by (intro length_filter_less) auto

lemma delete_batch_shorter:
  assumes "batch_ids (map k (filter p rows)) \<noteq> []"
  shows "length (delete_where (\<lambda>r. k r \<in> set (batch_ids (map k (filter p rows)))) rows) < length rows"
proof -
  obtain x where "x \<in> set (batch_ids (map k (filter p rows)))"
    using assms by (metis hd_in_set)
  with batch_ids_subset [of "map k (filter p rows)"] show ?thesis
    by (auto intro: delete_where_shorter)
qed

function delete_expired_raw_messages_in_batches ::
  "datetime \<Rightarrow> nat \<Rightarrow> nat list \<Rightarrow> db \<Rightarrow> nat \<times> nat list \<times> db" where
  "delete_expired_raw_messages_in_batches cutoff deleted_total batch_sizes d =
     (let ids = expired_raw_batch cutoff d in
      if ids = [] then (deleted_total, batch_sizes, d)
      else
        let hit = (\<lambda>r. raw_id r \<in> set ids);
            deleted_count = length (filter hit (raw_messages d)) in
        delete_expired_raw_messages_in_batches cutoff (deleted_total + deleted_count)
          (batch_sizes @ [deleted_count]) (delete_raw_messages_where hit d))"
  by pat_completeness auto
termination
  by (relation "measure (\<lambda>(cutoff, t, b, d). length (raw_messages d))")
    (auto simp: delete_raw_messages_where_def Let_def expired_raw_batch_def
      simp del: batch_ids_Nil intro: delete_batch_shorter)

definition item_expired :: "datetime \<Rightarrow> item_row \<Rightarrow> bool" where
  "item_expired cutoff r = text_less (it_created_at r) cutoff"

definition expired_item_batch :: "datetime \<Rightarrow> db \<Rightarrow> int list" where
  "expired_item_batch cutoff d = batch_ids (map it_id (filter (item_expired cutoff) (items d)))"

function delete_expired_items_in_batches ::
  "datetime \<Rightarrow> nat \<Rightarrow> nat list \<Rightarrow> int set \<Rightarrow> db \<Rightarrow> nat \<times> nat list \<times> int set \<times> db" where
  "delete_expired_items_in_batches cutoff deleted_total batch_sizes affected d =
     (let ids = expired_item_batch cutoff d in
      if ids = [] then (deleted_total, batch_sizes, affected, d)
      else
        let hit = (\<lambda>r. it_id r \<in> set ids);
            deleted_count = length (filter hit (items d)) in
        delete_expired_items_in_batches cutoff (deleted_total + deleted_count)
          (batch_sizes @ [deleted_count]) (affected \<union> clusters_of_items (set ids) d)
          (delete_items_where hit d))"
  by pat_completeness auto
termination
  by (relation "measure (\<lambda>(cutoff, t, b, a, d). length (items d))")
    (auto simp: delete_items_where_def Let_def expired_item_batch_def
      simp del: batch_ids_Nil intro: delete_batch_shorter)

definition prune_recompute_cluster_representatives :: "int set \<Rightarrow> db \<Rightarrow> nat \<times> db" where
  "prune_recompute_cluster_representatives cluster_ids' d =
     (if cluster_ids' = {} then (0, d)
      else (card cluster_ids', recompute_representatives (sorted_list_of_set cluster_ids') d))"

definition delete_empty_clusters :: "int set \<Rightarrow> db \<Rightarrow> nat \<times> db" where
  "delete_empty_clusters cluster_ids' d =
     (if cluster_ids' = {} then (0, d)
      else
        let hit = (\<lambda>c. cl_id c \<in> cluster_ids' \<and> is_empty_cluster d c) in
        (length (filter hit (clusters d)), delete_clusters_where hit d))"

definition orphaned_member :: "db \<Rightarrow> member_row \<Rightarrow> bool" where
  "orphaned_member d m \<longleftrightarrow> mb_cluster_id m \<notin> cluster_ids d \<or> mb_item_id m \<notin> item_ids d"

definition orphaned_decision :: "db \<Rightarrow> decision_row \<Rightarrow> bool" where
  "orphaned_decision d r \<longleftrightarrow>
     dec_item_id r \<notin> item_ids d \<or>
     (case dec_cluster_id r of None \<Rightarrow> False | Some c \<Rightarrow> c \<notin> cluster_ids d) \<or>
     (case dec_candidate_item_id r of None \<Rightarrow> False | Some i \<Rightarrow> i \<notin> item_ids d)"

definition delete_orphaned_rows :: "db \<Rightarrow> nat \<times> nat \<times> db" where
  "delete_orphaned_rows d =
     (let d1 = d\<lparr> members := delete_where (orphaned_member d) (members d) \<rparr> in
      (length (filter (orphaned_member d) (members d)),
       length (filter (orphaned_decision d1) (decisions d1)),
       d1\<lparr> decisions := delete_where (orphaned_decision d1) (decisions d1) \<rparr>))"

definition delete_expired_ingest_errors :: "datetime \<Rightarrow> db \<Rightarrow> nat \<times> db" where
  "delete_expired_ingest_errors cutoff d =
     (let hit = (\<lambda>r. text_less (ie_created_at r) cutoff) in
      (length (filter hit (ingest_errors d)),
       d\<lparr> ingest_errors := delete_where hit (ingest_errors d) \<rparr>))"

definition prune_steps :: "string list" where
  "prune_steps =
     [''delete_expired_raw_messages'', ''delete_expired_items'',
      ''recompute_cluster_representatives'', ''delete_empty_clusters'',
      ''delete_orphaned_rows'', ''delete_expired_ingest_errors'']"

text \<open>The write session; no statement of it raises.\<close>

definition prune_session :: "datetime \<Rightarrow> datetime \<Rightarrow> datetime \<Rightarrow> db \<Rightarrow> prune_summary \<times> db" where
  "prune_session raw_cutoff items_cutoff errors_cutoff d0 =
     (case delete_expired_raw_messages_in_batches raw_cutoff 0 [] d0 of
        (raw_deleted, raw_sizes, d1) \<Rightarrow>
      case delete_expired_items_in_batches items_cutoff 0 [] {} d1 of
        (items_deleted, item_sizes, affected, d2) \<Rightarrow>
      case prune_recompute_cluster_representatives affected d2 of (recomputed_count, d3) \<Rightarrow>
      case delete_empty_clusters affected d3 of (emptied, d4) \<Rightarrow>
      case delete_orphaned_rows d4 of (orphan_members, orphan_decisions, d5) \<Rightarrow>
      case delete_expired_ingest_errors errors_cutoff d5 of (errors_deleted, d6) \<Rightarrow>
        (\<lparr> ps_executed_steps = prune_steps, ps_raw_messages_deleted = raw_deleted,
           ps_items_deleted = items_deleted, ps_raw_message_batch_sizes = raw_sizes,
           ps_item_batch_sizes = item_sizes, ps_recomputed_cluster_count = recomputed_count,
           ps_deleted_empty_cluster_count = emptied,
           ps_orphaned_members_deleted = orphan_members,
           ps_orphaned_decisions_deleted = orphan_decisions,
           ps_ingest_errors_deleted = errors_deleted,
           ps_affected_cluster_ids = sorted_list_of_set affected \<rparr>, d6))"

definition prune_run_once :: "datetime \<Rightarrow> (db, prune_summary) act" where
  "prune_run_once provided_now =
     act_bind (act_read prune_resolve_settings) (\<lambda>s.
       let now = normalize_datetime provided_now in
       act_bind (act_lift (minus_days now (raw_messages_days s))) (\<lambda>raw_cutoff.
       act_bind (act_lift (minus_days now (items_days s))) (\<lambda>items_cutoff.
       act_bind (act_lift (minus_days now (ingest_errors_days s))) (\<lambda>errors_cutoff d.
         case prune_session raw_cutoff items_cutoff errors_cutoff d of
           (summary, d') \<Rightarrow> (Inr summary, d')))))"

section \<open>The batch loops\<close>

lemma batch_hits:
  assumes "pk k rows" and "r \<in> set rows" and "k r \<in> set (batch_ids (map k (filter p rows)))"
  shows "p r"
proof -
  have "k r \<in> k ` set (filter p rows)" using assms(3) batch_ids_subset by fastforce
  with assms(1,2) show ?thesis by (auto simp: pk_def distinct_map dest: inj_onD)
qed

lemma batch_count:
  assumes "pk k rows"
  shows "length (filter (\<lambda>r. k r \<in> set (batch_ids (map k (filter p rows)))) rows) =
    length (batch_ids (map k (filter p rows)))"
proof -
  let ?ids = "batch_ids (map k (filter p rows))"
  have d: "distinct ?ids" using assms by (simp add: batch_ids_def pk_def distinct_map_filter)
  have "set ?ids \<subseteq> k ` set rows" using batch_ids_subset [of "map k (filter p rows)"] by auto
  then have "set ?ids \<inter> k ` set rows = set ?ids" by blast
  then show ?thesis using length_filter_keys [OF assms, of "set ?ids"] d by (simp add: distinct_card)
qed

lemma batch_size: "length (batch_ids ids) \<le> DELETE_BATCH_SIZE"
  by (simp add: batch_ids_def)

lemma length_filter_split:
  assumes "\<forall>r \<in> set rows. h r \<longrightarrow> p r"
  shows "length (filter p rows) = length (filter h rows) + length (filter p (delete_where h rows))"
  using assms by (induction rows) (auto simp: delete_where_def)

lemma pk_delete_raw: "pk raw_id (raw_messages d) \<Longrightarrow> pk raw_id (raw_messages (delete_raw_messages_where P d))"
  by (simp add: delete_raw_messages_where_def Let_def pk_delete)

lemma pk_delete_items: "pk it_id (items d) \<Longrightarrow> pk it_id (items (delete_items_where P d))"
  by (simp add: delete_items_where_def Let_def pk_delete)

definition batch_sizes_ok :: "nat list \<Rightarrow> nat \<Rightarrow> bool" where
  "batch_sizes_ok sizes n \<longleftrightarrow>
     sum_list sizes = n \<and> (\<forall>k \<in> set sizes. 0 < k \<and> k \<le> DELETE_BATCH_SIZE)"

declare delete_expired_raw_messages_in_batches.simps [simp del]
  delete_expired_items_in_batches.simps [simp del]

lemma raw_loop:
  assumes "pk raw_id (raw_messages d)"
  shows "\<exists>sizes. delete_expired_raw_messages_in_batches cutoff t bs d =
      (t + length (filter (raw_expired cutoff) (raw_messages d)), bs @ sizes,
       delete_raw_messages_where (raw_expired cutoff) d) \<and>
    batch_sizes_ok sizes (length (filter (raw_expired cutoff) (raw_messages d)))"
  using assms
proof (induction cutoff t bs d rule: delete_expired_raw_messages_in_batches.induct)
  case (1 cutoff t bs d)
  let ?ids = "expired_raw_batch cutoff d" and ?p = "raw_expired cutoff"
  let ?hit = "\<lambda>r. raw_id r \<in> set ?ids"
  show ?case
  proof (cases "?ids = []")
    case True
    then have "filter ?p (raw_messages d) = []" by (simp add: expired_raw_batch_def)
    with True show ?thesis
      by (subst delete_expired_raw_messages_in_batches.simps)
        (simp add: delete_raw_messages_none batch_sizes_ok_def)
  next
    case False
    let ?d = "delete_raw_messages_where ?hit d"
    have hits: "\<forall>r \<in> set (raw_messages d). ?hit r \<longrightarrow> ?p r"
      using batch_hits [OF 1(2), of _ ?p] by (auto simp: expired_raw_batch_def)
    have count: "length (filter ?hit (raw_messages d)) = length ?ids"
      using batch_count [OF 1(2), of ?p] by (simp add: expired_raw_batch_def)
    obtain sizes where IH: "delete_expired_raw_messages_in_batches cutoff (t + length ?ids)
          (bs @ [length ?ids]) ?d =
        (t + length ?ids + length (filter ?p (raw_messages ?d)), (bs @ [length ?ids]) @ sizes,
         delete_raw_messages_where ?p ?d)"
        "batch_sizes_ok sizes (length (filter ?p (raw_messages ?d)))"
      using 1(1) [OF refl False refl refl] pk_delete_raw [OF 1(2), of ?hit] count by auto
    have rest: "length (filter ?p (raw_messages d)) = length ?ids + length (filter ?p (raw_messages ?d))"
      using length_filter_split [OF hits] count by (simp add: delete_raw_messages_where_def Let_def)
    have "delete_raw_messages_where ?p ?d = delete_raw_messages_where ?p d"
      unfolding delete_raw_messages_twice by (rule delete_raw_messages_cong) (use hits in auto)
    moreover have "0 < length ?ids" "length ?ids \<le> DELETE_BATCH_SIZE"
      using False batch_size by (auto simp: expired_raw_batch_def)
    ultimately show ?thesis
      using IH rest count False
      by (subst delete_expired_raw_messages_in_batches.simps)
        (auto simp: Let_def batch_sizes_ok_def intro!: exI [of _ "length ?ids # sizes"])
  qed
qed

lemma clusters_of_items_after_delete:
  "clusters_of_items (A \<union> B) d =
   clusters_of_items A d \<union> clusters_of_items B (d\<lparr>members := cascade mb_item_id A (members d)\<rparr>)"
  by (auto simp: clusters_of_items_def)

lemma item_loop:
  assumes "pk it_id (items d)"
  shows "\<exists>sizes. delete_expired_items_in_batches cutoff t bs affected d =
      (t + length (filter (item_expired cutoff) (items d)), bs @ sizes,
       affected \<union> clusters_of_items (it_id ` set (filter (item_expired cutoff) (items d))) d,
       delete_items_where (item_expired cutoff) d) \<and>
    batch_sizes_ok sizes (length (filter (item_expired cutoff) (items d)))"
  using assms
proof (induction cutoff t bs affected d rule: delete_expired_items_in_batches.induct)
  case (1 cutoff t bs affected d)
  let ?ids = "expired_item_batch cutoff d" and ?p = "item_expired cutoff"
  let ?hit = "\<lambda>r. it_id r \<in> set ?ids"
  let ?all = "it_id ` set (filter ?p (items d))"
  show ?case
  proof (cases "?ids = []")
    case True
    then have "filter ?p (items d) = []" by (simp add: expired_item_batch_def)
    with True show ?thesis
      by (subst delete_expired_items_in_batches.simps)
        (simp add: delete_items_none batch_sizes_ok_def clusters_of_items_def del: set_filter)
  next
    case False
    let ?d = "delete_items_where ?hit d"
    have hits: "\<forall>r \<in> set (items d). ?hit r \<longrightarrow> ?p r"
      using batch_hits [OF 1(2), of _ ?p] by (auto simp: expired_item_batch_def)
    have sub: "set ?ids \<subseteq> ?all"
      using batch_ids_subset by (fastforce simp: expired_item_batch_def)
    then have gone: "it_id ` set (filter ?hit (items d)) = set ?ids" by auto
    have count: "length (filter ?hit (items d)) = length ?ids"
      using batch_count [OF 1(2), of ?p] by (simp add: expired_item_batch_def)
    have its: "items ?d = delete_where ?hit (items d)"
        and mems: "members ?d = cascade mb_item_id (set ?ids) (members d)"
      using gone by (simp_all add: delete_items_where_def Let_def)
    obtain sizes where IH: "delete_expired_items_in_batches cutoff (t + length ?ids)
          (bs @ [length ?ids]) (affected \<union> clusters_of_items (set ?ids) d) ?d =
        (t + length ?ids + length (filter ?p (items ?d)), (bs @ [length ?ids]) @ sizes,
         affected \<union> clusters_of_items (set ?ids) d \<union>
           clusters_of_items (it_id ` set (filter ?p (items ?d))) ?d,
         delete_items_where ?p ?d)"
        "batch_sizes_ok sizes (length (filter ?p (items ?d)))"
      using 1(1) [OF refl False refl refl] pk_delete_items [OF 1(2), of ?hit] count by auto
    have rest: "length (filter ?p (items d)) = length ?ids + length (filter ?p (items ?d))"
      using length_filter_split [OF hits] count its by simp
    have same: "delete_items_where ?p ?d = delete_items_where ?p d"
      unfolding delete_items_twice by (rule delete_items_cong) (use hits in auto)
    have "?all = set ?ids \<union> it_id ` set (filter ?p (items ?d))" using sub its by auto
    then have affected: "clusters_of_items ?all d =
        clusters_of_items (set ?ids) d \<union> clusters_of_items (it_id ` set (filter ?p (items ?d))) ?d"
      using clusters_of_items_after_delete [of "set ?ids" _ d] mems
      by (simp add: clusters_of_items_def)
    have sizes: "0 < length ?ids" "length ?ids \<le> DELETE_BATCH_SIZE"
      using False batch_size by (auto simp: expired_item_batch_def)
    show ?thesis
      unfolding affected
      using IH rest count False same sizes
      by (subst delete_expired_items_in_batches.simps)
        (auto simp: Let_def batch_sizes_ok_def Un_assoc simp del: set_filter
          intro!: exI [of _ "length ?ids # sizes"])
  qed
qed

section \<open>The whole session\<close>

abbreviation expired_items :: "datetime \<Rightarrow> db \<Rightarrow> int set" where
  "expired_items cutoff d \<equiv> removed_ids (item_expired cutoff) d"


lemma map_filter_item_update:
  assumes "\<And>r. p (f r) = p r" and "\<And>r. it_id (f r) = it_id r"
  shows "map it_id (filter p (update_where q f rows)) = map it_id (filter p rows)"
  using assms by (induction rows) (auto simp: update_where_def)

lemma expired_after_raw:
  "map it_id (filter (item_expired c) (items (delete_raw_messages_where P d))) =
   map it_id (filter (item_expired c) (items d))"
  by (simp add: delete_raw_messages_where_def Let_def set_null_def map_filter_item_update
      item_expired_def)

lemma expired_items_raw [simp]:
  "expired_items c (delete_raw_messages_where P d) = expired_items c d"
  using arg_cong [OF expired_after_raw [of c P d], of set] by (simp add: removed_ids_def)

lemma prune_recompute_eq:
  "finite A \<Longrightarrow> prune_recompute_cluster_representatives A d =
    (card A, recompute_representatives (sorted_list_of_set A) d)"
  by (simp add: prune_recompute_cluster_representatives_def)

lemma delete_empty_clusters_eq:
  "snd (delete_empty_clusters A d) =
   delete_clusters_where (\<lambda>c. cl_id c \<in> A \<and> is_empty_cluster d c) d"
  by (simp add: delete_empty_clusters_def Let_def delete_clusters_none)

lemma no_orphans:
  assumes "db_ok d" shows "delete_orphaned_rows d = (0, 0, d)"
proof -
  have m: "filter (orphaned_member d) (members d) = []"
    using assms by (auto simp: filter_empty_conv orphaned_member_def db_ok_defs fk_def)
  have r: "filter (orphaned_decision d) (decisions d) = []"
    using assms
    by (auto simp: filter_empty_conv orphaned_decision_def db_ok_defs fk_def fk_opt_def
        split: option.splits)
  show ?thesis using m r by (simp add: delete_orphaned_rows_def delete_where_none Let_def)
qed

lemma delete_ingest_errors_store_ok:
  "store_ok d \<Longrightarrow> store_ok (d\<lparr>ingest_errors := delete_where P (ingest_errors d)\<rparr>)"
  using reps_ok_cong [of "d\<lparr>ingest_errors := delete_where P (ingest_errors d)\<rparr>" d]
  by (simp add: store_ok_def db_ok_defs table_simps)

definition pruned :: "datetime \<Rightarrow> datetime \<Rightarrow> datetime \<Rightarrow> db \<Rightarrow> db" where
  "pruned c1 c2 c3 d =
     snd (delete_expired_ingest_errors c3
       (remove_items (item_expired c2) (delete_raw_messages_where (raw_expired c1) d)))"

lemma recomputed_other_tables:
  "raw_messages (recomputed (item_expired c) d) = raw_messages d"
  "ingest_errors (recomputed (item_expired c) d) = ingest_errors d"
  "items (recomputed (item_expired c) d) = delete_where (item_expired c) (items d)"
  by (simp_all add: recomputed_def recompute_representatives_def delete_items_where_def Let_def)

lemma remove_items_other_tables:
  "raw_messages (remove_items (item_expired c) d) = raw_messages d"
  "ingest_errors (remove_items (item_expired c) d) = ingest_errors d"
  "items (remove_items (item_expired c) d) = delete_where (item_expired c) (items d)"
  by (simp_all add: remove_items_eq delete_clusters_where_def Let_def recomputed_other_tables)

lemma clustering_ingest_errors [simp]: "clustering (d\<lparr>ingest_errors := x\<rparr>) = clustering d"
  by (simp add: clustering_def member_items_def fun_eq_iff)

lemma prune_session_eq:
  assumes "store_ok d"
  shows "snd (prune_session c1 c2 c3 d) = pruned c1 c2 c3 d"
    and "ps_executed_steps (fst (prune_session c1 c2 c3 d)) = prune_steps"
    and "ps_raw_messages_deleted (fst (prune_session c1 c2 c3 d)) =
      length (filter (raw_expired c1) (raw_messages d))"
    and "ps_items_deleted (fst (prune_session c1 c2 c3 d)) = length (filter (item_expired c2) (items d))"
    and "batch_sizes_ok (ps_raw_message_batch_sizes (fst (prune_session c1 c2 c3 d)))
      (length (filter (raw_expired c1) (raw_messages d)))"
    and "batch_sizes_ok (ps_item_batch_sizes (fst (prune_session c1 c2 c3 d)))
      (length (filter (item_expired c2) (items d)))"
    and "ps_affected_cluster_ids (fst (prune_session c1 c2 c3 d)) =
      sorted_list_of_set (clusters_of_items (expired_items c2 d) d)"
    and "ps_orphaned_members_deleted (fst (prune_session c1 c2 c3 d)) = 0"
    and "ps_orphaned_decisions_deleted (fst (prune_session c1 c2 c3 d)) = 0"
    and "ps_deleted_empty_cluster_count (fst (prune_session c1 c2 c3 d)) = card (emptied_clusters (item_expired c2) d)"
    and "ps_ingest_errors_deleted (fst (prune_session c1 c2 c3 d)) =
      length (filter (\<lambda>r. text_less (ie_created_at r) c3) (ingest_errors d))"
proof -
  let ?d1 = "delete_raw_messages_where (raw_expired c1) d"
  let ?A = "clusters_of_items (expired_items c2 d) d"
  let ?d2 = "delete_items_where (item_expired c2) ?d1"
  let ?d3 = "recomputed (item_expired c2) ?d1"
  have ok: "db_ok d" using assms by (simp add: store_ok_def)
  have ok1: "db_ok ?d1" by (rule delete_raw_messages_where_ok [OF ok])
  obtain rs where raw: "delete_expired_raw_messages_in_batches c1 0 [] d =
      (length (filter (raw_expired c1) (raw_messages d)), rs, ?d1)"
      "batch_sizes_ok rs (length (filter (raw_expired c1) (raw_messages d)))"
    using raw_loop [of d c1 0 "[]"] ok by (auto simp: db_ok_defs)
  have A: "clusters_of_items (expired_items c2 ?d1) ?d1 = ?A"
    by (simp add: clusters_of_items_def)
  have len: "length (filter (item_expired c2) (items ?d1)) = length (filter (item_expired c2) (items d))"
    by (metis expired_after_raw length_map)
  obtain bs where it: "delete_expired_items_in_batches c2 0 [] {} ?d1 =
      (length (filter (item_expired c2) (items d)), bs, ?A, ?d2)"
      "batch_sizes_ok bs (length (filter (item_expired c2) (items d)))"
    using item_loop [of ?d1 c2 0 "[]" "{}"] ok1 A len
    by (auto simp: db_ok_defs removed_ids_def)
  have rec: "prune_recompute_cluster_representatives ?A ?d2 = (card ?A, ?d3)"
    unfolding prune_recompute_eq [OF finite_clusters_of_items] recomputed_def A by simp
  have hit: "(\<lambda>c. cl_id c \<in> ?A \<and> is_empty_cluster ?d3 c) = (\<lambda>c. cl_id c \<in> emptied_clusters (item_expired c2) d)"
    by (simp add: fun_eq_iff emptied_clusters_def is_empty_cluster_iff recomputed_members)
  have emp: "emptied_clusters (item_expired c2) ?d1 = emptied_clusters (item_expired c2) d"
    by (simp add: emptied_clusters_def clusters_of_items_def)
  have "snd (delete_empty_clusters ?A ?d3) = remove_items (item_expired c2) ?d1"
    unfolding delete_empty_clusters_eq hit remove_items_eq emp ..
  moreover have "fst (delete_empty_clusters ?A ?d3) = card (emptied_clusters (item_expired c2) d)"
  proof -
    have pk3: "pk cl_id (clusters ?d3)"
      using recomputed_ok [OF ok1, of "item_expired c2"] by (simp add: db_ok_defs)
    have "emptied_clusters (item_expired c2) d \<subseteq> cluster_ids d"
      using ok by (auto simp: emptied_clusters_def clusters_of_items_def db_ok_defs fk_def)
    then have "emptied_clusters (item_expired c2) d \<inter> cluster_ids ?d3 = emptied_clusters (item_expired c2) d"
      unfolding recomputed_cluster_ids by auto
    then have "length (filter (\<lambda>c. cl_id c \<in> emptied_clusters (item_expired c2) d) (clusters ?d3)) =
        card (emptied_clusters (item_expired c2) d)"
      using length_filter_keys [OF pk3, of "emptied_clusters (item_expired c2) d"] by (simp only:)
    then show ?thesis
      by (auto simp: delete_empty_clusters_def hit Let_def emptied_clusters_def)
  qed
  ultimately have del: "delete_empty_clusters ?A ?d3 = (card (emptied_clusters (item_expired c2) d), remove_items (item_expired c2) ?d1)"
    by (metis prod.collapse)
  have orph: "delete_orphaned_rows (remove_items (item_expired c2) ?d1) = (0, 0, remove_items (item_expired c2) ?d1)"
    by (rule no_orphans [OF remove_items_db_ok [OF ok1]])
  note steps = prune_session_def raw(1) it(1) rec del orph prod.case delete_expired_ingest_errors_def Let_def
  show "snd (prune_session c1 c2 c3 d) = pruned c1 c2 c3 d"
    unfolding steps pruned_def by simp
  show "ps_executed_steps (fst (prune_session c1 c2 c3 d)) = prune_steps"
    "ps_raw_messages_deleted (fst (prune_session c1 c2 c3 d)) =
      length (filter (raw_expired c1) (raw_messages d))"
    "ps_items_deleted (fst (prune_session c1 c2 c3 d)) = length (filter (item_expired c2) (items d))"
    "ps_affected_cluster_ids (fst (prune_session c1 c2 c3 d)) =
      sorted_list_of_set (clusters_of_items (expired_items c2 d) d)"
    "ps_orphaned_members_deleted (fst (prune_session c1 c2 c3 d)) = 0"
    "ps_orphaned_decisions_deleted (fst (prune_session c1 c2 c3 d)) = 0"
    "ps_deleted_empty_cluster_count (fst (prune_session c1 c2 c3 d)) = card (emptied_clusters (item_expired c2) d)"
    unfolding steps by simp_all
  show "batch_sizes_ok (ps_raw_message_batch_sizes (fst (prune_session c1 c2 c3 d)))
      (length (filter (raw_expired c1) (raw_messages d)))"
    unfolding steps using raw(2) by simp
  show "batch_sizes_ok (ps_item_batch_sizes (fst (prune_session c1 c2 c3 d)))
      (length (filter (item_expired c2) (items d)))"
    unfolding steps using it(2) by simp
  show "ps_ingest_errors_deleted (fst (prune_session c1 c2 c3 d)) =
      length (filter (\<lambda>r. text_less (ie_created_at r) c3) (ingest_errors d))"
    unfolding steps by (simp add: remove_items_other_tables)
qed

lemma pruned_store:
  assumes "store_ok d"
  shows "store_ok (pruned c1 c2 c3 d)"
    and "clustering (pruned c1 c2 c3 d) = abs_prune (expired_items c2 d) (clustering d)"
    and "raw_messages (pruned c1 c2 c3 d) = filter (\<lambda>r. \<not> raw_expired c1 r) (raw_messages d)"
    and "item_ids (pruned c1 c2 c3 d) = item_ids d - expired_items c2 d"
    and "ingest_errors (pruned c1 c2 c3 d) =
      filter (\<lambda>r. \<not> text_less (ie_created_at r) c3) (ingest_errors d)"
proof -
  let ?d1 = "delete_raw_messages_where (raw_expired c1) d"
  have s1: "store_ok ?d1" by (rule delete_raw_store_ok [OF assms])
  have shape: "pruned c1 c2 c3 d = (remove_items (item_expired c2) ?d1)
      \<lparr>ingest_errors := delete_where (\<lambda>r. text_less (ie_created_at r) c3) (ingest_errors (remove_items (item_expired c2) ?d1))\<rparr>"
    by (simp add: pruned_def delete_expired_ingest_errors_def Let_def)
  show "store_ok (pruned c1 c2 c3 d)"
    unfolding shape by (rule delete_ingest_errors_store_ok [OF remove_items_store_ok [OF s1]])
  have "clustering ?d1 = clustering d" by (simp add: clustering_def fun_eq_iff)
  then show "clustering (pruned c1 c2 c3 d) = abs_prune (expired_items c2 d) (clustering d)"
    unfolding shape using remove_items_clustering [OF s1, of "item_expired c2"] by simp
  show "raw_messages (pruned c1 c2 c3 d) = filter (\<lambda>r. \<not> raw_expired c1 r) (raw_messages d)"
    "ingest_errors (pruned c1 c2 c3 d) =
      filter (\<lambda>r. \<not> text_less (ie_created_at r) c3) (ingest_errors d)"
    unfolding shape by (simp_all add: remove_items_other_tables delete_where_def)
  have "pk it_id (items ?d1)" "item_ids ?d1 = item_ids d"
    using s1 by (simp_all add: store_ok_def db_ok_defs delete_raw_messages_where_def Let_def set_null_keeps)
  then show "item_ids (pruned c1 c2 c3 d) = item_ids d - expired_items c2 d"
    unfolding shape expired_items_raw [of c2 "raw_expired c1" d, symmetric]
    by (simp add: remove_items_other_tables ids_after_delete removed_ids_def del: set_delete_where expired_items_raw)
qed

lemma prune_run_once_eq:
  assumes "prune_resolve_settings d = Inr s" and "now = normalize_datetime provided"
    and "minus_days now (raw_messages_days s) = Inr c1" and "minus_days now (items_days s) = Inr c2"
    and "minus_days now (ingest_errors_days s) = Inr c3"
  shows "prune_run_once provided d =
    (Inr (fst (prune_session c1 c2 c3 d)), snd (prune_session c1 c2 c3 d))"
  using assms by (simp add: prune_run_once_def act_simps Let_def case_prod_unfold)

lemma days_of_value_bounds:
  "0 < default_value \<Longrightarrow> 0 < days_of_value v default_value False"
  "0 < default_value \<Longrightarrow> 0 \<le> days_of_value v default_value True"
  by (cases "(v, default_value, False)" rule: days_of_value.cases; simp add: resolve_days_numeric_def)
    (cases "(v, default_value, True)" rule: days_of_value.cases; simp add: resolve_days_numeric_def)

section \<open>Properties\<close>

text \<open>
  C2. A prune run implements the abstract prune. On a store that satisfies the invariant, with
  retention settings whose cutoffs are representable dates and items kept for at least one day,
  the run returns; afterwards exactly the expired raw messages, items and ingest errors are gone,
  every cluster holds exactly its unexpired items, the clusters with none left are gone and all
  others remain, and the invariant holds again: every cluster still has one of its members as its
  representative. A retention of 0 days for items, which the design reads as keeping them forever,
  is left out.
\<close>

theorem prune_run_once_refines:
  assumes "store_ok d" and "prune_resolve_settings d = Inr s" and "0 < items_days s" and "now = normalize_datetime provided"
    and "minus_days now (raw_messages_days s) = Inr c1" and "minus_days now (items_days s) = Inr c2"
    and "minus_days now (ingest_errors_days s) = Inr c3"
  shows "\<exists>summary d'. prune_run_once provided d = (Inr summary, d') \<and> store_ok d' \<and>
     clustering d' = abs_prune (expired_items c2 d) (clustering d) \<and>
     item_ids d' = item_ids d - expired_items c2 d \<and>
     raw_messages d' = filter (\<lambda>r. \<not> raw_expired c1 r) (raw_messages d) \<and>
     ingest_errors d' = filter (\<lambda>r. \<not> text_less (ie_created_at r) c3) (ingest_errors d)"
  unfolding prune_run_once_eq [OF assms(2,4-7)] prune_session_eq(1) [OF assms(1)]
  using pruned_store [OF assms(1)] by simp

theorem prune_run_once_refines_witness:
  "\<exists>summary d'. prune_run_once (DT 1800000000000000 None) sample_db = (Inr summary, d') \<and>
     store_ok d' \<and> item_ids d' = {}"
proof -
  let ?now = "DT 1800000000000000 (Some 0)"
  have settings: "prune_resolve_settings sample_db =
      Inr \<lparr> raw_messages_days = 30, items_days = 365, ingest_errors_days = 90 \<rparr>"
    by code_simp
  let ?s = "\<lparr> raw_messages_days = 30, items_days = 365, ingest_errors_days = 90 \<rparr>"
  have cutoffs: "minus_days ?now (raw_messages_days ?s) = Inr (DT 1797408000000000 (Some 0))"
    "minus_days ?now (items_days ?s) = Inr (DT 1768464000000000 (Some 0))"
    "minus_days ?now (ingest_errors_days ?s) = Inr (DT 1792224000000000 (Some 0))"
    by code_simp+
  have gone: "item_ids sample_db - expired_items (DT 1768464000000000 (Some 0)) sample_db = {}"
    by code_simp
  have now: "?now = normalize_datetime (DT 1800000000000000 None)" by simp
  have "0 < items_days ?s" by simp
  from prune_run_once_refines [OF sample_db_ok settings this now cutoffs] gone show ?thesis by auto
qed

text \<open>
  The summary of a prune run is exact: the two reported totals are the numbers of expired raw
  messages and items, each is the sum of the reported batch sizes, every batch is non-empty and
  has at most 500 rows, the affected clusters are those that held an expired item, the deleted
  clusters are those of them with no other item, the six steps ran in order, and the two orphan
  counts are zero, since the foreign keys leave no orphan to delete.
\<close>

lemma prune_run_once_summary:
  assumes "store_ok d" and "prune_resolve_settings d = Inr s" and "now = normalize_datetime provided"
    and "minus_days now (raw_messages_days s) = Inr c1" and "minus_days now (items_days s) = Inr c2"
    and "minus_days now (ingest_errors_days s) = Inr c3"
  shows "\<exists>p d'. prune_run_once provided d = (Inr p, d') \<and> ps_executed_steps p = prune_steps \<and>
     ps_raw_messages_deleted p = length (filter (raw_expired c1) (raw_messages d)) \<and>
     ps_items_deleted p = length (filter (item_expired c2) (items d)) \<and>
     sum_list (ps_raw_message_batch_sizes p) = ps_raw_messages_deleted p \<and>
     sum_list (ps_item_batch_sizes p) = ps_items_deleted p \<and>
     (\<forall>n \<in> set (ps_raw_message_batch_sizes p @ ps_item_batch_sizes p). 0 < n \<and> n \<le> 500) \<and>
     set (ps_affected_cluster_ids p) = {c. member_items c d \<inter> expired_items c2 d \<noteq> {}} \<and>
     ps_deleted_empty_cluster_count p =
       card {c \<in> cluster_ids d. member_items c d \<subseteq> expired_items c2 d} \<and>
     ps_orphaned_members_deleted p = 0 \<and> ps_orphaned_decisions_deleted p = 0"
proof -
  have emptied: "emptied_clusters (item_expired c2) d = {c \<in> cluster_ids d. member_items c d \<subseteq> expired_items c2 d}"
    (is "?E = ?F")
  proof (rule set_eqI)
    fix c
    have "member_items c d = {}" if "c \<notin> cluster_ids d"
      using assms(1) that by (intro member_items_no_cluster) (auto simp: store_ok_def)
    with store_member_items_nonempty [OF assms(1), of c] show "c \<in> ?E \<longleftrightarrow> c \<in> ?F"
      unfolding emptied_clusters_def by (auto simp: affected_iff)
  qed
  have affected: "set (sorted_list_of_set (clusters_of_items (expired_items c2 d) d)) =
      {c. member_items c d \<inter> expired_items c2 d \<noteq> {}}"
    by (auto simp: affected_iff)
  note facts = prune_session_eq [OF assms(1), of c1 c2 c3]
  have "set (ps_affected_cluster_ids (fst (prune_session c1 c2 c3 d))) =
      {c. member_items c d \<inter> expired_items c2 d \<noteq> {}}"
    unfolding facts(7) by (rule affected)
  then show ?thesis
    unfolding prune_run_once_eq [OF assms(2-6)]
    using facts(2-6,8-10) by (auto simp: batch_sizes_ok_def DELETE_BATCH_SIZE_def emptied)
qed

lemma prune_run_once_summary_witness:
  "\<exists>p d'. prune_run_once (DT 1800000000000000 None) sample_db = (Inr p, d') \<and> ps_items_deleted p = 3 \<and>
     ps_orphaned_members_deleted p = 0"
proof -
  let ?now = "DT 1800000000000000 (Some 0)"
  have settings: "prune_resolve_settings sample_db =
      Inr \<lparr> raw_messages_days = 30, items_days = 365, ingest_errors_days = 90 \<rparr>"
    by code_simp
  let ?s = "\<lparr> raw_messages_days = 30, items_days = 365, ingest_errors_days = 90 \<rparr>"
  have cutoffs: "minus_days ?now (raw_messages_days ?s) = Inr (DT 1797408000000000 (Some 0))"
    "minus_days ?now (items_days ?s) = Inr (DT 1768464000000000 (Some 0))"
    "minus_days ?now (ingest_errors_days ?s) = Inr (DT 1792224000000000 (Some 0))"
    by code_simp+
  have count: "length (filter (item_expired (DT 1768464000000000 (Some 0))) (items sample_db)) = 3"
    by code_simp
  have now: "?now = normalize_datetime (DT 1800000000000000 None)" by simp
  from prune_run_once_summary [OF sample_db_ok settings now cutoffs] count show ?thesis by auto
qed

text \<open>
  The comparison of the two timestamp texts decides expiry by time: for a row stamped by the
  database (whole seconds, no offset) and a UTC cutoff, the row is expired exactly when its
  instant is at or before the cutoff, whatever the fraction of a second in the cutoff's text.
\<close>

lemma expiry_by_time:
  assumes "raw_created_at r = DT (sec * 1000000) None"
  shows "raw_expired (DT w (Some 0)) r \<longleftrightarrow> instant (raw_created_at r) \<le> instant (DT w (Some 0))"
proof -
  have "frac_text (w mod 1000000) @ offset_text (Some 0) \<noteq> []"
    by (simp add: offset_text_def)
  then obtain x xs where suffix: "frac_text (w mod 1000000) @ offset_text (Some 0) = x # xs"
    by (meson neq_Nil_conv)
  have "w = 1000000 * (w div 1000000) + w mod 1000000" "0 \<le> w mod 1000000" "w mod 1000000 < 1000000"
    by simp_all
  then have "sec * 1000000 \<le> w \<longleftrightarrow> sec \<le> w div 1000000" by linarith
  then show ?thesis
    unfolding raw_expired_def assms text_less_def text_key_def
    by (auto simp: suffix frac_text_def offset_text_def instant_def offset_us_def)
qed

lemma expiry_by_time_witness:
  "raw_expired (DT 5000000 (Some 0))
     \<lparr> raw_id = 1, raw_channel_id = 1, raw_message_id = 1, raw_payload_json = JText PNone,
       raw_created_at = DT (5 * 1000000) None, raw_updated_at = DT 0 None \<rparr>"
  by (subst expiry_by_time [of _ 5]) (simp_all add: instant_def offset_us_def)

text \<open>
  Retention settings resolve to usable values whatever JSON documents the table holds: raw
  messages and ingest errors are kept for a positive number of days, items for a non-negative
  one, and a stored positive integer is used as it is.
\<close>

lemma prune_resolve_settings_bounds:
  assumes "settings_ok d"
  shows "\<exists>s. prune_resolve_settings d = Inr s \<and> 0 < raw_messages_days s \<and> 0 \<le> items_days s \<and>
     0 < ingest_errors_days s \<and>
     (\<forall>n. setting_value d ''retention.items_days'' = Some (PInt n) \<and> 0 \<le> n \<longrightarrow> items_days s = n) \<and>
     (\<forall>n. setting_value d ''retention.raw_messages_days'' = Some (PInt n) \<and> 0 < n \<longrightarrow>
        raw_messages_days s = n)"
proof -
  have one: "resolve_positive_days_setting k dv z d =
      Inr (case setting_value d k of None \<Rightarrow> dv | Some v \<Rightarrow> days_of_value v dv z)" for k dv z
    using assms
    by (simp add: resolve_positive_days_setting_def setting_get_by_key_value split: option.split)
  show ?thesis
    by (auto simp: prune_resolve_settings_def one days_of_value_bounds resolve_days_numeric_def
        split: option.split)
qed

lemma prune_resolve_settings_bounds_witness:
  "\<exists>s. prune_resolve_settings (snd (setting_create ''retention.items_days'' (PInt 0) sample_db)) = Inr s \<and>
     items_days s = 0 \<and> 0 < raw_messages_days s"
proof -
  let ?d = "snd (setting_create ''retention.items_days'' (PInt 0) sample_db)"
  have ok: "settings_ok ?d" and v: "setting_value ?d ''retention.items_days'' = Some (PInt 0)"
    by code_simp+
  from prune_resolve_settings_bounds [OF ok] v show ?thesis by auto
qed

end
