(* ===== verification/Key_Rotation.thy ===== *)
theory Key_Rotation
  imports Samples
begin

text \<open>
  \<open>tca/auth/key_rotation.py\<close>: the metadata of a key rotation that can be interrupted and resumed.
  The repository's operations are modelled whole; the in-order run that they are made for (take
  the next pending account, mark it rotated, until none is pending) is the relation
  \<open>rotation_step\<close>. Lemmas: progress is never lost, completion means that every account has the
  target version, and the in-order run terminates and completes.
\<close>

section \<open>State and operations\<close>

record key_rotation_state =
  ks_target_key_version :: int
  ks_last_rotated_account_id :: int
  ks_completed_at :: "datetime option"

abbreviation KeyRotationError :: "string \<Rightarrow> exn" where
  "KeyRotationError \<equiv> Exn ''KeyRotationError''"

abbreviation KeyRotationStateMissingError :: exn where
  "KeyRotationStateMissingError \<equiv>
     Exn ''KeyRotationStateMissingError'' ''Key rotation metadata is missing.''"

abbreviation KeyRotationAccountNotFoundError :: exn where
  "KeyRotationAccountNotFoundError \<equiv>
     Exn ''KeyRotationAccountNotFoundError'' ''Unable to rotate keys: no account row exists''"

definition validate_target_version :: "int \<Rightarrow> unit res" where
  "validate_target_version v =
     (if v < 1 then Inl (KeyRotationError ''Key rotation target version must be >= 1.'') else Inr ())"

definition get_state :: "db \<Rightarrow> key_rotation_state option res" where
  "get_state d =
     res_bind (one_or_none (filter (\<lambda>r. kr_id r = 1) (rotations d))) (\<lambda>row.
       case row of
         None \<Rightarrow> Inr None
       | Some r \<Rightarrow> Inr (Some \<lparr> ks_target_key_version = kr_target_key_version r,
                              ks_last_rotated_account_id = kr_last_rotated_account_id r,
                              ks_completed_at = kr_completed_at r \<rparr>))"

definition require_state :: "(db, key_rotation_state) act" where
  "require_state =
     act_bind (act_read get_state) (\<lambda>st.
       case st of None \<Rightarrow> act_raise KeyRotationStateMissingError | Some s \<Rightarrow> act_return s)"

definition update_rotation :: "(rotation_row \<Rightarrow> rotation_row) \<Rightarrow> db \<Rightarrow> db" where
  "update_rotation f d = d\<lparr> rotations := update_where (\<lambda>r. kr_id r = 1) f (rotations d) \<rparr>"

definition reset_rotation :: "int \<Rightarrow> db \<Rightarrow> db" where
  "reset_rotation target d =
     update_rotation
       (\<lambda>r. r\<lparr> kr_target_key_version := target, kr_last_rotated_account_id := 0,
              kr_started_at := current_timestamp d, kr_updated_at := current_timestamp d,
              kr_completed_at := None \<rparr>) d"

definition insert_rotation :: "int \<Rightarrow> (db, unit) act" where
  "insert_rotation target d =
     (if 1 \<in> kr_id ` set (rotations d)
      then (Inl (IntegrityError ''UNIQUE constraint failed: auth_key_rotation.id''), d)
      else (Inr (), d\<lparr> rotations := rotations d @
             [\<lparr> kr_id = 1, kr_target_key_version = target, kr_last_rotated_account_id = 0,
                kr_started_at = current_timestamp d, kr_updated_at = current_timestamp d,
                kr_completed_at = None \<rparr>] \<rparr>))"

definition begin_rotation :: "int \<Rightarrow> (db, key_rotation_state) act" where
  "begin_rotation target =
     act_bind (act_lift (validate_target_version target)) (\<lambda>_.
     act_bind (act_read get_state) (\<lambda>existing.
       case existing of
         Some s \<Rightarrow>
           if ks_target_key_version s = target then act_return s
           else if ks_completed_at s = None
           then act_raise (KeyRotationError ''Key rotation already in progress for target version'')
           else if target \<le> ks_target_key_version s
           then act_raise (KeyRotationError
             ''Key rotation target version must be greater than the completed target version.'')
           else act_bind (transaction (act_modify (reset_rotation target))) (\<lambda>_. require_state)
       | None \<Rightarrow>
           act_bind
             (act_catch
               (act_bind (transaction (insert_rotation target)) (\<lambda>_. act_return None))
               (\<lambda>e. if exn_class e = ''IntegrityError''
                    then act_bind (act_read get_state) (\<lambda>st.
                      case st of Some s \<Rightarrow> act_return (Some s) | None \<Rightarrow> act_raise e)
                    else act_raise e))
             (\<lambda>found. case found of Some s \<Rightarrow> act_return s | None \<Rightarrow> require_state)))"

definition pending_ids :: "int \<Rightarrow> int \<Rightarrow> db \<Rightarrow> int list" where
  "pending_ids target last_id d =
     sort (map acc_id (filter (\<lambda>a. acc_key_version a < target \<and> acc_id a > last_id) (accounts d)))"

definition next_pending_account_id :: "db \<Rightarrow> int option res" where
  "next_pending_account_id d =
     res_bind (get_state d) (\<lambda>st.
       case st of
         None \<Rightarrow> Inr None
       | Some s \<Rightarrow>
          (case pending_ids (ks_target_key_version s) (ks_last_rotated_account_id s) d of
             [] \<Rightarrow> Inr None | i # _ \<Rightarrow> Inr (Some i)))"

definition set_key_version :: "int \<Rightarrow> int \<Rightarrow> db \<Rightarrow> db" where
  "set_key_version account_id target d =
     d\<lparr> accounts :=
         update_where (\<lambda>a. acc_id a = account_id \<and> acc_key_version a < target)
           (\<lambda>a. a\<lparr> acc_key_version := target, acc_updated_at := current_timestamp d \<rparr>)
           (accounts d) \<rparr>"

definition set_last_rotated :: "int \<Rightarrow> db \<Rightarrow> db" where
  "set_last_rotated account_id d =
     update_rotation
       (\<lambda>r. r\<lparr> kr_last_rotated_account_id := account_id, kr_updated_at := current_timestamp d \<rparr>) d"

definition mark_account_rotated :: "int \<Rightarrow> (db, unit) act" where
  "mark_account_rotated account_id =
     act_bind require_state (\<lambda>s.
       transaction (\<lambda>d.
         case find (\<lambda>a. acc_id a = account_id) (accounts d) of
           None \<Rightarrow> (Inl KeyRotationAccountNotFoundError, d)
         | Some a \<Rightarrow>
             let target = ks_target_key_version s;
                 last_id = ks_last_rotated_account_id s;
                 d1 = (if acc_key_version a < target then set_key_version account_id target d else d);
                 new_last = max last_id account_id;
                 d2 = (if new_last \<noteq> last_id then set_last_rotated new_last d1 else d1) in
             (Inr (), d2)))"

definition complete_if_finished :: "(db, bool) act" where
  "complete_if_finished =
     act_bind require_state (\<lambda>s.
       if ks_completed_at s \<noteq> None then act_return True
       else (\<lambda>d.
         if \<exists>a \<in> set (accounts d). acc_key_version a < ks_target_key_version s then (Inr False, d)
         else (Inr True,
               d\<lparr> rotations :=
                   update_where (\<lambda>r. kr_id r = 1 \<and> kr_completed_at r = None)
                     (\<lambda>r. r\<lparr> kr_completed_at := Some (current_timestamp d),
                            kr_updated_at := current_timestamp d \<rparr>) (rotations d) \<rparr>)))"

section \<open>The stored state\<close>

definition rotation :: "db \<Rightarrow> rotation_row option" where
  "rotation d = find (\<lambda>r. kr_id r = 1) (rotations d)"

definition rotation_ok :: "db \<Rightarrow> bool" where
  "rotation_ok d \<longleftrightarrow> pk kr_id (rotations d) \<and> pk acc_id (accounts d)"

definition state_of :: "rotation_row \<Rightarrow> key_rotation_state" where
  "state_of r = \<lparr> ks_target_key_version = kr_target_key_version r,
                  ks_last_rotated_account_id = kr_last_rotated_account_id r,
                  ks_completed_at = kr_completed_at r \<rparr>"

lemma get_state_eq: "rotation_ok d \<Longrightarrow> get_state d = Inr (map_option state_of (rotation d))"
  by (auto simp: get_state_def rotation_ok_def pk_def one_or_none_key rotation_def state_of_def
      split: option.split)

lemma require_state_eq:
  "rotation_ok d \<Longrightarrow> require_state d =
    (case rotation d of None \<Rightarrow> (Inl KeyRotationStateMissingError, d) | Some r \<Rightarrow> (Inr (state_of r), d))"
  by (simp add: require_state_def act_simps get_state_eq split: option.split)

lemma rotation_update:
  assumes "\<And>r. kr_id (f r) = kr_id r"
  shows "rotation (update_rotation f d) = map_option f (rotation d)"
    and "accounts (update_rotation f d) = accounts d"
    and "rotation_ok (update_rotation f d) = rotation_ok d"
  using assms by (simp_all add: update_rotation_def rotation_def find_update_key rotation_ok_def pk_update)

lemma set_key_version_accounts:
  "accounts (set_key_version i t d) =
     map (\<lambda>a. if acc_id a = i \<and> acc_key_version a < t
          then a\<lparr> acc_key_version := t, acc_updated_at := current_timestamp d \<rparr> else a) (accounts d)"
  by (simp add: set_key_version_def update_where_def)

lemma set_key_version_other [simp]:
  "rotation (set_key_version i t d) = rotation d"
  "rotation_ok (set_key_version i t d) = rotation_ok d"
  by (simp_all add: set_key_version_def rotation_def rotation_ok_def pk_update)

lemma set_last_rotated_facts:
  "rotation (set_last_rotated i d) =
     map_option (\<lambda>r. r\<lparr> kr_last_rotated_account_id := i, kr_updated_at := current_timestamp d \<rparr>) (rotation d)"
  "accounts (set_last_rotated i d) = accounts d"
  "rotation_ok (set_last_rotated i d) = rotation_ok d"
  by (simp_all add: set_last_rotated_def rotation_update)

definition version_of :: "db \<Rightarrow> int \<Rightarrow> int option" where
  "version_of d i = map_option acc_key_version (find (\<lambda>a. acc_id a = i) (accounts d))"

definition pending :: "int \<Rightarrow> db \<Rightarrow> account_row list" where
  "pending target d = filter (\<lambda>a. acc_key_version a < target) (accounts d)"

lemma mark_account_rotated_cases:
  assumes "rotation_ok d" and "rotation d = Some r"
  shows "mark_account_rotated i d =
    (if i \<notin> account_ids d then (Inl KeyRotationAccountNotFoundError, d)
     else (Inr (), (if i > kr_last_rotated_account_id r then set_last_rotated i else id)
             (set_key_version i (kr_target_key_version r) d)))"
proof (cases "find (\<lambda>a. acc_id a = i) (accounts d)")
  case None
  then have "i \<notin> account_ids d" by (simp add: find_key_None)
  with None assms show ?thesis
    by (simp add: mark_account_rotated_def act_simps require_state_eq)
next
  case (Some a)
  have a: "a \<in> set (accounts d)" "acc_id a = i" using find_key_Some [OF Some] by auto
  have same: "set_key_version i t d = d" if "\<not> acc_key_version a < t" for t
  proof -
    have "b = a" if "b \<in> set (accounts d)" "acc_id b = i" for b
      using assms(1) a that by (auto simp: rotation_ok_def pk_def distinct_map dest: inj_onD)
    with that have "map (\<lambda>b. if acc_id b = i \<and> acc_key_version b < t
        then b\<lparr> acc_key_version := t, acc_updated_at := current_timestamp d \<rparr> else b) (accounts d)
        = accounts d"
      by (intro map_idI) auto
    then show ?thesis by (simp add: set_key_version_def update_where_def)
  qed
  have "i \<in> account_ids d" using a by auto
  with Some assms show ?thesis
    by (auto simp: mark_account_rotated_def act_simps require_state_eq state_of_def Let_def same max_def)
qed

text \<open>What marking an account changes.\<close>

lemma mark_account_rotated_effect:
  assumes "rotation_ok d" and "rotation d = Some r" and "mark_account_rotated i d = (Inr (), d')"
  shows "rotation_ok d'" and "i \<in> account_ids d" and "account_ids d' = account_ids d"
    and "\<exists>r'. rotation d' = Some r' \<and> kr_target_key_version r' = kr_target_key_version r \<and>
          kr_completed_at r' = kr_completed_at r \<and>
          kr_last_rotated_account_id r' = max (kr_last_rotated_account_id r) i"
    and "map (\<lambda>a. (acc_id a, acc_key_version a)) (accounts d') =
         map (\<lambda>a. (acc_id a, if acc_id a = i then max (acc_key_version a) (kr_target_key_version r)
                             else acc_key_version a)) (accounts d)"
proof -
  let ?t = "kr_target_key_version r"
  have i: "i \<in> account_ids d" and d': "d' = (if i > kr_last_rotated_account_id r then set_last_rotated i else id)
      (set_key_version i ?t d)"
    using assms by (auto simp: mark_account_rotated_cases split: if_splits)
  show "i \<in> account_ids d" by (rule i)
  show "rotation_ok d'" using assms(1) by (simp add: d' set_last_rotated_facts)
  have acc: "accounts d' = accounts (set_key_version i ?t d)"
    by (simp add: d' set_last_rotated_facts)
  show "account_ids d' = account_ids d"
    unfolding acc by (simp add: set_key_version_def image_update_where)
  show "\<exists>r'. rotation d' = Some r' \<and> kr_target_key_version r' = kr_target_key_version r \<and>
          kr_completed_at r' = kr_completed_at r \<and>
          kr_last_rotated_account_id r' = max (kr_last_rotated_account_id r) i"
    using assms(2) by (simp add: d' set_last_rotated_facts max_def)
  show "map (\<lambda>a. (acc_id a, acc_key_version a)) (accounts d') =
         map (\<lambda>a. (acc_id a, if acc_id a = i then max (acc_key_version a) ?t
                             else acc_key_version a)) (accounts d)"
    unfolding acc set_key_version_accounts by (simp add: max_def)
qed

section \<open>The in-order run\<close>

inductive rotation_step :: "db \<Rightarrow> db \<Rightarrow> bool" where
  rotate_next:
    "next_pending_account_id d = Inr (Some i) \<Longrightarrow> mark_account_rotated i d = (Inr (), d') \<Longrightarrow>
     rotation_step d d'"

inductive_cases rotation_stepE: "rotation_step d d'"

text \<open>Everything up to the last rotated account has the target version.\<close>

definition in_order :: "db \<Rightarrow> bool" where
  "in_order d \<longleftrightarrow> rotation_ok d \<and>
     (case rotation d of None \<Rightarrow> False
      | Some r \<Rightarrow> \<forall>a \<in> set (accounts d).
          acc_id a \<le> kr_last_rotated_account_id r \<longrightarrow> kr_target_key_version r \<le> acc_key_version a)"

definition pending_count :: "db \<Rightarrow> nat" where
  "pending_count d =
     (case rotation d of None \<Rightarrow> 0 | Some r \<Rightarrow> length (pending (kr_target_key_version r) d))"

lemma next_pending_eq:
  assumes "rotation_ok d" and "rotation d = Some r"
  shows "next_pending_account_id d =
    Inr (case pending_ids (kr_target_key_version r) (kr_last_rotated_account_id r) d of
           [] \<Rightarrow> None | i # _ \<Rightarrow> Some i)"
  using assms by (simp add: next_pending_account_id_def get_state_eq state_of_def split: list.split)

lemma next_pending_least:
  assumes "rotation_ok d" and "rotation d = Some r" and "next_pending_account_id d = Inr (Some i)"
  shows "\<exists>a \<in> set (accounts d). acc_id a = i \<and> acc_key_version a < kr_target_key_version r \<and>
      kr_last_rotated_account_id r < i"
    and "\<forall>a \<in> set (accounts d). acc_key_version a < kr_target_key_version r \<and>
      kr_last_rotated_account_id r < acc_id a \<longrightarrow> i \<le> acc_id a"
proof -
  let ?p = "pending_ids (kr_target_key_version r) (kr_last_rotated_account_id r) d"
  obtain rest where p: "?p = i # rest"
    using assms by (auto simp: next_pending_eq split: list.splits)
  have "set ?p = acc_id ` {a \<in> set (accounts d). acc_key_version a < kr_target_key_version r \<and>
      kr_last_rotated_account_id r < acc_id a}"
    by (auto simp: pending_ids_def)
  then have mem: "\<And>x. x \<in> set (i # rest) \<longleftrightarrow> x \<in> acc_id ` {a \<in> set (accounts d).
      acc_key_version a < kr_target_key_version r \<and> kr_last_rotated_account_id r < acc_id a}"
    using p by simp
  have "sorted ?p" by (simp add: pending_ids_def)
  then have least: "\<forall>x \<in> set rest. i \<le> x" using p by simp
  show "\<exists>a \<in> set (accounts d). acc_id a = i \<and> acc_key_version a < kr_target_key_version r \<and>
      kr_last_rotated_account_id r < i"
    using mem [of i] by auto
  show "\<forall>a \<in> set (accounts d). acc_key_version a < kr_target_key_version r \<and>
      kr_last_rotated_account_id r < acc_id a \<longrightarrow> i \<le> acc_id a"
  proof (intro ballI impI)
    fix a assume "a \<in> set (accounts d)" "acc_key_version a < kr_target_key_version r \<and>
      kr_last_rotated_account_id r < acc_id a"
    then have "acc_id a \<in> set (i # rest)" unfolding mem by blast
    with least show "i \<le> acc_id a" by auto
  qed
qed

lemma length_filter_map_eq:
  "map f xs = map g ys \<Longrightarrow> length (filter (\<lambda>x. P (f x)) xs) = length (filter (\<lambda>y. P (g y)) ys)"
proof (induction xs arbitrary: ys)
  case (Cons x xs)
  then show ?case by (cases ys) auto
qed simp

lemma length_filter_one_less:
  assumes "distinct (map k xs)" and "x \<in> set xs" and "P x"
  shows "length (filter P xs) = Suc (length (filter (\<lambda>y. P y \<and> k y \<noteq> k x) xs))"
  using assms
proof (induction xs)
  case (Cons y ys)
  show ?case
  proof (cases "x = y")
    case True
    with Cons.prems have "\<forall>z \<in> set ys. k z \<noteq> k y" by (auto simp: image_iff)
    then have "filter (\<lambda>z. P z \<and> k z \<noteq> k y) ys = filter P ys" by (intro filter_cong) auto
    with True Cons.prems show ?thesis by simp
  next
    case False
    with Cons show ?thesis by auto
  qed
qed simp

lemma rotation_step_effect:
  assumes "in_order d" and "rotation d = Some r" and "rotation_step d d'"
  shows "in_order d'" and "Suc (pending_count d') = pending_count d"
    and "\<exists>r'. rotation d' = Some r' \<and> kr_target_key_version r' = kr_target_key_version r \<and>
          kr_completed_at r' = kr_completed_at r"
    and "account_ids d' = account_ids d"
proof -
  let ?t = "kr_target_key_version r" and ?l = "kr_last_rotated_account_id r"
  have ok: "rotation_ok d" and ord: "\<forall>a \<in> set (accounts d). acc_id a \<le> ?l \<longrightarrow> ?t \<le> acc_key_version a"
    using assms(1,2) by (simp_all add: in_order_def)
  obtain i where i: "next_pending_account_id d = Inr (Some i)" "mark_account_rotated i d = (Inr (), d')"
    using assms(3) by (auto elim: rotation_stepE)
  note least = next_pending_least [OF ok assms(2) i(1)]
  note eff = mark_account_rotated_effect [OF ok assms(2) i(2)]
  obtain a0 where a0: "a0 \<in> set (accounts d)" "acc_id a0 = i" "acc_key_version a0 < ?t" "?l < i"
    using least(1) by auto
  obtain r' where r': "rotation d' = Some r'" "kr_target_key_version r' = ?t"
      "kr_completed_at r' = kr_completed_at r" "kr_last_rotated_account_id r' = max ?l i"
    using eff(4) by auto
  then show "\<exists>r'. rotation d' = Some r' \<and> kr_target_key_version r' = ?t \<and> kr_completed_at r' = kr_completed_at r"
    by blast
  show "account_ids d' = account_ids d" by (rule eff(3))
  let ?f = "\<lambda>a. (acc_id a, acc_key_version a)"
  let ?g = "\<lambda>a. (acc_id a, if acc_id a = i then max (acc_key_version a) ?t else acc_key_version a)"
  have "?t \<le> acc_key_version a'" if "a' \<in> set (accounts d')" "acc_id a' \<le> max ?l i" for a'
  proof -
    have "?f a' \<in> set (map ?g (accounts d))" using that(1) eff(5) by (metis (mono_tags, lifting) image_eqI list.set_map)
    then obtain a where a: "a \<in> set (accounts d)" "acc_id a' = acc_id a"
        "acc_key_version a' = (if acc_id a = i then max (acc_key_version a) ?t else acc_key_version a)"
      by auto
    show ?thesis
    proof (cases "acc_id a = i")
      case True with a show ?thesis by simp
    next
      case False
      with that(2) a a0(4) have "acc_id a < i" by auto
      then have "\<not> (acc_key_version a < ?t \<and> ?l < acc_id a)" using least(2) a(1) by force
      with ord a False show ?thesis by auto
    qed
  qed
  then show "in_order d'" using eff(1) r' by (simp add: in_order_def)
  have "length (filter (\<lambda>a. snd (?f a) < ?t) (accounts d')) = length (filter (\<lambda>a. snd (?g a) < ?t) (accounts d))"
    using length_filter_map_eq [OF eff(5), of "\<lambda>x. snd x < ?t"] .
  also have "filter (\<lambda>a. snd (?g a) < ?t) (accounts d) =
      filter (\<lambda>a. acc_key_version a < ?t \<and> acc_id a \<noteq> acc_id a0) (accounts d)"
    using a0(2) by (intro filter_cong) auto
  finally have "length (filter (\<lambda>a. acc_key_version a < ?t) (accounts d')) =
      length (filter (\<lambda>a. acc_key_version a < ?t \<and> acc_id a \<noteq> acc_id a0) (accounts d))"
    by simp
  moreover have "length (filter (\<lambda>a. acc_key_version a < ?t) (accounts d)) =
      Suc (length (filter (\<lambda>a. acc_key_version a < ?t \<and> acc_id a \<noteq> acc_id a0) (accounts d)))"
    using ok a0 by (intro length_filter_one_less) (simp_all add: rotation_ok_def pk_def)
  ultimately show "Suc (pending_count d') = pending_count d"
    using r' assms(2) by (simp add: pending_count_def pending_def)
qed

lemma rotation_step_exists:
  assumes "in_order d" and "0 < pending_count d" shows "\<exists>d'. rotation_step d d'"
proof -
  obtain r where r: "rotation d = Some r" and ok: "rotation_ok d"
    using assms(1) by (auto simp: in_order_def split: option.splits)
  let ?t = "kr_target_key_version r" and ?l = "kr_last_rotated_account_id r"
  have "pending ?t d \<noteq> []" using assms(2) r by (simp add: pending_count_def)
  then obtain a where a: "a \<in> set (accounts d)" "acc_key_version a < ?t"
    by (auto simp: pending_def filter_empty_conv)
  with assms(1) r have "?l < acc_id a" by (force simp: in_order_def)
  with a have "pending_ids ?t ?l d \<noteq> []"
    by (auto simp: pending_ids_def filter_empty_conv)
  then obtain i rest where "pending_ids ?t ?l d = i # rest" by (meson neq_Nil_conv)
  then have nxt: "next_pending_account_id d = Inr (Some i)" using ok r by (simp add: next_pending_eq)
  then have "i \<in> account_ids d" using next_pending_least(1) [OF ok r nxt] by auto
  then have "\<exists>d'. mark_account_rotated i d = (Inr (), d')"
    using ok r by (simp add: mark_account_rotated_cases)
  with nxt show ?thesis by (auto intro: rotate_next)
qed

lemma rotation_run:
  assumes "in_order d"
  shows "\<exists>d'. (rotation_step ^^ pending_count d) d d' \<and> in_order d' \<and> pending_count d' = 0 \<and>
    map_option kr_completed_at (rotation d') = map_option kr_completed_at (rotation d)"
  using assms
proof (induction "pending_count d" arbitrary: d)
  case 0
  then show ?case by auto
next
  case (Suc n)
  obtain r where r: "rotation d = Some r"
    using Suc.prems by (auto simp: in_order_def split: option.splits)
  obtain d1 where step: "rotation_step d d1"
    using rotation_step_exists [OF Suc.prems] Suc.hyps(2) by auto
  note eff = rotation_step_effect [OF Suc.prems r step]
  have "n = pending_count d1" using eff(2) Suc.hyps(2) by simp
  from Suc.hyps(1) [OF this eff(1)] obtain d' where d': "(rotation_step ^^ n) d1 d'" "in_order d'"
      "pending_count d' = 0" "map_option kr_completed_at (rotation d') = map_option kr_completed_at (rotation d1)"
    using \<open>n = pending_count d1\<close> by auto
  have "(rotation_step ^^ Suc n) d d'" using relpowp_Suc_I2 [of rotation_step, OF step d'(1)] .
  with d' eff(3) r Suc.hyps(2) show ?case by auto
qed

lemma rotation_steps_in_order:
  assumes "rotation_step\<^sup>*\<^sup>* d d'" and "in_order d"
  shows "in_order d' \<and> map_option kr_completed_at (rotation d') = map_option kr_completed_at (rotation d) \<and>
    map_option kr_target_key_version (rotation d') = map_option kr_target_key_version (rotation d)"
  using assms(1)
proof induction
  case base
  then show ?case using assms(2) by simp
next
  case (step d1 d2)
  obtain r where "rotation d1 = Some r"
    using step.IH by (auto simp: in_order_def split: option.splits)
  with step rotation_step_effect [of d1 r d2] show ?case by auto
qed

lemma complete_if_finished_eq:
  assumes "rotation_ok d" and "rotation d = Some r" and "kr_completed_at r = None"
  shows "fst (complete_if_finished d) = Inr (pending (kr_target_key_version r) d = [])"
  using assms
  by (simp add: complete_if_finished_def act_simps require_state_eq state_of_def pending_def filter_empty_conv
      Let_def)

section \<open>Properties\<close>

text \<open>
  C4. An interrupted rotation resumes and completes: from a rotation in progress in which every
  account up to the last rotated one has the target version (as after \<open>begin_rotation\<close>), wherever
  the in-order run stops, continuing it takes exactly as many steps as there are accounts below
  the target version, and then no account is pending and the completion check succeeds.
\<close>

theorem rotation_resumes_and_completes:
  assumes "in_order d" and "rotation d = Some r" and "kr_completed_at r = None"
    and "rotation_step\<^sup>*\<^sup>* d d1"
  shows "\<exists>d2. (rotation_step ^^ pending_count d1) d1 d2 \<and>
     next_pending_account_id d2 = Inr None \<and> fst (complete_if_finished d2) = Inr True \<and>
     (\<forall>a \<in> set (accounts d2). kr_target_key_version r \<le> acc_key_version a)"
proof -
  have d1: "in_order d1" "map_option kr_completed_at (rotation d1) = Some None"
      "map_option kr_target_key_version (rotation d1) = Some (kr_target_key_version r)"
    using rotation_steps_in_order [OF assms(4,1)] assms(2,3) by auto
  obtain d2 where d2: "(rotation_step ^^ pending_count d1) d1 d2" "in_order d2" "pending_count d2 = 0"
      "map_option kr_completed_at (rotation d2) = Some None"
    using rotation_run [OF d1(1)] d1(2) by auto
  have "rotation_step\<^sup>*\<^sup>* d1 d2" using d2(1) by (rule relpowp_imp_rtranclp)
  then have t2: "map_option kr_target_key_version (rotation d2) = Some (kr_target_key_version r)"
    using rotation_steps_in_order d1 by auto
  then obtain r2 where r2: "rotation d2 = Some r2" "kr_target_key_version r2 = kr_target_key_version r"
      "kr_completed_at r2 = None"
    using d2(4) by auto
  have ok: "rotation_ok d2" using d2(2) by (simp add: in_order_def)
  have none: "pending (kr_target_key_version r) d2 = []" using d2(3) r2 by (simp add: pending_count_def)
  then have all: "\<forall>a \<in> set (accounts d2). kr_target_key_version r \<le> acc_key_version a"
    by (auto simp: pending_def filter_empty_conv not_less)
  then have "pending_ids (kr_target_key_version r2) (kr_last_rotated_account_id r2) d2 = []"
    using r2(2) by (auto simp: pending_ids_def filter_empty_conv not_less)
  with d2(1) all none r2 complete_if_finished_eq [OF ok r2(1,3)] show ?thesis
    by (auto simp: next_pending_eq [OF ok r2(1)])
qed

definition rotation_sample :: db where
  "rotation_sample =
     snd (begin_rotation 2 (sample_db\<lparr> accounts := [sample_account 1, sample_account 2] \<rparr>))"

theorem rotation_resumes_and_completes_witness:
  "\<exists>d2. (rotation_step ^^ 2) rotation_sample d2 \<and> fst (complete_if_finished d2) = Inr True"
proof -
  obtain r where r: "rotation rotation_sample = Some r" "kr_completed_at r = None"
  proof -
    have "map_option kr_completed_at (rotation rotation_sample) = Some None" by code_simp
    then show thesis using that by auto
  qed
  have o: "in_order rotation_sample" and c: "pending_count rotation_sample = 2" by code_simp+
  from rotation_resumes_and_completes [OF o r rtranclp.rtrancl_refl] c show ?thesis by auto
qed

text \<open>
  Starting a rotation: a target below one is refused; a rotation in progress is returned
  unchanged when it has the same target and refuses any other; after a completed rotation only a
  greater target is accepted. Whenever a rotation is started, no account counts as rotated yet,
  it is not complete, the accounts are untouched and the run that follows is in order (rowids are
  positive). Every refusal leaves the database unchanged.
\<close>

lemma begin_rotation_outcome:
  assumes "rotation_ok d" and "\<forall>a \<in> set (accounts d). 0 < acc_id a"
  shows "(case begin_rotation target d of
      (Inl e, d') \<Rightarrow> d' = d \<and> exn_class e = ''KeyRotationError'' \<and>
        (target < 1 \<or> (\<exists>r. rotation d = Some r \<and> kr_target_key_version r \<noteq> target \<and>
           (kr_completed_at r = None \<or> target < kr_target_key_version r)))
    | (Inr s, d') \<Rightarrow> accounts d' = accounts d \<and> ks_target_key_version s = target \<and>
        rotation d' \<noteq> None \<and> map_option state_of (rotation d') = Some s \<and>
        (if map_option kr_target_key_version (rotation d) = Some target then d' = d
         else ks_last_rotated_account_id s = 0 \<and> ks_completed_at s = None \<and> in_order d'))"
proof (cases "rotation d")
  case None
  then have fresh: "1 \<notin> kr_id ` set (rotations d)" by (simp add: rotation_def find_key_None)
  define d' where "d' = snd (insert_rotation target d)"
  have ins: "insert_rotation target d = (Inr (), d')"
    using fresh by (simp add: d'_def insert_rotation_def)
  have d'_eq: "d' = d\<lparr> rotations := rotations d @
             [\<lparr> kr_id = 1, kr_target_key_version = target, kr_last_rotated_account_id = 0,
                kr_started_at = current_timestamp d, kr_updated_at = current_timestamp d,
                kr_completed_at = None \<rparr>] \<rparr>"
    using fresh by (simp add: d'_def insert_rotation_def)
  have ok': "rotation_ok d'" using assms(1) fresh by (simp add: d'_eq rotation_ok_def pk_insert)
  have r': "rotation d' = Some \<lparr> kr_id = 1, kr_target_key_version = target,
      kr_last_rotated_account_id = 0, kr_started_at = current_timestamp d,
      kr_updated_at = current_timestamp d, kr_completed_at = None \<rparr>"
    using None by (simp add: d'_eq rotation_def find_append)
  have acc: "accounts d' = accounts d" by (simp add: d'_eq)
  then have "in_order d'" using assms(2) ok' r' by (auto simp: in_order_def)
  then show ?thesis
    using None assms(1) ok' r' acc
    by (simp add: begin_rotation_def act_simps validate_target_version_def get_state_eq ins
        require_state_eq state_of_def)
next
  case (Some r)
  have reset: "rotation_ok (reset_rotation target d)" "accounts (reset_rotation target d) = accounts d"
      "rotation (reset_rotation target d) = Some (r\<lparr> kr_target_key_version := target,
         kr_last_rotated_account_id := 0, kr_started_at := current_timestamp d,
         kr_updated_at := current_timestamp d, kr_completed_at := None \<rparr>)"
    using assms(1) Some by (simp_all add: reset_rotation_def rotation_update)
  then have "in_order (reset_rotation target d)" using assms(2) by (auto simp: in_order_def)
  with reset Some assms(1) show ?thesis
    by (auto simp: begin_rotation_def act_simps validate_target_version_def get_state_eq
        require_state_eq state_of_def)
qed

lemma begin_rotation_outcome_witness:
  "fst (begin_rotation 3 rotation_sample) =
     Inl (KeyRotationError ''Key rotation already in progress for target version'') \<and>
   snd (begin_rotation 3 rotation_sample) = rotation_sample"
proof -
  have hyps: "rotation_ok rotation_sample" "\<forall>a \<in> set (accounts rotation_sample). 0 < acc_id a"
    by code_simp+
  have res: "fst (begin_rotation 3 rotation_sample) =
      Inl (KeyRotationError ''Key rotation already in progress for target version'')"
    by code_simp
  with begin_rotation_outcome [OF hyps, of 3] show ?thesis
    by (cases "begin_rotation 3 rotation_sample") simp
qed

text \<open>
  Completion is sound: the check answers true for a rotation that was not complete exactly
  when every account has at least the target version, and only then is the completion time
  stored; otherwise the database is unchanged.
\<close>

lemma complete_if_finished_sound:
  assumes "rotation_ok d" and "rotation d = Some r" and "kr_completed_at r = None"
    and "complete_if_finished d = (Inr b, d')"
  shows "(b \<longleftrightarrow> (\<forall>a \<in> set (accounts d). kr_target_key_version r \<le> acc_key_version a)) \<and>
    (b \<longrightarrow> map_option kr_completed_at (rotation d') = Some (Some (current_timestamp d))) \<and>
    (\<not> b \<longrightarrow> d' = d)"
proof -
  have "fst (complete_if_finished d) = Inr (pending (kr_target_key_version r) d = [])"
    by (rule complete_if_finished_eq [OF assms(1-3)])
  then have b: "b \<longleftrightarrow> (\<forall>a \<in> set (accounts d). kr_target_key_version r \<le> acc_key_version a)"
    using assms(4) by (auto simp: pending_def filter_empty_conv not_less)
  have upd: "find (\<lambda>r. kr_id r = 1) (update_where (\<lambda>r. kr_id r = 1 \<and> kr_completed_at r = None) f rs) =
      map_option (\<lambda>r. if kr_completed_at r = None then f r else r) (find (\<lambda>r. kr_id r = 1) rs)"
    if "\<And>r. kr_id (f r) = kr_id r" for f rs
    using that by (induction rs) (auto simp: update_where_def)
  show ?thesis
    using assms b
    by (auto simp: complete_if_finished_def act_simps require_state_eq state_of_def rotation_def upd
        split: if_splits)
qed

lemma complete_if_finished_sound_witness:
  "fst (complete_if_finished rotation_sample) = Inr False \<and>
   snd (complete_if_finished rotation_sample) = rotation_sample"
proof -
  have ok: "rotation_ok rotation_sample" by code_simp
  obtain r where r: "rotation rotation_sample = Some r" "kr_completed_at r = None"
  proof -
    have "map_option kr_completed_at (rotation rotation_sample) = Some None" by code_simp
    then show thesis using that by auto
  qed
  have f: "fst (complete_if_finished rotation_sample) = Inr False" by code_simp
  then have "complete_if_finished rotation_sample = (Inr False, snd (complete_if_finished rotation_sample))"
    by (metis prod.collapse)
  from complete_if_finished_sound [OF ok r this] f show ?thesis by simp
qed

text \<open>
  Marking accounts out of order hides pending ones: with accounts 1 and 2 below the target,
  once account 2 has been marked the repository reports that no account is pending, although
  account 1 still has the old version and the completion check keeps answering false.
\<close>

lemma out_of_order_mark_hides_pending:
  "let d = snd (mark_account_rotated 2 rotation_sample) in
   next_pending_account_id d = Inr None \<and> version_of d 1 = Some 1 \<and>
   fst (complete_if_finished d) = Inr False"
  by code_simp

end
