(* ===== verification/Channels.thy ===== *)
theory Channels
  imports Item_Removal
begin

text \<open>
  \<open>tca/storage/channels_repo.py\<close>: channels, their soft and hard deletion, and the list of channels
  the scheduler may poll. Lemmas: every stored row decodes, the purge of a channel removes exactly
  the channel with its content and leaves a store that satisfies the invariant, and the
  schedulable channels are the enabled ones of accounts that are not paused.
\<close>

section \<open>Rows and records\<close>

record channel_record =
  cr_id :: int
  cr_account_id :: int
  cr_telegram_channel_id :: int
  cr_name :: string
  cr_username :: "string option"
  cr_is_enabled :: bool

text \<open>The answer of the routes for a channel id that is not stored.\<close>

abbreviation channel_not_found :: exn where
  "channel_not_found \<equiv> HTTP404 ''Channel was not found.''"

abbreviation ChannelDecodeError :: "string \<Rightarrow> exn" where
  "ChannelDecodeError \<equiv> Exn ''ChannelDecodeError''"

text \<open>The selected columns of a row, as the driver returns them.\<close>

definition channel_columns :: "channel_row \<Rightarrow> row_map" where
  "channel_columns r =
     [(''id'', PInt (ch_id r)), (''account_id'', PInt (ch_account_id r)),
      (''telegram_channel_id'', PInt (ch_telegram_channel_id r)), (''name'', PStr (ch_name r)),
      (''username'', opt_obj PStr (ch_username r)), (''is_enabled'', PInt (of_bool (ch_is_enabled r)))]"

fun exact_int :: "exn \<Rightarrow> pyobj \<Rightarrow> int res" where
  "exact_int e (PInt i) = Inr i"
| "exact_int e v = Inl e"

fun decode_is_enabled :: "pyobj \<Rightarrow> bool res" where
  "decode_is_enabled (PBool b) = Inr b"
| "decode_is_enabled (PInt i) =
     (if i \<in> {0, 1} then Inr (i \<noteq> 0) else Inl (ChannelDecodeError ''`is_enabled` must be boolean''))"
| "decode_is_enabled v = Inl (ChannelDecodeError ''`is_enabled` must be boolean'')"

definition decode_channel_row :: "row_map \<Rightarrow> channel_record res" where
  "decode_channel_row row =
     res_bind (exact_int (ChannelDecodeError ''missing integer `id`'') (row_get row ''id'')) (\<lambda>i.
     res_bind (exact_int (ChannelDecodeError ''missing integer `account_id`'') (row_get row ''account_id'')) (\<lambda>a.
     res_bind (exact_int (ChannelDecodeError ''missing integer `telegram_channel_id`'')
         (row_get row ''telegram_channel_id'')) (\<lambda>t.
     res_bind (coerce_str_with (ChannelDecodeError ''missing text `name`'') (row_get row ''name'')) (\<lambda>n.
     res_bind (coerce_opt_with (coerce_str_with (ChannelDecodeError ''`username` must be text or null''))
         (row_get row ''username'')) (\<lambda>u.
     res_bind (decode_is_enabled (row_get row ''is_enabled'')) (\<lambda>e.
       Inr \<lparr> cr_id = i, cr_account_id = a, cr_telegram_channel_id = t, cr_name = n, cr_username = u,
             cr_is_enabled = e \<rparr>))))))"

section \<open>Operations\<close>

definition create_channel ::
  "int \<Rightarrow> int \<Rightarrow> string \<Rightarrow> string option \<Rightarrow> (db, channel_record) act" where
  "create_channel account_id telegram_channel_id name username =
     act_bind
       (transaction (\<lambda>d.
          let row = \<lparr> ch_id = sql_next_id (map ch_id (channels d)), ch_account_id = account_id,
                      ch_telegram_channel_id = telegram_channel_id, ch_name = name,
                      ch_username = username, ch_is_enabled = True,
                      ch_created_at = current_timestamp d, ch_updated_at = current_timestamp d \<rparr> in
          if telegram_channel_id \<in> ch_telegram_channel_id ` set (channels d)
          then (Inl (IntegrityError ''UNIQUE constraint failed: telegram_channels.telegram_channel_id''), d)
          else if account_id \<notin> account_ids d
          then (Inl (IntegrityError ''FOREIGN KEY constraint failed''), d)
          else (Inr row, d\<lparr> channels := channels d @ [row] \<rparr>)))
       (\<lambda>row. act_lift (decode_channel_row (channel_columns row)))"

definition decode_optional_channel :: "channel_row option \<Rightarrow> channel_record option res" where
  "decode_optional_channel row =
     (case row of
        None \<Rightarrow> Inr None
      | Some r \<Rightarrow> res_bind (decode_channel_row (channel_columns r)) (\<lambda>c. Inr (Some c)))"

definition get_channel_by_id :: "int \<Rightarrow> db \<Rightarrow> channel_record option res" where
  "get_channel_by_id channel_id d =
     res_bind (one_or_none (filter (\<lambda>r. ch_id r = channel_id) (channels d))) decode_optional_channel"

text \<open>\<open>UPDATE telegram_channels SET ... WHERE id = :channel_id RETURNING ...\<close>.\<close>

definition update_channel_row ::
  "int \<Rightarrow> (db \<Rightarrow> channel_row \<Rightarrow> channel_row) \<Rightarrow> (db, channel_record option) act" where
  "update_channel_row channel_id f =
     act_bind
       (transaction (\<lambda>d.
          let d' = d\<lparr> channels := update_where (\<lambda>r. ch_id r = channel_id) (f d) (channels d) \<rparr> in
          (one_or_none (filter (\<lambda>r. ch_id r = channel_id) (channels d')), d')))
       (\<lambda>row. act_lift (decode_optional_channel row))"

definition update_channel ::
  "int \<Rightarrow> string \<Rightarrow> string option \<Rightarrow> bool \<Rightarrow> (db, channel_record option) act" where
  "update_channel channel_id name username is_enabled =
     update_channel_row channel_id
       (\<lambda>d r. r\<lparr> ch_name := name, ch_username := username, ch_is_enabled := is_enabled,
                ch_updated_at := current_timestamp d \<rparr>)"

definition set_enabled_state :: "int \<Rightarrow> bool \<Rightarrow> (db, channel_record option) act" where
  "set_enabled_state channel_id is_enabled =
     update_channel_row channel_id
       (\<lambda>d r. r\<lparr> ch_is_enabled := is_enabled, ch_updated_at := current_timestamp d \<rparr>)"

definition disable_channel :: "int \<Rightarrow> (db, channel_record option) act" where
  "disable_channel channel_id = set_enabled_state channel_id False"

definition enable_channel :: "int \<Rightarrow> (db, channel_record option) act" where
  "enable_channel channel_id = set_enabled_state channel_id True"

text \<open>\<open>SELECT DISTINCT cluster_id\<close> over the members that are items of the channel.\<close>

definition channel_cluster_ids :: "int \<Rightarrow> db \<Rightarrow> int list" where
  "channel_cluster_ids channel_id d =
     remdups (map mb_cluster_id
       (filter (\<lambda>m. \<exists>i \<in> set (items d). it_id i = mb_item_id m \<and> it_channel_id i = channel_id) (members d)))"

definition purge_payload :: "int \<Rightarrow> string \<Rightarrow> nat \<Rightarrow> nat \<Rightarrow> int list \<Rightarrow> pyobj" where
  "purge_payload channel_id name item_count raw_count cluster_ids' =
     PDict [(PStr ''affected_cluster_ids'', PList (map PInt cluster_ids')),
            (PStr ''channel_id'', PInt channel_id), (PStr ''channel_name'', PStr name),
            (PStr ''deleted_items'', PInt (int item_count)),
            (PStr ''deleted_raw_messages'', PInt (int raw_count))]"

definition purge_session :: "int \<Rightarrow> (db, channel_record option) act" where
  "purge_session channel_id d =
     (case find (\<lambda>r. ch_id r = channel_id) (channels d) of
        None \<Rightarrow> (Inr None, d)
      | Some row \<Rightarrow>
         (case decode_channel_row (channel_columns row) of
            Inl e \<Rightarrow> (Inl e, d)
          | Inr channel \<Rightarrow>
             let cids = channel_cluster_ids channel_id d;
                 item_count = length (filter (\<lambda>i. it_channel_id i = channel_id) (items d));
                 raw_count = length (filter (\<lambda>r. raw_channel_id r = channel_id) (raw_messages d));
                 d1 = delete_channels_where (\<lambda>r. ch_id r = channel_id) d;
                 d2 = (if cids = [] then d1 else recompute_representatives cids d1);
                 d3 = (if cids = [] then d2
                       else delete_clusters_where (\<lambda>c. cl_id c \<in> set cids \<and> is_empty_cluster d2 c) d2) in
             act_bind
               (insert_notification ''channel_purged'' ''low'' (''Channel '' @ int_text channel_id @ '' purged.'')
                 (json_dumps (purge_payload channel_id (cr_name channel) item_count raw_count cids)))
               (\<lambda>_. act_return (Some channel)) d3))"

definition purge_channel :: "int \<Rightarrow> (db, channel_record option) act" where
  "purge_channel channel_id = transaction (purge_session channel_id)"

definition list_active_channels :: "int option \<Rightarrow> db \<Rightarrow> channel_record list res" where
  "list_active_channels account_id d =
     res_map (\<lambda>r. decode_channel_row (channel_columns r))
       (sort_key ch_id
         (filter (\<lambda>r. ch_is_enabled r \<and>
             (case account_id of None \<Rightarrow> True | Some a \<Rightarrow> ch_account_id r = a)) (channels d)))"

text \<open>The join with the accounts, one result row per matching pair.\<close>

definition schedulable_rows :: "db \<Rightarrow> channel_row list" where
  "schedulable_rows d =
     sort_key ch_id
       (concat (map (\<lambda>c. map (\<lambda>a. c)
           (filter (\<lambda>a. acc_id a = ch_account_id c \<and> ch_is_enabled c \<and> acc_paused_at a = None)
             (accounts d))) (channels d)))"

definition list_schedulable_channels :: "db \<Rightarrow> channel_record list res" where
  "list_schedulable_channels d =
     res_map (\<lambda>r. decode_channel_row (channel_columns r)) (schedulable_rows d)"

section \<open>Decoding\<close>

definition channel_record_of :: "channel_row \<Rightarrow> channel_record" where
  "channel_record_of r =
     \<lparr> cr_id = ch_id r, cr_account_id = ch_account_id r,
       cr_telegram_channel_id = ch_telegram_channel_id r, cr_name = ch_name r,
       cr_username = ch_username r, cr_is_enabled = ch_is_enabled r \<rparr>"

lemma decode_channel_columns [simp]:
  "decode_channel_row (channel_columns r) = Inr (channel_record_of r)"
proof -
  have "coerce_opt_with (coerce_str_with e) (opt_obj PStr (ch_username r)) = Inr (ch_username r)" for e
    by (subst coerce_opt_obj [where h = id]) (simp_all add: option.map_id)
  then show ?thesis
    by (simp add: decode_channel_row_def channel_columns_def row_get_def channel_record_of_def)
qed

lemma decode_optional_channel_eq [simp]:
  "decode_optional_channel row = Inr (map_option channel_record_of row)"
  by (simp add: decode_optional_channel_def split: option.split)

lemma get_channel_by_id_eq:
  "db_ok d \<Longrightarrow> get_channel_by_id i d =
    Inr (map_option channel_record_of (find (\<lambda>r. ch_id r = i) (channels d)))"
  by (simp add: get_channel_by_id_def one_or_none_key db_ok_defs pk_def)

section \<open>The purge\<close>

abbreviation of_channel :: "int \<Rightarrow> item_row \<Rightarrow> bool" where
  "of_channel c \<equiv> (\<lambda>i. it_channel_id i = c)"

definition without_raw :: "int \<Rightarrow> db \<Rightarrow> db" where
  "without_raw c d = delete_raw_messages_where (\<lambda>r. raw_channel_id r = c) d"

text \<open>The rows of the channel in the tables that neither items nor clusters refer to.\<close>

definition drop_channel :: "int \<Rightarrow> db \<Rightarrow> db" where
  "drop_channel c d =
     d\<lparr> channels := delete_where (\<lambda>r. ch_id r = c) (channels d),
        group_members := cascade gm_channel_id {c} (group_members d),
        channel_states := cascade cs_channel_id {c} (channel_states d),
        ingest_errors := set_null ie_channel_id ie_channel_id_update {c} (ingest_errors d),
        poll_jobs := cascade pj_channel_id {c} (poll_jobs d) \<rparr>"

lemma delete_channel_eq:
  assumes "c \<in> channel_ids d"
  shows "delete_channels_where (\<lambda>r. ch_id r = c) d =
    drop_channel c (delete_items_where (of_channel c) (without_raw c d))"
proof -
  have "ch_id ` {r \<in> set (channels d). ch_id r = c} = {c}" using assms by auto
  then show ?thesis by (simp add: delete_channels_where_def drop_channel_def without_raw_def Let_def)
qed

lemma drop_channel_fields [simp]:
  "items (drop_channel c d) = items d"
  "members (drop_channel c d) = members d"
  "clusters (drop_channel c d) = clusters d"
  "raw_messages (drop_channel c d) = raw_messages d"
  "notifications (drop_channel c d) = notifications d"
  "member_items k (drop_channel c d) = member_items k d"
  "is_empty_cluster (drop_channel c d) = is_empty_cluster d"
  by (simp_all add: drop_channel_def member_items_def is_empty_cluster_def fun_eq_iff)

lemma recompute_drop_channel:
  "recompute_representatives cs (drop_channel c d) = drop_channel c (recompute_representatives cs d)"
proof -
  have "representative k (drop_channel c d) = representative k d" for k
    by (rule representative_cong) simp_all
  then show ?thesis by (simp add: recompute_representatives_def drop_channel_def)
qed

lemma delete_clusters_drop_channel:
  "delete_clusters_where Q (drop_channel c d) = drop_channel c (delete_clusters_where Q d)"
  by (simp add: delete_clusters_where_def drop_channel_def Let_def)

lemma recompute_set_cong:
  "set cs = set cs' \<Longrightarrow> recompute_representatives cs d = recompute_representatives cs' d"
  by (simp add: recompute_representatives_def)

lemma items_without_raw:
  "map (\<lambda>i. (it_id i, it_channel_id i)) (items (without_raw c d)) =
   map (\<lambda>i. (it_id i, it_channel_id i)) (items d)"
  by (simp add: without_raw_def delete_raw_messages_where_def Let_def set_null_keeps)

lemma removed_without_raw:
  "removed_ids (of_channel c) (without_raw c d) = removed_ids (of_channel c) d"
proof -
  have ids: "removed_ids (of_channel c) e = fst ` {x \<in> set (map (\<lambda>i. (it_id i, it_channel_id i)) (items e)). snd x = c}" for e
    by (force simp: removed_ids_def)
  show ?thesis unfolding ids items_without_raw ..
qed

lemma channel_cluster_ids_set:
  "set (channel_cluster_ids c d) = clusters_of_items (removed_ids (of_channel c) d) d"
  by (force simp: channel_cluster_ids_def clusters_of_items_def removed_ids_def)

definition purged :: "int \<Rightarrow> db \<Rightarrow> db" where
  "purged c d = drop_channel c (remove_items (of_channel c) (without_raw c d))"

lemma purge_state:
  assumes "c \<in> channel_ids d"
  defines "d1 \<equiv> delete_channels_where (\<lambda>r. ch_id r = c) d"
  shows "delete_clusters_where
      (\<lambda>k. cl_id k \<in> set (channel_cluster_ids c d) \<and>
        is_empty_cluster (recompute_representatives (channel_cluster_ids c d) d1) k)
      (recompute_representatives (channel_cluster_ids c d) d1) = purged c d"
proof -
  let ?A = "clusters_of_items (removed_ids (of_channel c) (without_raw c d)) (without_raw c d)"
  have A: "set (channel_cluster_ids c d) = ?A"
    unfolding channel_cluster_ids_set removed_without_raw
    by (simp add: clusters_of_items_def without_raw_def)
  then have "recompute_representatives (channel_cluster_ids c d) e =
      recompute_representatives (sorted_list_of_set ?A) e" for e
    by (intro recompute_set_cong) simp
  then show ?thesis
    unfolding d1_def delete_channel_eq [OF assms(1)] A purged_def remove_items_def Let_def
    by (simp add: recompute_drop_channel delete_clusters_drop_channel)
qed

lemma purge_session_eq:
  assumes "find (\<lambda>r. ch_id r = c) (channels d) = Some row"
  shows "\<exists>n. purge_session c d =
    (Inr (Some (channel_record_of row)), (purged c d)\<lparr> notifications := notifications (purged c d) @ [n] \<rparr>) \<and>
    n = notification_of ''channel_purged'' ''low'' (''Channel '' @ int_text c @ '' purged.'')
      (json_dumps (purge_payload c (ch_name row)
        (length (filter (of_channel c) (items d)))
        (length (filter (\<lambda>r. raw_channel_id r = c) (raw_messages d))) (channel_cluster_ids c d)))
      (purged c d)"
proof -
  have in_ids: "c \<in> channel_ids d" using find_key_Some [OF assms] by auto
  let ?d1 = "delete_channels_where (\<lambda>r. ch_id r = c) d" and ?cs = "channel_cluster_ids c d"
  let ?d2 = "if ?cs = [] then ?d1 else recompute_representatives ?cs ?d1"
  have "(if ?cs = [] then ?d2
      else delete_clusters_where (\<lambda>k. cl_id k \<in> set ?cs \<and> is_empty_cluster ?d2 k) ?d2) = purged c d"
    using purge_state [OF in_ids] by (auto simp: delete_clusters_none)
  then show ?thesis
    unfolding purge_session_def assms Let_def
    by (simp add: act_simps insert_notification_def Let_def channel_record_of_def)
qed

lemma purged_facts:
  assumes "store_ok d" and "c \<in> channel_ids d"
  shows "store_ok (purged c d)"
    and "clustering (purged c d) = abs_prune (removed_ids (of_channel c) d) (clustering d)"
    and "item_ids (purged c d) = item_ids d - removed_ids (of_channel c) d"
    and "raw_messages (purged c d) = filter (\<lambda>r. raw_channel_id r \<noteq> c) (raw_messages d)"
    and "channels (purged c d) = filter (\<lambda>r. ch_id r \<noteq> c) (channels d)"
proof -
  let ?r = "without_raw c d" and ?P = "of_channel c"
  have s1: "store_ok ?r" using assms(1) by (simp add: without_raw_def delete_raw_store_ok)
  have ok: "db_ok d" using assms(1) by (simp add: store_ok_def)
  have "db_ok (purged c d)"
    unfolding purge_state [OF assms(2), symmetric]
    by (intro delete_clusters_where_ok recompute_representatives_ok delete_channels_where_ok ok)
  moreover have "reps_ok (purged c d)"
    using remove_items_store_ok [OF s1, of ?P] reps_ok_cong [of "purged c d" "remove_items ?P ?r"]
    by (simp add: purged_def store_ok_def)
  ultimately show "store_ok (purged c d)" by (simp add: store_ok_def)
  have "clustering ?r = clustering d" by (simp add: clustering_def fun_eq_iff without_raw_def)
  moreover have "clustering (purged c d) = clustering (remove_items ?P ?r)"
    by (simp add: purged_def clustering_def fun_eq_iff)
  ultimately show "clustering (purged c d) = abs_prune (removed_ids ?P d) (clustering d)"
    using remove_items_clustering [OF s1, of ?P] by (simp add: removed_without_raw)
  have its: "items (remove_items ?P ?r) = delete_where ?P (items ?r)"
    "raw_messages (remove_items ?P ?r) = raw_messages ?r" "channels (remove_items ?P ?r) = channels ?r"
    by (simp_all add: remove_items_def delete_clusters_where_def recompute_representatives_def
        delete_items_where_def Let_def)
  have "pk it_id (items ?r)" "item_ids ?r = item_ids d"
    using s1 by (simp_all add: store_ok_def db_ok_defs without_raw_def delete_raw_messages_where_def
        Let_def set_null_keeps)
  then show "item_ids (purged c d) = item_ids d - removed_ids ?P d"
    using ids_after_delete [of it_id "items ?r" ?P] removed_without_raw [of c d]
    by (simp add: purged_def its removed_ids_def del: set_delete_where)
  show "raw_messages (purged c d) = filter (\<lambda>r. raw_channel_id r \<noteq> c) (raw_messages d)"
    unfolding purged_def drop_channel_fields its by (simp add: without_raw_def delete_where_def)
  have "channels (purged c d) = delete_where (\<lambda>r. ch_id r = c) (channels ?r)"
    by (simp add: purged_def drop_channel_def its)
  then show "channels (purged c d) = filter (\<lambda>r. ch_id r \<noteq> c) (channels d)"
    by (simp add: without_raw_def delete_raw_messages_where_def delete_where_def Let_def)
qed

lemma store_ok_add_notification:
  assumes "store_ok d"
  shows "store_ok (d\<lparr> notifications := notifications d @ [notification_of t s m p d] \<rparr>)"
proof -
  have "db_ok (snd (insert_notification t s m p d))"
    using insert_notification_ok assms by (simp add: store_ok_def preservesD)
  moreover have "reps_ok (snd (insert_notification t s m p d)) = reps_ok d"
    by (rule reps_ok_cong) (simp_all add: insert_notification_def Let_def)
  ultimately show ?thesis
    using assms by (simp add: store_ok_def insert_notification_def Let_def)
qed

lemma schedulable_rows_set:
  assumes "db_ok d"
  shows "set (schedulable_rows d) =
      {c \<in> set (channels d). ch_is_enabled c \<and>
         (\<exists>a \<in> set (accounts d). acc_id a = ch_account_id c \<and> acc_paused_at a = None)}"
    and "distinct (map ch_id (schedulable_rows d))" and "sorted (map ch_id (schedulable_rows d))"
proof -
  let ?joined = "concat (map (\<lambda>c. map (\<lambda>a. c) (filter (\<lambda>a. acc_id a = ch_account_id c \<and> ch_is_enabled c \<and>
      acc_paused_at a = None) (accounts d))) (channels d))"
  show "set (schedulable_rows d) =
      {c \<in> set (channels d). ch_is_enabled c \<and>
         (\<exists>a \<in> set (accounts d). acc_id a = ch_account_id c \<and> acc_paused_at a = None)}"
    by (auto simp: schedulable_rows_def)
  show "sorted (map ch_id (schedulable_rows d))" by (simp add: schedulable_rows_def)
  have one: "length (filter (\<lambda>a. acc_id a = k \<and> Q a) (accounts d)) \<le> 1" for k Q
  proof -
    have "filter (\<lambda>a. acc_id a = k \<and> Q a) (accounts d) = filter Q (filter (\<lambda>a. acc_id a = k) (accounts d))"
      by (simp add: conj_commute)
    moreover have "length (filter (\<lambda>a. acc_id a = k) (accounts d)) \<le> 1"
      using assms filter_key_unique [of acc_id "accounts d"]
      by (cases "k \<in> account_ids d") (auto simp: db_ok_defs pk_def filter_key_absent)
    ultimately show ?thesis by (metis length_filter_le order_trans)
  qed
  have once: "distinct (map ch_id (concat (map (\<lambda>c. map (\<lambda>a. c) (g c)) cs)))"
    if "distinct (map ch_id cs)" and "\<forall>c. length (g c :: account_row list) \<le> 1" for cs g
    using that(1)
  proof (induction cs)
    case (Cons c cs)
    have "length (g c) \<le> 1" using that(2) by blast
    then have "g c = [] \<or> (\<exists>a. g c = [a])" by (cases "g c" rule: list.exhaust; cases "tl (g c)") auto
    moreover have "set (concat (map (\<lambda>c. map (\<lambda>a. c) (g c)) cs)) \<subseteq> set cs" by auto
    ultimately show ?case using Cons by auto
  qed simp
  have "distinct (map ch_id (channels d))" using assms by (simp add: db_ok_defs pk_def)
  then have "distinct (map ch_id ?joined)" by (rule once) (intro allI one)
  then show "distinct (map ch_id (schedulable_rows d))"
    unfolding schedulable_rows_def by (simp add: distinct_map)
qed

section \<open>Properties\<close>

text \<open>
  C11. Purging a channel: for an unknown id nothing happens and the answer is none. For an existing
  channel the call returns its record; afterwards the channel, its raw messages and its items are
  gone and nothing else is, every cluster has lost exactly the items of the channel, the clusters
  left empty are gone, the invariant of the store holds, and one audit notification was added.
\<close>

theorem purge_channel_refines:
  assumes "store_ok d"
  shows "(c \<notin> channel_ids d \<longrightarrow> purge_channel c d = (Inr None, d)) \<and>
    (c \<in> channel_ids d \<longrightarrow>
      (\<exists>r d'. purge_channel c d = (Inr (Some r), d') \<and> cr_id r = c \<and> store_ok d' \<and>
        channels d' = filter (\<lambda>x. ch_id x \<noteq> c) (channels d) \<and>
        raw_messages d' = filter (\<lambda>x. raw_channel_id x \<noteq> c) (raw_messages d) \<and>
        item_ids d' = item_ids d - it_id ` {i \<in> set (items d). it_channel_id i = c} \<and>
        clustering d' = abs_prune (it_id ` {i \<in> set (items d). it_channel_id i = c}) (clustering d) \<and>
        map nt_type (notifications d') = map nt_type (notifications d) @ [''channel_purged'']))"
proof (cases "find (\<lambda>r. ch_id r = c) (channels d)")
  case None
  then have "c \<notin> channel_ids d" by (simp add: find_key_None)
  with None show ?thesis by (simp add: purge_channel_def purge_session_def transaction_def)
next
  case (Some row)
  have c: "c \<in> channel_ids d" "ch_id row = c" using find_key_Some [OF Some] by auto
  note facts = purged_facts [OF assms c(1)]
  have unchanged: "notifications (purged c d) = notifications d"
    by (simp add: purged_def remove_items_def delete_clusters_where_def recompute_representatives_def
        delete_items_where_def without_raw_def delete_raw_messages_where_def Let_def)
  from purge_session_eq [OF Some] obtain n where n: "purge_session c d =
      (Inr (Some (channel_record_of row)), (purged c d)\<lparr> notifications := notifications (purged c d) @ [n] \<rparr>)"
      and npay: "\<exists>p. n = notification_of ''channel_purged'' ''low'' (''Channel '' @ int_text c @ '' purged.'') p (purged c d)"
    by blast
  have "store_ok ((purged c d)\<lparr> notifications := notifications (purged c d) @ [n] \<rparr>)"
    using npay store_ok_add_notification [OF facts(1)] by auto
  moreover have "clustering ((purged c d)\<lparr> notifications := notifications (purged c d) @ [n] \<rparr>) =
      clustering (purged c d)"
    by (simp add: clustering_def member_items_def fun_eq_iff)
  moreover have "nt_type n = ''channel_purged''" using npay by (auto simp: notification_of_def)
  ultimately show ?thesis
    using c n facts unchanged
    by (simp add: purge_channel_def transaction_def channel_record_of_def removed_ids_def)
qed

theorem purge_channel_refines_witness:
  "\<exists>r d'. purge_channel 1 sample_db = (Inr (Some r), d') \<and> item_ids d' = {} \<and> store_ok d'"
proof -
  have c: "1 \<in> channel_ids sample_db" by code_simp
  have gone: "item_ids sample_db - it_id ` {i \<in> set (items sample_db). it_channel_id i = 1} = {}"
    by code_simp
  from purge_channel_refines [OF sample_db_ok, of 1] c gone show ?thesis by auto
qed

text \<open>
  The channels offered to the scheduler are exactly the enabled channels whose account is not
  paused, each once, in increasing order of id; listing never fails on a stored row.
\<close>

lemma list_schedulable_channels_exact:
  assumes "db_ok d"
  shows "\<exists>rs. list_schedulable_channels d = Inr rs \<and> sorted (map cr_id rs) \<and> distinct (map cr_id rs) \<and>
     set (map cr_id rs) = ch_id ` {c \<in> set (channels d). ch_is_enabled c \<and>
        (\<exists>a \<in> set (accounts d). acc_id a = ch_account_id c \<and> acc_paused_at a = None)}"
proof -
  have "list_schedulable_channels d = Inr (map channel_record_of (schedulable_rows d))"
    unfolding list_schedulable_channels_def by (rule res_map_total) simp
  moreover have "map cr_id (map channel_record_of (schedulable_rows d)) = map ch_id (schedulable_rows d)"
    by (simp add: channel_record_of_def)
  ultimately show ?thesis
    using schedulable_rows_set [OF assms] by (metis (no_types, lifting) list.set_map)
qed

lemma list_schedulable_channels_exact_witness:
  "\<exists>rs. list_schedulable_channels sample_db = Inr rs \<and> set (map cr_id rs) = {1, 2}"
proof -
  have ok: "db_ok sample_db" using sample_db_ok by (simp add: store_ok_def)
  have "ch_id ` {c \<in> set (channels sample_db). ch_is_enabled c \<and>
        (\<exists>a \<in> set (accounts sample_db). acc_id a = ch_account_id c \<and> acc_paused_at a = None)} = {1, 2}"
    by code_simp
  with list_schedulable_channels_exact [OF ok] show ?thesis by auto
qed

end
