(* ===== verification/Channel_Groups.thy ===== *)
theory Channel_Groups
  imports Channels Settings
begin

text \<open>
  \<open>tca/storage/channel_groups_repo.py\<close>, the routes of \<open>tca/api/routes/channel_groups.py\<close> and the
  group override of \<open>tca/config/resolution.py\<close>. The routes run inside the writer queue, so each is
  one computation on the database. Lemmas: a channel is in at most one group, the membership
  routes are idempotent and refuse a second group, and the horizon of a group takes precedence
  over the global one.
\<close>

section \<open>The repository\<close>

record group_record =
  gd_id :: int
  gd_name :: string
  gd_description :: "string option"
  gd_horizon_override :: "int option"

record membership_record =
  ms_group_id :: int
  ms_channel_id :: int

abbreviation ChannelGroupDecodeError :: "string \<Rightarrow> exn" where
  "ChannelGroupDecodeError \<equiv> Exn ''ChannelGroupDecodeError''"

abbreviation ChannelAlreadyAssignedToGroupError :: exn where
  "ChannelAlreadyAssignedToGroupError \<equiv>
     Exn ''ChannelAlreadyAssignedToGroupError'' ''Channel is already assigned to a group.''"

definition group_columns :: "group_row \<Rightarrow> row_map" where
  "group_columns r =
     [(''id'', PInt (gr_id r)), (''name'', PStr (gr_name r)),
      (''description'', opt_obj PStr (gr_description r)),
      (''dedupe_horizon_minutes_override'', opt_obj PInt (gr_horizon_override r))]"

definition decode_group_row :: "row_map \<Rightarrow> group_record res" where
  "decode_group_row row =
     res_bind (exact_int (ChannelGroupDecodeError ''missing integer `id`'') (row_get row ''id'')) (\<lambda>i.
     res_bind (coerce_str_with (ChannelGroupDecodeError ''missing text `name`'') (row_get row ''name'')) (\<lambda>n.
     res_bind (coerce_opt_with (coerce_str_with (ChannelGroupDecodeError ''`description` must be text or null''))
         (row_get row ''description'')) (\<lambda>ds.
     res_bind (coerce_opt_with (exact_int (ChannelGroupDecodeError
           ''`dedupe_horizon_minutes_override` must be integer or null''))
         (row_get row ''dedupe_horizon_minutes_override'')) (\<lambda>h.
       Inr \<lparr> gd_id = i, gd_name = n, gd_description = ds, gd_horizon_override = h \<rparr>))))"

definition membership_columns :: "group_member_row \<Rightarrow> row_map" where
  "membership_columns r = [(''group_id'', PInt (gm_group_id r)), (''channel_id'', PInt (gm_channel_id r))]"

definition decode_membership_row :: "row_map \<Rightarrow> membership_record res" where
  "decode_membership_row row =
     res_bind (exact_int (ChannelGroupDecodeError ''missing integer `group_id`'') (row_get row ''group_id'')) (\<lambda>g.
     res_bind (exact_int (ChannelGroupDecodeError ''missing integer `channel_id`'') (row_get row ''channel_id'')) (\<lambda>c.
       Inr \<lparr> ms_group_id = g, ms_channel_id = c \<rparr>))"

definition create_group :: "string \<Rightarrow> string option \<Rightarrow> int option \<Rightarrow> (db, group_record) act" where
  "create_group name description horizon =
     act_bind
       (transaction (\<lambda>d.
          let row = \<lparr> gr_id = sql_next_id (map gr_id (channel_groups d)), gr_name = name,
                      gr_description = description, gr_horizon_override = horizon,
                      gr_created_at = current_timestamp d, gr_updated_at = current_timestamp d \<rparr> in
          (Inr row, d\<lparr> channel_groups := channel_groups d @ [row] \<rparr>)))
       (\<lambda>row. act_lift (decode_group_row (group_columns row)))"

definition decode_optional_group :: "group_row option \<Rightarrow> group_record option res" where
  "decode_optional_group row =
     (case row of
        None \<Rightarrow> Inr None
      | Some r \<Rightarrow> res_bind (decode_group_row (group_columns r)) (\<lambda>g. Inr (Some g)))"

definition get_group_by_id :: "int \<Rightarrow> db \<Rightarrow> group_record option res" where
  "get_group_by_id group_id d =
     res_bind (one_or_none (filter (\<lambda>r. gr_id r = group_id) (channel_groups d))) decode_optional_group"

definition list_groups :: "db \<Rightarrow> group_record list res" where
  "list_groups d =
     res_map (\<lambda>r. decode_group_row (group_columns r)) (sort_key gr_id (channel_groups d))"

definition update_group ::
  "int \<Rightarrow> string \<Rightarrow> string option \<Rightarrow> int option \<Rightarrow> (db, group_record option) act" where
  "update_group group_id name description horizon =
     act_bind
       (transaction (\<lambda>d.
          let d' = d\<lparr> channel_groups :=
                 update_where (\<lambda>r. gr_id r = group_id)
                   (\<lambda>r. r\<lparr> gr_name := name, gr_description := description,
                          gr_horizon_override := horizon, gr_updated_at := current_timestamp d \<rparr>)
                   (channel_groups d) \<rparr> in
          (one_or_none (filter (\<lambda>r. gr_id r = group_id) (channel_groups d')), d')))
       (\<lambda>row. act_lift (decode_optional_group row))"

definition delete_group :: "int \<Rightarrow> (db, bool) act" where
  "delete_group group_id =
     transaction (\<lambda>d.
       (Inr (group_id \<in> group_ids d), delete_groups_where (\<lambda>r. gr_id r = group_id) d))"

definition insert_membership :: "int \<Rightarrow> int \<Rightarrow> (db, group_member_row) act" where
  "insert_membership group_id channel_id d =
     (let row = \<lparr> gm_group_id = group_id, gm_channel_id = channel_id,
                  gm_created_at = current_timestamp d \<rparr> in
      if channel_id \<in> gm_channel_id ` set (group_members d)
      then (Inl (IntegrityError ''UNIQUE constraint failed: channel_group_members.channel_id''), d)
      else if group_id \<notin> group_ids d \<or> channel_id \<notin> channel_ids d
      then (Inl (IntegrityError ''FOREIGN KEY constraint failed''), d)
      else (Inr row, d\<lparr> group_members := group_members d @ [row] \<rparr>))"

definition is_duplicate_channel_assignment_integrity_error :: "exn \<Rightarrow> bool" where
  "is_duplicate_channel_assignment_integrity_error e \<longleftrightarrow>
     e = IntegrityError ''UNIQUE constraint failed: channel_group_members.channel_id''"

definition add_channel_membership :: "int \<Rightarrow> int \<Rightarrow> (db, membership_record) act" where
  "add_channel_membership group_id channel_id =
     act_bind
       (transaction
         (act_catch (insert_membership group_id channel_id)
           (\<lambda>e. act_raise (if is_duplicate_channel_assignment_integrity_error e
                           then ChannelAlreadyAssignedToGroupError else e))))
       (\<lambda>row. act_lift (decode_membership_row (membership_columns row)))"

definition remove_channel_membership :: "int \<Rightarrow> int \<Rightarrow> (db, bool) act" where
  "remove_channel_membership group_id channel_id =
     transaction (\<lambda>d.
       let hit = (\<lambda>r. gm_group_id r = group_id \<and> gm_channel_id r = channel_id) in
       (res_bind (one_or_none (filter hit (group_members d))) (\<lambda>row. Inr (row \<noteq> None)),
        d\<lparr> group_members := delete_where hit (group_members d) \<rparr>))"

definition get_membership_by_channel_id :: "int \<Rightarrow> db \<Rightarrow> membership_record option res" where
  "get_membership_by_channel_id channel_id d =
     res_bind (one_or_none (filter (\<lambda>r. gm_channel_id r = channel_id) (group_members d))) (\<lambda>row.
       case row of
         None \<Rightarrow> Inr None
       | Some r \<Rightarrow> res_bind (decode_membership_row (membership_columns r)) (\<lambda>m. Inr (Some m)))"

section \<open>The routes\<close>

abbreviation group_not_found :: exn where
  "group_not_found \<equiv> HTTP404 ''Channel group was not found.''"

abbreviation channel_assignment_conflict :: exn where
  "channel_assignment_conflict \<equiv> HTTP409 ''Channel is already assigned to group''"

text \<open>
  A patch request: a field that was not sent is absent; a sent field may be null. The request
  model has already refused an empty name.
\<close>

record group_patch =
  gp_name :: "string option option"
  gp_description :: "string option option"
  gp_horizon :: "int option option"

text \<open>The responses have the fields of the group record.\<close>

definition list_channel_groups :: "db \<Rightarrow> group_record list res" where
  "list_channel_groups d = list_groups d"

definition create_channel_group ::
  "string \<Rightarrow> string option \<Rightarrow> int option \<Rightarrow> (db, group_record) act" where
  "create_channel_group name description horizon = create_group name description horizon"

definition patch_channel_group :: "int \<Rightarrow> group_patch \<Rightarrow> (db, group_record) act" where
  "patch_channel_group group_id payload =
     act_bind (act_read (get_group_by_id group_id)) (\<lambda>found.
       case found of
         None \<Rightarrow> act_raise group_not_found
       | Some current \<Rightarrow>
          (case gp_name payload of
             Some None \<Rightarrow> act_raise (HTTP400 ''Field `name` cannot be null.'')
           | name_field \<Rightarrow>
              let updated_name = (case name_field of Some (Some n) \<Rightarrow> n | _ \<Rightarrow> gd_name current);
                  updated_description =
                    (case gp_description payload of Some x \<Rightarrow> x | None \<Rightarrow> gd_description current);
                  updated_horizon =
                    (case gp_horizon payload of Some x \<Rightarrow> x | None \<Rightarrow> gd_horizon_override current) in
              act_bind (update_group group_id updated_name updated_description updated_horizon)
                (\<lambda>updated. case updated of
                   None \<Rightarrow> act_raise group_not_found | Some g \<Rightarrow> act_return g)))"

definition delete_channel_group :: "int \<Rightarrow> (db, int) act" where
  "delete_channel_group group_id =
     act_bind (delete_group group_id) (\<lambda>deleted.
       if deleted then act_return group_id else act_raise group_not_found)"

text \<open>The answers of the membership routes are \<open>(group_id, channel_id, is_member)\<close>.\<close>

definition put_channel_group_membership :: "int \<Rightarrow> int \<Rightarrow> (db, int \<times> int \<times> bool) act" where
  "put_channel_group_membership group_id channel_id =
     act_bind (act_read (get_group_by_id group_id)) (\<lambda>existing_group.
     if existing_group = None then act_raise group_not_found else
     act_bind (act_read (get_channel_by_id channel_id)) (\<lambda>existing_channel.
     if existing_channel = None then act_raise channel_not_found else
     act_bind (act_read (get_membership_by_channel_id channel_id)) (\<lambda>existing_membership.
       case existing_membership of
         Some m \<Rightarrow>
           if ms_group_id m = group_id then act_return (group_id, channel_id, True)
           else act_raise channel_assignment_conflict
       | None \<Rightarrow>
           act_bind
             (act_catch (add_channel_membership group_id channel_id)
               (\<lambda>e. if exn_class e = ''ChannelAlreadyAssignedToGroupError''
                    then act_bind (act_read (get_membership_by_channel_id channel_id))
                           (\<lambda>_. act_raise channel_assignment_conflict)
                    else act_raise e))
             (\<lambda>_. act_return (group_id, channel_id, True)))))"

definition delete_channel_group_membership :: "int \<Rightarrow> int \<Rightarrow> (db, int \<times> int \<times> bool) act" where
  "delete_channel_group_membership group_id channel_id =
     act_bind (act_read (get_group_by_id group_id)) (\<lambda>existing_group.
     if existing_group = None then act_raise group_not_found else
     act_bind (act_read (get_membership_by_channel_id channel_id)) (\<lambda>membership.
       case membership of
         None \<Rightarrow> act_return (group_id, channel_id, False)
       | Some m \<Rightarrow>
           if ms_group_id m \<noteq> group_id then act_return (group_id, channel_id, False)
           else act_bind (remove_channel_membership group_id channel_id)
                  (\<lambda>_. act_return (group_id, channel_id, False))))"

section \<open>The effective horizon\<close>

definition resolve_effective_dedupe_horizon_minutes :: "int option \<Rightarrow> db \<Rightarrow> int res" where
  "resolve_effective_dedupe_horizon_minutes group_id d =
     (case group_id of
        None \<Rightarrow> resolve_global_dedupe_horizon_minutes d
      | Some g \<Rightarrow>
         res_bind (get_group_by_id g d) (\<lambda>group.
           case group of
             Some r \<Rightarrow>
              (case gd_horizon_override r of
                 Some h \<Rightarrow> Inr h
               | None \<Rightarrow> resolve_global_dedupe_horizon_minutes d)
           | None \<Rightarrow> resolve_global_dedupe_horizon_minutes d))"

section \<open>Decoding\<close>

definition group_record_of :: "group_row \<Rightarrow> group_record" where
  "group_record_of r = \<lparr> gd_id = gr_id r, gd_name = gr_name r, gd_description = gr_description r,
     gd_horizon_override = gr_horizon_override r \<rparr>"

lemma decode_group_columns [simp]: "decode_group_row (group_columns r) = Inr (group_record_of r)"
proof -
  have "coerce_opt_with (coerce_str_with e) (opt_obj PStr (gr_description r)) = Inr (gr_description r)" for e
    by (subst coerce_opt_obj [where h = id]) (simp_all add: option.map_id)
  moreover have "coerce_opt_with (exact_int e) (opt_obj PInt (gr_horizon_override r)) =
      Inr (gr_horizon_override r)" for e
    by (subst coerce_opt_obj [where h = id]) (simp_all add: option.map_id)
  ultimately show ?thesis
    by (simp add: decode_group_row_def group_columns_def row_get_def group_record_of_def)
qed

lemma decode_membership_columns [simp]:
  "decode_membership_row (membership_columns r) =
   Inr \<lparr> ms_group_id = gm_group_id r, ms_channel_id = gm_channel_id r \<rparr>"
  by (simp add: decode_membership_row_def membership_columns_def row_get_def)

lemma get_group_by_id_eq:
  "db_ok d \<Longrightarrow> get_group_by_id g d =
    Inr (map_option group_record_of (find (\<lambda>r. gr_id r = g) (channel_groups d)))"
  by (simp add: get_group_by_id_def one_or_none_key db_ok_defs pk_def decode_optional_group_def
      split: option.split)

text \<open>The group of a channel.\<close>

definition group_of :: "db \<Rightarrow> int \<Rightarrow> int option" where
  "group_of d c = map_option gm_group_id (find (\<lambda>r. gm_channel_id r = c) (group_members d))"

lemma get_membership_eq:
  "db_ok d \<Longrightarrow> get_membership_by_channel_id c d =
    Inr (map_option (\<lambda>g. \<lparr> ms_group_id = g, ms_channel_id = c \<rparr>) (group_of d c))"
  by (auto simp: get_membership_by_channel_id_def one_or_none_key db_ok_defs pk_def group_of_def
      dest: find_key_Some split: option.split)

lemma group_found_iff:
  assumes "db_ok d"
  shows "map_option group_record_of (find (\<lambda>r. gr_id r = g) (channel_groups d)) = None \<longleftrightarrow> g \<notin> group_ids d"
    and "map_option channel_record_of (find (\<lambda>r. ch_id r = c) (channels d)) = None \<longleftrightarrow> c \<notin> channel_ids d"
  by (simp_all add: find_key_None)

definition with_membership :: "int \<Rightarrow> int \<Rightarrow> db \<Rightarrow> db" where
  "with_membership g c d =
     d\<lparr> group_members := group_members d @
          [\<lparr> gm_group_id = g, gm_channel_id = c, gm_created_at = current_timestamp d \<rparr>] \<rparr>"

definition without_membership :: "int \<Rightarrow> int \<Rightarrow> db \<Rightarrow> db" where
  "without_membership g c d =
     d\<lparr> group_members := delete_where (\<lambda>r. gm_group_id r = g \<and> gm_channel_id r = c) (group_members d) \<rparr>"

lemma group_of_None_iff: "group_of d c = None \<longleftrightarrow> c \<notin> gm_channel_id ` set (group_members d)"
  by (simp add: group_of_def find_key_None)

lemma with_membership_facts:
  assumes "db_ok d" and "g \<in> group_ids d" and "c \<in> channel_ids d" and "group_of d c = None"
  shows "db_ok (with_membership g c d)" and "group_of (with_membership g c d) = (group_of d)(c \<mapsto> g)"
proof -
  show "db_ok (with_membership g c d)"
    using assms by (simp add: with_membership_def db_ok_defs table_simps group_of_None_iff)
  show "group_of (with_membership g c d) = (group_of d)(c \<mapsto> g)"
    using assms(4)
    by (auto simp: group_of_def with_membership_def find_append fun_eq_iff split: option.splits)
qed

lemma without_membership_facts:
  assumes "db_ok d" and "group_of d c = Some g"
  shows "db_ok (without_membership g c d)" and "group_of (without_membership g c d) = (group_of d)(c := None)"
proof -
  show "db_ok (without_membership g c d)"
    using assms by (simp add: without_membership_def db_ok_defs table_simps)
  have "\<forall>r \<in> set (group_members d). gm_channel_id r = c \<longrightarrow> gm_group_id r = g"
  proof (intro ballI impI)
    fix r assume r: "r \<in> set (group_members d)" "gm_channel_id r = c"
    have "distinct (map gm_channel_id (group_members d))" using assms(1) by (simp add: db_ok_defs pk_def)
    from find_key_in [OF this r] assms(2) show "gm_group_id r = g" by (simp add: group_of_def)
  qed
  then have "delete_where (\<lambda>r. gm_group_id r = g \<and> gm_channel_id r = c) (group_members d) =
      delete_where (\<lambda>r. gm_channel_id r = c) (group_members d)"
    by (auto simp: delete_where_def intro!: filter_cong)
  then show "group_of (without_membership g c d) = (group_of d)(c := None)"
    by (simp add: group_of_def without_membership_def find_delete_key fun_eq_iff)
qed

lemma add_membership_eq:
  assumes "g \<in> group_ids d" and "c \<in> channel_ids d" and "group_of d c = None"
  shows "add_channel_membership g c d =
    (Inr \<lparr> ms_group_id = g, ms_channel_id = c \<rparr>, with_membership g c d)"
  using assms
  by (simp add: add_channel_membership_def act_simps insert_membership_def with_membership_def
      group_of_None_iff Let_def)

lemma remove_membership_eq:
  assumes "db_ok d"
  shows "\<exists>b. remove_channel_membership g c d = (Inr b, without_membership g c d)"
proof -
  let ?hit = "\<lambda>r. gm_group_id r = g \<and> gm_channel_id r = c"
  have "distinct (map gm_channel_id (group_members d))" using assms by (simp add: db_ok_defs pk_def)
  then have "length (filter (\<lambda>r. gm_channel_id r = c) (group_members d)) \<le> 1"
    using filter_key_unique [of gm_channel_id "group_members d"]
    by (cases "c \<in> gm_channel_id ` set (group_members d)") (auto simp: filter_key_absent)
  moreover have "filter ?hit (group_members d) =
      filter (\<lambda>r. gm_group_id r = g) (filter (\<lambda>r. gm_channel_id r = c) (group_members d))"
    by (simp add: conj_commute)
  ultimately have "length (filter ?hit (group_members d)) \<le> 1"
    by (metis length_filter_le order_trans)
  then have "\<exists>row. one_or_none (filter ?hit (group_members d)) = Inr row"
    by (cases "filter ?hit (group_members d)" rule: one_or_none.cases) auto
  then show ?thesis
    by (auto simp: remove_channel_membership_def transaction_def without_membership_def Let_def)
qed

lemma put_membership_eq:
  assumes "db_ok d"
  shows "put_channel_group_membership g c d =
    (if g \<notin> group_ids d then (Inl group_not_found, d)
     else if c \<notin> channel_ids d then (Inl channel_not_found, d)
     else case group_of d c of
       None \<Rightarrow> (Inr (g, c, True), with_membership g c d)
     | Some g' \<Rightarrow> if g' = g then (Inr (g, c, True), d) else (Inl channel_assignment_conflict, d))"
proof (cases "g \<in> group_ids d \<and> c \<in> channel_ids d")
  case False
  then show ?thesis
    using assms group_found_iff [OF assms]
    by (auto simp: put_channel_group_membership_def act_simps get_group_by_id_eq get_channel_by_id_eq
        simp del: None_eq_map_option_iff option.map_disc_iff)
next
  case True
  have found: "map_option group_record_of (find (\<lambda>r. gr_id r = g) (channel_groups d)) \<noteq> None"
    "map_option channel_record_of (find (\<lambda>r. ch_id r = c) (channels d)) \<noteq> None"
    using True group_found_iff [OF assms] by blast+
  show ?thesis
    using True assms found
    by (simp add: put_channel_group_membership_def add_membership_eq act_simps get_group_by_id_eq get_channel_by_id_eq
        get_membership_eq del: None_eq_map_option_iff option.map_disc_iff split: option.split)
qed

lemma delete_membership_eq:
  assumes "db_ok d"
  shows "delete_channel_group_membership g c d =
    (if g \<notin> group_ids d then (Inl group_not_found, d)
     else (Inr (g, c, False), if group_of d c = Some g then without_membership g c d else d))"
proof (cases "g \<in> group_ids d")
  case False
  then show ?thesis
    using assms group_found_iff [OF assms]
    by (auto simp: delete_channel_group_membership_def act_simps get_group_by_id_eq
        simp del: None_eq_map_option_iff option.map_disc_iff)
next
  case True
  have found: "map_option group_record_of (find (\<lambda>r. gr_id r = g) (channel_groups d)) \<noteq> None"
    using True group_found_iff [OF assms] by blast
  have "\<exists>b. remove_channel_membership g c d = (Inr b, without_membership g c d)"
    by (rule remove_membership_eq [OF assms])
  then show ?thesis
    using True assms found
    by (auto simp: delete_channel_group_membership_def act_simps get_group_by_id_eq get_membership_eq
        simp del: None_eq_map_option_iff option.map_disc_iff split: option.split)
qed

section \<open>Properties\<close>

text \<open>
  A channel is in at most one group and the PUT route keeps it so. It succeeds exactly when
  the group and the channel exist and the channel is in no other group; then the channel is in
  that group, all other channels are where they were, and repeating the request answers the same
  without any change. Otherwise it answers 404 or 409 and changes nothing.
\<close>

lemma put_membership_outcome:
  assumes "db_ok d"
  shows "(case put_channel_group_membership g c d of
      (Inr answer, d') \<Rightarrow>
        answer = (g, c, True) \<and> g \<in> group_ids d \<and> c \<in> channel_ids d \<and> group_of d c \<in> {None, Some g} \<and>
        group_of d' = (group_of d)(c \<mapsto> g) \<and> db_ok d' \<and>
        put_channel_group_membership g c d' = (Inr (g, c, True), d')
    | (Inl e, d') \<Rightarrow> d' = d \<and>
        e = (if g \<notin> group_ids d then group_not_found else if c \<notin> channel_ids d then channel_not_found
             else channel_assignment_conflict) \<and>
        (g \<in> group_ids d \<and> c \<in> channel_ids d \<longrightarrow> (\<exists>g'. group_of d c = Some g' \<and> g' \<noteq> g)))"
proof (cases "g \<in> group_ids d \<and> c \<in> channel_ids d \<and> group_of d c = None")
  case True
  note facts = with_membership_facts [of d g c]
  have ids: "group_ids (with_membership g c d) = group_ids d" "channel_ids (with_membership g c d) = channel_ids d"
    by (simp_all add: with_membership_def)
  have again: "put_channel_group_membership g c (with_membership g c d) =
      (Inr (g, c, True), with_membership g c d)"
    using facts assms True put_membership_eq [of "with_membership g c d" g c] ids by simp
  show ?thesis
    unfolding put_membership_eq [OF assms] using True facts assms again by simp
next
  case False
  then show ?thesis
    using assms
    by (auto simp: put_membership_eq [OF assms] split: option.splits)
qed

definition group_sample :: db where
  "group_sample = snd (create_group ''g'' None (Some 30) (snd (create_group ''f'' None None sample_db)))"

lemma put_membership_outcome_witness:
  "put_channel_group_membership 2 1 group_sample = (Inr (2, 1, True), with_membership 2 1 group_sample) \<and>
   group_of (with_membership 2 1 group_sample) 1 = Some 2"
proof -
  have ok: "db_ok group_sample" by code_simp
  have ids: "2 \<in> group_ids group_sample" "1 \<in> channel_ids group_sample" "group_of group_sample 1 = None"
    by code_simp+
  have put: "put_channel_group_membership 2 1 group_sample = (Inr (2, 1, True), with_membership 2 1 group_sample)"
    using ids by (simp add: put_membership_eq [OF ok])
  with put_membership_outcome [OF ok, of 2 1] show ?thesis by simp
qed

text \<open>
  The dedupe horizon that applies: a group's override if the group exists and has one, else
  the stored global setting, else the seeded default of 1440 minutes; a stored global setting that
  is not an integer (a boolean included) raises the type error.
\<close>

lemma effective_horizon_precedence:
  assumes "db_ok d" and "settings_ok d"
  shows "resolve_effective_dedupe_horizon_minutes group_id d =
    (case Option.bind group_id (\<lambda>g. Option.bind (find (\<lambda>r. gr_id r = g) (channel_groups d)) gr_horizon_override) of
       Some h \<Rightarrow> Inr h
     | None \<Rightarrow>
        (case setting_value d ''dedupe.default_horizon_minutes'' of
           None \<Rightarrow> Inr 1440
         | Some (PInt n) \<Rightarrow> Inr n
         | Some _ \<Rightarrow> Inl (Exn ''ConfigValueTypeError'' ''Resolved dynamic setting has invalid type'')))"
proof -
  have seeded: "resolve_seeded_default_horizon_minutes = Inr 1440"
    by (simp add: resolve_seeded_default_horizon_minutes_def DYNAMIC_SETTINGS_DEFAULTS_def
        DEDUPE_DEFAULT_HORIZON_MINUTES_KEY_def)
  have global: "resolve_global_dedupe_horizon_minutes d =
      (case setting_value d ''dedupe.default_horizon_minutes'' of
           None \<Rightarrow> Inr 1440
         | Some (PInt n) \<Rightarrow> Inr n
         | Some _ \<Rightarrow> Inl (Exn ''ConfigValueTypeError'' ''Resolved dynamic setting has invalid type''))"
    using assms(2)
    by (simp add: resolve_global_dedupe_horizon_minutes_def setting_get_by_key_value seeded
        DEDUPE_DEFAULT_HORIZON_MINUTES_KEY_def split: option.split pyobj.split)
  show ?thesis
    unfolding resolve_effective_dedupe_horizon_minutes_def global
    using assms(1) by (auto simp: get_group_by_id_eq group_record_of_def split: option.split)
qed

lemma effective_horizon_precedence_witness:
  "resolve_effective_dedupe_horizon_minutes (Some 2) group_sample = Inr 30 \<and>
   resolve_effective_dedupe_horizon_minutes (Some 1) group_sample = Inr 1440"
proof -
  have ok: "db_ok group_sample" "settings_ok group_sample" by code_simp+
  have "Option.bind (find (\<lambda>r. gr_id r = 2) (channel_groups group_sample)) gr_horizon_override = Some 30"
    "Option.bind (find (\<lambda>r. gr_id r = 1) (channel_groups group_sample)) gr_horizon_override = None"
    "setting_value group_sample ''dedupe.default_horizon_minutes'' = None"
    by code_simp+
  then show ?thesis by (simp add: effective_horizon_precedence [OF ok])
qed

end
