(* ===== verification/Channel_State.thy ===== *)
theory Channel_State
  imports Channels
begin

text \<open>
  \<open>tca/storage/channel_state_repo.py\<close>: the polling state of a channel (its cursor as a JSON text,
  the pause and the last success). The locale \<open>pause_store\<close> states what the flood-wait handler and
  the scheduler rely on (a pause that was set is read back, for that channel only); it is
  interpreted on the repository. Lemmas: the cursor survives its JSON text, and each update
  touches only its own field.
\<close>

section \<open>Records\<close>

record channel_cursor =
  cu_last_message_id :: "int option"
  cu_next_offset_id :: "int option"
  cu_last_polled_at :: datetime

record channel_state_record =
  sd_channel_id :: int
  sd_cursor :: "channel_cursor option"
  sd_paused_until :: "datetime option"
  sd_last_success_at :: "datetime option"

abbreviation ChannelStateDecodeError :: "string \<Rightarrow> exn" where
  "ChannelStateDecodeError \<equiv> Exn ''ChannelStateDecodeError''"

section \<open>The cursor text\<close>

text \<open>\<open>value.astimezone(UTC)\<close>, and \<open>isoformat()\<close> with the offset written \<open>Z\<close>.\<close>

definition to_utc :: "datetime \<Rightarrow> datetime" where
  "to_utc d = DT (instant d) (Some 0)"

definition z_text :: "datetime \<Rightarrow> string" where
  "z_text d =
     (let t = dt_text (DT (wall_us d) None) in take 10 t @ ''T'' @ drop 11 t @ ''Z'')"

definition format_cursor_timestamp :: "datetime \<Rightarrow> pyobj" where
  "format_cursor_timestamp value =
     (let normalized = to_utc (normalize_datetime value) in PIso normalized (z_text normalized))"

definition encode_cursor_json :: "channel_cursor option \<Rightarrow> jtext option" where
  "encode_cursor_json cursor =
     (case cursor of
        None \<Rightarrow> None
      | Some c \<Rightarrow>
         json_dumps (PDict
           [(PStr ''last_message_id'', opt_obj PInt (cu_last_message_id c)),
            (PStr ''next_offset_id'', opt_obj PInt (cu_next_offset_id c)),
            (PStr ''last_polled_at'', format_cursor_timestamp (cu_last_polled_at c))]))"

definition dict_has :: "(pyobj \<times> pyobj) list \<Rightarrow> string \<Rightarrow> bool" where
  "dict_has kvs k \<longleftrightarrow> PStr k \<in> fst ` set kvs"

text \<open>A \<open>Z\<close> at the end of the text and \<open>+00:00\<close> there are read alike.\<close>

fun coerce_cursor_datetime :: "pyobj \<Rightarrow> datetime res" where
  "coerce_cursor_datetime (PIso d s) = Inr (normalize_datetime d)"
| "coerce_cursor_datetime v = Inl (ChannelStateDecodeError ''cursor_json invalid `last_polled_at`'')"

definition decode_cursor_object :: "(pyobj \<times> pyobj) list \<Rightarrow> channel_cursor res" where
  "decode_cursor_object kvs =
     (if \<not> dict_has kvs ''last_message_id''
      then Inl (ChannelStateDecodeError ''cursor_json missing `last_message_id`'')
      else if \<not> dict_has kvs ''next_offset_id''
      then Inl (ChannelStateDecodeError ''cursor_json missing `next_offset_id`'')
      else if \<not> dict_has kvs ''last_polled_at''
      then Inl (ChannelStateDecodeError ''cursor_json missing `last_polled_at`'')
      else
        res_bind (coerce_opt_with (coerce_int_with False
            (ChannelStateDecodeError ''cursor_json invalid `last_message_id`''))
            (dict_get kvs ''last_message_id'')) (\<lambda>m.
        res_bind (coerce_opt_with (coerce_int_with False
            (ChannelStateDecodeError ''cursor_json invalid `next_offset_id`''))
            (dict_get kvs ''next_offset_id'')) (\<lambda>n.
        res_bind (coerce_cursor_datetime (dict_get kvs ''last_polled_at'')) (\<lambda>p.
          Inr \<lparr> cu_last_message_id = m, cu_next_offset_id = n, cu_last_polled_at = p \<rparr>))))"

definition decode_cursor_json :: "jtext option \<Rightarrow> channel_cursor option res" where
  "decode_cursor_json value =
     (case value of
        None \<Rightarrow> Inr None
      | Some t \<Rightarrow>
         (case json_loads t of
            None \<Rightarrow> Inl (ChannelStateDecodeError ''invalid cursor_json'')
          | Some (PDict kvs) \<Rightarrow> res_bind (decode_cursor_object kvs) (\<lambda>c. Inr (Some c))
          | Some _ \<Rightarrow> Inl (ChannelStateDecodeError ''cursor_json must be object'')))"

section \<open>The repository\<close>

definition state_columns :: "channel_state_row \<Rightarrow> row_map" where
  "state_columns r =
     [(''channel_id'', PInt (cs_channel_id r)),
      (''paused_until'', opt_obj dt_obj (cs_paused_until r)),
      (''last_success_at'', opt_obj dt_obj (cs_last_success_at r))]"

text \<open>The JSON column is passed beside the others.\<close>

definition decode_state_row :: "row_map \<Rightarrow> jtext option \<Rightarrow> channel_state_record res" where
  "decode_state_row row cursor_json =
     res_bind (coerce_int_with False (ChannelStateDecodeError ''missing integer `channel_id`'')
         (row_get row ''channel_id'')) (\<lambda>c.
     res_bind (decode_cursor_json cursor_json) (\<lambda>cursor.
     res_bind (coerce_opt_with (coerce_datetime_with True (ChannelStateDecodeError ''invalid datetime value'')
         (ChannelStateDecodeError ''invalid datetime value'')) (row_get row ''paused_until'')) (\<lambda>p.
     res_bind (coerce_opt_with (coerce_datetime_with True (ChannelStateDecodeError ''invalid datetime value'')
         (ChannelStateDecodeError ''invalid datetime value'')) (row_get row ''last_success_at'')) (\<lambda>l.
       Inr \<lparr> sd_channel_id = c, sd_cursor = cursor, sd_paused_until = p, sd_last_success_at = l \<rparr>))))"

definition decode_state :: "channel_state_row \<Rightarrow> channel_state_record res" where
  "decode_state r = decode_state_row (state_columns r) (cs_cursor_json r)"

definition channel_get_state :: "int \<Rightarrow> db \<Rightarrow> channel_state_record option res" where
  "channel_get_state channel_id d =
     res_bind (one_or_none (filter (\<lambda>r. cs_channel_id r = channel_id) (channel_states d))) (\<lambda>row.
       case row of
         None \<Rightarrow> Inr None
       | Some r \<Rightarrow> res_bind (decode_state r) (\<lambda>s. Inr (Some s)))"

text \<open>The result dictionary as an association list keyed by channel id.\<close>

definition list_states_by_channel_ids :: "int list \<Rightarrow> db \<Rightarrow> (int \<times> channel_state_record) list res" where
  "list_states_by_channel_ids ids d =
     (if ids = [] then Inr []
      else res_bind
        (res_map decode_state (filter (\<lambda>r. cs_channel_id r \<in> set ids) (channel_states d)))
        (\<lambda>rs. Inr (map (\<lambda>s. (sd_channel_id s, s)) rs)))"

text \<open>\<open>INSERT ... ON CONFLICT(channel_id) DO UPDATE ... RETURNING\<close>: \<open>f\<close> sets the given columns.\<close>

definition upsert_state_row ::
  "int \<Rightarrow> (channel_state_row \<Rightarrow> channel_state_row) \<Rightarrow> (db, channel_state_row) act" where
  "upsert_state_row channel_id f d =
     (case find (\<lambda>r. cs_channel_id r = channel_id) (channel_states d) of
        Some r \<Rightarrow>
          let g = (\<lambda>r. (f r)\<lparr> cs_updated_at := current_timestamp d \<rparr>) in
          (Inr (g r), d\<lparr> channel_states := update_where (\<lambda>r. cs_channel_id r = channel_id) g (channel_states d) \<rparr>)
      | None \<Rightarrow>
          if channel_id \<notin> channel_ids d
          then (Inl (IntegrityError ''FOREIGN KEY constraint failed''), d)
          else
            let row = f \<lparr> cs_channel_id = channel_id, cs_cursor_json = None, cs_paused_until = None,
                          cs_last_success_at = None, cs_updated_at = current_timestamp d \<rparr> in
            (Inr row, d\<lparr> channel_states := channel_states d @ [row] \<rparr>))"

definition upsert_state ::
  "int \<Rightarrow> datetime option \<Rightarrow> datetime option \<Rightarrow> (db, channel_state_record) act" where
  "upsert_state channel_id paused_until last_success_at =
     act_bind
       (transaction (upsert_state_row channel_id
         (\<lambda>r. r\<lparr> cs_paused_until := paused_until, cs_last_success_at := last_success_at \<rparr>)))
       (\<lambda>row. act_lift (decode_state row))"

definition update_pause :: "int \<Rightarrow> datetime option \<Rightarrow> (db, channel_state_record) act" where
  "update_pause channel_id paused_until =
     act_bind
       (transaction (upsert_state_row channel_id (\<lambda>r. r\<lparr> cs_paused_until := paused_until \<rparr>)))
       (\<lambda>row. act_lift (decode_state row))"

definition update_cursor :: "int \<Rightarrow> channel_cursor option \<Rightarrow> (db, channel_state_record) act" where
  "update_cursor channel_id cursor =
     act_bind
       (transaction (upsert_state_row channel_id (\<lambda>r. r\<lparr> cs_cursor_json := encode_cursor_json cursor \<rparr>)))
       (\<lambda>row. act_lift (decode_state row))"

section \<open>The invariant of the state table\<close>

text \<open>Every row decodes: the stored cursor text is one that the repository wrote.\<close>

definition cursor_ok :: "channel_state_row \<Rightarrow> bool" where
  "cursor_ok r = (case decode_cursor_json (cs_cursor_json r) of Inl _ \<Rightarrow> False | Inr _ \<Rightarrow> True)"

definition states_ok :: "db \<Rightarrow> bool" where
  "states_ok d \<longleftrightarrow> db_ok d \<and> list_all cursor_ok (channel_states d)"

definition decoded_cursor :: "channel_state_row \<Rightarrow> channel_cursor option" where
  "decoded_cursor r = (case decode_cursor_json (cs_cursor_json r) of Inl _ \<Rightarrow> None | Inr c \<Rightarrow> c)"

definition state_of_row :: "channel_state_row \<Rightarrow> channel_state_record" where
  "state_of_row r =
     \<lparr> sd_channel_id = cs_channel_id r, sd_cursor = decoded_cursor r,
       sd_paused_until = map_option normalize_datetime (cs_paused_until r),
       sd_last_success_at = map_option normalize_datetime (cs_last_success_at r) \<rparr>"

lemma decode_state_ok: "cursor_ok r \<Longrightarrow> decode_state r = Inr (state_of_row r)"
  by (auto simp: decode_state_def decode_state_row_def state_columns_def row_get_def cursor_ok_def
      state_of_row_def decoded_cursor_def coerce_opt_obj [where h = normalize_datetime] split: sum.splits)

lemma find_state_ok: "states_ok d \<Longrightarrow> find p (channel_states d) = Some r \<Longrightarrow> cursor_ok r"
  by (auto simp: states_ok_def list_all_iff find_Some_iff)

text \<open>What a read session sees of one channel.\<close>

definition state_view :: "db \<Rightarrow> int \<Rightarrow> channel_state_record option" where
  "state_view d c = map_option state_of_row (find (\<lambda>r. cs_channel_id r = c) (channel_states d))"

lemma channel_get_state_view: "states_ok d \<Longrightarrow> channel_get_state c d = Inr (state_view d c)"
  by (auto simp: channel_get_state_def state_view_def one_or_none_key states_ok_def db_ok_defs pk_def
      dest!: find_state_ok [unfolded states_ok_def db_ok_defs pk_def, rotated]
      intro!: decode_state_ok split: option.splits) (simp add: decode_state_ok)

text \<open>The cursor survives its text; only the zone of the timestamp is normalised.\<close>

definition stored_cursor :: "channel_cursor \<Rightarrow> channel_cursor" where
  "stored_cursor c = c\<lparr> cu_last_polled_at := to_utc (cu_last_polled_at c) \<rparr>"

lemma coerce_opt_int [simp]: "coerce_opt_with (coerce_int_with b e) (opt_obj PInt i) = Inr i"
  by (cases i) simp_all

lemma to_utc_normalize [simp]: "to_utc (normalize_datetime d) = to_utc d"
  by (simp add: to_utc_def)

lemma instant_to_utc [simp]: "instant (to_utc d) = instant d" "is_aware (to_utc d)"
  by (simp_all add: to_utc_def instant_def offset_us_def is_aware_def)

lemma decode_encode_cursor:
  "decode_cursor_json (encode_cursor_json c) = Inr (map_option stored_cursor c)"
proof (cases c)
  case (Some x)
  have "is_json_value (opt_obj PInt i)" for i by (cases i) simp_all
  then show ?thesis
    by (simp add: Some encode_cursor_json_def decode_cursor_json_def json_dumps_def json_loads_def
        decode_cursor_object_def dict_has_def dict_get_def format_cursor_timestamp_def
        stored_cursor_def Let_def)
qed (simp add: encode_cursor_json_def decode_cursor_json_def)

section \<open>The upsert\<close>

definition current_row :: "db \<Rightarrow> int \<Rightarrow> channel_state_row" where
  "current_row d c =
     (case find (\<lambda>r. cs_channel_id r = c) (channel_states d) of
        Some r \<Rightarrow> r
      | None \<Rightarrow> \<lparr> cs_channel_id = c, cs_cursor_json = None, cs_paused_until = None,
                 cs_last_success_at = None, cs_updated_at = current_timestamp d \<rparr>)"

text \<open>An assignment to columns other than the key and the update stamp.\<close>

definition sets_columns :: "(channel_state_row \<Rightarrow> channel_state_row) \<Rightarrow> bool" where
  "sets_columns f \<longleftrightarrow> (\<forall>r. cs_channel_id (f r) = cs_channel_id r \<and> (cursor_ok r \<longrightarrow> cursor_ok (f r)) \<and>
     cs_updated_at (f r) = cs_updated_at r)"

lemma current_row_ok: "states_ok d \<Longrightarrow> cs_channel_id (current_row d c) = c \<and> cursor_ok (current_row d c)"
  by (auto simp: current_row_def cursor_ok_def decode_cursor_json_def split: option.splits
      dest: find_state_ok [unfolded cursor_ok_def decode_cursor_json_def] find_key_Some)

lemma state_of_row_stamp [simp]:
  "state_of_row (r\<lparr> cs_updated_at := t \<rparr>) = state_of_row r"
  "cursor_ok (r\<lparr> cs_updated_at := t \<rparr>) = cursor_ok r"
  by (simp_all add: state_of_row_def decoded_cursor_def cursor_ok_def)

lemma upsert_state_row_unknown:
  assumes "states_ok d" and "c \<notin> channel_ids d"
  shows "upsert_state_row c f d = (Inl (IntegrityError ''FOREIGN KEY constraint failed''), d)"
proof -
  have "c \<notin> cs_channel_id ` set (channel_states d)"
    using assms by (auto simp: states_ok_def db_ok_defs dest: fkD)
  then show ?thesis using assms(2) by (simp add: upsert_state_row_def find_key_None [THEN iffD2])
qed

lemma upsert_state_row_known:
  assumes ok: "states_ok d" and c: "c \<in> channel_ids d" and f: "sets_columns f"
  shows "\<exists>row d'. upsert_state_row c f d = (Inr row, d') \<and> states_ok d' \<and>
      cursor_ok row \<and> state_of_row row = state_of_row (f (current_row d c)) \<and>
      state_view d' = (state_view d)(c \<mapsto> state_of_row row) \<and>
      d' = d\<lparr> channel_states := channel_states d' \<rparr>"
proof -
  have keep: "cs_channel_id (f r) = cs_channel_id r" "cursor_ok r \<Longrightarrow> cursor_ok (f r)" for r
    using f by (simp_all add: sets_columns_def)
  have old: "list_all cursor_ok (channel_states d)" "pk cs_channel_id (channel_states d)"
    using ok by (simp_all add: states_ok_def db_ok_defs)
  show ?thesis
  proof (cases "find (\<lambda>r. cs_channel_id r = c) (channel_states d)")
    case None
    let ?row = "f (current_row d c)"
    let ?d = "d\<lparr> channel_states := channel_states d @ [?row] \<rparr>"
    have "upsert_state_row c f d = (Inr ?row, ?d)"
      using None c by (simp add: upsert_state_row_def current_row_def Let_def)
    moreover have row: "cs_channel_id ?row = c" "cursor_ok ?row"
      using current_row_ok [OF ok, of c] keep by simp_all
    moreover have "states_ok ?d"
      using ok row c None by (simp add: states_ok_def db_ok_defs table_simps find_key_None)
    moreover have "state_view ?d = (state_view d)(c \<mapsto> state_of_row ?row)"
      using row None by (auto simp: state_view_def find_append fun_eq_iff split: option.split)
    ultimately show ?thesis by force
  next
    case (Some r)
    let ?g = "\<lambda>r. (f r)\<lparr> cs_updated_at := current_timestamp d \<rparr>"
    let ?d = "d\<lparr> channel_states := update_where (\<lambda>r. cs_channel_id r = c) ?g (channel_states d) \<rparr>"
    have "upsert_state_row c f d = (Inr (?g r), ?d)" using Some by (simp add: upsert_state_row_def Let_def)
    moreover have "cursor_ok (?g r)" using keep find_state_ok [OF ok Some] by simp
    moreover have "current_row d c = r" using Some by (simp add: current_row_def)
    moreover have "states_ok ?d"
      using ok keep
      by (simp add: states_ok_def db_ok_defs table_simps list_all_iff ball_update_where)
    moreover have "state_view ?d = (state_view d)(c \<mapsto> state_of_row (?g r))"
      using Some keep by (auto simp: state_view_def find_update_key fun_eq_iff)
    ultimately show ?thesis by force
  qed
qed

text \<open>The three updates: what they write, and that the rest of the state is as before.\<close>

definition blank_state :: "int \<Rightarrow> channel_state_record" where
  "blank_state c =
     \<lparr> sd_channel_id = c, sd_cursor = None, sd_paused_until = None, sd_last_success_at = None \<rparr>"

definition view_or_blank :: "db \<Rightarrow> int \<Rightarrow> channel_state_record" where
  "view_or_blank d c = (case state_view d c of None \<Rightarrow> blank_state c | Some s \<Rightarrow> s)"

lemma current_row_view: "state_of_row (current_row d c) = view_or_blank d c"
  by (auto simp: view_or_blank_def state_view_def current_row_def blank_state_def state_of_row_def
      decoded_cursor_def decode_cursor_json_def split: option.split)

lemma sets_columns_simps [simp]:
  "sets_columns (\<lambda>r. r\<lparr> cs_paused_until := p \<rparr>)"
  "sets_columns (\<lambda>r. r\<lparr> cs_paused_until := p, cs_last_success_at := l \<rparr>)"
  "sets_columns (\<lambda>r. r\<lparr> cs_cursor_json := encode_cursor_json c \<rparr>)"
  by (simp_all add: sets_columns_def cursor_ok_def decode_encode_cursor)

lemma state_of_row_sets [simp]:
  "state_of_row (r\<lparr> cs_paused_until := p \<rparr>) =
     (state_of_row r)\<lparr> sd_paused_until := map_option normalize_datetime p \<rparr>"
  "state_of_row (r\<lparr> cs_paused_until := p, cs_last_success_at := l \<rparr>) =
     (state_of_row r)\<lparr> sd_paused_until := map_option normalize_datetime p,
                       sd_last_success_at := map_option normalize_datetime l \<rparr>"
  "state_of_row (r\<lparr> cs_cursor_json := encode_cursor_json c \<rparr>) =
     (state_of_row r)\<lparr> sd_cursor := map_option stored_cursor c \<rparr>"
  by (simp_all add: state_of_row_def decoded_cursor_def decode_encode_cursor)

lemma upsert_shape:
  assumes "states_ok d" and "c \<in> channel_ids d" and "sets_columns f"
    and "m = act_bind (transaction (upsert_state_row c f)) (\<lambda>row. act_lift (decode_state row))"
  shows "\<exists>d'. m d = (Inr (state_of_row (f (current_row d c))), d') \<and> states_ok d' \<and>
      state_view d' = (state_view d)(c \<mapsto> state_of_row (f (current_row d c))) \<and>
      d' = d\<lparr> channel_states := channel_states d' \<rparr>"
  using upsert_state_row_known [OF assms(1-3)] assms(4)
  by (auto simp: act_bind_def transaction_def act_lift_def decode_state_ok)

lemma upsert_unknown_shape:
  assumes "states_ok d" and "c \<notin> channel_ids d"
    and "m = act_bind (transaction (upsert_state_row c f)) (\<lambda>row. act_lift (decode_state row))"
  shows "m d = (Inl (IntegrityError ''FOREIGN KEY constraint failed''), d)"
  using upsert_state_row_unknown [OF assms(1,2), of f] assms(3)
  by (simp add: act_bind_def transaction_def)

lemmas update_pause_known = upsert_shape [OF _ _ sets_columns_simps(1) update_pause_def, unfolded state_of_row_sets current_row_view]
lemmas upsert_state_known = upsert_shape [OF _ _ sets_columns_simps(2) upsert_state_def, unfolded state_of_row_sets current_row_view]
lemmas update_cursor_known = upsert_shape [OF _ _ sets_columns_simps(3) update_cursor_def, unfolded state_of_row_sets current_row_view]
lemmas update_pause_unknown = upsert_unknown_shape [OF _ _ update_pause_def]
lemmas upsert_state_unknown = upsert_unknown_shape [OF _ _ upsert_state_def]
lemmas update_cursor_unknown = upsert_unknown_shape [OF _ _ update_cursor_def]

section \<open>The pause interface\<close>

text \<open>
  What the flood-wait handler (writer) and the scheduler (reader) rely on: a pause that was set is
  read back as the same instant, for that channel only, and an unknown channel is refused without a
  change.
\<close>

locale pause_store =
  fixes inv :: "'s \<Rightarrow> bool" and known :: "'s \<Rightarrow> int set" and paused :: "'s \<Rightarrow> int \<Rightarrow> datetime option"
    and set_pause :: "int \<Rightarrow> datetime option \<Rightarrow> ('s, 'r) act"
  assumes set_inv: "inv s \<Longrightarrow> inv (snd (set_pause c p s))"
    and set_known: "inv s \<Longrightarrow> known (snd (set_pause c p s)) = known s"
    and set_returns: "inv s \<Longrightarrow> c \<in> known s \<Longrightarrow> \<exists>r. fst (set_pause c p s) = Inr r"
    and set_paused: "inv s \<Longrightarrow> c \<in> known s \<Longrightarrow>
      paused (snd (set_pause c p s)) = (paused s)(c := map_option normalize_datetime p)"
    and set_unknown: "inv s \<Longrightarrow> c \<notin> known s \<Longrightarrow> snd (set_pause c p s) = s"
begin

lemma pause_read_back:
  assumes "inv s" and "c \<in> known s"
  shows "\<exists>u. paused (snd (set_pause c (Some t) s)) c = Some u \<and> is_aware u \<and> instant u = instant t"
  using assms by (simp add: set_paused)

text \<open>After any sequence of updates the pause of a channel is the last one set for it.\<close>

definition pause_all :: "(int \<times> datetime option) list \<Rightarrow> 's \<Rightarrow> 's" where
  "pause_all ps s = foldl (\<lambda>s (c, p). snd (set_pause c p s)) s ps"

lemma pause_all_inv: "inv s \<Longrightarrow> inv (pause_all ps s) \<and> known (pause_all ps s) = known s"
  unfolding pause_all_def by (induction ps arbitrary: s) (auto simp: set_inv set_known)

lemma pause_all_paused:
  assumes "inv s" and "c \<in> known s"
  shows "paused (pause_all ps s) c =
     (case map_of (rev ps) c of None \<Rightarrow> paused s c | Some p \<Rightarrow> map_option normalize_datetime p)"
proof (induction ps rule: rev_induct)
  case Nil
  show ?case by (simp add: pause_all_def)
next
  case (snoc x xs)
  obtain k p where x: "x = (k, p)" by (cases x)
  have inv: "inv (pause_all xs s)" "known (pause_all xs s) = known s"
    using pause_all_inv [OF assms(1)] by auto
  have unfold: "pause_all (xs @ [(k, p)]) s = snd (set_pause k p (pause_all xs s))"
    by (simp add: pause_all_def)
  show ?case
    by (cases "k \<in> known s") (use assms inv snoc x in \<open>auto simp: unfold set_paused set_unknown\<close>)
qed

end

definition paused_view :: "db \<Rightarrow> int \<Rightarrow> datetime option" where
  "paused_view d c = Option.bind (state_view d c) sd_paused_until"

interpretation cps: pause_store states_ok channel_ids paused_view update_pause
proof unfold_locales
  fix s c and p :: "datetime option"
  assume ok: "states_ok s"
  show "states_ok (snd (update_pause c p s))"
    using update_pause_known [OF ok, of c p] update_pause_unknown [OF ok, of c p] ok
    by (cases "c \<in> channel_ids s") auto
  show "channel_ids (snd (update_pause c p s)) = channel_ids s"
  proof (cases "c \<in> channel_ids s")
    case True
    then obtain d' where "snd (update_pause c p s) = d'" "d' = s\<lparr> channel_states := channel_states d' \<rparr>"
      using update_pause_known [OF ok, of c p] by auto
    then show ?thesis by (metis db.select_convs(2) db.surjective db.update_convs(5))
  qed (simp add: update_pause_unknown [OF ok])
  show "snd (update_pause c p s) = s" if "c \<notin> channel_ids s"
    using that by (simp add: update_pause_unknown [OF ok])
  assume c: "c \<in> channel_ids s"
  show "\<exists>r. fst (update_pause c p s) = Inr r"
    using update_pause_known [OF ok c, of p] by auto
  show "paused_view (snd (update_pause c p s)) = (paused_view s)(c := map_option normalize_datetime p)"
    using update_pause_known [OF ok c, of p] by (auto simp: paused_view_def fun_eq_iff)
qed

section \<open>Properties\<close>

text \<open>
  Reading back what was written: on a table whose cursor texts decode, storing a cursor for an
  existing channel and then reading the state of any channel gives, for that channel, the stored
  cursor (message id and offset unchanged, the timestamp as the same instant in UTC) with its pause
  and last success untouched, and for every other channel the same answer as before. For an
  unknown channel the foreign key refuses the write and nothing changes.
\<close>

lemma update_cursor_read_back:
  assumes "states_ok d"
  shows "(c \<in> channel_ids d \<longrightarrow>
      (\<exists>d'. update_cursor c cursor d =
          (Inr ((view_or_blank d c)\<lparr> sd_cursor := map_option stored_cursor cursor \<rparr>), d') \<and>
        states_ok d' \<and>
        (\<forall>k. channel_get_state k d' =
          (if k = c then Inr (Some ((view_or_blank d c)\<lparr> sd_cursor := map_option stored_cursor cursor \<rparr>))
           else channel_get_state k d)))) \<and>
    (c \<notin> channel_ids d \<longrightarrow>
      update_cursor c cursor d = (Inl (IntegrityError ''FOREIGN KEY constraint failed''), d))"
  using assms update_cursor_known [OF assms, of c cursor] update_cursor_unknown [OF assms, of c cursor]
  by (auto simp: channel_get_state_view)

definition sample_cursor :: channel_cursor where
  "sample_cursor = \<lparr> cu_last_message_id = Some 9, cu_next_offset_id = None, cu_last_polled_at = DT 5000000 (Some 60) \<rparr>"

lemma sample_states_ok: "states_ok sample_db"
  by code_simp

lemma update_cursor_read_back_witness:
  "\<exists>d'. snd (update_cursor 1 (Some sample_cursor) sample_db) = d' \<and>
     (\<forall>k. channel_get_state k d' = (if k = 1 then Inr (Some ((blank_state 1)\<lparr> sd_cursor :=
        Some \<lparr> cu_last_message_id = Some 9, cu_next_offset_id = None, cu_last_polled_at = DT (-3595000000) (Some 0) \<rparr> \<rparr>))
      else channel_get_state k sample_db))"
proof -
  have "1 \<in> channel_ids sample_db" by code_simp
  moreover have "view_or_blank sample_db 1 = blank_state 1" by code_simp
  moreover have "stored_cursor sample_cursor = \<lparr> cu_last_message_id = Some 9, cu_next_offset_id = None,
      cu_last_polled_at = DT (-3595000000) (Some 0) \<rparr>" by code_simp
  ultimately show ?thesis
    using update_cursor_read_back [OF sample_states_ok, of 1 "Some sample_cursor"] by auto
qed

end
