(* ===== verification/Scheduler.thy ===== *)
theory Scheduler
  imports Channel_State Settings
begin

text \<open>
  \<open>tca/storage/poll_jobs_repo.py\<close> and \<open>tca/scheduler/service.py\<close>. One tick of the core loop reads
  the schedulable channels and their states and enqueues one job per eligible channel. The
  service around it is a step relation on the control points of its background task. Lemmas: the
  jitter stays in its range, a tick enqueues exactly the eligible channels, a failing tick does not
  end the loop, and a shutdown ends it after at most one more tick.
\<close>

section \<open>The job queue\<close>

record poll_job_record =
  jb_job_id :: int
  jb_channel_id :: int
  jb_correlation_id :: string

abbreviation PollJobsRepositoryError :: "string \<Rightarrow> exn" where
  "PollJobsRepositoryError \<equiv> Exn ''PollJobsRepositoryError''"

definition poll_job_columns :: "poll_job_row \<Rightarrow> row_map" where
  "poll_job_columns r =
     [(''id'', PInt (pj_id r)), (''channel_id'', PInt (pj_channel_id r)),
      (''correlation_id'', PStr (pj_correlation_id r))]"

definition decode_poll_job_row :: "row_map \<Rightarrow> poll_job_record res" where
  "decode_poll_job_row row =
     res_bind (int_or_raise (PollJobsRepositoryError ''Poll job row missing id.'') (row_get row ''id'')) (\<lambda>i.
     res_bind (int_or_raise (PollJobsRepositoryError ''Poll job row missing channel_id.'')
         (row_get row ''channel_id'')) (\<lambda>c.
     res_bind (coerce_str_with (PollJobsRepositoryError ''Poll job row missing correlation_id.'')
         (row_get row ''correlation_id'')) (\<lambda>k.
       Inr \<lparr> jb_job_id = i, jb_channel_id = c, jb_correlation_id = k \<rparr>)))"

definition enqueue_poll_job :: "int \<Rightarrow> string \<Rightarrow> (db, poll_job_record) act" where
  "enqueue_poll_job channel_id correlation_id =
     act_bind
       (transaction (\<lambda>d.
          let row = \<lparr> pj_id = sql_next_id (map pj_id (poll_jobs d)), pj_channel_id = channel_id,
                      pj_correlation_id = correlation_id, pj_created_at = current_timestamp d \<rparr> in
          if correlation_id \<in> pj_correlation_id ` set (poll_jobs d)
          then (Inl (IntegrityError ''UNIQUE constraint failed: poll_jobs.correlation_id''), d)
          else if channel_id \<notin> channel_ids d
          then (Inl (IntegrityError ''FOREIGN KEY constraint failed''), d)
          else (Inr row, d\<lparr> poll_jobs := poll_jobs d @ [row] \<rparr>)))
       (\<lambda>row. act_lift (decode_poll_job_row (poll_job_columns row)))"

section \<open>One tick\<close>

text \<open>
  The fields of \<open>SchedulerCoreLoop\<close> that a tick reads. \<open>random n\<close> is the \<open>n\<close>-th value of
  \<open>jitter_rng.random()\<close> and \<open>new_id n\<close> the \<open>n\<close>-th correlation id; the state counts how many of each
  were used.
\<close>

record core_loop =
  poll_interval_seconds :: int
  jitter_ratio :: rat
  random :: "nat \<Rightarrow> rat"
  new_id :: "nat \<Rightarrow> string"

record tick_state =
  tk_db :: db
  tk_draws :: nat
  tk_ids :: nat

definition DEFAULT_POLL_INTERVAL_SECONDS :: int where
  "DEFAULT_POLL_INTERVAL_SECONDS = 300"

text \<open>\<open>random.uniform(a, b)\<close> is \<open>a + (b - a) * random()\<close>.\<close>

definition uniform :: "rat \<Rightarrow> rat \<Rightarrow> rat \<Rightarrow> rat" where
  "uniform a b u = a + (b - a) * u"

text \<open>\<open>timedelta(seconds=x)\<close> rounds to the nearest microsecond, ties to even.\<close>

definition timedelta_us :: "rat \<Rightarrow> int" where
  "timedelta_us x =
     (let q = x * 1000000; f = \<lfloor>q\<rfloor>; r = q - of_int f in
      if r < 1 / 2 then f else if 1 / 2 < r then f + 1 else if even f then f else f + 1)"

definition compute_jitter_seconds :: "core_loop \<Rightarrow> nat \<Rightarrow> rat" where
  "compute_jitter_seconds self n =
     (let jitter_range = of_int (poll_interval_seconds self) * jitter_ratio self in
      uniform (- jitter_range) jitter_range (random self n))"

definition compute_next_run_at :: "core_loop \<Rightarrow> nat \<Rightarrow> datetime \<Rightarrow> datetime" where
  "compute_next_run_at self n last_success =
     dt_plus_us (normalize_datetime last_success)
       (timedelta_us (of_int (poll_interval_seconds self) + compute_jitter_seconds self n))"

definition is_paused :: "datetime option \<Rightarrow> datetime \<Rightarrow> bool" where
  "is_paused paused_until now =
     (case paused_until of None \<Rightarrow> False | Some u \<Rightarrow> instant (normalize_datetime u) > instant now)"

text \<open>The second component is the number of values drawn from the generator so far.\<close>

definition is_due :: "core_loop \<Rightarrow> datetime option \<Rightarrow> datetime \<Rightarrow> nat \<Rightarrow> bool \<times> nat" where
  "is_due self last_success now n =
     (case last_success of
        None \<Rightarrow> (True, n)
      | Some l \<Rightarrow> (instant (compute_next_run_at self n l) \<le> instant now, Suc n))"

fun eligible_loop ::
  "core_loop \<Rightarrow> datetime \<Rightarrow> (int \<times> channel_state_record) list \<Rightarrow> int list \<Rightarrow> nat \<Rightarrow> int list \<times> nat" where
  "eligible_loop self now state_map [] n = ([], n)"
| "eligible_loop self now state_map (c # cs) n =
     (let state = map_of state_map c in
      if is_paused (Option.bind state sd_paused_until) now
      then eligible_loop self now state_map cs n
      else
        case is_due self (Option.bind state sd_last_success_at) now n of (due, n') \<Rightarrow>
        case eligible_loop self now state_map cs n' of (rest, n'') \<Rightarrow>
          (if due then c # rest else rest, n''))"

text \<open>A computation on the database inside a tick.\<close>

definition on_db :: "(db, 'a) act \<Rightarrow> (tick_state, 'a) act" where
  "on_db m s = (case m (tk_db s) of (r, d) \<Rightarrow> (r, s\<lparr> tk_db := d \<rparr>))"

definition select_eligible_channels :: "core_loop \<Rightarrow> datetime \<Rightarrow> (tick_state, int list) act" where
  "select_eligible_channels self now =
     act_bind (on_db (act_read list_schedulable_channels)) (\<lambda>channels.
     let ids = map cr_id channels in
     act_bind (on_db (act_read (list_states_by_channel_ids ids))) (\<lambda>state_map.
       (\<lambda>s. case eligible_loop self now state_map ids (tk_draws s) of
              (eligible, n) \<Rightarrow> (Inr eligible, s\<lparr> tk_draws := n \<rparr>))))"

text \<open>The write goes through the writer queue, which runs it to its end.\<close>

definition enqueue_job :: "core_loop \<Rightarrow> int \<Rightarrow> (tick_state, poll_job_record) act" where
  "enqueue_job self channel_id =
     (\<lambda>s. on_db (enqueue_poll_job channel_id (new_id self (tk_ids s))) (s\<lparr> tk_ids := Suc (tk_ids s) \<rparr>))"

definition scheduler_run_once ::
  "core_loop \<Rightarrow> datetime \<Rightarrow> (tick_state, poll_job_record list) act" where
  "scheduler_run_once self time =
     (let now = normalize_datetime time in
      act_bind (select_eligible_channels self now) (\<lambda>eligible.
        act_foreach (enqueue_job self) eligible))"

section \<open>The configured interval\<close>

definition resolve_poll_interval_seconds :: "int \<Rightarrow> db \<Rightarrow> int res" where
  "resolve_poll_interval_seconds default_value d =
     res_bind (setting_get_by_key ''scheduler.default_poll_interval_seconds'' d) (\<lambda>record.
       case record of
         None \<Rightarrow> Inr default_value
       | Some rec \<Rightarrow>
          (case sr_value rec of
             PInt i \<Rightarrow> Inr (if i > 0 then i else default_value)
           | PFloat f \<Rightarrow>
              (case f of
                 Finite q \<Rightarrow>
                   Inr (if q \<le> 0 then default_value else if \<lfloor>q\<rfloor> > 0 then \<lfloor>q\<rfloor> else default_value)
               | PosInf \<Rightarrow> Inl (Exn ''OverflowError'' ''cannot convert float infinity to integer'')
               | NegInf \<Rightarrow> Inr default_value
               | NotANumber \<Rightarrow> Inl (ValueError ''cannot convert float NaN to integer''))
           | _ \<Rightarrow> Inr default_value))"

section \<open>Jitter and rounding\<close>

lemma timedelta_us_lower: "of_int m \<le> x * 1000000 \<Longrightarrow> m \<le> timedelta_us x"
proof -
  assume "of_int m \<le> x * 1000000"
  then have "m \<le> \<lfloor>x * 1000000\<rfloor>" by (simp add: le_floor_iff)
  then show ?thesis by (simp add: timedelta_us_def Let_def)
qed

lemma timedelta_us_upper: "x * 1000000 \<le> of_int m \<Longrightarrow> timedelta_us x \<le> m"
proof -
  assume le: "x * 1000000 \<le> of_int m"
  define f where "f = \<lfloor>x * 1000000\<rfloor>"
  have f: "f \<le> m" "of_int f \<le> x * 1000000" using le by (simp_all add: f_def floor_le_iff)
  show ?thesis
  proof (cases "x * 1000000 = of_int f")
    case True
    then show ?thesis using f by (simp add: timedelta_us_def flip: f_def)
  next
    case False
    then have "f < m" using f le by (metis less_le of_int_le_iff order_antisym)
    then show ?thesis by (auto simp: timedelta_us_def Let_def simp flip: f_def)
  qed
qed

text \<open>The values of the generator that the documentation of \<open>random()\<close> promises.\<close>

definition draws_in_unit :: "core_loop \<Rightarrow> bool" where
  "draws_in_unit self \<longleftrightarrow> (\<forall>n. 0 \<le> random self n \<and> random self n \<le> 1)"

lemma jitter_bounds:
  assumes "draws_in_unit self" and "0 \<le> poll_interval_seconds self" and "0 \<le> jitter_ratio self"
  shows "\<bar>compute_jitter_seconds self n\<bar> \<le> of_int (poll_interval_seconds self) * jitter_ratio self"
proof -
  define r where "r = of_int (poll_interval_seconds self) * jitter_ratio self"
  define u where "u = random self n"
  have "0 \<le> r" "0 \<le> u" "u \<le> 1" using assms by (simp_all add: r_def u_def draws_in_unit_def)
  then have "0 \<le> r * u" "r * u \<le> r" by (simp_all add: mult_left_le)
  moreover have "compute_jitter_seconds self n = 2 * (r * u) - r"
    by (simp add: compute_jitter_seconds_def uniform_def r_def u_def algebra_simps)
  ultimately have "\<bar>compute_jitter_seconds self n\<bar> \<le> r" by (simp add: abs_le_iff)
  then show ?thesis by (simp add: r_def)
qed

section \<open>The eligible channels\<close>

text \<open>
  Two bounds on the verdict for a channel, whatever the generator yields: it is certainly polled
  when it is not paused and never succeeded or the longest interval has passed, and certainly
  skipped when it is paused or the shortest interval has not passed.
\<close>

definition elapsed_us :: "datetime \<Rightarrow> datetime \<Rightarrow> int" where
  "elapsed_us now l = instant now - instant l"

definition must_poll :: "core_loop \<Rightarrow> datetime \<Rightarrow> channel_state_record option \<Rightarrow> bool" where
  "must_poll self now st \<longleftrightarrow>
     \<not> is_paused (Option.bind st sd_paused_until) now \<and>
     (case Option.bind st sd_last_success_at of
        None \<Rightarrow> True
      | Some l \<Rightarrow> of_int (poll_interval_seconds self) * (1 + jitter_ratio self) * 1000000
                   \<le> (of_int (elapsed_us now l) :: rat))"

definition must_wait :: "core_loop \<Rightarrow> datetime \<Rightarrow> channel_state_record option \<Rightarrow> bool" where
  "must_wait self now st \<longleftrightarrow>
     is_paused (Option.bind st sd_paused_until) now \<or>
     (case Option.bind st sd_last_success_at of
        None \<Rightarrow> False
      | Some l \<Rightarrow> of_int (elapsed_us now l + 1) \<le>
                   of_int (poll_interval_seconds self) * (1 - jitter_ratio self) * (1000000 :: rat))"

lemma is_due_bounds:
  assumes "draws_in_unit self" and "0 \<le> poll_interval_seconds self" and "0 \<le> jitter_ratio self"
    and "\<not> is_paused (Option.bind st sd_paused_until) now"
  shows "must_poll self now st \<Longrightarrow> fst (is_due self (Option.bind st sd_last_success_at) now n)"
    and "must_wait self now st \<Longrightarrow> \<not> fst (is_due self (Option.bind st sd_last_success_at) now n)"
proof -
  define I where "I = (of_int (poll_interval_seconds self) :: rat)"
  define j where "j = compute_jitter_seconds self n"
  have j: "- (I * jitter_ratio self) \<le> j" "j \<le> I * jitter_ratio self"
    using jitter_bounds [OF assms(1-3), of n] by (simp_all add: I_def j_def abs_le_iff)
  { fix l
    have run: "instant (compute_next_run_at self n l) \<le> instant now \<longleftrightarrow>
        timedelta_us (I + j) \<le> elapsed_us now l"
      by (auto simp: compute_next_run_at_def elapsed_us_def I_def j_def)
    have "timedelta_us (I + j) \<le> elapsed_us now l"
      if "I * (1 + jitter_ratio self) * 1000000 \<le> of_int (elapsed_us now l)"
    proof (rule timedelta_us_upper)
      have "(I + j) * 1000000 \<le> I * (1 + jitter_ratio self) * 1000000"
        using j by (simp add: algebra_simps)
      then show "(I + j) * 1000000 \<le> of_int (elapsed_us now l)" using that by simp
    qed
    moreover have "elapsed_us now l + 1 \<le> timedelta_us (I + j)"
      if "of_int (elapsed_us now l + 1) \<le> I * (1 - jitter_ratio self) * 1000000"
    proof (rule timedelta_us_lower)
      have "I * (1 - jitter_ratio self) * 1000000 \<le> (I + j) * 1000000"
        using j by (simp add: algebra_simps)
      then show "of_int (elapsed_us now l + 1) \<le> (I + j) * 1000000" using that by simp
    qed
    moreover note run
    ultimately have "(I * (1 + jitter_ratio self) * 1000000 \<le> of_int (elapsed_us now l) \<longrightarrow>
          instant (compute_next_run_at self n l) \<le> instant now) \<and>
        (of_int (elapsed_us now l + 1) \<le> I * (1 - jitter_ratio self) * 1000000 \<longrightarrow>
          \<not> instant (compute_next_run_at self n l) \<le> instant now)" by fastforce
  } note core = this
  show "fst (is_due self (Option.bind st sd_last_success_at) now n)" if "must_poll self now st"
    using that core by (auto simp: must_poll_def is_due_def I_def split: option.splits)
  show "\<not> fst (is_due self (Option.bind st sd_last_success_at) now n)" if "must_wait self now st"
    using that core assms(4) by (auto simp: must_wait_def is_due_def I_def split: option.splits)
qed

lemma eligible_loop_subset: "set (fst (eligible_loop self now m xs k)) \<subseteq> set xs"
  by (induction xs arbitrary: k) (auto simp: Let_def split: prod.splits, (metis fst_conv subsetD)+)

lemma eligible_loop_subseq:
  "fst (eligible_loop self now m cs n) = filter (\<lambda>c. c \<in> set (fst (eligible_loop self now m cs n))) cs"
  if "distinct cs"
  using that
proof (induction cs arbitrary: n)
  case (Cons c cs)
  have skip: "filter (\<lambda>x. x \<in> set (fst (eligible_loop self now m cs k))) (c # cs) =
      filter (\<lambda>x. x \<in> set (fst (eligible_loop self now m cs k))) cs" for k
    using Cons.prems eligible_loop_subset [of self now m cs k] by auto
  have take: "filter (\<lambda>x. x \<in> set (c # fst (eligible_loop self now m cs k))) (c # cs) =
      c # filter (\<lambda>x. x \<in> set (fst (eligible_loop self now m cs k))) cs" for k
    using Cons.prems by (auto intro: filter_cong)
  have "\<exists>k. fst (eligible_loop self now m (c # cs) n) = fst (eligible_loop self now m cs k) \<or>
      fst (eligible_loop self now m (c # cs) n) = c # fst (eligible_loop self now m cs k)"
    by (auto simp: Let_def split: prod.splits) (metis fst_conv)+
  then obtain k where "fst (eligible_loop self now m (c # cs) n) = fst (eligible_loop self now m cs k) \<or>
      fst (eligible_loop self now m (c # cs) n) = c # fst (eligible_loop self now m cs k)" by blast
  then show ?case using skip [of k] take [of k] Cons.IH [of k] Cons.prems
    by (metis distinct.simps(2))
qed simp

lemma eligible_loop_verdict:
  assumes "draws_in_unit self" and "0 \<le> poll_interval_seconds self" and "0 \<le> jitter_ratio self"
    and "distinct cs" and "c \<in> set cs"
  shows "(must_poll self now (map_of m c) \<longrightarrow> c \<in> set (fst (eligible_loop self now m cs n))) \<and>
    (must_wait self now (map_of m c) \<longrightarrow> c \<notin> set (fst (eligible_loop self now m cs n)))"
  using assms(4,5)
proof (induction cs arbitrary: n)
  case (Cons x xs)
  show ?case
  proof (cases "x = c")
    case True
    then have "c \<notin> set (fst (eligible_loop self now m xs k))" for k using Cons.prems eligible_loop_subset [of self now m xs k] by auto
    with True show ?thesis
      using is_due_bounds [OF assms(1-3), of "map_of m c" now n]
      by (auto simp: Let_def must_poll_def split: prod.splits) (metis fst_conv)+
  next
    case False
    with Cons have "c \<in> set xs" "distinct xs" by auto
    with Cons.IH False show ?thesis
      by (auto simp: Let_def split: prod.splits) (metis fst_conv)+
  qed
qed simp

lemma list_states_view:
  assumes "states_ok d"
  shows "\<exists>xs. list_states_by_channel_ids ids d = Inr xs \<and> (\<forall>c \<in> set ids. map_of xs c = state_view d c)"
proof (cases "ids = []")
  case False
  let ?rows = "filter (\<lambda>r. cs_channel_id r \<in> set ids) (channel_states d)"
  have "res_map decode_state ?rows = Inr (map state_of_row ?rows)"
    using assms by (intro res_map_total decode_state_ok) (simp add: states_ok_def list_all_iff)
  moreover have "map_of (map (\<lambda>s. (sd_channel_id s, s)) (map state_of_row (filter p rs))) c =
      map_option state_of_row (find (\<lambda>r. cs_channel_id r = c) rs)"
    if "\<And>r. cs_channel_id r = c \<Longrightarrow> p r" for rs c p
    using that by (induction rs) (auto simp: state_of_row_def)
  ultimately show ?thesis
    using False by (auto simp: list_states_by_channel_ids_def state_view_def)
qed (simp add: list_states_by_channel_ids_def)

lemma select_eligible_ok:
  assumes "states_ok (tk_db s)" and "draws_in_unit self"
    and "0 \<le> poll_interval_seconds self" and "0 \<le> jitter_ratio self"
  shows "\<exists>el n. select_eligible_channels self now s = (Inr el, s\<lparr> tk_draws := n \<rparr>) \<and>
      el = filter (\<lambda>c. c \<in> set el) (map ch_id (schedulable_rows (tk_db s))) \<and>
      (\<forall>c \<in> set (map ch_id (schedulable_rows (tk_db s))).
        (must_poll self now (state_view (tk_db s) c) \<longrightarrow> c \<in> set el) \<and>
        (must_wait self now (state_view (tk_db s) c) \<longrightarrow> c \<notin> set el))"
proof -
  let ?d = "tk_db s"
  let ?ids = "map ch_id (schedulable_rows ?d)"
  have sched: "list_schedulable_channels ?d = Inr (map channel_record_of (schedulable_rows ?d))"
    unfolding list_schedulable_channels_def by (rule res_map_total) simp
  have ids: "map cr_id (map channel_record_of (schedulable_rows ?d)) = ?ids"
    by (simp add: channel_record_of_def)
  have dist: "distinct ?ids" using assms(1) by (intro schedulable_rows_set) (simp add: states_ok_def)
  obtain xs where xs: "list_states_by_channel_ids ?ids ?d = Inr xs"
      "\<forall>c \<in> set ?ids. map_of xs c = state_view ?d c"
    using list_states_view [OF assms(1)] by blast
  obtain el n where el: "eligible_loop self now xs ?ids (tk_draws s) = (el, n)" by fastforce
  have "select_eligible_channels self now s = (Inr el, s\<lparr> tk_draws := n \<rparr>)"
    using sched xs(1) el
    by (simp add: select_eligible_channels_def act_bind_def on_db_def act_read_def Let_def ids del: map_map)
  moreover have "el = filter (\<lambda>c. c \<in> set el) ?ids"
    using eligible_loop_subseq [OF dist, of self now xs "tk_draws s"] by (simp add: el)
  moreover have "(must_poll self now (state_view ?d c) \<longrightarrow> c \<in> set el) \<and>
      (must_wait self now (state_view ?d c) \<longrightarrow> c \<notin> set el)" if "c \<in> set ?ids" for c
    using eligible_loop_verdict [OF assms(2-4) dist that, of now xs "tk_draws s"] bspec [OF xs(2) that]
    by (simp add: el)
  ultimately show ?thesis by blast
qed

section \<open>Enqueueing\<close>

text \<open>The correlation ids still to come are new and pairwise different (random UUIDs).\<close>

definition fresh_ids :: "core_loop \<Rightarrow> tick_state \<Rightarrow> bool" where
  "fresh_ids self s \<longleftrightarrow> inj (new_id self) \<and>
     (\<forall>n \<ge> tk_ids s. new_id self n \<notin> pj_correlation_id ` set (poll_jobs (tk_db s)))"

definition job_record_of :: "poll_job_row \<Rightarrow> poll_job_record" where
  "job_record_of r =
     \<lparr> jb_job_id = pj_id r, jb_channel_id = pj_channel_id r, jb_correlation_id = pj_correlation_id r \<rparr>"

lemma decode_poll_job [simp]: "decode_poll_job_row (poll_job_columns r) = Inr (job_record_of r)"
  by (simp add: decode_poll_job_row_def poll_job_columns_def row_get_def job_record_of_def int_or_raise_def)

lemma enqueue_job_ok:
  assumes "states_ok (tk_db s)" and "fresh_ids self s" and "c \<in> channel_ids (tk_db s)"
  shows "\<exists>row s'. enqueue_job self c s = (Inr (job_record_of row), s') \<and> pj_channel_id row = c \<and>
      s' = s\<lparr> tk_db := (tk_db s)\<lparr> poll_jobs := poll_jobs (tk_db s) @ [row] \<rparr>, tk_ids := Suc (tk_ids s) \<rparr> \<and>
      states_ok (tk_db s') \<and> fresh_ids self s'"
proof -
  let ?row = "\<lparr> pj_id = sql_next_id (map pj_id (poll_jobs (tk_db s))), pj_channel_id = c,
      pj_correlation_id = new_id self (tk_ids s), pj_created_at = current_timestamp (tk_db s) \<rparr>"
  let ?s = "s\<lparr> tk_db := (tk_db s)\<lparr> poll_jobs := poll_jobs (tk_db s) @ [?row] \<rparr>, tk_ids := Suc (tk_ids s) \<rparr>"
  have new: "new_id self (tk_ids s) \<notin> pj_correlation_id ` set (poll_jobs (tk_db s))"
    using assms(2) by (simp add: fresh_ids_def)
  then have "enqueue_job self c s = (Inr (job_record_of ?row), ?s)"
    using assms(3) by (simp add: enqueue_job_def on_db_def enqueue_poll_job_def act_simps Let_def)
  moreover have "states_ok (tk_db ?s)"
    using assms new by (simp add: states_ok_def db_ok_defs table_simps)
  moreover have "fresh_ids self ?s"
    using assms(2) by (auto simp: fresh_ids_def dest: injD)
  ultimately show ?thesis by fastforce
qed

lemma enqueue_all_ok:
  assumes "states_ok (tk_db s)" and "fresh_ids self s" and "set cs \<subseteq> channel_ids (tk_db s)"
  shows "\<exists>rows. act_foreach (enqueue_job self) cs s =
        (Inr (map job_record_of rows),
         s\<lparr> tk_db := (tk_db s)\<lparr> poll_jobs := poll_jobs (tk_db s) @ rows \<rparr>, tk_ids := tk_ids s + length cs \<rparr>) \<and>
      map pj_channel_id rows = cs \<and> states_ok ((tk_db s)\<lparr> poll_jobs := poll_jobs (tk_db s) @ rows \<rparr>)"
  using assms
proof (induction cs arbitrary: s)
  case Nil
  then show ?case by (simp add: act_return_def)
next
  case (Cons c cs)
  then obtain row s' where one: "enqueue_job self c s = (Inr (job_record_of row), s')" "pj_channel_id row = c"
      "s' = s\<lparr> tk_db := (tk_db s)\<lparr> poll_jobs := poll_jobs (tk_db s) @ [row] \<rparr>, tk_ids := Suc (tk_ids s) \<rparr>"
      "states_ok (tk_db s')" "fresh_ids self s'"
    using enqueue_job_ok [of s self c] by auto
  have "set cs \<subseteq> channel_ids (tk_db s')" using Cons.prems(3) one(3) by simp
  with Cons.IH [OF one(4,5)] obtain rows where rest: "act_foreach (enqueue_job self) cs s' =
        (Inr (map job_record_of rows),
         s'\<lparr> tk_db := (tk_db s')\<lparr> poll_jobs := poll_jobs (tk_db s') @ rows \<rparr>, tk_ids := tk_ids s' + length cs \<rparr>)"
      "map pj_channel_id rows = cs" "states_ok ((tk_db s')\<lparr> poll_jobs := poll_jobs (tk_db s') @ rows \<rparr>)"
    by blast
  show ?case
    by (rule exI [of _ "row # rows"]) (use one rest in \<open>simp add: act_bind_def act_return_def\<close>)
qed

section \<open>The background service\<close>

text \<open>
  \<open>SchedulerService\<close> by the control point of its task: before the loop test, inside
  \<open>run_once\<close>, in \<open>wait_for(stop_event.wait(), timeout)\<close>, or ended. \<open>sv_task\<close> is \<open>None\<close> before the
  first start and after a shutdown; \<open>sv_stop\<close> is the event; \<open>sv_stopping\<close> marks a shutdown that
  awaits the task. The application calls startup and shutdown one after the other. The time of a
  tick is read when it starts, so a tick step may happen at any time.
\<close>

datatype loop_point = LTest | LTick | LWait | LEnded

record service =
  sv_task :: "loop_point option"
  sv_stop :: bool
  sv_stopping :: bool
  sv_loop :: core_loop
  sv_state :: tick_state
  sv_ticks :: nat

definition is_running :: "service \<Rightarrow> bool" where
  "is_running s \<longleftrightarrow> sv_task s \<noteq> None \<and> sv_task s \<noteq> Some LEnded"

text \<open>\<open>startup\<close>: nothing when running; an exception while the interval is read changes nothing.\<close>

definition service_startup :: "int \<Rightarrow> service \<Rightarrow> exn option \<times> service" where
  "service_startup default_interval s =
     (if is_running s then (None, s)
      else
        case resolve_poll_interval_seconds default_interval (tk_db (sv_state s)) of
          Inl e \<Rightarrow> (Some e, s)
        | Inr interval \<Rightarrow>
           (None, s\<lparr> sv_loop := (sv_loop s)\<lparr> poll_interval_seconds := interval \<rparr>,
                     sv_stop := False, sv_task := Some LTest \<rparr>))"

text \<open>\<open>_run_loop\<close>: an exception of \<open>run_once\<close> is logged, what was committed stays.\<close>

inductive service_step :: "int \<Rightarrow> service \<Rightarrow> service \<Rightarrow> bool" for default_interval where
  start: "\<not> sv_stopping s \<Longrightarrow> service_step default_interval s (snd (service_startup default_interval s))"
| test_stop: "sv_task s = Some LTest \<Longrightarrow> sv_stop s \<Longrightarrow>
    service_step default_interval s (s\<lparr> sv_task := Some LEnded \<rparr>)"
| test_go: "sv_task s = Some LTest \<Longrightarrow> \<not> sv_stop s \<Longrightarrow>
    service_step default_interval s (s\<lparr> sv_task := Some LTick \<rparr>)"
| tick: "sv_task s = Some LTick \<Longrightarrow>
    service_step default_interval s
      (s\<lparr> sv_task := Some LWait, sv_ticks := Suc (sv_ticks s),
          sv_state := snd (scheduler_run_once (sv_loop s) time (sv_state s)) \<rparr>)"
| wake: "sv_task s = Some LWait \<Longrightarrow> service_step default_interval s (s\<lparr> sv_task := Some LTest \<rparr>)"
| request_stop: "sv_task s \<noteq> None \<Longrightarrow> \<not> sv_stopping s \<Longrightarrow>
    service_step default_interval s (s\<lparr> sv_stop := True, sv_stopping := True \<rparr>)"
| stopped: "sv_stopping s \<Longrightarrow> sv_task s = Some LEnded \<Longrightarrow>
    service_step default_interval s (s\<lparr> sv_task := None, sv_stop := False, sv_stopping := False \<rparr>)"

inductive_cases service_stepE: "service_step i s t"

definition service_ok :: "service \<Rightarrow> bool" where
  "service_ok s \<longleftrightarrow> (sv_stopping s \<longrightarrow> sv_task s \<noteq> None \<and> sv_stop s) \<and>
     (sv_task s = Some LEnded \<longrightarrow> sv_stop s) \<and> (\<not> sv_stopping s \<longrightarrow> \<not> sv_stop s)"

lemma service_step_ok: "service_step i s t \<Longrightarrow> service_ok s \<Longrightarrow> service_ok t"
  by (induction rule: service_step.induct)
    (auto simp: service_ok_def service_startup_def split: sum.splits)

text \<open>Steps left until the task is gone, once a shutdown waits for it.\<close>

fun steps_to_stop :: "loop_point \<Rightarrow> nat" where
  "steps_to_stop LTick = 4"
| "steps_to_stop LWait = 3"
| "steps_to_stop LTest = 2"
| "steps_to_stop LEnded = 1"

lemma steps_to_stop_bounds: "1 \<le> steps_to_stop p" "steps_to_stop p \<le> 4"
  by (cases p; simp)+

definition stop_measure :: "service \<Rightarrow> nat" where
  "stop_measure s = (case sv_task s of None \<Rightarrow> 0 | Some p \<Rightarrow> steps_to_stop p)"

definition tick_under_way :: "service \<Rightarrow> nat" where
  "tick_under_way s = (if sv_task s = Some LTick then 1 else 0)"

lemma stopping_step:
  assumes "service_step i s t" and "service_ok s" and "sv_stopping s"
  shows "Suc (stop_measure t) = stop_measure s \<and>
      sv_ticks t + tick_under_way t = sv_ticks s + tick_under_way s \<and>
      (if sv_task t = None then \<not> sv_stopping t else sv_stopping t)"
  using assms
  by (elim service_stepE) (auto simp: stop_measure_def tick_under_way_def service_ok_def)

lemma stopping_progress:
  assumes "service_ok s" and "sv_stopping s"
  shows "\<exists>t. service_step i s t"
proof -
  obtain p where p: "sv_task s = Some p" using assms by (auto simp: service_ok_def)
  show ?thesis
    by (cases p) (use p assms in \<open>auto simp: service_ok_def intro: service_step.intros\<close>)
qed

lemma scheduler_tick_effect:
  assumes "states_ok (tk_db s)" and "fresh_ids self s" and "draws_in_unit self"
    and "0 \<le> poll_interval_seconds self" and "0 \<le> jitter_ratio self"
  shows "\<exists>rows s'. scheduler_run_once self time s = (Inr (map job_record_of rows), s') \<and>
    tk_db s' = (tk_db s)\<lparr> poll_jobs := poll_jobs (tk_db s) @ rows \<rparr> \<and> states_ok (tk_db s') \<and>
    sorted (map pj_channel_id rows) \<and> distinct (map pj_channel_id rows) \<and>
    set (map pj_channel_id rows) \<subseteq> ch_id ` set (schedulable_rows (tk_db s)) \<and>
    (\<forall>c \<in> ch_id ` set (schedulable_rows (tk_db s)).
      (must_poll self (normalize_datetime time) (state_view (tk_db s) c) \<longrightarrow> c \<in> set (map pj_channel_id rows)) \<and>
      (must_wait self (normalize_datetime time) (state_view (tk_db s) c) \<longrightarrow> c \<notin> set (map pj_channel_id rows)))"
proof -
  let ?d = "tk_db s" and ?now = "normalize_datetime time"
  let ?ids = "map ch_id (schedulable_rows ?d)"
  have db: "db_ok ?d" using assms(1) by (simp add: states_ok_def)
  obtain el n where sel: "select_eligible_channels self ?now s = (Inr el, s\<lparr> tk_draws := n \<rparr>)"
      and shape: "el = filter (\<lambda>c. c \<in> set el) ?ids"
      and verdict: "\<forall>c \<in> set ?ids. (must_poll self ?now (state_view ?d c) \<longrightarrow> c \<in> set el) \<and>
        (must_wait self ?now (state_view ?d c) \<longrightarrow> c \<notin> set el)"
    using select_eligible_ok [OF assms(1,3-5)] by blast
  let ?s1 = "s\<lparr> tk_draws := n \<rparr>"
  have chans: "set ?ids \<subseteq> channel_ids ?d" using schedulable_rows_set(1) [OF db] by auto
  have sub: "set el \<subseteq> set ?ids" using shape by (metis filter_is_subset)
  have "fresh_ids self ?s1" using assms(2) by (simp add: fresh_ids_def)
  then obtain rows where rows: "act_foreach (enqueue_job self) el ?s1 =
        (Inr (map job_record_of rows),
         ?s1\<lparr> tk_db := ?d\<lparr> poll_jobs := poll_jobs ?d @ rows \<rparr>, tk_ids := tk_ids s + length el \<rparr>)"
      "map pj_channel_id rows = el" "states_ok (?d\<lparr> poll_jobs := poll_jobs ?d @ rows \<rparr>)"
    using enqueue_all_ok [of ?s1 self el] assms(1) order_trans [OF sub chans] by auto
  have run: "scheduler_run_once self time s =
      (Inr (map job_record_of rows), ?s1\<lparr> tk_db := ?d\<lparr> poll_jobs := poll_jobs ?d @ rows \<rparr>, tk_ids := tk_ids s + length el \<rparr>)"
    by (simp add: scheduler_run_once_def act_bind_def sel rows(1))
  have "sorted el" "distinct el"
    using shape schedulable_rows_set(2,3) [OF db] by (metis sorted_wrt_filter, metis distinct_filter)
  note order = this
  show ?thesis
    by (rule exI [of _ rows], rule exI, rule conjI, rule run)
      (use order rows(2,3) sub verdict in \<open>simp only: rows(2) set_map tick_state.simps, simp\<close>)
qed

section \<open>Properties\<close>

text \<open>
  C12. One tick, on a store whose channel states decode, with generator values in the unit interval
  and fresh correlation ids, and a non-negative interval and jitter ratio: the tick returns, adds
  exactly one job per eligible channel in increasing order of channel id and changes no other
  table. Every job is for an enabled channel of an account that is not paused. Of those channels, each
  one that is not paused and never succeeded, or succeeded at least
  \<open>interval * (1 + ratio)\<close> ago, gets a job, and none that is paused or succeeded less than
  \<open>interval * (1 - ratio)\<close> ago does.
\<close>

theorem scheduler_tick_exact:
  assumes "states_ok (tk_db s)" and "fresh_ids self s" and "draws_in_unit self"
    and "0 \<le> poll_interval_seconds self" and "0 \<le> jitter_ratio self"
  shows "\<exists>rows s'. scheduler_run_once self time s = (Inr (map job_record_of rows), s') \<and>
    tk_db s' = (tk_db s)\<lparr> poll_jobs := poll_jobs (tk_db s) @ rows \<rparr> \<and> states_ok (tk_db s') \<and>
    sorted (map pj_channel_id rows) \<and> distinct (map pj_channel_id rows) \<and>
    set (map pj_channel_id rows) \<subseteq> ch_id ` set (schedulable_rows (tk_db s)) \<and>
    (\<forall>c \<in> ch_id ` set (schedulable_rows (tk_db s)).
      (must_poll self (normalize_datetime time) (state_view (tk_db s) c) \<longrightarrow> c \<in> set (map pj_channel_id rows)) \<and>
      (must_wait self (normalize_datetime time) (state_view (tk_db s) c) \<longrightarrow> c \<notin> set (map pj_channel_id rows)))"
  by (rule scheduler_tick_effect [OF assms])

text \<open>Channel 1 never polled, channel 2 polled one minute before the tick.\<close>

definition sample_loop :: core_loop where
  "sample_loop =
     \<lparr> poll_interval_seconds = 300, jitter_ratio = 1 / 5, random = (\<lambda>n. 1 / 2),
       new_id = (\<lambda>n. replicate n CHR ''a'') \<rparr>"

definition sample_tick :: tick_state where
  "sample_tick =
     \<lparr> tk_db = sample_db\<lparr> channel_states :=
         [\<lparr> cs_channel_id = 2, cs_cursor_json = None, cs_paused_until = None,
            cs_last_success_at = Some (DT 1799999940000000 (Some 0)), cs_updated_at = sample_time \<rparr>] \<rparr>,
       tk_draws = 0, tk_ids = 0 \<rparr>"

theorem scheduler_tick_exact_witness:
  "\<exists>rows s'. scheduler_run_once sample_loop (DT 1800000000000000 (Some 0)) sample_tick =
      (Inr (map job_record_of rows), s') \<and> map pj_channel_id rows = [1]"
proof -
  have hyps: "states_ok (tk_db sample_tick)" "0 \<le> poll_interval_seconds sample_loop" "0 \<le> jitter_ratio sample_loop"
    by code_simp+
  have "fresh_ids sample_loop sample_tick"
    by (auto simp: fresh_ids_def sample_loop_def sample_tick_def sample_db_def empty_db_def intro!: injI
        dest: arg_cong [of _ _ length])
  moreover have "draws_in_unit sample_loop" by (simp add: draws_in_unit_def sample_loop_def)
  ultimately obtain rows s' where r: "scheduler_run_once sample_loop (DT 1800000000000000 (Some 0)) sample_tick =
        (Inr (map job_record_of rows), s')" "distinct (map pj_channel_id rows)"
      "set (map pj_channel_id rows) \<subseteq> ch_id ` set (schedulable_rows (tk_db sample_tick))"
      "\<forall>c \<in> ch_id ` set (schedulable_rows (tk_db sample_tick)).
        (must_poll sample_loop (DT 1800000000000000 (Some 0)) (state_view (tk_db sample_tick) c) \<longrightarrow> c \<in> set (map pj_channel_id rows)) \<and>
        (must_wait sample_loop (DT 1800000000000000 (Some 0)) (state_view (tk_db sample_tick) c) \<longrightarrow> c \<notin> set (map pj_channel_id rows))"
    using scheduler_tick_exact [OF hyps(1) _ _ hyps(2,3), of "DT 1800000000000000 (Some 0)"] by auto
  have "ch_id ` set (schedulable_rows (tk_db sample_tick)) = {1, 2}" by code_simp
  moreover have "must_poll sample_loop (DT 1800000000000000 (Some 0)) (state_view (tk_db sample_tick) 1)"
    "must_wait sample_loop (DT 1800000000000000 (Some 0)) (state_view (tk_db sample_tick) 2)"
    by code_simp+
  ultimately have "set (map pj_channel_id rows) = {1}" using r(3,4) by fastforce
  with r(2) have "map pj_channel_id rows = [1]"
    by (metis distinct.simps(2) list.set_cases list.set_intros(1) set_empty2 singleton_iff insert_not_empty
        list.set_intros(2) list.exhaust)
  with r(1) show ?thesis by (intro exI conjI)
qed

text \<open>
  C14. Shutting the scheduler down always succeeds: from any state where a shutdown waits for the
  task, some step is possible, every execution reaches the stopped state (no task, ready for a new
  start) after exactly the number of steps left in the loop body, at most four, and along it no
  tick runs except the one that was already under way.
\<close>

theorem scheduler_shutdown_terminates:
  assumes "service_ok s" and "sv_stopping s"
  shows "(\<exists>t. service_step i s t) \<and> stop_measure s \<le> 4 \<and>
    (\<forall>n t. (service_step i ^^ n) s t \<and> n \<le> stop_measure s \<longrightarrow>
       stop_measure t = stop_measure s - n \<and>
       sv_ticks t + tick_under_way t = sv_ticks s + tick_under_way s \<and>
       (n = stop_measure s \<longrightarrow> sv_task t = None \<and> \<not> sv_stopping t) \<and>
       (n < stop_measure s \<longrightarrow> sv_stopping t \<and> (\<exists>u. service_step i t u)))"
proof -
  have le: "stop_measure s \<le> 4"
    using steps_to_stop_bounds by (auto simp: stop_measure_def split: option.split)
  have zero: "stop_measure t = 0 \<longleftrightarrow> sv_task t = None" for t
    using steps_to_stop_bounds [of "the (sv_task t)"] by (cases "sv_task t") (auto simp: stop_measure_def)
  have main: "(service_step i ^^ n) s t \<Longrightarrow> n \<le> stop_measure s \<Longrightarrow>
      service_ok t \<and> stop_measure t = stop_measure s - n \<and>
      sv_ticks t + tick_under_way t = sv_ticks s + tick_under_way s \<and>
      (n = stop_measure s \<longrightarrow> sv_task t = None \<and> \<not> sv_stopping t) \<and>
      (n < stop_measure s \<longrightarrow> sv_stopping t)" for n t
  proof (induction n arbitrary: t)
    case 0
    then show ?case using assms zero [of s] by (auto simp: service_ok_def)
  next
    case (Suc n)
    then obtain u where u: "(service_step i ^^ n) s u" "service_step i u t" by auto
    from Suc.IH [OF u(1)] Suc.prems have "service_ok u" "sv_stopping u" "stop_measure u = stop_measure s - n"
      "sv_ticks u + tick_under_way u = sv_ticks s + tick_under_way s" by auto
    with stopping_step [OF u(2)] service_step_ok [OF u(2)] zero [of t] Suc.prems
    show ?case by (auto split: if_splits)
  qed
  show ?thesis
    using le main stopping_progress [OF assms] stopping_progress by blast
qed

definition sample_service :: service where
  "sample_service =
     \<lparr> sv_task = Some LTick, sv_stop = True, sv_stopping = True, sv_loop = sample_loop,
       sv_state = sample_tick, sv_ticks = 0 \<rparr>"

theorem scheduler_shutdown_terminates_witness:
  "\<exists>t. (service_step 300 ^^ 4) sample_service t \<and> sv_task t = None \<and> sv_ticks t \<le> 1"
proof -
  have hyps: "service_ok sample_service" "sv_stopping sample_service" "stop_measure sample_service = 4"
    "sv_ticks sample_service + tick_under_way sample_service = 1"
    by (simp_all add: service_ok_def sample_service_def stop_measure_def tick_under_way_def)
  note shut = scheduler_shutdown_terminates [OF hyps(1,2), of 300, unfolded hyps(3,4)]
  have go: "\<exists>u. (service_step 300 ^^ Suc n) sample_service u"
    if "(service_step 300 ^^ n) sample_service t" and "n < 4" for n t
    using shut that by (metis less_or_eq_imp_le relpowp_Suc_I)
  have "\<exists>u. (service_step 300 ^^ n) sample_service u" if "n \<le> 4" for n
    using that
  proof (induction n)
    case 0
    show ?case by (intro exI [of _ sample_service]) simp
  next
    case (Suc n)
    then obtain u where "(service_step 300 ^^ n) sample_service u" by auto
    with Suc.prems show ?case by (intro go) simp_all
  qed
  then obtain t where "(service_step 300 ^^ 4) sample_service t" by blast
  moreover from this have "sv_task t = None \<and> sv_ticks t + tick_under_way t = 1"
    using shut by (metis order_refl)
  ultimately show ?thesis by (intro exI [of _ t]) simp
qed

end
