(* ===== verification/Notifications.thy ===== *)
theory Notifications
  imports Channels
begin

text \<open>
  \<open>tca/storage/notifications_repo.py\<close> and \<open>tca/api/routes/notifications.py\<close>: alerts with a JSON
  payload, listed newest first, acknowledged once. Lemmas: stored payloads decode, the listing is
  exactly the filtered table in order, and an acknowledgement keeps its first time.
\<close>

section \<open>Payloads\<close>

abbreviation NotificationPayloadEncodeError :: exn where
  "NotificationPayloadEncodeError \<equiv>
     Exn ''NotificationPayloadEncodeError'' ''Notification payload is not JSON-serializable''"

abbreviation NotificationsRepositoryError :: "string \<Rightarrow> exn" where
  "NotificationsRepositoryError \<equiv> Exn ''NotificationsRepositoryError''"

text \<open>
  \<open>json.dumps(payload, sort_keys=True)\<close>: non-finite floats are allowed; the members of an object
  are written in the order of their names.
\<close>

fun is_dumpable :: "pyobj \<Rightarrow> bool" where
  "is_dumpable (PFloat f) = True"
| "is_dumpable (PList xs) = (\<forall>x \<in> set xs. is_dumpable x)"
| "is_dumpable (PDict kvs) = (\<forall>kv \<in> set kvs. as_str (fst kv) \<noteq> None \<and> is_dumpable (snd kv))"
| "is_dumpable (PBytes b) = False"
| "is_dumpable (PDatetime d) = False"
| "is_dumpable (POther c) = False"
| "is_dumpable v = True"

fun sort_keys :: "pyobj \<Rightarrow> pyobj" where
  "sort_keys (PList xs) = PList (map sort_keys xs)"
| "sort_keys (PDict kvs) =
     PDict (sort_key (\<lambda>kv. the (as_str (fst kv))) (map (\<lambda>kv. (fst kv, sort_keys (snd kv))) kvs))"
| "sort_keys v = v"

definition encode_payload_json :: "pyobj \<Rightarrow> jtext option res" where
  "encode_payload_json payload =
     (if is_none payload then Inr None
      else if is_dumpable payload then Inr (Some (JText (sort_keys payload)))
      else Inl NotificationPayloadEncodeError)"

text \<open>The column is a text or null; a text that is not JSON raises.\<close>

definition decode_payload_json :: "jtext option \<Rightarrow> pyobj res" where
  "decode_payload_json payload_json =
     (case payload_json of
        None \<Rightarrow> Inr PNone
      | Some t \<Rightarrow>
         (case json_loads t of None \<Rightarrow> Inl (Exn ''JSONDecodeError'' []) | Some v \<Rightarrow> Inr v))"

section \<open>Rows\<close>

record notification_record =
  nr_notification_id :: int
  nr_type :: string
  nr_severity :: string
  nr_message :: string
  nr_payload :: pyobj

record notification_list_record = notification_record +
  nr_is_acknowledged :: bool
  nr_acknowledged_at :: "datetime option"
  nr_created_at :: datetime

definition notification_columns :: "notification_row \<Rightarrow> row_map" where
  "notification_columns r =
     [(''id'', PInt (nt_id r)), (''type'', PStr (nt_type r)), (''severity'', PStr (nt_severity r)),
      (''message'', PStr (nt_message r)), (''is_acknowledged'', PInt (of_bool (nt_is_acknowledged r))),
      (''acknowledged_at'', opt_obj dt_obj (nt_acknowledged_at r)), (''created_at'', dt_obj (nt_created_at r))]"

text \<open>The four tests that both decoders begin with.\<close>

definition decode_head :: "row_map \<Rightarrow> (int \<times> string \<times> string \<times> string) res" where
  "decode_head row =
     res_bind (int_or_raise (NotificationsRepositoryError ''Notification row missing id.'') (row_get row ''id'')) (\<lambda>i.
     res_bind (coerce_str_with (NotificationsRepositoryError ''Notification row missing type.'')
         (row_get row ''type'')) (\<lambda>t.
     res_bind (coerce_str_with (NotificationsRepositoryError ''Notification row missing severity.'')
         (row_get row ''severity'')) (\<lambda>s.
     res_bind (coerce_str_with (NotificationsRepositoryError ''Notification row missing message.'')
         (row_get row ''message'')) (\<lambda>m. Inr (i, t, s, m)))))"

definition decode_notification_row :: "row_map \<Rightarrow> jtext option \<Rightarrow> notification_record res" where
  "decode_notification_row row payload_json =
     res_bind (decode_head row) (\<lambda>(i, t, s, m).
     res_bind (decode_payload_json payload_json) (\<lambda>p.
       Inr \<lparr> nr_notification_id = i, nr_type = t, nr_severity = s, nr_message = m, nr_payload = p \<rparr>))"

definition decode_list_row :: "row_map \<Rightarrow> jtext option \<Rightarrow> notification_list_record res" where
  "decode_list_row row payload_json =
     res_bind (decode_head row) (\<lambda>(i, t, s, m).
     res_bind (int_or_raise (NotificationsRepositoryError ''Notification row missing is_acknowledged flag.'')
         (row_get row ''is_acknowledged'')) (\<lambda>a.
     res_bind (coerce_opt_with (coerce_datetime_with False
           (NotificationsRepositoryError ''Notification row invalid acknowledged_at.'')
           (NotificationsRepositoryError ''Notification row invalid acknowledged_at.''))
         (row_get row ''acknowledged_at'')) (\<lambda>ack.
     res_bind (coerce_datetime_with False (NotificationsRepositoryError ''Notification row invalid created_at.'')
           (NotificationsRepositoryError ''Notification row missing created_at.'')
         (row_get row ''created_at'')) (\<lambda>c.
     res_bind (decode_payload_json payload_json) (\<lambda>p.
       Inr \<lparr> nr_notification_id = i, nr_type = t, nr_severity = s, nr_message = m, nr_payload = p,
             nr_is_acknowledged = (a \<noteq> 0), nr_acknowledged_at = ack, nr_created_at = c \<rparr>)))))"

section \<open>The repository\<close>

definition notification_create ::
  "string \<Rightarrow> string \<Rightarrow> string \<Rightarrow> pyobj \<Rightarrow> (db, notification_record) act" where
  "notification_create type severity message payload =
     act_bind (act_lift (encode_payload_json payload)) (\<lambda>enc.
     act_bind (transaction (insert_notification type severity message enc)) (\<lambda>row.
       act_lift (decode_notification_row (notification_columns row) (nt_payload_json row))))"

text \<open>An empty tuple of severities or types means no filter, like \<open>None\<close>.\<close>

definition notification_selected :: "string list \<Rightarrow> string list \<Rightarrow> notification_row \<Rightarrow> bool" where
  "notification_selected severities types r \<longleftrightarrow>
     (severities = [] \<or> nt_severity r \<in> set severities) \<and> (types = [] \<or> nt_type r \<in> set types)"

definition recency_key :: "notification_row \<Rightarrow> (int \<times> string) \<times> int" where
  "recency_key r = (text_key (nt_created_at r), nt_id r)"

definition list_notifications ::
  "string list \<Rightarrow> string list \<Rightarrow> db \<Rightarrow> notification_list_record list res" where
  "list_notifications severities types d =
     res_map (\<lambda>r. decode_list_row (notification_columns r) (nt_payload_json r))
       (rev (sort_key recency_key (filter (notification_selected severities types) (notifications d))))"

definition acknowledge_row :: "db \<Rightarrow> notification_row \<Rightarrow> notification_row" where
  "acknowledge_row d r =
     r\<lparr> nt_is_acknowledged := True,
        nt_acknowledged_at :=
          Some (case nt_acknowledged_at r of None \<Rightarrow> current_timestamp d | Some t \<Rightarrow> t) \<rparr>"

definition acknowledge :: "int \<Rightarrow> (db, notification_list_record option) act" where
  "acknowledge notification_id =
     act_bind
       (transaction (\<lambda>d.
          let d' = d\<lparr> notifications :=
                 update_where (\<lambda>r. nt_id r = notification_id) (acknowledge_row d) (notifications d) \<rparr> in
          (one_or_none (filter (\<lambda>r. nt_id r = notification_id) (notifications d')), d')))
       (\<lambda>row. case row of
          None \<Rightarrow> act_return None
        | Some r \<Rightarrow>
            act_lift (res_bind (decode_list_row (notification_columns r) (nt_payload_json r))
              (\<lambda>rec. Inr (Some rec))))"

text \<open>\<open>PUT /notifications/{id}/ack\<close>; the response has the fields of the record.\<close>

definition acknowledge_notification :: "int \<Rightarrow> (db, notification_list_record) act" where
  "acknowledge_notification notification_id =
     act_bind (acknowledge notification_id) (\<lambda>record.
       case record of
         None \<Rightarrow> act_raise (HTTP404 ''Notification not found.'')
       | Some r \<Rightarrow> act_return r)"

section \<open>Lemmas\<close>

text \<open>Every writer of the column encodes a document, so the texts decode.\<close>

definition payload_ok :: "notification_row \<Rightarrow> bool" where
  "payload_ok r =
     (case nt_payload_json r of None \<Rightarrow> True | Some t \<Rightarrow> (case t of JText v \<Rightarrow> True | JMalformed s \<Rightarrow> False))"

definition notifications_ok :: "db \<Rightarrow> bool" where
  "notifications_ok d \<longleftrightarrow> pk nt_id (notifications d) \<and> list_all payload_ok (notifications d)"

definition stored_payload :: "notification_row \<Rightarrow> pyobj" where
  "stored_payload r =
     (case nt_payload_json r of Some (JText v) \<Rightarrow> v | _ \<Rightarrow> PNone)"

definition list_record_of :: "notification_row \<Rightarrow> notification_list_record" where
  "list_record_of r =
     \<lparr> nr_notification_id = nt_id r, nr_type = nt_type r, nr_severity = nt_severity r,
       nr_message = nt_message r, nr_payload = stored_payload r,
       nr_is_acknowledged = nt_is_acknowledged r,
       nr_acknowledged_at = map_option normalize_datetime (nt_acknowledged_at r),
       nr_created_at = normalize_datetime (nt_created_at r) \<rparr>"

lemma decode_head_columns [simp]:
  "decode_head (notification_columns r) = Inr (nt_id r, nt_type r, nt_severity r, nt_message r)"
  by (simp add: decode_head_def notification_columns_def row_get_def int_or_raise_def)

lemma decode_payload_ok:
  "payload_ok r \<Longrightarrow> decode_payload_json (nt_payload_json r) = Inr (stored_payload r)"
  by (auto simp: payload_ok_def decode_payload_json_def stored_payload_def json_loads_def
      split: option.splits jtext.splits)

lemma decode_list_row_ok:
  "payload_ok r \<Longrightarrow>
   decode_list_row (notification_columns r) (nt_payload_json r) = Inr (list_record_of r)"
  by (simp add: decode_list_row_def decode_payload_ok)
    (simp add: notification_columns_def row_get_def int_or_raise_def list_record_of_def
      coerce_opt_obj [where h = normalize_datetime])

lemma acknowledge_row_simps [simp]:
  "nt_id (acknowledge_row d r) = nt_id r"
  "payload_ok (acknowledge_row d r) = payload_ok r"
  by (simp_all add: acknowledge_row_def payload_ok_def)

lemma acknowledge_row_twice [simp]: "acknowledge_row d' (acknowledge_row d r) = acknowledge_row d r"
  by (simp add: acknowledge_row_def)

definition acknowledged :: "int \<Rightarrow> db \<Rightarrow> db" where
  "acknowledged n d =
     d\<lparr> notifications := update_where (\<lambda>r. nt_id r = n) (acknowledge_row d) (notifications d) \<rparr>"

lemma acknowledge_eq:
  assumes "notifications_ok d"
  shows "acknowledge n d =
     (Inr (map_option (\<lambda>r. list_record_of (acknowledge_row d r)) (find (\<lambda>r. nt_id r = n) (notifications d))),
      acknowledged n d)"
proof -
  have pk: "distinct (map nt_id (notifications (acknowledged n d)))"
    using assms by (simp add: acknowledged_def notifications_ok_def map_update_where pk_def)
  have found: "find (\<lambda>r. nt_id r = n) (notifications (acknowledged n d)) =
      map_option (acknowledge_row d) (find (\<lambda>r. nt_id r = n) (notifications d))"
    by (simp add: acknowledged_def find_update_key)
  show ?thesis
  proof (cases "find (\<lambda>r. nt_id r = n) (notifications d)")
    case None
    then show ?thesis
      using one_or_none_key [OF pk, of n] found
      by (simp add: acknowledge_def acknowledged_def act_simps Let_def)
  next
    case (Some r)
    have "payload_ok (acknowledge_row d r)"
      using assms find_key_Some [OF Some] by (simp add: notifications_ok_def list_all_iff)
    with Some show ?thesis
      using one_or_none_key [OF pk, of n] found
      by (simp add: acknowledge_def acknowledged_def act_simps Let_def decode_list_row_ok)
  qed
qed

lemma acknowledged_ok: "notifications_ok d \<Longrightarrow> notifications_ok (acknowledged n d)"
  by (simp add: acknowledged_def notifications_ok_def pk_update list_all_iff ball_update_where)

lemma notifications_ok_advance [simp]:
  "notifications_ok (d\<lparr> clock := t \<rparr>) = notifications_ok d"
  by (simp add: notifications_ok_def)

section \<open>Properties\<close>

text \<open>
  Listing the alerts never fails on a table whose payloads are JSON texts, and gives exactly
  the rows of the requested severities and types (all of them where no filter is given), newest
  first: by the stored creation time, the larger id first among equal times.
\<close>

lemma list_notifications_exact:
  assumes "notifications_ok d"
  shows "\<exists>rows. list_notifications severities types d = Inr (map list_record_of rows) \<and>
     set rows = {r \<in> set (notifications d). notification_selected severities types r} \<and>
     distinct (map nt_id rows) \<and>
     sorted_wrt (\<lambda>r r'. recency_key r > recency_key r') rows"
proof -
  let ?sel = "filter (notification_selected severities types) (notifications d)"
  let ?rows = "rev (sort_key recency_key ?sel)"
  have "list_notifications severities types d = Inr (map list_record_of ?rows)"
    unfolding list_notifications_def
    by (rule res_map_total) (use assms in \<open>auto simp: notifications_ok_def list_all_iff decode_list_row_ok\<close>)
  moreover have "distinct (map nt_id ?sel)"
    using assms by (simp add: notifications_ok_def pk_def distinct_map_filter)
  then have ids: "distinct (map nt_id ?rows)" by (simp add: distinct_map rev_map [symmetric])
  moreover have "sorted_wrt (\<lambda>r r'. recency_key r > recency_key r') ?rows"
  proof -
    have "distinct (map recency_key (sort_key recency_key ?sel))"
      using ids by (auto simp: distinct_map recency_key_def inj_on_def)
    then have "sorted_wrt (<) (map recency_key (sort_key recency_key ?sel))"
      by (simp add: strict_sorted_iff)
    then show ?thesis by (simp add: sorted_wrt_rev sorted_wrt_map)
  qed
  ultimately show ?thesis by (intro exI [of _ ?rows]) auto
qed

definition sample_notification :: "int \<Rightarrow> string \<Rightarrow> int \<Rightarrow> notification_row" where
  "sample_notification n severity seconds =
     \<lparr> nt_id = n, nt_type = ''t'', nt_severity = severity, nt_message = ''m'', nt_payload_json = Some (JText (PInt n)),
       nt_is_acknowledged = False, nt_acknowledged_at = None, nt_created_at = DT (seconds * 1000000) None \<rparr>"

definition sample_alerts :: db where
  "sample_alerts = (empty_db 1800000000000000)\<lparr> notifications :=
     [sample_notification 1 ''high'' 10, sample_notification 2 ''low'' 10, sample_notification 3 ''high'' 5] \<rparr>"

lemma list_notifications_exact_witness:
  "\<exists>rows. list_notifications [''high''] [] sample_alerts = Inr (map list_record_of rows) \<and>
     nt_id ` set rows = {1, 3} \<and> sorted_wrt (\<lambda>r r'. recency_key r > recency_key r') rows"
proof -
  have ok: "notifications_ok sample_alerts" by code_simp
  have ids: "nt_id ` {r \<in> set (notifications sample_alerts). notification_selected [''high''] [] r} = {1, 3}"
    by code_simp
  obtain rows where "list_notifications [''high''] [] sample_alerts = Inr (map list_record_of rows)"
      "set rows = {r \<in> set (notifications sample_alerts). notification_selected [''high''] [] r}"
      "sorted_wrt (\<lambda>r r'. recency_key r > recency_key r') rows"
    using list_notifications_exact [OF ok, of "[''high'']" "[]"] by blast
  with ids show ?thesis by (intro exI [of _ rows]) simp
qed

text \<open>
  Acknowledging an alert: an unknown id is answered 404 and nothing changes. For a stored alert
  the answer shows it acknowledged; the time of an earlier acknowledgement is kept, otherwise it is
  the present time; no other alert and no other table changes; and a second request at any later
  time gives the same answer and changes nothing.
\<close>

lemma acknowledge_notification_once:
  assumes "notifications_ok d"
  shows "case find (\<lambda>r. nt_id r = n) (notifications d) of
     None \<Rightarrow> acknowledge_notification n d = (Inl (HTTP404 ''Notification not found.''), d)
   | Some r \<Rightarrow>
      (let a = (case nt_acknowledged_at r of None \<Rightarrow> current_timestamp d | Some t \<Rightarrow> t);
           answer = (list_record_of r)\<lparr> nr_is_acknowledged := True, nr_acknowledged_at := Some (normalize_datetime a) \<rparr>;
           d' = snd (acknowledge_notification n d) in
       acknowledge_notification n d = (Inr answer, d') \<and> notifications_ok d' \<and>
       d' = d\<lparr> notifications := notifications d' \<rparr> \<and>
       (\<forall>k. find (\<lambda>r. nt_id r = k) (notifications d') =
          (if k = n then Some (r\<lparr> nt_is_acknowledged := True, nt_acknowledged_at := Some a \<rparr>)
           else find (\<lambda>r. nt_id r = k) (notifications d))) \<and>
       (\<forall>t. acknowledge_notification n (d'\<lparr> clock := t \<rparr>) = (Inr answer, d'\<lparr> clock := t \<rparr>)))"
proof (cases "find (\<lambda>r. nt_id r = n) (notifications d)")
  case None
  then have "update_where (\<lambda>r. nt_id r = n) (acknowledge_row d) (notifications d) = notifications d"
    unfolding update_where_def by (intro map_idI) (auto simp: find_None_iff)
  then have "acknowledged n d = d" by (simp add: acknowledged_def)
  with None show ?thesis
    by (simp add: acknowledge_notification_def act_bind_def acknowledge_eq [OF assms] act_raise_def)
next
  case (Some r)
  let ?r = "acknowledge_row d r" and ?d = "acknowledged n d"
  have run: "acknowledge_notification n d = (Inr (list_record_of ?r), ?d)"
    by (simp add: acknowledge_notification_def act_bind_def acknowledge_eq [OF assms] act_return_def Some)
  have lookup: "find (\<lambda>r. nt_id r = k) (notifications ?d) =
      (if k = n then Some ?r else find (\<lambda>r. nt_id r = k) (notifications d))" for k
    using Some by (simp add: acknowledged_def find_update_key)
  have again: "acknowledged n (?d\<lparr> clock := t \<rparr>) = ?d\<lparr> clock := t \<rparr>" for t
    by (simp add: acknowledged_def update_where_def)
  have run2: "acknowledge_notification n (?d\<lparr> clock := t \<rparr>) = (Inr (list_record_of ?r), ?d\<lparr> clock := t \<rparr>)" for t
    using acknowledge_eq [of "?d\<lparr> clock := t \<rparr>" n] acknowledged_ok [OF assms] lookup [of n] again [of t]
    by (simp add: acknowledge_notification_def act_bind_def act_return_def)
  have "?d = d\<lparr> notifications := notifications ?d \<rparr>" by (simp add: acknowledged_def)
  moreover have "list_record_of ?r = (list_record_of r)\<lparr> nr_is_acknowledged := True, nr_acknowledged_at :=
      Some (normalize_datetime (case nt_acknowledged_at r of None \<Rightarrow> current_timestamp d | Some t \<Rightarrow> t)) \<rparr>"
    by (simp add: list_record_of_def acknowledge_row_def stored_payload_def)
  moreover have "?r = r\<lparr> nt_is_acknowledged := True,
      nt_acknowledged_at := Some (case nt_acknowledged_at r of None \<Rightarrow> current_timestamp d | Some t \<Rightarrow> t) \<rparr>"
    by (simp add: acknowledge_row_def)
  ultimately show ?thesis
    using run run2 lookup acknowledged_ok [OF assms, of n] Some by (simp add: Let_def)
qed

lemma acknowledge_notification_once_witness:
  "\<exists>r. fst (acknowledge_notification 2 sample_alerts) = Inr r \<and> nr_is_acknowledged r"
proof -
  have ok: "notifications_ok sample_alerts" by code_simp
  have f: "find (\<lambda>r. nt_id r = 2) (notifications sample_alerts) = Some (sample_notification 2 ''low'' 10)"
    by (simp add: sample_alerts_def sample_notification_def)
  obtain a d' where "acknowledge_notification 2 sample_alerts =
      (Inr ((list_record_of (sample_notification 2 ''low'' 10))\<lparr> nr_is_acknowledged := True,
         nr_acknowledged_at := Some (normalize_datetime a) \<rparr>), d')"
    using acknowledge_notification_once [OF ok, of 2] unfolding f option.case Let_def by blast
  then show ?thesis by simp
qed

end
