(* ===== verification/Ingest_Guards.thy ===== *)
theory Ingest_Guards
  imports Scheduler Notifications
begin

text \<open>
  \<open>tca/storage/account_pause_repo.py\<close>, \<open>tca/storage/ingest_errors_repo.py\<close> and the guards of the
  ingest package: \<open>account_risk.py\<close>, \<open>flood_wait.py\<close>, \<open>error_capture.py\<close>. Lemmas: an account is
  paused exactly at the third breach inside an hour, a flood wait pauses the channel for the time
  the server asked for, and a captured error leaves one row and never aborts the caller.
\<close>

section \<open>Account pauses\<close>

record account_pause_record =
  ap_account_id :: int
  ap_paused_at :: "datetime option"
  ap_pause_reason :: "string option"

abbreviation AccountPauseDecodeError :: "string \<Rightarrow> exn" where
  "AccountPauseDecodeError \<equiv> Exn ''AccountPauseDecodeError''"

definition pause_columns :: "account_row \<Rightarrow> row_map" where
  "pause_columns r =
     [(''id'', PInt (acc_id r)), (''paused_at'', opt_obj dt_obj (acc_paused_at r)),
      (''pause_reason'', opt_obj PStr (acc_pause_reason r))]"

definition decode_pause_row :: "row_map \<Rightarrow> account_pause_record res" where
  "decode_pause_row row =
     res_bind (coerce_int_with False (AccountPauseDecodeError ''missing integer `id`'') (row_get row ''id'')) (\<lambda>i.
     res_bind (coerce_opt_with (coerce_datetime_with False (AccountPauseDecodeError ''invalid paused_at value'')
         (AccountPauseDecodeError ''invalid paused_at value'')) (row_get row ''paused_at'')) (\<lambda>p.
     res_bind (coerce_opt_with (coerce_str_with (AccountPauseDecodeError ''invalid pause reason''))
         (row_get row ''pause_reason'')) (\<lambda>reason.
       Inr \<lparr> ap_account_id = i, ap_paused_at = p, ap_pause_reason = reason \<rparr>)))"

definition decode_optional_pause :: "account_row option \<Rightarrow> account_pause_record option res" where
  "decode_optional_pause row =
     (case row of
        None \<Rightarrow> Inr None
      | Some r \<Rightarrow> res_bind (decode_pause_row (pause_columns r)) (\<lambda>p. Inr (Some p)))"

definition get_pause_state :: "int \<Rightarrow> db \<Rightarrow> account_pause_record option res" where
  "get_pause_state account_id d =
     res_bind (one_or_none (filter (\<lambda>r. acc_id r = account_id) (accounts d))) decode_optional_pause"

text \<open>\<open>UPDATE telegram_accounts SET paused_at, pause_reason, updated_at ... RETURNING\<close>.\<close>

definition set_pause_columns ::
  "int \<Rightarrow> datetime option \<Rightarrow> string option \<Rightarrow> (db, account_pause_record option) act" where
  "set_pause_columns account_id paused_at reason =
     act_bind
       (transaction (\<lambda>d.
          let d' = d\<lparr> accounts := update_where (\<lambda>r. acc_id r = account_id)
                (\<lambda>r. r\<lparr> acc_paused_at := paused_at, acc_pause_reason := reason,
                        acc_updated_at := current_timestamp d \<rparr>) (accounts d) \<rparr> in
          (one_or_none (filter (\<lambda>r. acc_id r = account_id) (accounts d')), d')))
       (\<lambda>row. act_lift (decode_optional_pause row))"

definition pause_account ::
  "int \<Rightarrow> string \<Rightarrow> datetime option \<Rightarrow> (db, account_pause_record option) act" where
  "pause_account account_id reason paused_at =
     (\<lambda>d. set_pause_columns account_id
            (Some (case paused_at of None \<Rightarrow> utc_now d | Some t \<Rightarrow> t)) (Some reason) d)"

definition resume_account :: "int \<Rightarrow> (db, account_pause_record option) act" where
  "resume_account account_id = set_pause_columns account_id None None"

section \<open>Ingest errors\<close>

record ingest_error_record =
  er_error_id :: int
  er_channel_id :: "int option"
  er_stage :: string
  er_error_code :: string
  er_error_message :: string
  er_payload_ref :: "string option"
  er_created_at :: datetime

abbreviation IngestErrorDecodeError :: "string \<Rightarrow> exn" where
  "IngestErrorDecodeError \<equiv> Exn ''IngestErrorDecodeError''"

definition ingest_error_columns :: "ingest_error_row \<Rightarrow> row_map" where
  "ingest_error_columns r =
     [(''id'', PInt (ie_id r)), (''channel_id'', opt_obj PInt (ie_channel_id r)),
      (''stage'', PStr (ie_stage r)), (''error_code'', PStr (ie_error_code r)),
      (''error_message'', PStr (ie_error_message r)), (''payload_ref'', opt_obj PStr (ie_payload_ref r)),
      (''created_at'', dt_obj (ie_created_at r))]"

definition decode_ingest_error_row :: "row_map \<Rightarrow> ingest_error_record res" where
  "decode_ingest_error_row row =
     res_bind (coerce_int_with False (IngestErrorDecodeError ''missing integer `id`'') (row_get row ''id'')) (\<lambda>i.
     res_bind (coerce_opt_with (coerce_int_with False (IngestErrorDecodeError ''invalid `channel_id` value''))
         (row_get row ''channel_id'')) (\<lambda>c.
     res_bind (coerce_str_with (IngestErrorDecodeError ''missing `stage`'') (row_get row ''stage'')) (\<lambda>s.
     res_bind (coerce_str_with (IngestErrorDecodeError ''missing `error_code`'') (row_get row ''error_code'')) (\<lambda>k.
     res_bind (coerce_str_with (IngestErrorDecodeError ''missing `error_message`'')
         (row_get row ''error_message'')) (\<lambda>m.
     res_bind (coerce_opt_with (coerce_str_with (IngestErrorDecodeError ''invalid `payload_ref` value''))
         (row_get row ''payload_ref'')) (\<lambda>p.
     res_bind (coerce_datetime_with False (IngestErrorDecodeError ''invalid created_at value'')
         (IngestErrorDecodeError ''missing created_at value'') (row_get row ''created_at'')) (\<lambda>t.
       Inr \<lparr> er_error_id = i, er_channel_id = c, er_stage = s, er_error_code = k, er_error_message = m,
             er_payload_ref = p, er_created_at = t \<rparr>)))))))"

text \<open>The \<open>CHECK\<close> constraint on the stage and the foreign key of the channel may refuse the row.\<close>

definition ingest_error_create ::
  "int option \<Rightarrow> string \<Rightarrow> string \<Rightarrow> string \<Rightarrow> string option \<Rightarrow> (db, ingest_error_record) act" where
  "ingest_error_create channel_id stage error_code error_message payload_ref =
     act_bind
       (transaction (\<lambda>d.
          let row = \<lparr> ie_id = sql_next_id (map ie_id (ingest_errors d)), ie_channel_id = channel_id,
                      ie_stage = stage, ie_error_code = error_code, ie_error_message = error_message,
                      ie_payload_ref = payload_ref, ie_created_at = current_timestamp d \<rparr> in
          if stage \<notin> set ingest_stages
          then (Inl (IntegrityError ''CHECK constraint failed: ck_ingest_errors_stage''), d)
          else if \<not> (case channel_id of None \<Rightarrow> True | Some c \<Rightarrow> c \<in> channel_ids d)
          then (Inl (IntegrityError ''FOREIGN KEY constraint failed''), d)
          else (Inr row, d\<lparr> ingest_errors := ingest_errors d @ [row] \<rparr>)))
       (\<lambda>row. act_lift (decode_ingest_error_row (ingest_error_columns row)))"

section \<open>Error capture\<close>

datatype stage_arg = StageMember string | StageText string | StageOther

text \<open>\<open>StageMember\<close> is a member of \<open>IngestErrorStage\<close>, given by its value.\<close>

definition normalize_ingest_error_stage :: "stage_arg \<Rightarrow> string res" where
  "normalize_ingest_error_stage stage =
     (let check = (\<lambda>value. if value \<in> set ingest_stages then Inr value
                           else Inl (ValueError ''Invalid ingest error stage'')) in
      case stage of
        StageMember value \<Rightarrow> check value
      | StageText s \<Rightarrow> check (py_lower (py_strip s))
      | StageOther \<Rightarrow> Inl (TypeError ''Ingest error stage must be a string or IngestErrorStage.''))"

definition capture_ingest_error ::
  "int option \<Rightarrow> stage_arg \<Rightarrow> string \<Rightarrow> string \<Rightarrow> string option \<Rightarrow> (db, ingest_error_record) act" where
  "capture_ingest_error channel_id stage error_code error_message payload_ref =
     act_bind (act_lift (normalize_ingest_error_stage stage)) (\<lambda>normalized.
       ingest_error_create channel_id normalized error_code error_message payload_ref)"

text \<open>\<open>recoverable\<close> tells whether the exception is an instance of one of the classes given.\<close>

definition execute_with_ingest_error_capture ::
  "(db, 'a) act \<Rightarrow> int option \<Rightarrow> stage_arg \<Rightarrow> string \<Rightarrow> string option \<Rightarrow> (exn \<Rightarrow> bool) \<Rightarrow> (db, 'a option) act" where
  "execute_with_ingest_error_capture operation channel_id stage error_code payload_ref recoverable =
     act_catch
       (act_bind operation (\<lambda>x. act_return (Some x)))
       (\<lambda>e. if \<not> recoverable e \<or> exn_class e = ''CancelledError'' then act_raise e
            else act_bind
              (capture_ingest_error channel_id stage error_code (exn_message e) payload_ref)
              (\<lambda>_. act_return None))"

section \<open>Account risk\<close>

definition ACCOUNT_RISK_WINDOW_SECONDS :: int where "ACCOUNT_RISK_WINDOW_SECONDS = 3600"
definition ACCOUNT_RISK_THRESHOLD :: nat where "ACCOUNT_RISK_THRESHOLD = 3"

definition state_key :: "int \<Rightarrow> string" where
  "state_key account_id = ''ingest.account_risk_state.'' @ int_text account_id"

text \<open>\<open>isoformat()\<close>.\<close>

definition iso_text :: "datetime \<Rightarrow> string" where
  "iso_text d = (let t = dt_text d in take 10 t @ ''T'' @ drop 11 t)"

definition encode_state :: "datetime list \<Rightarrow> pyobj" where
  "encode_state breaches = PDict [(PStr ''breaches'', PList (map (\<lambda>b. PIso b (iso_text b)) breaches))]"

fun decode_breaches :: "pyobj list \<Rightarrow> datetime list" where
  "decode_breaches [] = []"
| "decode_breaches (PIso d s # xs) = normalize_datetime d # decode_breaches xs"
| "decode_breaches (x # xs) = decode_breaches xs"

definition decode_risk_state :: "pyobj \<Rightarrow> datetime list" where
  "decode_risk_state value =
     (case value of
        PDict kvs \<Rightarrow> (case dict_get kvs ''breaches'' of PList xs \<Rightarrow> decode_breaches xs | _ \<Rightarrow> [])
      | _ \<Rightarrow> [])"

definition filter_recent :: "datetime list \<Rightarrow> datetime \<Rightarrow> datetime list" where
  "filter_recent breaches now =
     (let cutoff = dt_plus_us now (- seconds_us ACCOUNT_RISK_WINDOW_SECONDS) in
      filter (\<lambda>b. instant b \<ge> instant cutoff) breaches)"

definition risk_payload :: "int \<Rightarrow> nat \<Rightarrow> string \<Rightarrow> datetime \<Rightarrow> pyobj" where
  "risk_payload account_id count reason now =
     PDict [(PStr ''account_id'', PInt account_id), (PStr ''breach_count'', PInt (int count)),
            (PStr ''breach_reason'', PStr reason),
            (PStr ''window_seconds'', PInt ACCOUNT_RISK_WINDOW_SECONDS),
            (PStr ''paused_at'', PIso now (iso_text now))]"

definition upsert_risk_state :: "string \<Rightarrow> datetime list \<Rightarrow> (db, setting_record) act" where
  "upsert_risk_state key breaches = setting_upsert key (encode_state breaches)"

definition record_account_risk_breach ::
  "int \<Rightarrow> string \<Rightarrow> datetime \<Rightarrow> (db, account_pause_record option) act" where
  "record_account_risk_breach account_id breach_reason time =
     (let now = normalize_datetime time; key = state_key account_id in
      act_bind (act_read (get_pause_state account_id)) (\<lambda>pause_state.
      case pause_state of
        None \<Rightarrow> act_return None
      | Some ps \<Rightarrow>
         if ap_paused_at ps \<noteq> None then act_return (Some ps)
         else
           act_bind (act_read (setting_get_by_key key)) (\<lambda>setting.
           let stored = (case setting of None \<Rightarrow> PNone | Some rec \<Rightarrow> sr_value rec);
               breaches = filter_recent (decode_risk_state stored) now @ [now] in
           if length breaches < ACCOUNT_RISK_THRESHOLD
           then act_bind (upsert_risk_state key breaches) (\<lambda>_. act_return None)
           else
             act_bind (pause_account account_id ''account-risk'' (Some now)) (\<lambda>paused.
             act_bind (upsert_risk_state key []) (\<lambda>_.
             case paused of
               None \<Rightarrow> act_return None
             | Some p \<Rightarrow>
                 act_bind (notification_create ''ingest.account_risk'' ''high''
                    (''Account '' @ int_text account_id @ '' paused after repeated risk events. Explicit resume required to continue polling.'')
                    (risk_payload account_id (length breaches) breach_reason now))
                   (\<lambda>_. act_return (Some p)))))))"

section \<open>Flood waits\<close>

text \<open>The argument is \<open>getattr(error, \<open>seconds\<close>, None)\<close>.\<close>

definition extract_wait_seconds :: "pyobj \<Rightarrow> int option" where
  "extract_wait_seconds seconds =
     (case is_int_obj seconds of None \<Rightarrow> None | Some n \<Rightarrow> if n > 0 then Some n else None)"

definition flood_payload :: "int \<Rightarrow> int \<Rightarrow> datetime \<Rightarrow> pyobj" where
  "flood_payload channel_id wait_seconds resume_at =
     PDict [(PStr ''channel_id'', PInt channel_id), (PStr ''wait_seconds'', PInt wait_seconds),
            (PStr ''resume_at'', PIso resume_at (iso_text resume_at))]"

text \<open>The closure \<open>_persist\<close> that runs on the writer queue.\<close>

definition persist_flood_wait :: "int \<Rightarrow> int \<Rightarrow> datetime \<Rightarrow> (db, channel_state_record) act" where
  "persist_flood_wait channel_id wait resume_at =
     act_bind (update_pause channel_id (Some resume_at)) (\<lambda>record.
       if wait \<ge> 300
       then act_bind (notification_create ''ingest.flood_wait'' ''medium''
              (''Flood wait enforced for channel '' @ int_text channel_id @ ''; paused until '' @
               iso_text resume_at @ ''.'')
              (flood_payload channel_id wait resume_at)) (\<lambda>_. act_return record)
       else act_return record)"

text \<open>
  \<open>account_id\<close> is \<open>None\<close> where the account or one of the two repositories it needs is not given.
\<close>

definition handle_flood_wait ::
  "int \<Rightarrow> pyobj \<Rightarrow> int option \<Rightarrow> datetime \<Rightarrow> (db, channel_state_record) act" where
  "handle_flood_wait channel_id seconds account_id time =
     (case extract_wait_seconds seconds of
        None \<Rightarrow> act_raise (ValueError ''Flood wait error missing wait seconds.'')
      | Some wait \<Rightarrow>
         let now = normalize_datetime time; resume_at = dt_plus_us now (seconds_us wait) in
         act_bind (persist_flood_wait channel_id wait resume_at) (\<lambda>record.
           case account_id of
             None \<Rightarrow> act_return record
           | Some a \<Rightarrow>
              act_catch
                (act_bind (record_account_risk_breach a ''flood-wait'' time) (\<lambda>_. act_return record))
                (\<lambda>e. if exn_class e = ''CancelledError'' then act_raise e else act_return record)))"

section \<open>The repositories\<close>

definition pause_of :: "account_row \<Rightarrow> account_pause_record" where
  "pause_of r =
     \<lparr> ap_account_id = acc_id r, ap_paused_at = map_option normalize_datetime (acc_paused_at r),
       ap_pause_reason = acc_pause_reason r \<rparr>"

lemma decode_pause_ok [simp]: "decode_pause_row (pause_columns r) = Inr (pause_of r)"
  by (simp add: decode_pause_row_def pause_columns_def row_get_def pause_of_def
      coerce_opt_obj [where h = normalize_datetime] coerce_opt_obj [where h = "\<lambda>x. x"] option.map_ident)

lemma decode_optional_pause_ok [simp]: "decode_optional_pause r = Inr (map_option pause_of r)"
  by (simp add: decode_optional_pause_def split: option.split)

lemma get_pause_state_eq:
  "pk acc_id (accounts d) \<Longrightarrow>
   get_pause_state a d = Inr (map_option pause_of (find (\<lambda>r. acc_id r = a) (accounts d)))"
  by (simp add: get_pause_state_def pk_def one_or_none_key)

definition with_pause :: "int \<Rightarrow> datetime option \<Rightarrow> string option \<Rightarrow> db \<Rightarrow> db" where
  "with_pause a p reason d =
     d\<lparr> accounts := update_where (\<lambda>r. acc_id r = a)
          (\<lambda>r. r\<lparr> acc_paused_at := p, acc_pause_reason := reason, acc_updated_at := current_timestamp d \<rparr>)
          (accounts d) \<rparr>"

lemma set_pause_columns_eq:
  assumes "pk acc_id (accounts d)"
  shows "set_pause_columns a p reason d =
     (Inr (map_option (\<lambda>r. \<lparr> ap_account_id = a, ap_paused_at = map_option normalize_datetime p,
                             ap_pause_reason = reason \<rparr>) (find (\<lambda>r. acc_id r = a) (accounts d))),
      with_pause a p reason d)"
proof -
  have "pk acc_id (accounts (with_pause a p reason d))"
    using assms by (simp add: with_pause_def pk_update)
  then have one: "one_or_none (filter (\<lambda>r. acc_id r = a) (accounts (with_pause a p reason d))) =
      Inr (find (\<lambda>r. acc_id r = a) (accounts (with_pause a p reason d)))"
    by (simp add: pk_def one_or_none_key)
  have run: "set_pause_columns a p reason d =
      (Inr (map_option pause_of (find (\<lambda>r. acc_id r = a) (accounts (with_pause a p reason d)))), with_pause a p reason d)"
    using one by (simp add: set_pause_columns_def act_simps Let_def flip: with_pause_def)
  have "map_option pause_of (find (\<lambda>r. acc_id r = a) (accounts (with_pause a p reason d))) =
      map_option (\<lambda>r. \<lparr> ap_account_id = a, ap_paused_at = map_option normalize_datetime p, ap_pause_reason = reason \<rparr>)
        (find (\<lambda>r. acc_id r = a) (accounts d))"
    by (cases "find (\<lambda>r. acc_id r = a) (accounts d)")
      (auto simp: with_pause_def find_update_key pause_of_def dest: find_key_Some)
  with run show ?thesis by simp
qed

lemma with_pause_db_ok: "db_ok d \<Longrightarrow> db_ok (with_pause a p reason d)"
  by (simp add: with_pause_def db_ok_defs table_simps)

text \<open>Writing an alert whose payload is a JSON document.\<close>

definition with_alert :: "string \<Rightarrow> string \<Rightarrow> string \<Rightarrow> pyobj \<Rightarrow> db \<Rightarrow> db" where
  "with_alert type severity message payload d =
     d\<lparr> notifications := notifications d @
          [notification_of type severity message (Some (JText (sort_keys payload))) d] \<rparr>"

lemma notification_create_eq:
  assumes "is_dumpable payload" and "\<not> is_none payload"
  shows "\<exists>r. notification_create type severity message payload d =
     (Inr r, with_alert type severity message payload d)"
  using assms
  by (simp add: notification_create_def encode_payload_json_def act_simps insert_notification_def
      notification_of_def Let_def decode_notification_row_def decode_payload_json_def json_loads_def with_alert_def)

lemma with_alert_db_ok: "db_ok d \<Longrightarrow> db_ok (with_alert type severity message payload d)"
  using preservesD [OF insert_notification_ok, of d type severity message "Some (JText (sort_keys payload))"]
  by (simp add: with_alert_def insert_notification_def Let_def)

section \<open>Breach counting\<close>

text \<open>
  The abstract counter of one account: whether it is paused, and the instants of the breaches
  remembered.
\<close>

definition risk_window_us :: int where
  "risk_window_us = 3600 * 1000000"

definition risk_step :: "int \<Rightarrow> bool \<times> int list \<Rightarrow> bool \<times> int list" where
  "risk_step now st =
     (case st of (paused, bs) \<Rightarrow>
        if paused then (True, bs)
        else
          let bs' = filter (\<lambda>b. b \<ge> now - risk_window_us) bs @ [now] in
          if length bs' < 3 then (False, bs') else (True, []))"

text \<open>Three breaches, consecutive in time, within one window.\<close>

definition crowded :: "int list \<Rightarrow> bool" where
  "crowded ts \<longleftrightarrow> (\<exists>i < length ts - 2. ts ! (i + 2) - ts ! i \<le> risk_window_us)"

lemma length_filter_ge:
  fixes c :: int
  assumes "sorted ys"
  shows "m \<le> length (filter (\<lambda>b. c \<le> b) ys) \<longleftrightarrow> m = 0 \<or> m \<le> length ys \<and> c \<le> ys ! (length ys - m)"
  using assms
proof (induction ys)
  case (Cons y ys)
  show ?case
  proof (cases "c \<le> y")
    case True
    then have "\<forall>x \<in> set (y # ys). c \<le> x" using Cons.prems by auto
    then have "filter (\<lambda>b. c \<le> b) (y # ys) = y # ys" by (simp add: filter_id_conv)
    moreover have "m \<noteq> 0 \<Longrightarrow> m \<le> length (y # ys) \<Longrightarrow> c \<le> (y # ys) ! (length (y # ys) - m)"
    proof -
      assume "m \<noteq> 0"
      then have "length (y # ys) - m < length (y # ys)" by simp
      then show ?thesis using \<open>\<forall>x \<in> set (y # ys). c \<le> x\<close> nth_mem by blast
    qed
    ultimately show ?thesis by auto
  next
    case False
    have shift: "m \<noteq> 0 \<Longrightarrow> m \<le> length ys \<Longrightarrow> (y # ys) ! (length (y # ys) - m) = ys ! (length ys - m)"
      by (simp add: Suc_diff_le)
    have edge: "m = length (y # ys) \<Longrightarrow> \<not> c \<le> (y # ys) ! (length (y # ys) - m)" using False by simp
    from False Cons have "m \<le> length (filter (\<lambda>b. c \<le> b) (y # ys)) \<longleftrightarrow> m = 0 \<or> m \<le> length ys \<and> c \<le> ys ! (length ys - m)"
      by simp
    then show ?thesis using shift edge by (metis le_SucE le_SucI length_Cons)
  qed
qed auto

lemma crowded_snoc:
  "crowded (xs @ [x]) \<longleftrightarrow> crowded xs \<or> 2 \<le> length xs \<and> x - xs ! (length xs - 2) \<le> risk_window_us"
proof -
  have "crowded (xs @ [x]) \<longleftrightarrow> (\<exists>i < length xs - 1. (xs @ [x]) ! (i + 2) - xs ! i \<le> risk_window_us)"
    unfolding crowded_def by (intro ex_cong1) (auto simp: nth_append)
  also have "\<dots> \<longleftrightarrow> (\<exists>i < length xs - 2. xs ! (i + 2) - xs ! i \<le> risk_window_us) \<or>
      2 \<le> length xs \<and> x - xs ! (length xs - 2) \<le> risk_window_us"
  proof (cases "2 \<le> length xs")
    case True
    then have "i < length xs - 1 \<longleftrightarrow> i < length xs - 2 \<or> i = length xs - 2" for i by auto
    moreover have "(xs @ [x]) ! (length xs - 2 + 2) = x" using True by (simp only: le_add_diff_inverse2 nth_append_length)
    moreover have "i < length xs - 2 \<Longrightarrow> (xs @ [x]) ! (i + 2) = xs ! (i + 2)" for i
      by (auto simp: nth_append)
    ultimately show ?thesis using True by (metis (no_types, lifting))
  next
    case False
    then show ?thesis by (auto simp: nth_append)
  qed
  finally show ?thesis by (simp add: crowded_def)
qed

lemma risk_run:
  assumes "sorted ts"
  shows "fst (fold risk_step ts (False, [])) = crowded ts \<and>
    (\<not> crowded ts \<longrightarrow> snd (fold risk_step ts (False, [])) = filter (\<lambda>b. last ts - risk_window_us \<le> b) ts)"
  using assms
proof (induction ts rule: rev_induct)
  case Nil
  show ?case by (simp add: crowded_def)
next
  case (snoc x xs)
  obtain p bs where st: "fold risk_step xs (False, []) = (p, bs)" by fastforce
  have srt: "sorted xs" "\<forall>y \<in> set xs. y \<le> x" using snoc.prems by (auto simp: sorted_append)
  with snoc.IH st have IH: "p = crowded xs" "\<not> p \<Longrightarrow> bs = filter (\<lambda>b. last xs - risk_window_us \<le> b) xs" by auto
  show ?case
  proof (cases p)
    case True
    have "fold risk_step (xs @ [x]) (False, []) = risk_step x (p, bs)" using st by simp
    then show ?thesis using IH(1) True unfolding risk_step_def [of x] by (simp add: crowded_snoc)
  next
    case False
    have last: "xs \<noteq> [] \<Longrightarrow> last xs \<le> x" using srt by simp
    have "filter (\<lambda>b. x - risk_window_us \<le> b) bs = filter (\<lambda>b. x - risk_window_us \<le> b) xs"
      unfolding IH(2) [OF False] filter_filter
      by (rule filter_cong [OF refl]) (use last in \<open>auto dest: length_pos_if_in_set\<close>)
    then have bs: "filter (\<lambda>b. x - risk_window_us \<le> b) bs @ [x] = filter (\<lambda>b. x - risk_window_us \<le> b) (xs @ [x])"
      by (simp add: risk_window_us_def)
    have "3 \<le> length (filter (\<lambda>b. x - risk_window_us \<le> b) (xs @ [x])) \<longleftrightarrow> crowded (xs @ [x])"
    proof -
      have "(xs @ [x]) ! (length (xs @ [x]) - 3) = xs ! (length xs - 2)" if "2 \<le> length xs"
        using that by (auto simp: nth_append numeral_3_eq_3 numeral_2_eq_2)
      then show ?thesis
        using length_filter_ge [OF snoc.prems, of 3 "x - risk_window_us"] False IH(1)
        by (auto simp: crowded_snoc numeral_3_eq_3)
    qed
    moreover have "fold risk_step (xs @ [x]) (False, []) = risk_step x (p, bs)" using st by simp
    moreover have "risk_step x (p, bs) =
        (if length (filter (\<lambda>b. x - risk_window_us \<le> b) (xs @ [x])) < 3
         then (False, filter (\<lambda>b. x - risk_window_us \<le> b) (xs @ [x])) else (True, []))"
      unfolding risk_step_def Let_def prod.case bs using False by (rule if_not_P)
    ultimately show ?thesis by (simp only: fst_conv snd_conv last_snoc if_split not_less simp_thms) auto
  qed
qed

definition stored_breaches :: "db \<Rightarrow> int \<Rightarrow> datetime list" where
  "stored_breaches d a =
     decode_risk_state (case setting_value d (state_key a) of None \<Rightarrow> PNone | Some v \<Rightarrow> v)"

definition risk_view :: "db \<Rightarrow> int \<Rightarrow> (bool \<times> int list) option" where
  "risk_view d a =
     map_option (\<lambda>r. (acc_paused_at r \<noteq> None, map instant (stored_breaches d a)))
       (find (\<lambda>r. acc_id r = a) (accounts d))"

definition guards_ok :: "db \<Rightarrow> bool" where
  "guards_ok d \<longleftrightarrow> db_ok d \<and> settings_ok d"

lemma decode_encode_state [simp]: "decode_risk_state (encode_state bs) = map normalize_datetime bs"
proof -
  have "decode_breaches (map (\<lambda>b. PIso b (iso_text b)) bs) = map normalize_datetime bs"
    by (induction bs) simp_all
  then show ?thesis by (simp add: decode_risk_state_def encode_state_def dict_get_def)
qed

lemma encode_state_json [simp]: "is_json_value (encode_state bs)"
  by (simp add: encode_state_def)

lemma state_key_inj: "state_key a = state_key b \<longleftrightarrow> a = b"
  by (auto simp: state_key_def dest: int_text_inj)

lemma filter_recent_instants:
  "map instant (filter_recent bs now) = filter (\<lambda>b. b \<ge> instant now - risk_window_us) (map instant bs)"
  by (simp add: filter_recent_def Let_def filter_map comp_def ACCOUNT_RISK_WINDOW_SECONDS_def
      seconds_us_def risk_window_us_def)

lemma settings_only:
  "accounts (store_setting k v d) = accounts d" "channels (store_setting k v d) = channels d"
  "notifications (store_setting k v d) = notifications d"
  "channel_states (store_setting k v d) = channel_states d"
  by (simp_all add: store_setting_def append_setting_def overwrite_setting_def)

lemma store_setting_db_ok:
  assumes "db_ok d" and "settings_ok d"
  shows "db_ok (store_setting k v d)"
proof (cases "setting_value d k = None")
  case True
  then show ?thesis
    using assms by (simp add: store_setting_def append_setting_def db_ok_defs table_simps setting_value_None_iff)
next
  case False
  then have "store_setting k v d = overwrite_setting k v d" unfolding store_setting_def by (rule if_not_P)
  then show ?thesis
    using assms by (simp add: overwrite_setting_def db_ok_defs table_simps)
qed

lemma stored_after_upsert:
  assumes "settings_ok d"
  shows "stored_breaches (store_setting (state_key a) (encode_state bs) d) b =
     (if b = a then map normalize_datetime bs else stored_breaches d b)"
  using kv.get_put [OF assms encode_state_json, of "state_key a" bs]
  by (simp add: stored_breaches_def state_key_inj)

lemma stored_breaches_cong: "settings d' = settings d \<Longrightarrow> stored_breaches d' = stored_breaches d"
  by (simp add: stored_breaches_def setting_value_def fun_eq_iff)

lemma settings_ok_cong: "settings d' = settings d \<Longrightarrow> settings_ok d' = settings_ok d"
  by (simp add: settings_ok_def)

definition becomes_paused :: "int \<Rightarrow> (bool \<times> int list) option \<Rightarrow> bool" where
  "becomes_paused now v = (case v of None \<Rightarrow> False | Some st \<Rightarrow> \<not> fst st \<and> fst (risk_step now st))"

text \<open>What one call does to the counters, the accounts and the alerts.\<close>

definition breach_effect :: "int \<Rightarrow> datetime \<Rightarrow> db \<Rightarrow> db \<Rightarrow> bool" where
  "breach_effect a t d d' \<longleftrightarrow> guards_ok d' \<and>
     risk_view d' = (risk_view d)(a := map_option (risk_step (instant t)) (risk_view d a)) \<and>
     channels d' = channels d \<and> channel_states d' = channel_states d \<and>
     (\<exists>alerts. notifications d' = notifications d @ alerts \<and>
        map nt_type alerts = (if becomes_paused (instant t) (risk_view d a) then [''ingest.account_risk''] else []))"

lemma breach_effect_remember:
  assumes "guards_ok d" and "find (\<lambda>r. acc_id r = a) (accounts d) = Some r" and "acc_paused_at r = None"
    and "now = normalize_datetime t"
    and "length (filter_recent (stored_breaches d a) now @ [now]) < 3"
  shows "breach_effect a t d
    (store_setting (state_key a) (encode_state (filter_recent (stored_breaches d a) now @ [now])) d)"
proof -
  let ?bs = "filter_recent (stored_breaches d a) now @ [now]"
  let ?d = "store_setting (state_key a) (encode_state ?bs) d"
  have ok: "settings_ok d" "db_ok d" using assms(1) by (simp_all add: guards_ok_def)
  have inst: "map instant ?bs = filter (\<lambda>b. b \<ge> instant t - risk_window_us) (map instant (stored_breaches d a)) @ [instant t]"
    using assms(4) by (simp add: filter_recent_instants)
  have step: "risk_step (instant t) (False, map instant (stored_breaches d a)) = (False, map instant ?bs)"
  proof -
    have "length (map instant ?bs) < 3" using assms(5) by simp
    then show ?thesis unfolding inst by (simp add: risk_step_def)
  qed
  have "risk_view d a = Some (False, map instant (stored_breaches d a))"
    using assms(2,3) by (simp add: risk_view_def)
  moreover have "risk_view ?d b = (if b = a then Some (False, map instant ?bs) else risk_view d b)" for b
    using assms(2,3) by (simp add: risk_view_def settings_only stored_after_upsert [OF ok(1)] comp_def)
  moreover have "guards_ok ?d"
    using ok by (simp add: guards_ok_def store_setting_db_ok kv.inv_put)
  ultimately show ?thesis
    using step by (auto simp: breach_effect_def becomes_paused_def settings_only fun_eq_iff)
qed

lemma breach_effect_pause:
  assumes "guards_ok d" and "find (\<lambda>r. acc_id r = a) (accounts d) = Some r" and "acc_paused_at r = None"
    and "now = normalize_datetime t"
    and "\<not> length (filter_recent (stored_breaches d a) now @ [now]) < 3"
  shows "breach_effect a t d
    (with_alert ''ingest.account_risk'' severity message payload
       (store_setting (state_key a) (encode_state []) (with_pause a (Some now) reason d)))"
    (is "breach_effect a t d ?d3")
proof -
  let ?d1 = "with_pause a (Some now) reason d"
  let ?d2 = "store_setting (state_key a) (encode_state []) ?d1"
  have same: "settings ?d1 = settings d" "channels ?d1 = channels d" "notifications ?d1 = notifications d"
      "channel_states ?d1 = channel_states d" by (simp_all add: with_pause_def)
  have ok: "settings_ok ?d1" "db_ok ?d1"
    using assms(1) settings_ok_cong [OF same(1)] by (simp_all add: guards_ok_def with_pause_db_ok)
  have view: "risk_view d a = Some (False, map instant (stored_breaches d a))"
    using assms(2,3) by (simp add: risk_view_def)
  have "\<not> length (map instant (filter_recent (stored_breaches d a) now @ [now])) < 3" using assms(5) by simp
  then have step: "risk_step (instant t) (False, map instant (stored_breaches d a)) = (True, [])"
    using assms(4) by (simp add: risk_step_def filter_recent_instants Let_def)
  have alert: "settings ?d3 = settings ?d2" "accounts ?d3 = accounts ?d2" "channels ?d3 = channels ?d2"
      "channel_states ?d3 = channel_states ?d2"
    by (simp_all add: with_alert_def)
  have "risk_view ?d3 b = (if b = a then Some (True, []) else risk_view d b)" for b
    using assms(2) stored_breaches_cong [OF alert(1)] stored_after_upsert [OF ok(1)] stored_breaches_cong [OF same(1)]
    by (simp add: risk_view_def alert(2) settings_only) (simp add: with_pause_def find_update_key)
  moreover have "guards_ok ?d3"
    using ok settings_ok_cong [OF alert(1)]
    by (simp add: guards_ok_def with_alert_db_ok store_setting_db_ok kv.inv_put)
  moreover have "notifications ?d3 = notifications d @
      [notification_of ''ingest.account_risk'' severity message (Some (JText (sort_keys payload))) ?d2]"
    by (simp add: with_alert_def settings_only same)
  ultimately show ?thesis
    using view step alert same
    by (auto simp: breach_effect_def becomes_paused_def settings_only fun_eq_iff notification_of_def)
qed

lemma breach_effect_none:
  assumes "guards_ok d" and "risk_view d a = None \<or> (\<exists>bs. risk_view d a = Some (True, bs))"
  shows "breach_effect a t d d"
  using assms by (auto simp: breach_effect_def risk_step_def becomes_paused_def fun_eq_iff)

lemma risk_payload_dumpable: "is_dumpable (risk_payload a n reason t) \<and> \<not> is_none (risk_payload a n reason t)"
  by (simp add: risk_payload_def)

lemma record_breach_effect:
  assumes "guards_ok d"
  shows "\<exists>r d'. record_account_risk_breach a reason t d = (Inr r, d') \<and> breach_effect a t d d'"
proof -
  have pk: "pk acc_id (accounts d)" and st: "settings_ok d"
    using assms by (simp_all add: guards_ok_def db_ok_defs)
  let ?now = "normalize_datetime t"
  let ?bs = "filter_recent (stored_breaches d a) ?now @ [?now]"
  have stored: "(case map_option (\<lambda>v. \<lparr> sr_key = k, sr_value = v \<rparr>) x of None \<Rightarrow> PNone | Some rec \<Rightarrow> sr_value rec) =
      (case x of None \<Rightarrow> PNone | Some v \<Rightarrow> v)" for k x by (cases x) simp_all
  note unfolds = record_account_risk_breach_def act_bind_def act_read_def act_return_def get_pause_state_eq [OF pk]
    setting_get_by_key_value [OF st] stored stored_breaches_def [symmetric] Let_def
  show ?thesis
  proof (cases "find (\<lambda>r. acc_id r = a) (accounts d)")
    case None
    then have "record_account_risk_breach a reason t d = (Inr None, d)" by (simp add: unfolds)
    moreover have "risk_view d a = None" using None by (simp add: risk_view_def)
    ultimately show ?thesis using breach_effect_none [OF assms] by blast
  next
    case (Some r)
    show ?thesis
    proof (cases "acc_paused_at r")
      case (Some u)
      then have "record_account_risk_breach a reason t d = (Inr (Some (pause_of r)), d)"
        using \<open>find _ _ = Some r\<close> by (simp add: unfolds pause_of_def)
      moreover have "\<exists>bs. risk_view d a = Some (True, bs)"
        using Some \<open>find _ _ = Some r\<close> by (simp add: risk_view_def)
      ultimately show ?thesis using breach_effect_none [OF assms] by blast
    next
      case None
      note found = \<open>find _ _ = Some r\<close>
      show ?thesis
      proof (cases "length ?bs < 3")
        case True
        then have "record_account_risk_breach a reason t d =
            (Inr None, store_setting (state_key a) (encode_state ?bs) d)"
          using found None
          by (simp add: unfolds pause_of_def ACCOUNT_RISK_THRESHOLD_def upsert_risk_state_def setting_upsert_eq [OF st] del: case_map_option)
        then show ?thesis using breach_effect_remember [OF assms found None refl True] by blast
      next
        case False
        let ?d1 = "with_pause a (Some ?now) (Some ''account-risk'') d"
        have st1: "settings_ok ?d1" using st by (simp add: with_pause_def settings_ok_def)
        let ?d2 = "store_setting (state_key a) (encode_state []) ?d1"
        let ?msg = "''Account '' @ int_text a @
          '' paused after repeated risk events. Explicit resume required to continue polling.''"
        let ?pay = "risk_payload a (length ?bs) reason ?now"
        obtain n where n: "notification_create ''ingest.account_risk'' ''high'' ?msg ?pay ?d2 =
            (Inr n, with_alert ''ingest.account_risk'' ''high'' ?msg ?pay ?d2)"
          using notification_create_eq risk_payload_dumpable by blast
        have "record_account_risk_breach a reason t d =
            (Inr (Some \<lparr> ap_account_id = a, ap_paused_at = Some ?now, ap_pause_reason = Some ''account-risk'' \<rparr>),
             with_alert ''ingest.account_risk'' ''high'' ?msg ?pay ?d2)"
          using found None False n
          by (simp add: unfolds pause_of_def ACCOUNT_RISK_THRESHOLD_def upsert_risk_state_def
              setting_upsert_eq [OF st1] pause_account_def set_pause_columns_eq [OF pk] del: case_map_option)
        then show ?thesis using breach_effect_pause [OF assms found None refl False] by blast
      qed
    qed
  qed
qed

text \<open>A sequence of breaches of one account.\<close>

definition breach_all :: "int \<Rightarrow> string \<Rightarrow> datetime list \<Rightarrow> db \<Rightarrow> db" where
  "breach_all a reason ts d = fold (\<lambda>t d. snd (record_account_risk_breach a reason t d)) ts d"

lemma risk_step_stays: "fst st \<Longrightarrow> risk_step t st = st"
  by (cases st) (simp add: risk_step_def)

lemma risk_fold_stays: "fst st \<Longrightarrow> fold risk_step ts st = st"
  by (induction ts) (simp_all add: risk_step_stays)

lemma breach_all_effect:
  assumes "guards_ok d" and "risk_view d a = Some st"
  shows "guards_ok (breach_all a reason ts d) \<and>
    risk_view (breach_all a reason ts d) = (risk_view d)(a \<mapsto> fold risk_step (map instant ts) st) \<and>
    (\<exists>alerts. notifications (breach_all a reason ts d) = notifications d @ alerts \<and>
       map nt_type alerts = (if \<not> fst st \<and> fst (fold risk_step (map instant ts) st) then [''ingest.account_risk''] else []))"
  using assms
proof (induction ts arbitrary: d st)
  case Nil
  then show ?case by (auto simp: breach_all_def)
next
  case (Cons t ts)
  define d1 where "d1 = snd (record_account_risk_breach a reason t d)"
  from record_breach_effect [OF Cons.prems(1), of a reason t] have eff: "breach_effect a t d d1"
    by (auto simp: d1_def)
  then have d1: "guards_ok d1" "risk_view d1 a = Some (risk_step (instant t) st)"
    using Cons.prems(2) by (simp_all add: breach_effect_def)
  have "breach_all a reason (t # ts) d = breach_all a reason ts d1" by (simp add: breach_all_def d1_def)
  moreover have "fst (risk_step (instant t) st) \<Longrightarrow> fst (fold risk_step (map instant ts) (risk_step (instant t) st))"
    by (simp add: risk_fold_stays)
  moreover have "fst st \<Longrightarrow> fst (risk_step (instant t) st)" by (simp add: risk_step_stays)
  ultimately show ?case
    using Cons.IH [OF d1] eff Cons.prems(2)
    by (fastforce simp: breach_effect_def becomes_paused_def split: if_splits)
qed

section \<open>Error capture\<close>

definition error_record_of :: "ingest_error_row \<Rightarrow> ingest_error_record" where
  "error_record_of r =
     \<lparr> er_error_id = ie_id r, er_channel_id = ie_channel_id r, er_stage = ie_stage r,
       er_error_code = ie_error_code r, er_error_message = ie_error_message r,
       er_payload_ref = ie_payload_ref r, er_created_at = normalize_datetime (ie_created_at r) \<rparr>"

lemma decode_ingest_error [simp]:
  "decode_ingest_error_row (ingest_error_columns r) = Inr (error_record_of r)"
  by (simp add: decode_ingest_error_row_def ingest_error_columns_def row_get_def error_record_of_def
      coerce_opt_obj [where h = "\<lambda>x. x"] option.map_ident)

definition new_error_row :: "int option \<Rightarrow> string \<Rightarrow> string \<Rightarrow> string \<Rightarrow> string option \<Rightarrow> db \<Rightarrow> ingest_error_row" where
  "new_error_row c stage code message ref d =
     \<lparr> ie_id = sql_next_id (map ie_id (ingest_errors d)), ie_channel_id = c, ie_stage = stage,
       ie_error_code = code, ie_error_message = message, ie_payload_ref = ref,
       ie_created_at = current_timestamp d \<rparr>"

lemma normalized_stage_allowed: "normalize_ingest_error_stage s = Inr v \<Longrightarrow> v \<in> set ingest_stages"
  by (auto simp: normalize_ingest_error_stage_def Let_def split: stage_arg.splits if_splits)

lemma capture_ingest_error_eq:
  assumes "normalize_ingest_error_stage stage = Inr v"
    and "case c of None \<Rightarrow> True | Some k \<Rightarrow> k \<in> channel_ids d"
  shows "capture_ingest_error c stage code message ref d =
     (Inr (error_record_of (new_error_row c v code message ref d)),
      d\<lparr> ingest_errors := ingest_errors d @ [new_error_row c v code message ref d] \<rparr>)"
  using assms normalized_stage_allowed [OF assms(1)]
  by (simp add: capture_ingest_error_def ingest_error_create_def act_simps Let_def new_error_row_def)

section \<open>Flood waits\<close>

lemma states_ok_frame:
  "states_ok d \<Longrightarrow> db_ok d' \<Longrightarrow> channel_states d' = channel_states d \<Longrightarrow> states_ok d'"
  by (simp add: states_ok_def)

lemma paused_view_frame: "channel_states d' = channel_states d \<Longrightarrow> paused_view d' = paused_view d"
  by (simp add: paused_view_def state_view_def fun_eq_iff)

text \<open>The breach that a flood wait records never changes the channel states, and cannot raise.\<close>

lemma guarded_breach:
  assumes "states_ok d" and "settings_ok d"
  shows "\<exists>d'. (case account of None \<Rightarrow> act_return rec
            | Some a \<Rightarrow> act_catch (act_bind (record_account_risk_breach a reason t) (\<lambda>_. act_return rec)) h) d =
        (Inr rec, d') \<and> states_ok d' \<and> settings_ok d' \<and> paused_view d' = paused_view d \<and> channels d' = channels d"
proof (cases account)
  case None
  then show ?thesis using assms by (simp add: act_return_def)
next
  case (Some a)
  have "guards_ok d" using assms by (simp add: guards_ok_def states_ok_def)
  from record_breach_effect [OF this, of a reason t] obtain r d' where
    run: "record_account_risk_breach a reason t d = (Inr r, d')" and eff: "breach_effect a t d d'" by blast
  from eff have "channel_states d' = channel_states d" "db_ok d'" "settings_ok d'" "channels d' = channels d"
    by (simp_all add: breach_effect_def guards_ok_def)
  moreover from this have "states_ok d'" "paused_view d' = paused_view d"
    using states_ok_frame [OF assms(1)] paused_view_frame by blast+
  ultimately show ?thesis using run Some by (simp add: act_catch_def act_bind_def act_return_def)
qed

lemma flood_payload_dumpable: "is_dumpable (flood_payload c n t) \<and> \<not> is_none (flood_payload c n t)"
  by (simp add: flood_payload_def)

lemma persist_flood_wait_unknown:
  assumes "states_ok d" and "c \<notin> channel_ids d"
  shows "persist_flood_wait c wait resume d = (Inl (IntegrityError ''FOREIGN KEY constraint failed''), d)"
  by (simp add: persist_flood_wait_def act_bind_def update_pause_unknown [OF assms])

lemma persist_flood_wait_known:
  assumes "states_ok d" and "settings_ok d" and "c \<in> channel_ids d" and "is_aware resume"
  shows "\<exists>d'. persist_flood_wait c wait resume d =
      (Inr ((view_or_blank d c)\<lparr> sd_paused_until := Some resume \<rparr>), d') \<and>
    states_ok d' \<and> settings_ok d' \<and> paused_view d' = (paused_view d)(c \<mapsto> resume)"
proof -
  from update_pause_known [OF assms(1,3), of "Some resume"] obtain d1 where d1:
      "update_pause c (Some resume) d = (Inr ((view_or_blank d c)\<lparr> sd_paused_until := Some resume \<rparr>), d1)"
      "states_ok d1" "d1 = d\<lparr> channel_states := channel_states d1 \<rparr>"
    using assms(4) by auto
  have pv: "paused_view d1 = (paused_view d)(c \<mapsto> resume)"
    using cps.set_paused [OF assms(1,3), of "Some resume"] d1(1) assms(4) by simp
  have "settings d1 = settings d" by (subst d1(3)) simp
  then have s1: "settings_ok d1" using assms(2) settings_ok_cong by blast
  let ?msg = "''Flood wait enforced for channel '' @ int_text c @ ''; paused until '' @ iso_text resume @ ''.''"
  let ?d2 = "with_alert ''ingest.flood_wait'' ''medium'' ?msg (flood_payload c wait resume) d1"
  obtain n where n: "notification_create ''ingest.flood_wait'' ''medium'' ?msg (flood_payload c wait resume) d1 = (Inr n, ?d2)"
    using notification_create_eq flood_payload_dumpable by blast
  have d2: "states_ok ?d2" "settings_ok ?d2" "paused_view ?d2 = paused_view d1"
    using d1(2) s1 with_alert_db_ok [of d1]
    by (simp_all add: with_alert_def states_ok_def settings_ok_def paused_view_def state_view_def fun_eq_iff)
  show ?thesis
    by (cases "wait \<ge> 300")
      (use d1(1,2) s1 pv n d2 in \<open>simp_all add: persist_flood_wait_def act_bind_def act_return_def\<close>)
qed

lemma flood_wait_effect:
  assumes "states_ok d" and "settings_ok d"
  shows "case extract_wait_seconds seconds of
      None \<Rightarrow> handle_flood_wait c seconds account t d =
        (Inl (ValueError ''Flood wait error missing wait seconds.''), d)
    | Some wait \<Rightarrow> 0 < wait \<and>
        (let resume = dt_plus_us (normalize_datetime t) (seconds_us wait) in
         if c \<in> channel_ids d
         then \<exists>d'. handle_flood_wait c seconds account t d =
               (Inr ((view_or_blank d c)\<lparr> sd_paused_until := Some resume \<rparr>), d') \<and>
             paused_view d' = (paused_view d)(c \<mapsto> resume) \<and> instant resume = instant t + wait * 1000000 \<and>
             states_ok d' \<and> settings_ok d'
         else handle_flood_wait c seconds account t d = (Inl (IntegrityError ''FOREIGN KEY constraint failed''), d))"
proof (cases "extract_wait_seconds seconds")
  case None
  then show ?thesis by (simp add: handle_flood_wait_def act_raise_def)
next
  case (Some wait)
  then have pos: "0 < wait" by (auto simp: extract_wait_seconds_def split: option.splits if_splits)
  let ?resume = "dt_plus_us (normalize_datetime t) (seconds_us wait)"
  have inst: "instant ?resume = instant t + wait * 1000000" by (simp add: seconds_us_def)
  show ?thesis
  proof (cases "c \<in> channel_ids d")
    case False
    then show ?thesis
      using Some pos persist_flood_wait_unknown [OF assms(1)]
      by (simp add: handle_flood_wait_def act_bind_def Let_def)
  next
    case True
    obtain d1 where d1: "persist_flood_wait c wait ?resume d =
          (Inr ((view_or_blank d c)\<lparr> sd_paused_until := Some ?resume \<rparr>), d1)"
        "states_ok d1" "settings_ok d1" "paused_view d1 = (paused_view d)(c \<mapsto> ?resume)"
      using persist_flood_wait_known [OF assms True, of ?resume wait] by auto
    let ?rec = "(view_or_blank d c)\<lparr> sd_paused_until := Some ?resume \<rparr>"
    have run: "handle_flood_wait c seconds account t d =
        (case account of None \<Rightarrow> act_return ?rec
         | Some a \<Rightarrow> act_catch (act_bind (record_account_risk_breach a ''flood-wait'' t) (\<lambda>_. act_return ?rec))
             (\<lambda>e. if exn_class e = ''CancelledError'' then act_raise e else act_return ?rec)) d1"
      using Some d1(1) by (simp add: handle_flood_wait_def act_bind_def [of "persist_flood_wait _ _ _"] Let_def)
    obtain d2 where "handle_flood_wait c seconds account t d = (Inr ?rec, d2)" "states_ok d2" "settings_ok d2"
        "paused_view d2 = paused_view d1"
      using guarded_breach [OF d1(2,3), where account = account and rec = ?rec and t = t and reason = "''flood-wait''"
          and h = "\<lambda>e. if exn_class e = ''CancelledError'' then act_raise e else act_return ?rec"]
      unfolding run by (elim exE conjE)
    then show ?thesis using Some pos True inst d1(4) by (simp add: Let_def)
  qed
qed

section \<open>Properties\<close>

text \<open>
  C13. Escalation of account risk: for an account that is not paused and has no breaches on record,
  and breaches reported in the order of their times, the account ends up paused exactly when some
  three consecutive ones lie within 3600 seconds; then, and only then, one high alert is raised.
  The counters and the pause state of every other account are unchanged.
\<close>

theorem account_paused_iff_three_breaches:
  assumes "guards_ok d" and "risk_view d a = Some (False, [])" and "sorted (map instant ts)"
  shows "(\<exists>bs. risk_view (breach_all a reason ts d) a = Some (crowded (map instant ts), bs)) \<and>
    (\<forall>b. b \<noteq> a \<longrightarrow> risk_view (breach_all a reason ts d) b = risk_view d b) \<and>
    (\<exists>alerts. notifications (breach_all a reason ts d) = notifications d @ alerts \<and>
       map nt_type alerts = (if crowded (map instant ts) then [''ingest.account_risk''] else [])) \<and>
    guards_ok (breach_all a reason ts d)"
proof -
  have "fst (fold risk_step (map instant ts) (False, [])) = crowded (map instant ts)"
    using risk_run [OF assms(3)] by blast
  moreover obtain p bs where "fold risk_step (map instant ts) (False, []) = (p, bs)" by fastforce
  ultimately show ?thesis using breach_all_effect [OF assms(1,2), of reason ts] by auto
qed

theorem account_paused_iff_three_breaches_witness:
  "(\<exists>bs. risk_view (breach_all 1 ''flood-wait'' [DT 0 None, DT 1800000000 None, DT 3600000000 None] sample_db) 1 = Some (True, bs)) \<and>
   (\<exists>bs. risk_view (breach_all 1 ''flood-wait'' [DT 0 None, DT 1800000000 None, DT 3600000001 None] sample_db) 1 = Some (False, bs))"
proof -
  have ok: "guards_ok sample_db" by code_simp
  have start: "risk_view sample_db 1 = Some (False, [])" by code_simp
  have "sorted (map instant [DT 0 None, DT 1800000000 None, DT 3600000000 None])"
    "sorted (map instant [DT 0 None, DT 1800000000 None, DT 3600000001 None])" by code_simp+
  moreover have "crowded (map instant [DT 0 None, DT 1800000000 None, DT 3600000000 None]) = True"
    "crowded (map instant [DT 0 None, DT 1800000000 None, DT 3600000001 None]) = False"
    by (simp_all add: crowded_def risk_window_us_def instant_def offset_us_def)
  ultimately show ?thesis
    using account_paused_iff_three_breaches [OF ok start, of _ "''flood-wait''"] by metis
qed

text \<open>
  A flood-wait error: without a positive number of seconds it is refused and nothing changes;
  for an unknown channel the foreign key refuses it and nothing changes. Otherwise the call
  returns, also when an account is charged with the breach, the channel is paused until exactly
  that many seconds after the present, the pause of every other channel is unchanged, and the
  returned record shows the pause.
\<close>

lemma handle_flood_wait_pauses:
  assumes "states_ok d" and "settings_ok d"
  shows "case extract_wait_seconds seconds of
      None \<Rightarrow> handle_flood_wait c seconds account t d =
        (Inl (ValueError ''Flood wait error missing wait seconds.''), d)
    | Some wait \<Rightarrow> 0 < wait \<and>
        (let resume = dt_plus_us (normalize_datetime t) (seconds_us wait) in
         if c \<in> channel_ids d
         then \<exists>d'. handle_flood_wait c seconds account t d =
               (Inr ((view_or_blank d c)\<lparr> sd_paused_until := Some resume \<rparr>), d') \<and>
             paused_view d' = (paused_view d)(c \<mapsto> resume) \<and> instant resume = instant t + wait * 1000000 \<and>
             states_ok d' \<and> settings_ok d'
         else handle_flood_wait c seconds account t d = (Inl (IntegrityError ''FOREIGN KEY constraint failed''), d))"
  by (rule flood_wait_effect [OF assms])

lemma handle_flood_wait_pauses_witness:
  "\<exists>d'. fst (handle_flood_wait 1 (PInt 400) (Some 1) (DT 1000000 None) sample_db) =
      Inr ((blank_state 1)\<lparr> sd_paused_until := Some (DT 401000000 (Some 0)) \<rparr>) \<and>
    snd (handle_flood_wait 1 (PInt 400) (Some 1) (DT 1000000 None) sample_db) = d' \<and>
    paused_view d' 1 = Some (DT 401000000 (Some 0))"
proof -
  have "settings_ok sample_db" by code_simp
  moreover have "extract_wait_seconds (PInt 400) = Some 400" "1 \<in> channel_ids sample_db"
    "view_or_blank sample_db 1 = blank_state 1"
    "dt_plus_us (normalize_datetime (DT 1000000 None)) (seconds_us 400) = DT 401000000 (Some 0)" by code_simp+
  ultimately show ?thesis
    using handle_flood_wait_pauses [OF sample_states_ok, where seconds = "PInt 400" and c = 1 and account = "Some 1" and t = "DT 1000000 None"]
    by (auto simp: Let_def)
qed

text \<open>
  Running an ingest operation under error capture. A result passes through with no error
  recorded. A recoverable exception is swallowed: the call answers none, and from the state the
  operation left, exactly one error row is added, for the given channel, with the stage in its
  normal form, the code, and the message of the exception. A cancellation or an exception that is not
  recoverable is raised again with nothing recorded. The two remaining cases do raise: a stage that
  is not one of the four, and a channel that does not exist.
\<close>

lemma error_capture_continues:
  shows "(op d = (Inr x, d') \<longrightarrow>
      execute_with_ingest_error_capture op c stage code ref recoverable d = (Inr (Some x), d')) \<and>
    (op d = (Inl e, d') \<longrightarrow>
      execute_with_ingest_error_capture op c stage code ref recoverable d =
        (if \<not> recoverable e \<or> exn_class e = ''CancelledError'' then (Inl e, d')
         else
           case normalize_ingest_error_stage stage of
             Inl bad \<Rightarrow> (Inl bad, d')
           | Inr v \<Rightarrow>
              if (case c of None \<Rightarrow> True | Some k \<Rightarrow> k \<in> channel_ids d')
              then (Inr None, d'\<lparr> ingest_errors := ingest_errors d' @ [new_error_row c v code (exn_message e) ref d'] \<rparr>)
              else (Inl (IntegrityError ''FOREIGN KEY constraint failed''), d')))"
proof -
  have refused: "capture_ingest_error c stage code message ref d' = (Inl (IntegrityError ''FOREIGN KEY constraint failed''), d')"
    if "normalize_ingest_error_stage stage = Inr v" "\<not> (case c of None \<Rightarrow> True | Some k \<Rightarrow> k \<in> channel_ids d')"
    for v message
    using that normalized_stage_allowed [OF that(1)]
    by (simp add: capture_ingest_error_def ingest_error_create_def act_simps Let_def)
  have bad: "capture_ingest_error c stage code message ref d' = (Inl b, d')"
    if "normalize_ingest_error_stage stage = Inl b" for b message
    using that by (simp add: capture_ingest_error_def act_simps)
  show ?thesis
    by (auto simp: execute_with_ingest_error_capture_def act_catch_def act_bind_def act_return_def act_raise_def
        bad refused capture_ingest_error_eq split: sum.split)
qed

lemma error_capture_continues_witness:
  "execute_with_ingest_error_capture (act_raise (ValueError ''boom'') :: (db, int) act) (Some 1) (StageText '' Fetch '')
      ''E1'' None (\<lambda>_. True) sample_db =
    (Inr None, sample_db\<lparr> ingest_errors := [new_error_row (Some 1) ''fetch'' ''E1'' ''boom'' None sample_db] \<rparr>)"
proof -
  have "normalize_ingest_error_stage (StageText '' Fetch '') = Inr ''fetch''" by code_simp
  moreover have "1 \<in> channel_ids sample_db" "ingest_errors sample_db = []" by code_simp+
  moreover have "(act_raise (ValueError ''boom'') :: (db, int) act) sample_db = (Inl (ValueError ''boom''), sample_db)"
    by (simp add: act_raise_def)
  ultimately show ?thesis
    using error_capture_continues [where op = "act_raise (ValueError ''boom'') :: (db, int) act" and d = sample_db and d' = sample_db
        and e = "ValueError ''boom''" and c = "Some 1" and stage = "StageText '' Fetch ''" and code = "''E1''" and ref = None
        and recoverable = "\<lambda>_. True"]
    by simp
qed

end
