(* ===== verification/Content.thy ===== *)
theory Content
  imports Samples
begin

text \<open>
  \<open>tca/storage/raw_messages_repo.py\<close>, \<open>tca/storage/items_repo.py\<close>, \<open>tca/normalize/service.py\<close> and
  the write helper of \<open>tca/ingest/service.py\<close>: the two content tables, keyed by channel and message,
  written by \<open>INSERT ... ON CONFLICT DO UPDATE\<close>. The locale \<open>keyed_upsert\<close> states what both writers
  promise (one row per key, a stable id, nothing else touched); it is interpreted on both.
\<close>

section \<open>Upsert by key\<close>

text \<open>
  \<open>INSERT ... ON CONFLICT(key) DO UPDATE SET ... RETURNING\<close> on the rows of one table: the row
  that has the key is changed by \<open>f\<close>, otherwise \<open>new\<close> is appended.
\<close>

definition upsert_by :: "('r \<Rightarrow> bool) \<Rightarrow> ('r \<Rightarrow> 'r) \<Rightarrow> 'r \<Rightarrow> 'r list \<Rightarrow> 'r \<times> 'r list" where
  "upsert_by p f new rows =
     (case find p rows of
        None \<Rightarrow> (new, rows @ [new])
      | Some r \<Rightarrow> (f r, update_where p f rows))"

lemma upsert_by_lookup:
  assumes "\<And>r. key (f r) = key r" and "key new = x"
  shows "find (\<lambda>r. key r = k) (snd (upsert_by (\<lambda>r. key r = x) f new rows)) =
    (if k = x then Some (fst (upsert_by (\<lambda>r. key r = x) f new rows)) else find (\<lambda>r. key r = k) rows)"
  using assms
  by (auto simp: upsert_by_def find_append find_update_key split: option.split)

lemma upsert_by_pk:
  assumes "\<And>r. key (f r) = key r" and "key new = x" and "pk key rows"
  shows "pk key (snd (upsert_by (\<lambda>r. key r = x) f new rows))"
  using assms by (auto simp: upsert_by_def table_simps find_key_None split: option.split)

lemma upsert_by_keeps_pk:
  assumes "\<And>r. g (f r) = g r" and "g new \<notin> g ` set rows" and "pk g rows"
  shows "pk g (snd (upsert_by p f new rows))"
  using assms by (auto simp: upsert_by_def table_simps split: option.split)

lemma upsert_by_fk:
  assumes "\<And>r. g (f r) = g r" and "g new \<in> S" and "fk g rows S"
  shows "fk g (snd (upsert_by p f new rows)) S"
  using assms by (auto simp: upsert_by_def table_simps split: option.split)

lemma upsert_by_ids:
  assumes "\<And>r. g (f r) = g r"
  shows "g ` set rows \<subseteq> g ` set (snd (upsert_by p f new rows))"
  using assms by (auto simp: upsert_by_def table_simps split: option.split)

section \<open>Raw messages\<close>

record raw_message_record =
  rm_raw_message_id :: int
  rm_channel_id :: int
  rm_message_id :: int
  rm_payload :: pyobj
  rm_created_at :: datetime
  rm_updated_at :: datetime

abbreviation RawMessagePayloadEncodeError :: exn where
  "RawMessagePayloadEncodeError \<equiv>
     Exn ''RawMessagePayloadEncodeError'' ''Raw message payload is not JSON-serializable''"

abbreviation RawMessagePayloadDecodeError :: "string \<Rightarrow> exn" where
  "RawMessagePayloadDecodeError \<equiv> Exn ''RawMessagePayloadDecodeError''"

definition raw_encode_payload_json :: "pyobj \<Rightarrow> jtext res" where
  "raw_encode_payload_json payload =
     (case json_dumps payload of None \<Rightarrow> Inl RawMessagePayloadEncodeError | Some t \<Rightarrow> Inr t)"

definition raw_decode_payload_json :: "jtext \<Rightarrow> pyobj res" where
  "raw_decode_payload_json t =
     (case json_loads t of
        None \<Rightarrow> Inl (RawMessagePayloadDecodeError ''Stored raw message payload is not valid JSON'')
      | Some v \<Rightarrow> Inr v)"

definition raw_message_columns :: "raw_message_row \<Rightarrow> row_map" where
  "raw_message_columns r =
     [(''id'', PInt (raw_id r)), (''channel_id'', PInt (raw_channel_id r)),
      (''message_id'', PInt (raw_message_id r)), (''created_at'', dt_obj (raw_created_at r)),
      (''updated_at'', dt_obj (raw_updated_at r))]"

text \<open>The text of the payload is passed beside the other columns.\<close>

definition decode_raw_message_row :: "row_map \<Rightarrow> jtext \<Rightarrow> raw_message_record res" where
  "decode_raw_message_row row payload_json =
     res_bind (coerce_int_with False (RawMessagePayloadDecodeError ''missing integer `id`'') (row_get row ''id'')) (\<lambda>i.
     res_bind (coerce_int_with False (RawMessagePayloadDecodeError ''missing integer `channel_id`'')
         (row_get row ''channel_id'')) (\<lambda>c.
     res_bind (coerce_int_with False (RawMessagePayloadDecodeError ''missing integer `message_id`'')
         (row_get row ''message_id'')) (\<lambda>m.
     res_bind (raw_decode_payload_json payload_json) (\<lambda>p.
     res_bind (coerce_datetime_with False (RawMessagePayloadDecodeError ''invalid `created_at` value'')
         (RawMessagePayloadDecodeError ''missing `created_at`'') (row_get row ''created_at'')) (\<lambda>a.
     res_bind (coerce_datetime_with False (RawMessagePayloadDecodeError ''invalid `updated_at` value'')
         (RawMessagePayloadDecodeError ''missing `updated_at`'') (row_get row ''updated_at'')) (\<lambda>u.
       Inr \<lparr> rm_raw_message_id = i, rm_channel_id = c, rm_message_id = m, rm_payload = p,
             rm_created_at = a, rm_updated_at = u \<rparr>))))))"

abbreviation raw_key :: "raw_message_row \<Rightarrow> int \<times> int" where
  "raw_key r \<equiv> (raw_channel_id r, raw_message_id r)"

definition new_raw_row :: "int \<Rightarrow> int \<Rightarrow> jtext \<Rightarrow> db \<Rightarrow> raw_message_row" where
  "new_raw_row channel_id message_id enc d =
     \<lparr> raw_id = sql_next_id (map raw_id (raw_messages d)), raw_channel_id = channel_id,
       raw_message_id = message_id, raw_payload_json = enc, raw_created_at = current_timestamp d,
       raw_updated_at = current_timestamp d \<rparr>"

definition raw_upsert_statement :: "int \<Rightarrow> int \<Rightarrow> jtext \<Rightarrow> (db, raw_message_row) act" where
  "raw_upsert_statement channel_id message_id enc d =
     (case upsert_by (\<lambda>r. raw_key r = (channel_id, message_id))
             (\<lambda>r. r\<lparr> raw_payload_json := enc, raw_updated_at := current_timestamp d \<rparr>)
             (new_raw_row channel_id message_id enc d) (raw_messages d) of
        (row, rows) \<Rightarrow>
          if channel_id \<in> channel_ids d then (Inr row, d\<lparr> raw_messages := rows \<rparr>)
          else (Inl (IntegrityError ''FOREIGN KEY constraint failed''), d))"

definition upsert_raw_message :: "int \<Rightarrow> int \<Rightarrow> pyobj \<Rightarrow> (db, raw_message_record) act" where
  "upsert_raw_message channel_id message_id payload =
     act_bind (act_lift (raw_encode_payload_json payload)) (\<lambda>enc.
     act_bind (transaction (raw_upsert_statement channel_id message_id enc)) (\<lambda>row.
       act_lift (decode_raw_message_row (raw_message_columns row) (raw_payload_json row))))"

section \<open>Items\<close>

record item_record =
  ir_item_id :: int
  ir_channel_id :: int
  ir_message_id :: int
  ir_raw_message_id :: "int option"
  ir_published_at :: "datetime option"
  ir_title :: "string option"
  ir_body :: "string option"
  ir_canonical_url :: "string option"
  ir_canonical_url_hash :: "string option"
  ir_content_hash :: "string option"
  ir_dedupe_state :: string
  ir_created_at :: datetime
  ir_updated_at :: datetime

abbreviation ItemsRepositoryError :: "string \<Rightarrow> exn" where
  "ItemsRepositoryError \<equiv> Exn ''ItemsRepositoryError''"

definition item_columns :: "item_row \<Rightarrow> row_map" where
  "item_columns r =
     [(''id'', PInt (it_id r)), (''channel_id'', PInt (it_channel_id r)), (''message_id'', PInt (it_message_id r)),
      (''raw_message_id'', opt_obj PInt (it_raw_message_id r)), (''published_at'', opt_obj dt_obj (it_published_at r)),
      (''title'', opt_obj PStr (it_title r)), (''body'', opt_obj PStr (it_body r)),
      (''canonical_url'', opt_obj PStr (it_canonical_url r)),
      (''canonical_url_hash'', opt_obj PStr (it_canonical_url_hash r)),
      (''content_hash'', opt_obj PStr (it_content_hash r)), (''dedupe_state'', PStr (it_dedupe_state r)),
      (''created_at'', dt_obj (it_created_at r)), (''updated_at'', dt_obj (it_updated_at r))]"

definition item_int :: "row_map \<Rightarrow> string \<Rightarrow> int res" where
  "item_int row f = coerce_int_with False (ItemsRepositoryError (''missing integer `'' @ f @ ''`'')) (row_get row f)"

definition item_opt_str :: "row_map \<Rightarrow> string \<Rightarrow> string option res" where
  "item_opt_str row f = coerce_opt_with (coerce_str_with (ItemsRepositoryError ''invalid string value'')) (row_get row f)"

definition item_datetime :: "row_map \<Rightarrow> string \<Rightarrow> datetime res" where
  "item_datetime row f =
     coerce_datetime_with False (ItemsRepositoryError (''invalid `'' @ f @ ''` value''))
       (ItemsRepositoryError (''missing `'' @ f @ ''`'')) (row_get row f)"

definition decode_item_row :: "row_map \<Rightarrow> item_record res" where
  "decode_item_row row =
     res_bind (item_int row ''id'') (\<lambda>i.
     res_bind (item_int row ''channel_id'') (\<lambda>c.
     res_bind (item_int row ''message_id'') (\<lambda>m.
     res_bind (coerce_opt_with (coerce_int_with False (ItemsRepositoryError ''invalid `raw_message_id` value''))
         (row_get row ''raw_message_id'')) (\<lambda>raw.
     res_bind (coerce_opt_with (coerce_datetime_with False (ItemsRepositoryError ''invalid `published_at` value'')
         (ItemsRepositoryError ''invalid `published_at` value'')) (row_get row ''published_at'')) (\<lambda>p.
     res_bind (item_opt_str row ''title'') (\<lambda>t.
     res_bind (item_opt_str row ''body'') (\<lambda>b.
     res_bind (item_opt_str row ''canonical_url'') (\<lambda>url.
     res_bind (item_opt_str row ''canonical_url_hash'') (\<lambda>uh.
     res_bind (item_opt_str row ''content_hash'') (\<lambda>ch.
     res_bind (coerce_str_with (ItemsRepositoryError ''missing `dedupe_state`'') (row_get row ''dedupe_state'')) (\<lambda>s.
     res_bind (item_datetime row ''created_at'') (\<lambda>a.
     res_bind (item_datetime row ''updated_at'') (\<lambda>u.
       Inr \<lparr> ir_item_id = i, ir_channel_id = c, ir_message_id = m, ir_raw_message_id = raw, ir_published_at = p,
             ir_title = t, ir_body = b, ir_canonical_url = url, ir_canonical_url_hash = uh,
             ir_content_hash = ch, ir_dedupe_state = s, ir_created_at = a, ir_updated_at = u \<rparr>)))))))))))))"

text \<open>The arguments of \<open>upsert_item\<close> beside the key.\<close>

record item_fields =
  if_raw_message_id :: "int option"
  if_published_at :: "datetime option"
  if_title :: "string option"
  if_body :: "string option"
  if_canonical_url :: "string option"
  if_canonical_url_hash :: "string option"
  if_content_hash :: "string option"

abbreviation item_key :: "item_row \<Rightarrow> int \<times> int" where
  "item_key r \<equiv> (it_channel_id r, it_message_id r)"

definition new_item_row :: "int \<Rightarrow> int \<Rightarrow> item_fields \<Rightarrow> db \<Rightarrow> item_row" where
  "new_item_row channel_id message_id x d =
     \<lparr> it_id = sql_next_id (map it_id (items d)), it_channel_id = channel_id, it_message_id = message_id,
       it_raw_message_id = if_raw_message_id x, it_published_at = if_published_at x, it_title = if_title x,
       it_body = if_body x, it_canonical_url = if_canonical_url x,
       it_canonical_url_hash = if_canonical_url_hash x, it_content_hash = if_content_hash x,
       it_dedupe_state = ''pending'', it_embedding = None, it_created_at = current_timestamp d,
       it_updated_at = current_timestamp d \<rparr>"

text \<open>The raw message of an item is set once: \<open>COALESCE(items.raw_message_id, excluded.raw_message_id)\<close>.\<close>

definition overwrite_item :: "item_fields \<Rightarrow> db \<Rightarrow> item_row \<Rightarrow> item_row" where
  "overwrite_item x d r =
     r\<lparr> it_raw_message_id := (case it_raw_message_id r of None \<Rightarrow> if_raw_message_id x | Some n \<Rightarrow> Some n),
        it_published_at := if_published_at x, it_title := if_title x, it_body := if_body x,
        it_canonical_url := if_canonical_url x, it_canonical_url_hash := if_canonical_url_hash x,
        it_content_hash := if_content_hash x, it_updated_at := current_timestamp d \<rparr>"

text \<open>
  The conflict on the key decides between insert and update; the row written may then still
  violate the uniqueness or the foreign key of its raw message.
\<close>

definition item_upsert_statement :: "int \<Rightarrow> int \<Rightarrow> item_fields \<Rightarrow> (db, item_row) act" where
  "item_upsert_statement channel_id message_id x d =
     (case upsert_by (\<lambda>r. item_key r = (channel_id, message_id)) (overwrite_item x d)
             (new_item_row channel_id message_id x d) (items d) of
        (row, rows) \<Rightarrow>
          if \<not> unique_opt it_raw_message_id rows
          then (Inl (IntegrityError ''UNIQUE constraint failed: items.raw_message_id''), d)
          else if channel_id \<notin> channel_ids d \<or> \<not> fk_opt it_raw_message_id rows (raw_ids d)
          then (Inl (IntegrityError ''FOREIGN KEY constraint failed''), d)
          else (Inr row, d\<lparr> items := rows \<rparr>))"

definition upsert_item :: "int \<Rightarrow> int \<Rightarrow> item_fields \<Rightarrow> (db, item_record) act" where
  "upsert_item channel_id message_id x =
     act_bind (transaction (item_upsert_statement channel_id message_id x)) (\<lambda>row.
       act_lift (decode_item_row (item_columns row)))"

text \<open>\<open>normalize/service.py\<close> and \<open>ingest/service.py\<close>: the same writes through the writer queue.\<close>

definition service_upsert_item :: "int \<Rightarrow> int \<Rightarrow> item_fields \<Rightarrow> (db, item_record) act" where
  "service_upsert_item channel_id message_id x = upsert_item channel_id message_id x"

definition service_upsert_raw_message :: "int \<Rightarrow> int \<Rightarrow> pyobj \<Rightarrow> (db, raw_message_record) act" where
  "service_upsert_raw_message channel_id message_id payload = upsert_raw_message channel_id message_id payload"

section \<open>The contract of both writers\<close>

text \<open>
  \<open>lookup\<close> finds the row of a key, \<open>ident\<close> is its id, \<open>holds\<close> says that a row carries the values
  written. A write that raises changes nothing.
\<close>

locale keyed_upsert =
  fixes inv :: "'s \<Rightarrow> bool" and lookup :: "'s \<Rightarrow> 'k \<Rightarrow> 'r option" and ident :: "'r \<Rightarrow> int"
    and holds :: "'v \<Rightarrow> 'r \<Rightarrow> bool" and put :: "'k \<Rightarrow> 'v \<Rightarrow> ('s, 'a) act"
  assumes write_fails: "inv s \<Longrightarrow> put k v s = (Inl e, s') \<Longrightarrow> s' = s"
    and write_inv: "inv s \<Longrightarrow> put k v s = (Inr a, s') \<Longrightarrow> inv s'"
    and write_lookup: "inv s \<Longrightarrow> put k v s = (Inr a, s') \<Longrightarrow> \<exists>r. lookup s' k = Some r \<and> holds v r"
    and write_ident: "inv s \<Longrightarrow> put k v s = (Inr a, s') \<Longrightarrow> lookup s k = Some r0 \<Longrightarrow> lookup s' k = Some r \<Longrightarrow>
      ident r = ident r0"
    and write_other: "inv s \<Longrightarrow> put k v s = (Inr a, s') \<Longrightarrow> k' \<noteq> k \<Longrightarrow> lookup s' k' = lookup s k'"
begin

text \<open>A poll repeated any number of times, with or without failures.\<close>

definition write_all :: "('k \<times> 'v) list \<Rightarrow> 's \<Rightarrow> 's" where
  "write_all kvs s = fold (\<lambda>(k, v) s. snd (put k v s)) kvs s"

lemma write_step:
  assumes "inv s"
  shows "inv (snd (put k v s)) \<and>
    (\<forall>j r. lookup s j = Some r \<longrightarrow> (\<exists>r'. lookup (snd (put k v s)) j = Some r' \<and> ident r' = ident r))"
proof (cases "put k v s")
  case (Pair res s')
  show ?thesis
  proof (cases res)
    case (Inl e)
    then show ?thesis using assms Pair write_fails [OF assms, of k v e s'] by auto
  next
    case (Inr a)
    with Pair have w: "put k v s = (Inr a, s')" by simp
    have "\<exists>r'. lookup s' j = Some r' \<and> ident r' = ident r" if "lookup s j = Some r" for j r
    proof (cases "j = k")
      case True
      from write_lookup [OF assms w] obtain r' where "lookup s' k = Some r'" by blast
      with True write_ident [OF assms w] that show ?thesis by blast
    next
      case False
      with write_other [OF assms w] that show ?thesis by simp
    qed
    with write_inv [OF assms w] Pair show ?thesis by simp
  qed
qed

lemma idents_are_stable:
  "inv s \<Longrightarrow> inv (write_all kvs s) \<and>
   (\<forall>j r. lookup s j = Some r \<longrightarrow> (\<exists>r'. lookup (write_all kvs s) j = Some r' \<and> ident r' = ident r))"
proof (induction kvs arbitrary: s)
  case Nil
  then show ?case by (simp add: write_all_def)
next
  case (Cons kv kvs)
  obtain k v where kv: "kv = (k, v)" by (cases kv)
  have "write_all (kv # kvs) s = write_all kvs (snd (put k v s))" by (simp add: write_all_def kv)
  with write_step [OF Cons.prems, of k v] Cons.IH [of "snd (put k v s)"] show ?case by (metis (no_types, lifting))
qed

end

section \<open>Both tables satisfy it\<close>

definition raw_lookup :: "db \<Rightarrow> int \<times> int \<Rightarrow> raw_message_row option" where
  "raw_lookup d k = find (\<lambda>r. raw_key r = k) (raw_messages d)"

definition item_lookup :: "db \<Rightarrow> int \<times> int \<Rightarrow> item_row option" where
  "item_lookup d k = find (\<lambda>r. item_key r = k) (items d)"

definition raw_holds :: "pyobj \<Rightarrow> raw_message_row \<Rightarrow> bool" where
  "raw_holds payload r \<longleftrightarrow> raw_payload_json r = JText payload"

definition item_holds :: "item_fields \<Rightarrow> item_row \<Rightarrow> bool" where
  "item_holds x r \<longleftrightarrow>
     it_published_at r = if_published_at x \<and> it_title r = if_title x \<and> it_body r = if_body x \<and>
     it_canonical_url r = if_canonical_url x \<and> it_canonical_url_hash r = if_canonical_url_hash x \<and>
     it_content_hash r = if_content_hash x"

lemma decode_raw_ok [simp]:
  "decode_raw_message_row (raw_message_columns r) (JText v) =
   Inr \<lparr> rm_raw_message_id = raw_id r, rm_channel_id = raw_channel_id r, rm_message_id = raw_message_id r,
         rm_payload = v, rm_created_at = normalize_datetime (raw_created_at r),
         rm_updated_at = normalize_datetime (raw_updated_at r) \<rparr>"
  by (simp add: decode_raw_message_row_def raw_message_columns_def row_get_def raw_decode_payload_json_def json_loads_def)

definition item_record_of :: "item_row \<Rightarrow> item_record" where
  "item_record_of r =
     \<lparr> ir_item_id = it_id r, ir_channel_id = it_channel_id r, ir_message_id = it_message_id r,
       ir_raw_message_id = it_raw_message_id r, ir_published_at = map_option normalize_datetime (it_published_at r),
       ir_title = it_title r, ir_body = it_body r, ir_canonical_url = it_canonical_url r,
       ir_canonical_url_hash = it_canonical_url_hash r, ir_content_hash = it_content_hash r,
       ir_dedupe_state = it_dedupe_state r, ir_created_at = normalize_datetime (it_created_at r),
       ir_updated_at = normalize_datetime (it_updated_at r) \<rparr>"

lemma decode_item_ok [simp]: "decode_item_row (item_columns r) = Inr (item_record_of r)"
  by (simp add: decode_item_row_def item_columns_def row_get_def item_int_def item_opt_str_def item_datetime_def
      item_record_of_def coerce_opt_obj [where h = "\<lambda>x. x"] coerce_opt_obj [where h = normalize_datetime] option.map_ident)

lemma overwrite_item_keeps [simp]:
  "it_id (overwrite_item x d r) = it_id r" "it_channel_id (overwrite_item x d r) = it_channel_id r"
  "it_message_id (overwrite_item x d r) = it_message_id r" "item_holds x (overwrite_item x d r)"
  by (simp_all add: overwrite_item_def item_holds_def)

lemma new_item_row_simps [simp]:
  "it_id (new_item_row c m x d) = sql_next_id (map it_id (items d))" "it_channel_id (new_item_row c m x d) = c"
  "it_message_id (new_item_row c m x d) = m" "item_holds x (new_item_row c m x d)"
  by (simp_all add: new_item_row_def item_holds_def)

lemma new_raw_row_simps [simp]:
  "raw_id (new_raw_row c m t d) = sql_next_id (map raw_id (raw_messages d))" "raw_channel_id (new_raw_row c m t d) = c"
  "raw_message_id (new_raw_row c m t d) = m" "raw_payload_json (new_raw_row c m t d) = t"
  by (simp_all add: new_raw_row_def)

definition raw_written :: "int \<Rightarrow> int \<Rightarrow> pyobj \<Rightarrow> db \<Rightarrow> raw_message_row \<times> raw_message_row list" where
  "raw_written c m v d =
     upsert_by (\<lambda>r. raw_key r = (c, m)) (\<lambda>r. r\<lparr> raw_payload_json := JText v, raw_updated_at := current_timestamp d \<rparr>)
       (new_raw_row c m (JText v) d) (raw_messages d)"

definition item_written :: "int \<Rightarrow> int \<Rightarrow> item_fields \<Rightarrow> db \<Rightarrow> item_row \<times> item_row list" where
  "item_written c m x d =
     upsert_by (\<lambda>r. item_key r = (c, m)) (overwrite_item x d) (new_item_row c m x d) (items d)"

lemma upsert_raw_message_eq:
  "upsert_raw_message c m v d =
     (if \<not> is_json_value v then (Inl RawMessagePayloadEncodeError, d)
      else if c \<notin> channel_ids d then (Inl (IntegrityError ''FOREIGN KEY constraint failed''), d)
      else (let r = fst (raw_written c m v d) in
        (Inr \<lparr> rm_raw_message_id = raw_id r, rm_channel_id = raw_channel_id r, rm_message_id = raw_message_id r,
               rm_payload = v, rm_created_at = normalize_datetime (raw_created_at r),
               rm_updated_at = normalize_datetime (raw_updated_at r) \<rparr>,
         d\<lparr> raw_messages := snd (raw_written c m v d) \<rparr>)))"
proof -
  have enc: "raw_encode_payload_json v = (if is_json_value v then Inr (JText v) else Inl RawMessagePayloadEncodeError)"
    by (simp add: raw_encode_payload_json_def json_dumps_def)
  have "raw_payload_json (fst (raw_written c m v d)) = JText v"
    by (auto simp: raw_written_def upsert_by_def split: option.split)
  moreover have "raw_upsert_statement c m (JText v) d =
      (if c \<in> channel_ids d then (Inr (fst (raw_written c m v d)), d\<lparr> raw_messages := snd (raw_written c m v d) \<rparr>)
       else (Inl (IntegrityError ''FOREIGN KEY constraint failed''), d))"
    unfolding raw_upsert_statement_def raw_written_def by (simp only: split_beta)
  ultimately show ?thesis
    by (simp add: upsert_raw_message_def enc act_simps Let_def)
qed

lemma upsert_item_eq:
  "upsert_item c m x d =
     (if \<not> unique_opt it_raw_message_id (snd (item_written c m x d))
      then (Inl (IntegrityError ''UNIQUE constraint failed: items.raw_message_id''), d)
      else if c \<notin> channel_ids d \<or> \<not> fk_opt it_raw_message_id (snd (item_written c m x d)) (raw_ids d)
      then (Inl (IntegrityError ''FOREIGN KEY constraint failed''), d)
      else (Inr (item_record_of (fst (item_written c m x d))), d\<lparr> items := snd (item_written c m x d) \<rparr>))"
  unfolding upsert_item_def item_upsert_statement_def item_written_def act_simps split_beta by simp

lemma raw_written_lookup:
  "raw_lookup (d\<lparr> raw_messages := snd (raw_written c m v d) \<rparr>) =
     (raw_lookup d)((c, m) \<mapsto> fst (raw_written c m v d))"
  by (rule ext) (simp add: raw_lookup_def raw_written_def upsert_by_lookup [where key = raw_key] del: prod.inject)

lemma item_written_lookup:
  "item_lookup (d\<lparr> items := snd (item_written c m x d) \<rparr>) = (item_lookup d)((c, m) \<mapsto> fst (item_written c m x d))"
  by (rule ext) (simp add: item_lookup_def item_written_def upsert_by_lookup [where key = item_key] del: prod.inject)

lemma raw_written_db_ok:
  assumes "db_ok d" and "c \<in> channel_ids d"
  shows "db_ok (d\<lparr> raw_messages := snd (raw_written c m v d) \<rparr>)"
proof -
  let ?f = "\<lambda>r. r\<lparr> raw_payload_json := JText v, raw_updated_at := current_timestamp d \<rparr>"
  have ids: "pk raw_id (snd (raw_written c m v d))" unfolding raw_written_def
    by (rule upsert_by_keeps_pk) (use assms in \<open>simp_all add: db_ok_defs\<close>)
  have keys: "pk raw_key (snd (raw_written c m v d))" unfolding raw_written_def
    by (rule upsert_by_pk) (use assms in \<open>simp_all add: db_ok_defs\<close>)
  have chan: "fk raw_channel_id (snd (raw_written c m v d)) (channel_ids d)" unfolding raw_written_def
    by (rule upsert_by_fk) (use assms in \<open>simp_all add: db_ok_defs\<close>)
  have more: "raw_ids d \<subseteq> raw_id ` set (snd (raw_written c m v d))" unfolding raw_written_def
    by (rule upsert_by_ids) simp
  have refs: "fk_opt it_raw_message_id (items d) (raw_id ` set (snd (raw_written c m v d)))"
    using assms(1) by (auto simp: db_ok_defs intro: fk_opt_mono [OF _ more])
  show ?thesis using assms ids keys chan refs by (simp add: db_ok_defs)
qed

lemma item_written_db_ok:
  assumes "db_ok d" and "c \<in> channel_ids d" and "unique_opt it_raw_message_id (snd (item_written c m x d))"
    and "fk_opt it_raw_message_id (snd (item_written c m x d)) (raw_ids d)"
  shows "db_ok (d\<lparr> items := snd (item_written c m x d) \<rparr>)"
proof -
  have ids: "pk it_id (snd (item_written c m x d))" unfolding item_written_def
    by (rule upsert_by_keeps_pk) (use assms(1) in \<open>simp_all add: db_ok_defs\<close>)
  have keys: "pk item_key (snd (item_written c m x d))" unfolding item_written_def
    by (rule upsert_by_pk) (use assms(1) in \<open>simp_all add: db_ok_defs\<close>)
  have chan: "fk it_channel_id (snd (item_written c m x d)) (channel_ids d)" unfolding item_written_def
    by (rule upsert_by_fk) (use assms(1,2) in \<open>simp_all add: db_ok_defs\<close>)
  have more: "item_ids d \<subseteq> it_id ` set (snd (item_written c m x d))" unfolding item_written_def
    by (rule upsert_by_ids) simp
  have refs: "fk_opt cl_representative (clusters d) (it_id ` set (snd (item_written c m x d)))"
    "fk mb_item_id (members d) (it_id ` set (snd (item_written c m x d)))"
    "fk dec_item_id (decisions d) (it_id ` set (snd (item_written c m x d)))"
    "fk_opt dec_candidate_item_id (decisions d) (it_id ` set (snd (item_written c m x d)))"
    using assms(1) by (auto simp: db_ok_defs intro: fk_opt_mono [OF _ more] fk_mono [OF _ more])
  show ?thesis using assms ids keys chan refs by (simp add: db_ok_defs)
qed

lemma store_ok_items: "db_ok (d\<lparr> items := rows \<rparr>) \<Longrightarrow> store_ok d \<Longrightarrow> store_ok (d\<lparr> items := rows \<rparr>)"
  using reps_ok_cong [of "d\<lparr> items := rows \<rparr>" d] by (simp add: store_ok_def)

lemma store_ok_raw: "db_ok (d\<lparr> raw_messages := rows \<rparr>) \<Longrightarrow> store_ok d \<Longrightarrow> store_ok (d\<lparr> raw_messages := rows \<rparr>)"
  using reps_ok_cong [of "d\<lparr> raw_messages := rows \<rparr>" d] by (simp add: store_ok_def)

lemma upsert_raw_message_store_ok [preserves_intros]: "preserves store_ok (upsert_raw_message c m v)"
  by (rule preservesI)
    (auto simp: upsert_raw_message_eq Let_def store_ok_def intro!: store_ok_raw [unfolded store_ok_def] raw_written_db_ok)

lemma upsert_item_store_ok [preserves_intros]: "preserves store_ok (upsert_item c m x)"
  by (rule preservesI)
    (auto simp: upsert_item_eq store_ok_def intro!: store_ok_items [unfolded store_ok_def] item_written_db_ok)

lemma item_written_facts:
  "item_holds x (fst (item_written c m x d))"
  "item_lookup d (c, m) = Some r \<Longrightarrow> fst (item_written c m x d) = overwrite_item x d r"
  "item_lookup d (c, m) = None \<Longrightarrow> fst (item_written c m x d) = new_item_row c m x d"
  by (auto simp: item_written_def upsert_by_def item_lookup_def split: option.split)

lemma raw_written_facts:
  "raw_holds v (fst (raw_written c m v d))"
  "raw_lookup d (c, m) = Some r \<Longrightarrow> raw_id (fst (raw_written c m v d)) = raw_id r"
  by (auto simp: raw_written_def upsert_by_def raw_lookup_def raw_holds_def split: option.split)

interpretation raws: keyed_upsert db_ok raw_lookup raw_id raw_holds "\<lambda>k. upsert_raw_message (fst k) (snd k)"
proof unfold_locales
  fix s s' :: db and k :: "int \<times> int" and v e
  assume ok: "db_ok s"
  show "s' = s" if "upsert_raw_message (fst k) (snd k) v s = (Inl e, s')"
    using that by (auto simp: upsert_raw_message_eq Let_def split: if_splits)
  fix a
  assume w: "upsert_raw_message (fst k) (snd k) v s = (Inr a, s')"
  then have s': "s' = s\<lparr> raw_messages := snd (raw_written (fst k) (snd k) v s) \<rparr>" "fst k \<in> channel_ids s"
    by (auto simp: upsert_raw_message_eq Let_def split: if_splits)
  have look: "raw_lookup s' = (raw_lookup s)(k \<mapsto> fst (raw_written (fst k) (snd k) v s))"
    unfolding s'(1) by (simp add: raw_written_lookup)
  show "db_ok s'" using ok s' by (simp add: raw_written_db_ok)
  show "\<exists>r. raw_lookup s' k = Some r \<and> raw_holds v r" by (simp add: look raw_written_facts(1))
  show "raw_id r = raw_id r0" if "raw_lookup s k = Some r0" "raw_lookup s' k = Some r" for r r0
    using that raw_written_facts(2) [of s "fst k" "snd k" r0 v] by (simp add: look)
  show "raw_lookup s' k' = raw_lookup s k'" if "k' \<noteq> k" for k' using that by (simp add: look)
qed

interpretation its: keyed_upsert db_ok item_lookup it_id item_holds "\<lambda>k. upsert_item (fst k) (snd k)"
proof unfold_locales
  fix s s' :: db and k :: "int \<times> int" and v e
  assume ok: "db_ok s"
  show "s' = s" if "upsert_item (fst k) (snd k) v s = (Inl e, s')"
    using that by (auto simp: upsert_item_eq split: if_splits)
  fix a
  assume w: "upsert_item (fst k) (snd k) v s = (Inr a, s')"
  then have s': "s' = s\<lparr> items := snd (item_written (fst k) (snd k) v s) \<rparr>"
      "db_ok s'"
    using item_written_db_ok [OF ok] by (auto simp: upsert_item_eq split: if_splits)
  have look: "item_lookup s' = (item_lookup s)(k \<mapsto> fst (item_written (fst k) (snd k) v s))"
    unfolding s'(1) by (simp add: item_written_lookup)
  show "db_ok s'" by (rule s'(2))
  show "\<exists>r. item_lookup s' k = Some r \<and> item_holds v r" by (simp add: look item_written_facts(1))
  show "it_id r = it_id r0" if "item_lookup s k = Some r0" "item_lookup s' k = Some r" for r r0
    using that item_written_facts(2) [of s "fst k" "snd k" r0 v] by (auto simp: look)
  show "item_lookup s' k' = item_lookup s k'" if "k' \<noteq> k" for k' using that by (simp add: look)
qed

section \<open>Properties\<close>

text \<open>
  Storing a normalized item, on every branch. Two items never share a raw message and a raw
  message or channel that does not exist is refused; a refusal changes nothing. Otherwise the call
  answers the stored row. A message seen for the first time gets a new row with a fresh id, state
  \<open>pending\<close> and the given fields; a message seen before keeps its id, its state and a raw message it
  already has, and takes the other fields. No other item changes, and the invariant of the store,
  the clusters and their representatives included, is kept.
\<close>

lemma upsert_item_outcome:
  assumes "store_ok d"
  shows "(\<exists>e. upsert_item c m x d = (Inl e, d)) \<and>
      (\<not> unique_opt it_raw_message_id (snd (item_written c m x d)) \<or> c \<notin> channel_ids d \<or>
       \<not> fk_opt it_raw_message_id (snd (item_written c m x d)) (raw_ids d)) \<or>
    (\<exists>r d'. upsert_item c m x d = (Inr (item_record_of r), d') \<and> store_ok d' \<and> c \<in> channel_ids d \<and>
      item_lookup d' = (item_lookup d)((c, m) \<mapsto> r) \<and>
      r = (case item_lookup d (c, m) of
             None \<Rightarrow> new_item_row c m x d
           | Some old \<Rightarrow> overwrite_item x d old) \<and>
      (item_lookup d (c, m) = None \<longrightarrow> it_id r \<notin> item_ids d) \<and>
      item_ids d \<subseteq> item_ids d' \<and> d' = d\<lparr> items := items d' \<rparr>)"
proof (cases "unique_opt it_raw_message_id (snd (item_written c m x d)) \<and> c \<in> channel_ids d \<and>
    fk_opt it_raw_message_id (snd (item_written c m x d)) (raw_ids d)")
  case False
  then show ?thesis by (auto simp: upsert_item_eq)
next
  case True
  let ?d = "d\<lparr> items := snd (item_written c m x d) \<rparr>" and ?r = "fst (item_written c m x d)"
  have run: "upsert_item c m x d = (Inr (item_record_of ?r), ?d)" using True by (simp add: upsert_item_eq)
  moreover have "store_ok ?d" using preservesD [OF upsert_item_store_ok assms, of c m x] by (simp add: run)
  moreover have "?r = (case item_lookup d (c, m) of None \<Rightarrow> new_item_row c m x d | Some old \<Rightarrow> overwrite_item x d old)"
    by (simp add: item_written_facts split: option.split)
  moreover have "item_ids d \<subseteq> item_ids ?d"
    using upsert_by_ids [of it_id "overwrite_item x d" "items d"] by (simp add: item_written_def)
  ultimately show ?thesis
    using True item_written_lookup [where d = d and c = c and m = m and x = x] item_written_facts(3) [where d = d and c = c and m = m and x = x]
    by (intro disjI2 exI [of _ ?r] exI [of _ ?d]) simp
qed

definition sample_fields :: item_fields where
  "sample_fields =
     \<lparr> if_raw_message_id = None, if_published_at = None, if_title = Some ''new'', if_body = None,
       if_canonical_url = None, if_canonical_url_hash = None, if_content_hash = None \<rparr>"

lemma upsert_item_outcome_witness:
  "\<exists>d'. upsert_item 1 2 sample_fields sample_db =
      (Inr (item_record_of (overwrite_item sample_fields sample_db (sample_item 2 None))), d') \<and>
    store_ok d' \<and> item_lookup d' (1, 3) = item_lookup sample_db (1, 3)"
proof -
  have "item_lookup sample_db (1, 2) = Some (sample_item 2 None)" by code_simp
  moreover have "unique_opt it_raw_message_id (snd (item_written 1 2 sample_fields sample_db))"
    "1 \<in> channel_ids sample_db" "fk_opt it_raw_message_id (snd (item_written 1 2 sample_fields sample_db)) (raw_ids sample_db)"
    by code_simp+
  ultimately show ?thesis using upsert_item_outcome [OF sample_db_ok, of 1 2 sample_fields] by auto
qed

text \<open>
  C18. However often a channel is polled again, in whatever order and with whatever failures, the
  id of an item that is stored never changes, so its cluster memberships and decisions keep
  referring to it.
\<close>

theorem item_ids_are_stable:
  assumes "db_ok d" and "item_lookup d k = Some r"
  shows "\<exists>r'. item_lookup (fold (\<lambda>(k, x) d. snd (upsert_item (fst k) (snd k) x d)) writes d) k = Some r' \<and>
    it_id r' = it_id r"
  using its.idents_are_stable [OF assms(1), of writes] assms(2) unfolding its.write_all_def by blast

theorem item_ids_are_stable_witness:
  "\<exists>r'. item_lookup (fold (\<lambda>(k, x) d. snd (upsert_item (fst k) (snd k) x d))
      [((1, 2), sample_fields), ((1, 9), sample_fields), ((7, 2), sample_fields)] sample_db) (1, 2) = Some r' \<and> it_id r' = 2"
proof -
  have "item_lookup sample_db (1, 2) = Some (sample_item 2 None)" "db_ok sample_db" "it_id (sample_item 2 None) = 2" by code_simp+
  then show ?thesis
    using item_ids_are_stable [of sample_db "(1, 2)" "sample_item 2 None"
        "[((1, 2), sample_fields), ((1, 9), sample_fields), ((7, 2), sample_fields)]"] by simp
qed

end
