(* ===== verification/Channel_Routes.thy ===== *)
theory Channel_Routes
  imports Scheduler
begin

text \<open>
  \<open>tca/api/routes/channels.py\<close> and \<open>tca/api/routes/jobs.py\<close>: the handlers over the channels, the
  channel states and the poll jobs. A handler runs as one job of the writer queue, so it is one
  computation here; each repository call inside it commits on its own. Request bodies have been
  validated by the framework: a field of a patch is \<open>None\<close> when it was not sent and \<open>Some None\<close> when
  it was sent as null.
\<close>

section \<open>The handlers\<close>

record channel_patch =
  cp_name :: "string option option"
  cp_username :: "string option option"
  cp_is_enabled :: "bool option option"
  cp_paused_until :: "datetime option option"
  cp_last_success_at :: "datetime option option"

record channel_response =
  rs_id :: int
  rs_account_id :: int
  rs_telegram_channel_id :: int
  rs_name :: string
  rs_username :: "string option"
  rs_is_enabled :: bool
  rs_paused_until :: "datetime option"
  rs_last_success_at :: "datetime option"

definition to_channel_response :: "channel_record \<Rightarrow> channel_state_record option \<Rightarrow> channel_response" where
  "to_channel_response channel state =
     \<lparr> rs_id = cr_id channel, rs_account_id = cr_account_id channel,
       rs_telegram_channel_id = cr_telegram_channel_id channel, rs_name = cr_name channel,
       rs_username = cr_username channel, rs_is_enabled = cr_is_enabled channel,
       rs_paused_until = Option.bind state sd_paused_until,
       rs_last_success_at = Option.bind state sd_last_success_at \<rparr>"

definition list_channels :: "db \<Rightarrow> channel_response list res" where
  "list_channels d =
     res_bind (list_active_channels None d) (\<lambda>channels'.
     res_bind (list_states_by_channel_ids (map cr_id channels') d) (\<lambda>states.
       Inr (map (\<lambda>c. to_channel_response c (map_of states (cr_id c))) channels')))"

definition route_create_channel ::
  "int \<Rightarrow> int \<Rightarrow> string \<Rightarrow> string option \<Rightarrow> (db, channel_response) act" where
  "route_create_channel account_id telegram_channel_id name username =
     act_bind (create_channel account_id telegram_channel_id name username) (\<lambda>created.
       act_return (to_channel_response created None))"

definition patch_state :: "int \<Rightarrow> channel_patch \<Rightarrow> (db, channel_state_record option) act" where
  "patch_state channel_id payload =
     (if cp_paused_until payload \<noteq> None \<or> cp_last_success_at payload \<noteq> None
      then
        act_bind (act_read (channel_get_state channel_id)) (\<lambda>current_state.
          let paused = (case cp_paused_until payload of
                Some p \<Rightarrow> p | None \<Rightarrow> Option.bind current_state sd_paused_until);
              success = (case cp_last_success_at payload of
                Some l \<Rightarrow> l | None \<Rightarrow> Option.bind current_state sd_last_success_at) in
          act_bind (upsert_state channel_id paused success) (\<lambda>s. act_return (Some s)))
      else act_read (channel_get_state channel_id))"

definition patch_channel :: "int \<Rightarrow> channel_patch \<Rightarrow> (db, channel_response) act" where
  "patch_channel channel_id payload =
     act_bind (act_read (get_channel_by_id channel_id)) (\<lambda>found.
       case found of
         None \<Rightarrow> act_raise channel_not_found
       | Some current \<Rightarrow>
          if cp_name payload = Some None then act_raise (HTTP400 ''Field `name` cannot be null.'') else
          let updated_name = (case cp_name payload of Some (Some n) \<Rightarrow> n | _ \<Rightarrow> cr_name current);
              updated_username = (case cp_username payload of Some u \<Rightarrow> u | None \<Rightarrow> cr_username current);
              updated_is_enabled =
                (case cp_is_enabled payload of Some e \<Rightarrow> e | None \<Rightarrow> Some (cr_is_enabled current)) in
          (case updated_is_enabled of
             None \<Rightarrow> act_raise (HTTP400 ''Field `is_enabled` cannot be null.'')
           | Some enabled \<Rightarrow>
              act_bind (update_channel channel_id updated_name updated_username enabled) (\<lambda>updated.
                case updated of
                  None \<Rightarrow> act_raise channel_not_found
                | Some u \<Rightarrow>
                   act_bind (patch_state channel_id payload) (\<lambda>updated_state.
                     act_return (to_channel_response u updated_state)))))"

definition delete_channel :: "int \<Rightarrow> bool \<Rightarrow> (db, channel_response) act" where
  "delete_channel channel_id purge =
     (if purge
      then
        act_bind (purge_channel channel_id) (\<lambda>purged.
          case purged of
            None \<Rightarrow> act_raise channel_not_found
          | Some c \<Rightarrow> act_return (to_channel_response c None))
      else
        act_bind (disable_channel channel_id) (\<lambda>disabled.
          case disabled of
            None \<Rightarrow> act_raise channel_not_found
          | Some c \<Rightarrow>
             act_bind (act_read (channel_get_state channel_id)) (\<lambda>state.
               act_return (to_channel_response c state))))"

text \<open>\<open>now\<close> is \<open>datetime.now(UTC)\<close> and \<open>correlation_id\<close> the text of a new UUID.\<close>

definition poll_now :: "int \<Rightarrow> datetime \<Rightarrow> string \<Rightarrow> (db, int \<times> string) act" where
  "poll_now channel_id now correlation_id =
     act_bind (act_read (get_channel_by_id channel_id)) (\<lambda>found.
       case found of
         None \<Rightarrow> act_raise channel_not_found
       | Some channel \<Rightarrow>
          if \<not> cr_is_enabled channel then act_raise (HTTP409 ''Channel is disabled.'') else
          act_bind (act_read (channel_get_state channel_id)) (\<lambda>state.
            case Option.bind state sd_paused_until of
              Some u \<Rightarrow>
                if instant u > instant now then act_raise (HTTP409 ''Channel is paused.'')
                else act_bind (enqueue_poll_job channel_id correlation_id) (\<lambda>job.
                  act_return (jb_channel_id job, jb_correlation_id job))
            | None \<Rightarrow>
                act_bind (enqueue_poll_job channel_id correlation_id) (\<lambda>job.
                  act_return (jb_channel_id job, jb_correlation_id job))))"

section \<open>The repository calls inside the handlers\<close>

definition keeps_channel_keys :: "(channel_row \<Rightarrow> channel_row) \<Rightarrow> bool" where
  "keeps_channel_keys f \<longleftrightarrow> (\<forall>r. ch_id (f r) = ch_id r \<and> ch_account_id (f r) = ch_account_id r \<and>
     ch_telegram_channel_id (f r) = ch_telegram_channel_id r)"

lemma channels_update_ok:
  assumes "db_ok d" and "keeps_channel_keys f"
  shows "db_ok (d\<lparr> channels := update_where p f (channels d) \<rparr>)"
    and "channel_ids (d\<lparr> channels := update_where p f (channels d) \<rparr>) = channel_ids d"
proof -
  have keep: "\<And>r. ch_id (f r) = ch_id r" "\<And>r. ch_account_id (f r) = ch_account_id r"
      "\<And>r. ch_telegram_channel_id (f r) = ch_telegram_channel_id r"
    using assms(2) by (simp_all add: keeps_channel_keys_def)
  show ids: "channel_ids (d\<lparr> channels := update_where p f (channels d) \<rparr>) = channel_ids d"
    using arg_cong [OF map_update_where [where g = ch_id and f = f and p = p and rows = "channels d"], of set] keep(1)
    by simp
  then show "db_ok (d\<lparr> channels := update_where p f (channels d) \<rparr>)"
    using assms(1) keep by (simp add: db_ok_defs table_simps)
qed

lemma update_channel_row_eq:
  assumes "db_ok d" and "keeps_channel_keys (f d)"
  shows "update_channel_row c f d =
    (Inr (map_option (\<lambda>r. channel_record_of (f d r)) (find (\<lambda>r. ch_id r = c) (channels d))),
     d\<lparr> channels := update_where (\<lambda>r. ch_id r = c) (f d) (channels d) \<rparr>)"
proof -
  have keep: "ch_id (f d r) = ch_id r" for r using assms(2) by (simp add: keeps_channel_keys_def)
  have "pk ch_id (update_where (\<lambda>r. ch_id r = c) (f d) (channels d))"
    using channels_update_ok(1) [OF assms, of "\<lambda>r. ch_id r = c"] by (simp add: db_ok_defs)
  then show ?thesis
    using keep
    by (simp add: update_channel_row_def act_simps one_or_none_key pk_def find_update_key Let_def
        option.map_comp comp_def)
qed

lemma states_ok_channels:
  assumes "states_ok d" and "keeps_channel_keys f"
  shows "states_ok (d\<lparr> channels := update_where p f (channels d) \<rparr>)"
  using assms channels_update_ok(1) [of d f p] by (simp add: states_ok_def)

lemma state_view_channels [simp]: "state_view (d\<lparr> channels := cs \<rparr>) = state_view d"
  by (simp add: state_view_def fun_eq_iff)

section \<open>Properties\<close>

text \<open>What a patch asks for: the columns of the channel and of its state.\<close>

definition patched_row :: "channel_patch \<Rightarrow> datetime \<Rightarrow> channel_row \<Rightarrow> channel_row" where
  "patched_row p now r =
     r\<lparr> ch_name := (case cp_name p of Some (Some n) \<Rightarrow> n | _ \<Rightarrow> ch_name r),
        ch_username := (case cp_username p of Some u \<Rightarrow> u | None \<Rightarrow> ch_username r),
        ch_is_enabled := (case cp_is_enabled p of Some (Some e) \<Rightarrow> e | _ \<Rightarrow> ch_is_enabled r),
        ch_updated_at := now \<rparr>"

definition patched_state :: "channel_patch \<Rightarrow> channel_state_record \<Rightarrow> channel_state_record" where
  "patched_state p s =
     s\<lparr> sd_paused_until := (case cp_paused_until p of
          Some u \<Rightarrow> map_option normalize_datetime u | None \<Rightarrow> sd_paused_until s),
        sd_last_success_at := (case cp_last_success_at p of
          Some u \<Rightarrow> map_option normalize_datetime u | None \<Rightarrow> sd_last_success_at s) \<rparr>"

definition touches_state :: "channel_patch \<Rightarrow> bool" where
  "touches_state p \<longleftrightarrow> cp_paused_until p \<noteq> None \<or> cp_last_success_at p \<noteq> None"

lemma state_of_row_normalized [simp]:
  "map_option normalize_datetime (sd_paused_until (view_or_blank d c)) = sd_paused_until (view_or_blank d c)"
  "map_option normalize_datetime (sd_last_success_at (view_or_blank d c)) = sd_last_success_at (view_or_blank d c)"
  by (simp_all add: view_or_blank_def state_view_def blank_state_def state_of_row_def option.map_comp
      comp_def split: option.split)

lemma view_or_blank_bind:
  "Option.bind (state_view d c) sd_paused_until = sd_paused_until (view_or_blank d c)"
  "Option.bind (state_view d c) sd_last_success_at = sd_last_success_at (view_or_blank d c)"
  by (simp_all add: view_or_blank_def blank_state_def split: option.split)

lemma patch_state_eq:
  assumes "states_ok d" and "c \<in> channel_ids d"
  shows "\<exists>d'. patch_state c p d = (Inr (state_view d' c), d') \<and> states_ok d' \<and>
      state_view d' = (if touches_state p then (state_view d)(c \<mapsto> patched_state p (view_or_blank d c)) else state_view d) \<and>
      d' = d\<lparr> channel_states := channel_states d' \<rparr>"
proof (cases "touches_state p")
  case False
  then show ?thesis
    using assms by (auto simp: touches_state_def patch_state_def act_simps channel_get_state_view)
next
  case True
  let ?pu = "case cp_paused_until p of Some x \<Rightarrow> x | None \<Rightarrow> sd_paused_until (view_or_blank d c)"
  let ?ls = "case cp_last_success_at p of Some x \<Rightarrow> x | None \<Rightarrow> sd_last_success_at (view_or_blank d c)"
  obtain d' where up: "upsert_state c ?pu ?ls d = (Inr ((view_or_blank d c)\<lparr> sd_paused_until := map_option normalize_datetime ?pu,
        sd_last_success_at := map_option normalize_datetime ?ls \<rparr>), d')" "states_ok d'"
      "state_view d' = (state_view d)(c \<mapsto> (view_or_blank d c)\<lparr> sd_paused_until := map_option normalize_datetime ?pu,
        sd_last_success_at := map_option normalize_datetime ?ls \<rparr>)"
      "d' = d\<lparr> channel_states := channel_states d' \<rparr>"
    using upsert_state_known [OF assms, of ?pu ?ls] by blast
  have same: "(view_or_blank d c)\<lparr> sd_paused_until := map_option normalize_datetime ?pu,
        sd_last_success_at := map_option normalize_datetime ?ls \<rparr> = patched_state p (view_or_blank d c)"
    by (simp add: patched_state_def split: option.split)
  have "patch_state c p d = (Inr (state_view d' c), d')"
    using True up assms(1) unfolding patch_state_def touches_state_def
    by (simp add: act_simps channel_get_state_view view_or_blank_bind Let_def cong: option.case_cong)
  then show ?thesis using up(2-4) True unfolding same by auto
qed

text \<open>
  Patching a channel: an unknown id answers 404 and a null name or enabled flag answers 400, all
  without a change. Otherwise the call returns; the row has exactly the fields sent replaced, the
  polling state is written exactly when one of its two fields was sent and then keeps the cursor and
  the field not sent, no other channel and no other table changes, and the answer shows the new row
  and the new state.
\<close>

lemma patch_channel_outcome:
  assumes "states_ok d"
  shows "case find (\<lambda>r. ch_id r = c) (channels d) of
      None \<Rightarrow> patch_channel c p d = (Inl channel_not_found, d)
    | Some row \<Rightarrow>
        if cp_name p = Some None then patch_channel c p d = (Inl (HTTP400 ''Field `name` cannot be null.''), d)
        else if cp_is_enabled p = Some None
        then patch_channel c p d = (Inl (HTTP400 ''Field `is_enabled` cannot be null.''), d)
        else \<exists>d'. patch_channel c p d =
            (Inr (to_channel_response (channel_record_of (patched_row p (current_timestamp d) row)) (state_view d' c)), d') \<and>
          states_ok d' \<and>
          channels d' = update_where (\<lambda>r. ch_id r = c) (\<lambda>_. patched_row p (current_timestamp d) row) (channels d) \<and>
          state_view d' = (if touches_state p then (state_view d)(c \<mapsto> patched_state p (view_or_blank d c)) else state_view d) \<and>
          d' = d\<lparr> channels := channels d', channel_states := channel_states d' \<rparr>"
proof -
  have ok: "db_ok d" using assms by (simp add: states_ok_def)
  show ?thesis
  proof (cases "find (\<lambda>r. ch_id r = c) (channels d)")
    case None
    then show ?thesis by (simp add: patch_channel_def act_simps get_channel_by_id_eq [OF ok])
  next
    case (Some row)
    have c: "c \<in> channel_ids d" using find_key_Some [OF Some] by auto
    let ?row = "patched_row p (current_timestamp d) row"
    let ?d1 = "d\<lparr> channels := update_where (\<lambda>r. ch_id r = c) (\<lambda>_. ?row) (channels d) \<rparr>"
    show ?thesis
    proof (cases "cp_name p = Some None \<or> cp_is_enabled p = Some None")
      case True
      with Some show ?thesis by (auto simp: patch_channel_def act_simps get_channel_by_id_eq [OF ok] Let_def)
    next
      case False
      let ?f = "\<lambda>d r. r\<lparr> ch_name := ch_name ?row, ch_username := ch_username ?row,
          ch_is_enabled := ch_is_enabled ?row, ch_updated_at := current_timestamp d \<rparr>"
      have keys: "keeps_channel_keys (?f d)" by (simp add: keeps_channel_keys_def)
      have only: "update_where (\<lambda>r. ch_id r = c) (?f d) (channels d) = update_where (\<lambda>r. ch_id r = c) (\<lambda>_. ?row) (channels d)"
      proof -
        have "r = row" if "r \<in> set (channels d)" "ch_id r = c" for r
          using that Some ok find_key_in [of ch_id "channels d" r] by (auto simp: db_ok_defs pk_def)
        then show ?thesis by (auto simp: update_where_def patched_row_def)
      qed
      have "update_channel c (ch_name ?row) (ch_username ?row) (ch_is_enabled ?row) d =
          (Inr (Some (channel_record_of ?row)), ?d1)"
        unfolding update_channel_def update_channel_row_eq [where f = ?f, OF ok keys] only by (simp add: Some patched_row_def)
      moreover have "states_ok ?d1" "c \<in> channel_ids ?d1"
        using states_ok_channels [OF assms keys, of "\<lambda>r. ch_id r = c"] c
          channels_update_ok(2) [OF ok keys, of "\<lambda>r. ch_id r = c"] unfolding only by auto
      moreover from patch_state_eq [OF this, of p] obtain d' where
        d': "patch_state c p ?d1 = (Inr (state_view d' c), d')" "states_ok d'"
          "state_view d' = (if touches_state p then (state_view d)(c \<mapsto> patched_state p (view_or_blank d c)) else state_view d)"
          "d' = ?d1\<lparr> channel_states := channel_states d' \<rparr>"
        by (auto simp: view_or_blank_def)
      moreover have "patch_channel c p d = (Inr (to_channel_response (channel_record_of ?row) (state_view d' c)), d')"
        using False Some calculation(1) d'(1)
        by (auto simp: patch_channel_def act_simps get_channel_by_id_eq [OF ok] Let_def patched_row_def
            channel_record_of_def split: option.splits)
      moreover have "channels d' = channels ?d1" by (subst d'(4)) simp
      ultimately show ?thesis using False Some by (auto intro!: exI [of _ d'])
    qed
  qed
qed

definition sample_patch :: channel_patch where
  "sample_patch =
     \<lparr> cp_name = Some (Some ''new''), cp_username = None, cp_is_enabled = None,
       cp_paused_until = Some (Some (DT 5 None)), cp_last_success_at = None \<rparr>"

lemma patch_channel_outcome_witness:
  "\<exists>r d'. patch_channel 1 sample_patch sample_db = (Inr r, d') \<and> rs_name r = ''new'' \<and>
     rs_paused_until r = Some (DT 5 (Some 0)) \<and> state_view d' 2 = state_view sample_db 2"
proof -
  have row: "find (\<lambda>r. ch_id r = 1) (channels sample_db) = Some (sample_channel 1)" by code_simp
  have set: "cp_name sample_patch \<noteq> Some None" "cp_is_enabled sample_patch \<noteq> Some None" "touches_state sample_patch"
      "sd_paused_until (patched_state sample_patch (view_or_blank sample_db 1)) = Some (DT 5 (Some 0))"
      "ch_name (patched_row sample_patch t (sample_channel 1)) = ''new''" for t
    by (simp_all add: sample_patch_def touches_state_def patched_state_def patched_row_def)
  from patch_channel_outcome [OF sample_states_ok, of 1 sample_patch] row set show ?thesis
    by (auto simp: to_channel_response_def channel_record_of_def)
qed

lemma enqueue_poll_job_new:
  assumes "k \<notin> pj_correlation_id ` set (poll_jobs d)" and "c \<in> channel_ids d"
  shows "\<exists>row. enqueue_poll_job c k d = (Inr (job_record_of row), d\<lparr> poll_jobs := poll_jobs d @ [row] \<rparr>) \<and>
    pj_channel_id row = c \<and> pj_correlation_id row = k"
  using assms by (force simp: enqueue_poll_job_def act_simps Let_def)

text \<open>
  A manual poll: an unknown channel answers 404, a disabled one 409, and one that is paused by
  the scheduler's own test answers 409, all without a change. Otherwise exactly one job is added, for that channel
  and under the correlation id the answer carries.
\<close>

lemma poll_now_cases:
  assumes "states_ok d" and "k \<notin> pj_correlation_id ` set (poll_jobs d)"
  shows "case find (\<lambda>r. ch_id r = c) (channels d) of
      None \<Rightarrow> poll_now c now k d = (Inl channel_not_found, d)
    | Some row \<Rightarrow>
        if \<not> ch_is_enabled row then poll_now c now k d = (Inl (HTTP409 ''Channel is disabled.''), d)
        else if is_paused (Option.bind (state_view d c) sd_paused_until) now
        then poll_now c now k d = (Inl (HTTP409 ''Channel is paused.''), d)
        else \<exists>job. poll_now c now k d = (Inr (c, k), d\<lparr> poll_jobs := poll_jobs d @ [job] \<rparr>) \<and>
          pj_channel_id job = c \<and> pj_correlation_id job = k"
proof (cases "find (\<lambda>r. ch_id r = c) (channels d)")
  case None
  then show ?thesis using assms(1) by (simp add: poll_now_def act_simps get_channel_by_id_eq states_ok_def)
next
  case (Some row)
  have c: "c \<in> channel_ids d" using find_key_Some [OF Some] by auto
  from enqueue_poll_job_new [OF assms(2) c] obtain job where
    job: "enqueue_poll_job c k d = (Inr (job_record_of job), d\<lparr> poll_jobs := poll_jobs d @ [job] \<rparr>)"
      "pj_channel_id job = c" "pj_correlation_id job = k" by blast
  have db: "db_ok d" using assms(1) by (simp add: states_ok_def)
  show ?thesis
    using Some job
    by (auto simp: poll_now_def act_simps get_channel_by_id_eq [OF db] channel_get_state_view [OF assms(1)]
        is_paused_def channel_record_of_def job_record_of_def split: option.split)
qed

text \<open>
  The manual poll does not look at the account: with its account paused a channel is not offered to
  the scheduler, yet a manual poll of it is accepted.
\<close>

lemma poll_now_ignores_account_pause:
  "let d = sample_db\<lparr> accounts := [(sample_account 1)\<lparr> acc_paused_at := Some sample_time \<rparr>] \<rparr> in
     store_ok d \<and> list_schedulable_channels d = Inr [] \<and>
     fst (poll_now 1 sample_time ''k'' d) = Inr (1, ''k'')"
  by code_simp

text \<open>A soft delete disables the row and keeps every other table; a purge is the repository's.\<close>

lemma delete_channel_outcome:
  assumes "states_ok d"
  shows "delete_channel c False d =
    (case find (\<lambda>r. ch_id r = c) (channels d) of
       None \<Rightarrow> (Inl channel_not_found, d)
     | Some row \<Rightarrow>
         (Inr (to_channel_response (channel_record_of (row\<lparr> ch_is_enabled := False \<rparr>)) (state_view d c)),
          d\<lparr> channels := update_where (\<lambda>r. ch_id r = c)
               (\<lambda>r. r\<lparr> ch_is_enabled := False, ch_updated_at := current_timestamp d \<rparr>) (channels d) \<rparr>))"
proof -
  let ?f = "\<lambda>d r. r\<lparr> ch_is_enabled := False, ch_updated_at := current_timestamp d \<rparr>"
  let ?d = "d\<lparr> channels := update_where (\<lambda>r. ch_id r = c) (?f d) (channels d) \<rparr>"
  have keys: "keeps_channel_keys (?f d)" by (simp add: keeps_channel_keys_def)
  have db: "db_ok d" using assms by (simp add: states_ok_def)
  have "states_ok ?d" using states_ok_channels [OF assms keys] by simp
  then have read: "channel_get_state c ?d = Inr (state_view d c)" using channel_get_state_view by simp
  have same: "?d = d" if none: "find (\<lambda>r. ch_id r = c) (channels d) = None"
  proof -
    have "update_where (\<lambda>r. ch_id r = c) (?f d) (channels d) = channels d"
      using none unfolding update_where_def find_key_None by (intro map_idI) auto
    then show ?thesis by simp
  qed
  have "disable_channel c d = (Inr (map_option (\<lambda>r. channel_record_of (?f d r)) (find (\<lambda>r. ch_id r = c) (channels d))), ?d)"
    unfolding disable_channel_def set_enabled_state_def by (rule update_channel_row_eq [where f = ?f, OF db keys])
  then show ?thesis
    using read same by (auto simp: delete_channel_def act_simps channel_record_of_def split: option.split)
qed

end
