(* ===== verification/Strategy.thy ===== *)
theory Strategy
  imports Python
begin

text \<open>
  \<open>tca/dedupe/strategy_contract.py\<close>, \<open>strategy_chain.py\<close>, \<open>exact_url_strategy.py\<close> and
  \<open>semantic_similarity_strategy.py\<close>. A strategy is a computation whose result is an arbitrary
  Python object; \<open>coerce_strategy_result\<close> turns it into a typed result or raises, and the chain
  stops at the first result that is not an abstention. The locale \<open>strategy_contract\<close> is what the
  chain asks of a strategy; it is interpreted on the exact-URL strategy.
\<close>

section \<open>Results\<close>

type_synonym strategy_metadata = "(string \<times> pyobj) list"

datatype strategy_result =
    Duplicate (score: pyfloat) (reason: string) (metadata: "strategy_metadata option")
  | Distinct (reason: string) (metadata: "strategy_metadata option")
  | Abstain (reason: string) (metadata: "strategy_metadata option")

fun status :: "strategy_result \<Rightarrow> string" where
  "status (Duplicate s r m) = ''DUPLICATE''"
| "status (Distinct r m) = ''DISTINCT''"
| "status (Abstain r m) = ''ABSTAIN''"

fun is_abstain :: "strategy_result \<Rightarrow> bool" where
  "is_abstain (Abstain r m) = True"
| "is_abstain _ = False"

abbreviation StrategyContractError :: "string \<Rightarrow> exn" where
  "StrategyContractError \<equiv> Exn ''StrategyContractError''"

definition STRATEGY_STATUSES :: "string list" where
  "STRATEGY_STATUSES = [''DUPLICATE'', ''DISTINCT'', ''ABSTAIN'']"

text \<open>\<open>float(n)\<close> of an integer raises beyond the range of a double.\<close>

definition float_of_int :: "int \<Rightarrow> pyfloat res" where
  "float_of_int n =
     (if \<bar>n\<bar> < 2 ^ 1024 - 2 ^ 970 then Inr (Finite (of_int n))
      else Inl (Exn ''OverflowError'' ''int too large to convert to float''))"

definition coerce_score :: "(pyobj \<times> pyobj) list \<Rightarrow> pyfloat res" where
  "coerce_score kvs =
     (let finite = (\<lambda>f. if isfinite f then Inr f
            else Inl (StrategyContractError ''DUPLICATE strategy result `score` must be finite.'')) in
      case dict_get kvs ''score'' of
        PInt n \<Rightarrow> res_bind (float_of_int n) finite
      | PFloat f \<Rightarrow> finite f
      | _ \<Rightarrow> Inl (StrategyContractError ''DUPLICATE strategy result `score` must be numeric.''))"

fun metadata_keys :: "(pyobj \<times> pyobj) list \<Rightarrow> strategy_metadata res" where
  "metadata_keys [] = Inr []"
| "metadata_keys ((k, v) # kvs) =
     (case as_str k of
        None \<Rightarrow> Inl (StrategyContractError ''Strategy result `metadata` keys must be strings.'')
      | Some s \<Rightarrow> res_bind (metadata_keys kvs) (\<lambda>rest. Inr ((s, v) # rest)))"

definition coerce_metadata :: "(pyobj \<times> pyobj) list \<Rightarrow> strategy_metadata option res" where
  "coerce_metadata kvs =
     (case dict_get kvs ''metadata'' of
        PNone \<Rightarrow> Inr None
      | PDict entries \<Rightarrow> res_bind (metadata_keys entries) (\<lambda>m. Inr (Some m))
      | _ \<Rightarrow> Inl (StrategyContractError
               ''Strategy result `metadata` must be a mapping when provided.''))"

definition coerce_strategy_result :: "pyobj \<Rightarrow> strategy_result res" where
  "coerce_strategy_result result =
     (case result of
        PDict kvs \<Rightarrow>
         (case as_str (dict_get kvs ''status'') of
            None \<Rightarrow> Inl (StrategyContractError ''Strategy result `status` must be a string.'')
          | Some st \<Rightarrow>
             if st \<notin> set STRATEGY_STATUSES
             then Inl (StrategyContractError ''Unknown strategy status'')
             else
              (case as_str (dict_get kvs ''reason'') of
                 None \<Rightarrow> Inl (StrategyContractError ''Strategy result `reason` must be a string.'')
               | Some raw_reason \<Rightarrow>
                  let r = py_strip raw_reason in
                  if r = []
                  then Inl (StrategyContractError ''Strategy result `reason` must be non-empty.'')
                  else
                    res_bind (coerce_metadata kvs) (\<lambda>m.
                      if st = ''DUPLICATE''
                      then res_bind (coerce_score kvs) (\<lambda>sc. Inr (Duplicate sc r m))
                      else if st = ''DISTINCT'' then Inr (Distinct r m)
                      else Inr (Abstain r m))))
      | _ \<Rightarrow> Inl (StrategyContractError
               ''Strategy result must be a mapping with `status` and `reason` fields.''))"

text \<open>
  A strategy callable by its outcome: the object it returns or the exception it raises. A
  contract violation is raised again with the strategy's name in front of the message.
\<close>

type_synonym strategy_callable = "pyobj res"

definition run_strategy :: "string \<Rightarrow> strategy_callable \<Rightarrow> strategy_result res" where
  "run_strategy strategy_name strategy =
     res_bind strategy (\<lambda>raw_result.
       case coerce_strategy_result raw_result of
         Inr r \<Rightarrow> Inr r
       | Inl e \<Rightarrow>
          if exn_class e = ''StrategyContractError''
          then Inl (StrategyContractError
                 (''Strategy returned invalid result contract: '' @ exn_message e))
          else Inl e)"

section \<open>The chain\<close>

record decision_attempt =
  at_strategy_name :: string
  at_outcome :: string
  at_reason :: string
  at_score :: "pyfloat option"

definition NO_STRATEGY_MATCH_REASON :: string where
  "NO_STRATEGY_MATCH_REASON = ''no_strategy_match''"

definition attempt_of :: "string \<Rightarrow> strategy_result \<Rightarrow> decision_attempt" where
  "attempt_of name r =
     \<lparr> at_strategy_name = name, at_outcome = status r, at_reason = reason r,
       at_score = (case r of Duplicate s _ _ \<Rightarrow> Some s | _ \<Rightarrow> None) \<rparr>"

fun chain_loop ::
  "(string \<times> strategy_callable) list \<Rightarrow> decision_attempt list \<Rightarrow>
   (strategy_result \<times> decision_attempt list) res" where
  "chain_loop [] attempts = Inr (Distinct NO_STRATEGY_MATCH_REASON None, attempts)"
| "chain_loop ((name, strategy) # rest) attempts =
     res_bind (run_strategy name strategy) (\<lambda>r.
       let attempts' = attempts @ [attempt_of name r] in
       if is_abstain r then chain_loop rest attempts' else Inr (r, attempts'))"

definition execute_strategy_chain_with_trace ::
  "(string \<times> strategy_callable) list \<Rightarrow> (strategy_result \<times> decision_attempt list) res" where
  "execute_strategy_chain_with_trace strategies = chain_loop strategies []"

definition execute_strategy_chain :: "(string \<times> strategy_callable) list \<Rightarrow> strategy_result res" where
  "execute_strategy_chain strategies =
     res_bind (execute_strategy_chain_with_trace strategies) (\<lambda>(r, attempts). Inr r)"

section \<open>The dictionary of a result\<close>

text \<open>The constructors \<open>duplicate\<close>, \<open>distinct\<close> and \<open>abstain\<close> return these dictionaries.\<close>

definition metadata_entry :: "strategy_metadata option \<Rightarrow> (pyobj \<times> pyobj) list" where
  "metadata_entry m =
     (case m of None \<Rightarrow> []
      | Some kvs \<Rightarrow> [(PStr ''metadata'', PDict (map (\<lambda>(k, v). (PStr k, v)) kvs))])"

fun result_dict :: "strategy_result \<Rightarrow> pyobj" where
  "result_dict (Duplicate s r m) =
     PDict ([(PStr ''status'', PStr ''DUPLICATE''), (PStr ''score'', PFloat s),
             (PStr ''reason'', PStr r)] @ metadata_entry m)"
| "result_dict (Distinct r m) =
     PDict ([(PStr ''status'', PStr ''DISTINCT''), (PStr ''reason'', PStr r)] @ metadata_entry m)"
| "result_dict (Abstain r m) =
     PDict ([(PStr ''status'', PStr ''ABSTAIN''), (PStr ''reason'', PStr r)] @ metadata_entry m)"

section \<open>The exact-URL strategy\<close>

record url_view =
  canonical_url :: "string option"
  canonical_url_hash :: "string option"

definition both_given :: "'a option \<Rightarrow> 'a option \<Rightarrow> bool" where
  "both_given l r \<longleftrightarrow> l \<noteq> None \<and> r \<noteq> None"

definition evaluate_exact_url :: "url_view \<Rightarrow> url_view \<Rightarrow> strategy_result" where
  "evaluate_exact_url left right =
     (if both_given (canonical_url_hash left) (canonical_url_hash right)
         \<and> canonical_url_hash left = canonical_url_hash right
      then Duplicate (Finite 1) ''exact_url_match'' None
      else if both_given (canonical_url left) (canonical_url right)
         \<and> canonical_url left = canonical_url right
      then Duplicate (Finite 1) ''exact_url_match'' None
      else if both_given (canonical_url_hash left) (canonical_url_hash right)
         \<or> both_given (canonical_url left) (canonical_url right)
      then Distinct ''exact_url_mismatch'' None
      else Abstain ''exact_url_missing'' None)"

section \<open>The semantic strategy\<close>

text \<open>
  \<open>to_array\<close>, \<open>l2norm\<close>, \<open>scale\<close> and \<open>dot\<close> stand for the NumPy calls. A comparison with a
  not-a-number is false.
\<close>

fun float_ge :: "pyfloat \<Rightarrow> pyfloat \<Rightarrow> bool" where
  "float_ge (Finite a) (Finite b) = (a \<ge> b)"
| "float_ge NotANumber _ = False"
| "float_ge _ NotANumber = False"
| "float_ge PosInf _ = True"
| "float_ge _ NegInf = True"
| "float_ge _ _ = False"

definition float_positive :: "pyfloat \<Rightarrow> bool" where
  "float_positive f = (case f of Finite q \<Rightarrow> q > 0 | PosInf \<Rightarrow> True | _ \<Rightarrow> False)"

definition EXPECTED_BYTE_LENGTH :: nat where
  "EXPECTED_BYTE_LENGTH = 384 * 4"

definition evaluate_semantic_similarity ::
  "(bytes \<Rightarrow> 'v) \<Rightarrow> ('v \<Rightarrow> pyfloat) \<Rightarrow> ('v \<Rightarrow> pyfloat \<Rightarrow> 'v) \<Rightarrow> ('v \<Rightarrow> 'v \<Rightarrow> pyfloat) \<Rightarrow>
   bytes option \<Rightarrow> bytes option \<Rightarrow> pyfloat \<Rightarrow> strategy_result" where
  "evaluate_semantic_similarity to_array l2norm scale dot left right threshold =
     (case (left, right) of
        (Some l, Some r) \<Rightarrow>
          if length l \<noteq> EXPECTED_BYTE_LENGTH \<or> length r \<noteq> EXPECTED_BYTE_LENGTH
          then Abstain ''semantic_similarity_invalid'' (Some [(''threshold'', PFloat threshold)])
          else
            let unit_vector = (\<lambda>v. if float_positive (l2norm v) then scale v (l2norm v) else v);
                sc = dot (unit_vector (to_array l)) (unit_vector (to_array r));
                md = [(''score'', PFloat sc), (''threshold'', PFloat threshold)] in
            if float_ge sc threshold
            then Duplicate sc ''semantic_similarity_match'' (Some md)
            else Distinct ''semantic_similarity_mismatch'' (Some md)
      | _ \<Rightarrow> Abstain ''semantic_similarity_missing'' (Some [(''threshold'', PFloat threshold)]))"

section \<open>Well-formed results\<close>

definition well_formed :: "strategy_result \<Rightarrow> bool" where
  "well_formed r \<longleftrightarrow>
     reason r \<noteq> [] \<and> py_strip (reason r) = reason r \<and>
     (case r of Duplicate s _ _ \<Rightarrow> isfinite s | _ \<Rightarrow> True)"

lemma metadata_keys_PStr: "metadata_keys (map (\<lambda>(k, v). (PStr k, v)) kvs) = Inr kvs"
  by (induction kvs) auto

lemma coerce_metadata_entry:
  assumes "map_of kvs (PStr ''metadata'') = None"
  shows "coerce_metadata (kvs @ metadata_entry m) = Inr m"
  using assms
  by (cases m)
    (auto simp: coerce_metadata_def dict_get_def metadata_entry_def map_add_def metadata_keys_PStr)

lemma coerce_result_dict:
  assumes "well_formed r" shows "coerce_strategy_result (result_dict r) = Inr r"
proof (cases r)
  case (Duplicate s rs m)
  have "coerce_metadata ([(PStr ''status'', PStr ''DUPLICATE''), (PStr ''score'', PFloat s),
      (PStr ''reason'', PStr rs)] @ metadata_entry m) = Inr m"
    by (rule coerce_metadata_entry) simp
  with assms Duplicate show ?thesis
    by (simp add: coerce_strategy_result_def well_formed_def dict_get_def STRATEGY_STATUSES_def
        coerce_score_def Let_def)
next
  case (Distinct rs m)
  have "coerce_metadata ([(PStr ''status'', PStr ''DISTINCT''), (PStr ''reason'', PStr rs)]
      @ metadata_entry m) = Inr m"
    by (rule coerce_metadata_entry) simp
  with assms Distinct show ?thesis
    by (simp add: coerce_strategy_result_def well_formed_def dict_get_def STRATEGY_STATUSES_def Let_def)
next
  case (Abstain rs m)
  have "coerce_metadata ([(PStr ''status'', PStr ''ABSTAIN''), (PStr ''reason'', PStr rs)]
      @ metadata_entry m) = Inr m"
    by (rule coerce_metadata_entry) simp
  with assms Abstain show ?thesis
    by (simp add: coerce_strategy_result_def well_formed_def dict_get_def STRATEGY_STATUSES_def Let_def)
qed

lemma coerce_score_finite: "coerce_score kvs = Inr f \<Longrightarrow> isfinite f"
  by (auto simp: coerce_score_def res_bind_Inr Let_def split: pyobj.splits if_splits)

lemma coerced_well_formed:
  "coerce_strategy_result v = Inr r \<Longrightarrow> well_formed r"
  by (auto simp: coerce_strategy_result_def well_formed_def Let_def res_bind_Inr coerce_score_finite
      split: pyobj.splits option.splits if_splits)

section \<open>What the chain asks of a strategy\<close>

locale strategy_contract =
  fixes evaluate :: "'i \<Rightarrow> 'i \<Rightarrow> strategy_result"
  assumes evaluate_well_formed: "well_formed (evaluate x y)"
    and evaluate_symmetric: "status (evaluate x y) = status (evaluate y x)"
begin

lemma run_accepts: "run_strategy name (Inr (result_dict (evaluate x y))) = Inr (evaluate x y)"
  by (simp add: run_strategy_def coerce_result_dict evaluate_well_formed)

lemma chain_head:
  "chain_loop ((name, Inr (result_dict (evaluate x y))) # rest) attempts =
   (if is_abstain (evaluate x y)
    then chain_loop rest (attempts @ [attempt_of name (evaluate x y)])
    else Inr (evaluate x y, attempts @ [attempt_of name (evaluate x y)]))"
  by (simp add: run_accepts Let_def)

end

lemma evaluate_exact_url_status:
  "status (evaluate_exact_url l r) =
    (if (\<exists>h. canonical_url_hash l = Some h \<and> canonical_url_hash r = Some h) \<or>
        (\<exists>u. canonical_url l = Some u \<and> canonical_url r = Some u)
     then ''DUPLICATE''
     else if both_given (canonical_url_hash l) (canonical_url_hash r) \<or>
        both_given (canonical_url l) (canonical_url r)
     then ''DISTINCT'' else ''ABSTAIN'')"
  by (auto simp: evaluate_exact_url_def both_given_def)

interpretation exact_url: strategy_contract evaluate_exact_url
proof
  fix x y
  have "py_strip ''exact_url_match'' = ''exact_url_match''"
    "py_strip ''exact_url_mismatch'' = ''exact_url_mismatch''"
    "py_strip ''exact_url_missing'' = ''exact_url_missing''"
    by code_simp+
  then show "well_formed (evaluate_exact_url x y)"
    by (simp add: evaluate_exact_url_def well_formed_def)
  show "status (evaluate_exact_url x y) = status (evaluate_exact_url y x)"
    unfolding evaluate_exact_url_status both_given_def by auto
qed

section \<open>Properties\<close>

text \<open>The reference: skip the abstentions, take the first strategy that decides or raises.\<close>

definition abstains :: "string \<times> strategy_callable \<Rightarrow> bool" where
  "abstains s = (case run_strategy (fst s) (snd s) of Inl e \<Rightarrow> False | Inr r \<Rightarrow> is_abstain r)"

definition abstention :: "string \<times> strategy_callable \<Rightarrow> decision_attempt" where
  "abstention s = (case run_strategy (fst s) (snd s) of
      Inr r \<Rightarrow> attempt_of (fst s) r | Inl e \<Rightarrow> attempt_of (fst s) (Abstain [] None))"

definition chain_reference ::
  "(string \<times> strategy_callable) list \<Rightarrow> (strategy_result \<times> decision_attempt list) res" where
  "chain_reference ss =
     (let skipped = map abstention (takeWhile abstains ss) in
      case dropWhile abstains ss of
        [] \<Rightarrow> Inr (Distinct NO_STRATEGY_MATCH_REASON None, skipped)
      | s # _ \<Rightarrow> (case run_strategy (fst s) (snd s) of
          Inl e \<Rightarrow> Inl e
        | Inr r \<Rightarrow> Inr (r, skipped @ [attempt_of (fst s) r])))"

lemma chain_loop_reference:
  "chain_loop ss attempts =
    (case chain_reference ss of Inl e \<Rightarrow> Inl e | Inr (r, later) \<Rightarrow> Inr (r, attempts @ later))"
proof (induction ss arbitrary: attempts)
  case Nil
  then show ?case by (simp add: chain_reference_def)
next
  case (Cons s ss)
  obtain name strategy where s: "s = (name, strategy)" by (cases s)
  show ?case
  proof (cases "run_strategy name strategy")
    case (Inl e)
    then show ?thesis by (simp add: s chain_reference_def abstains_def)
  next
    case (Inr r)
    then have "abstains s = is_abstain r" "abstention s = attempt_of name r"
      by (simp_all add: s abstains_def abstention_def)
    with Inr show ?thesis
      using Cons.IH [of "attempts @ [attempt_of name r]"]
      by (auto simp: s chain_reference_def Let_def simp del: dropWhile_eq_Nil_conv
          split: list.splits sum.splits)
  qed
qed

text \<open>
  C5. The chain computes the reference: the strategies that abstain are skipped in order and
  recorded, the first one that does not abstain gives the result (or its exception) and is the
  last one recorded, and if all abstain the result is DISTINCT with reason
  \<open>no_strategy_match\<close>.
\<close>

theorem execute_strategy_chain_reference:
  "execute_strategy_chain_with_trace ss = chain_reference ss"
  by (simp add: execute_strategy_chain_with_trace_def chain_loop_reference split: sum.split)

text \<open>
  Short circuit: once a strategy has decided, the strategies configured after it cannot
  change the result, the trace or the exceptions raised; and a strategy that abstains before it
  changes the trace only.
\<close>

lemma chain_short_circuit:
  assumes "run_strategy name strategy = Inr r" and "\<not> is_abstain r" and "\<forall>s \<in> set before. abstains s"
  shows "execute_strategy_chain_with_trace (before @ (name, strategy) # after) =
      Inr (r, map abstention before @ [attempt_of name r]) \<and>
    execute_strategy_chain (before @ (name, strategy) # after) = Inr r"
proof -
  have no: "\<not> abstains (name, strategy)" using assms(1,2) by (simp add: abstains_def)
  have "takeWhile abstains (before @ (name, strategy) # after) = before"
    "dropWhile abstains (before @ (name, strategy) # after) = (name, strategy) # after"
    using assms(3) no by (simp_all add: takeWhile_append dropWhile_append)
  then have "chain_reference (before @ (name, strategy) # after) =
      Inr (r, map abstention before @ [attempt_of name r])"
    using assms(1) by (simp add: chain_reference_def)
  then show ?thesis
    by (simp add: execute_strategy_chain_def execute_strategy_chain_with_trace_def chain_loop_reference)
qed

lemma chain_short_circuit_witness:
  "execute_strategy_chain
     [(''a'', Inr (result_dict (Abstain ''x'' None))),
      (''b'', Inr (result_dict (Distinct ''y'' None))),
      (''c'', Inl (TypeError []))] = Inr (Distinct ''y'' None)"
proof -
  have run: "run_strategy ''b'' (Inr (result_dict (Distinct ''y'' None))) = Inr (Distinct ''y'' None)"
    and skip: "\<forall>s \<in> set [(''a'', Inr (result_dict (Abstain ''x'' None)))]. abstains s"
    by code_simp+
  from chain_short_circuit [OF run _ skip, of "[(''c'', Inl (TypeError []))]"] show ?thesis by simp
qed

text \<open>
  C10. The result contract: every result the validator accepts has a non-empty reason without
  surrounding blanks and, when it is a duplicate, a finite score; and the validator reads the
  dictionary of every such result back as that very result.
\<close>

theorem strategy_result_contract:
  "(coerce_strategy_result v = Inr r \<longrightarrow> well_formed r) \<and>
   (well_formed r \<longrightarrow> coerce_strategy_result (result_dict r) = Inr r)"
  using coerced_well_formed coerce_result_dict by blast

theorem strategy_result_contract_witness:
  "coerce_strategy_result (result_dict (Duplicate (Finite (1/2)) ''same'' None)) =
     Inr (Duplicate (Finite (1/2)) ''same'' None)"
proof -
  have "well_formed (Duplicate (Finite (1/2)) ''same'' None)" by code_simp
  with strategy_result_contract show ?thesis by blast
qed

text \<open>
  The exact-URL strategy: duplicate exactly when both items have the same URL hash or both
  have the same URL, distinct when some pair could be compared and none was equal, abstain when
  nothing could be compared; the verdict does not depend on which item is called left; and the
  chain accepts its result as it is.
\<close>

lemma evaluate_exact_url_verdict:
  "status (evaluate_exact_url l r) =
     (if (\<exists>h. canonical_url_hash l = Some h \<and> canonical_url_hash r = Some h) \<or>
         (\<exists>u. canonical_url l = Some u \<and> canonical_url r = Some u)
      then ''DUPLICATE''
      else if both_given (canonical_url_hash l) (canonical_url_hash r) \<or>
         both_given (canonical_url l) (canonical_url r)
      then ''DISTINCT'' else ''ABSTAIN'') \<and>
   status (evaluate_exact_url l r) = status (evaluate_exact_url r l) \<and>
   execute_strategy_chain [(name, Inr (result_dict (evaluate_exact_url l r)))] =
     Inr (if is_abstain (evaluate_exact_url l r) then Distinct ''no_strategy_match'' None
          else evaluate_exact_url l r)"
  using evaluate_exact_url_status exact_url.evaluate_symmetric
  by (simp add: execute_strategy_chain_def execute_strategy_chain_with_trace_def
      exact_url.chain_head NO_STRATEGY_MATCH_REASON_def del: chain_loop.simps(2))

end
