(* ===== verification/Decisions.thy ===== *)
theory Decisions
  imports Samples Strategy
begin

text \<open>
  \<open>tca/storage/dedupe_decisions_repo.py\<close> and \<open>tca/api/routes/dedupe_decisions.py\<close>: the rows that
  explain why items were joined. The attempts of a strategy chain are validated, written in one
  session, and read back in insertion order. The attributes of an attempt are arbitrary objects,
  as the validation assumes. \<open>float(text)\<close> is the parameter \<open>parse_float\<close>.
\<close>

section \<open>Validation of what is written\<close>

record attempt_obj =
  ao_strategy_name :: pyobj
  ao_outcome :: pyobj
  ao_reason :: pyobj
  ao_score :: pyobj

abbreviation DedupeDecisionsRepositoryError :: "string \<Rightarrow> exn" where
  "DedupeDecisionsRepositoryError \<equiv> Exn ''DedupeDecisionsRepositoryError''"

abbreviation invalid_value :: "string \<Rightarrow> exn" where
  "invalid_value f \<equiv> DedupeDecisionsRepositoryError (''invalid `'' @ f @ ''` value'')"

fun coerce_write_int :: "string \<Rightarrow> pyobj \<Rightarrow> int res" where
  "coerce_write_int f (PInt i) = Inr i"
| "coerce_write_int f v = Inl (invalid_value f)"

definition coerce_optional_write_int :: "string \<Rightarrow> pyobj \<Rightarrow> int option res" where
  "coerce_optional_write_int f v = coerce_opt_with (coerce_write_int f) v"

definition coerce_non_empty_str :: "string \<Rightarrow> pyobj \<Rightarrow> string res" where
  "coerce_non_empty_str f v =
     (case as_str v of
        None \<Rightarrow> Inl (invalid_value f)
      | Some s \<Rightarrow> if py_strip s = [] then Inl (invalid_value f) else Inr s)"

definition finite_or_raise :: "string \<Rightarrow> pyfloat \<Rightarrow> pyfloat res" where
  "finite_or_raise f x = (if isfinite x then Inr x else Inl (invalid_value f))"

fun coerce_optional_finite_float :: "string \<Rightarrow> pyobj \<Rightarrow> pyfloat option res" where
  "coerce_optional_finite_float f PNone = Inr None"
| "coerce_optional_finite_float f (PInt n) =
     res_bind (res_bind (float_of_int n) (finite_or_raise f)) (\<lambda>x. Inr (Some x))"
| "coerce_optional_finite_float f (PFloat x) = res_bind (finite_or_raise f x) (\<lambda>x. Inr (Some x))"
| "coerce_optional_finite_float f v = Inl (invalid_value f)"

definition validate_attempt :: "attempt_obj \<Rightarrow> attempt_obj res" where
  "validate_attempt a =
     res_bind (coerce_non_empty_str ''strategy_name'' (ao_strategy_name a)) (\<lambda>_.
     res_bind (coerce_non_empty_str ''outcome'' (ao_outcome a)) (\<lambda>_.
     res_bind (coerce_non_empty_str ''reason'' (ao_reason a)) (\<lambda>_.
     res_bind (coerce_optional_finite_float ''score'' (ao_score a)) (\<lambda>_. Inr a))))"

definition validate_attempts :: "attempt_obj list \<Rightarrow> attempt_obj list res" where
  "validate_attempts attempts = res_map validate_attempt attempts"

text \<open>The characters of a text attribute.\<close>

definition text_value :: "pyobj \<Rightarrow> string" where
  "text_value v = (case as_str v of Some s \<Rightarrow> s | None \<Rightarrow> [])"

text \<open>\<open>dumps(dict(metadata), sort_keys=True, allow_nan=False)\<close>.\<close>

fun sort_keys :: "pyobj \<Rightarrow> pyobj" where
  "sort_keys (PList xs) = PList (map sort_keys xs)"
| "sort_keys (PDict kvs) =
     PDict (sort_key (\<lambda>kv. text_value (fst kv)) (map (\<lambda>kv. (fst kv, sort_keys (snd kv))) kvs))"
| "sort_keys v = v"

definition encode_metadata :: "(pyobj \<times> pyobj) list option \<Rightarrow> jtext option res" where
  "encode_metadata meta =
     (case meta of
        None \<Rightarrow> Inr None
      | Some kvs \<Rightarrow>
         (case json_dumps (sort_keys (PDict kvs)) of
            None \<Rightarrow> Inl (invalid_value ''metadata'')
          | Some t \<Rightarrow> Inr (Some t)))"

section \<open>Writing\<close>

text \<open>The value of a score in its real column.\<close>

fun real_value :: "pyobj \<Rightarrow> pyfloat option" where
  "real_value (PInt n) = Some (Finite (of_int n))"
| "real_value (PFloat x) = Some x"
| "real_value v = None"

definition attempt_row ::
  "int \<Rightarrow> int option \<Rightarrow> int option \<Rightarrow> jtext option \<Rightarrow> attempt_obj \<Rightarrow> decision_row" where
  "attempt_row item_id cluster_id candidate_item_id metadata_json a =
     \<lparr> dec_id = 0, dec_item_id = item_id, dec_cluster_id = cluster_id,
       dec_candidate_item_id = candidate_item_id, dec_strategy_name = text_value (ao_strategy_name a),
       dec_outcome = text_value (ao_outcome a), dec_reason_code = Some (text_value (ao_reason a)),
       dec_score = real_value (ao_score a), dec_metadata_json = metadata_json,
       dec_created_at = DT 0 None \<rparr>"

definition persist_attempts ::
  "pyobj \<Rightarrow> pyobj \<Rightarrow> pyobj \<Rightarrow> attempt_obj list \<Rightarrow> (pyobj \<times> pyobj) list option \<Rightarrow> (db, int list) act" where
  "persist_attempts item_id cluster_id candidate_item_id decision_attempts meta =
     act_bind (act_lift (coerce_write_int ''item_id'' item_id)) (\<lambda>item.
     act_bind (act_lift (coerce_optional_write_int ''cluster_id'' cluster_id)) (\<lambda>cluster.
     act_bind (act_lift (coerce_optional_write_int ''candidate_item_id'' candidate_item_id)) (\<lambda>candidate.
     act_bind (act_lift (validate_attempts decision_attempts)) (\<lambda>validated_attempts.
       if validated_attempts = [] then act_return []
       else
         act_bind (act_lift (encode_metadata meta)) (\<lambda>metadata_json.
           transaction
             (act_foreach (\<lambda>a. insert_decision (attempt_row item cluster candidate metadata_json a))
               validated_attempts))))))"

section \<open>Reading\<close>

record decision_record =
  dr_decision_id :: int
  dr_item_id :: int
  dr_cluster_id :: "int option"
  dr_candidate_item_id :: "int option"
  dr_strategy_name :: string
  dr_outcome :: string
  dr_reason_code :: "string option"
  dr_score :: "pyfloat option"
  dr_metadata_json :: "jtext option"
  dr_created_at :: datetime

fun coerce_optional_float :: "(string \<Rightarrow> pyfloat option) \<Rightarrow> string \<Rightarrow> pyobj \<Rightarrow> pyfloat option res" where
  "coerce_optional_float parse_float f (PStr s) =
     (case parse_float s of
        None \<Rightarrow> Inl (invalid_value f)
      | Some x \<Rightarrow> res_bind (finite_or_raise f x) (\<lambda>x. Inr (Some x)))"
| "coerce_optional_float parse_float f (PIso d s) =
     (case parse_float s of
        None \<Rightarrow> Inl (invalid_value f)
      | Some x \<Rightarrow> res_bind (finite_or_raise f x) (\<lambda>x. Inr (Some x)))"
| "coerce_optional_float parse_float f v = coerce_optional_finite_float f v"

definition decision_columns :: "decision_row \<Rightarrow> row_map" where
  "decision_columns r =
     [(''id'', PInt (dec_id r)), (''item_id'', PInt (dec_item_id r)),
      (''cluster_id'', opt_obj PInt (dec_cluster_id r)),
      (''candidate_item_id'', opt_obj PInt (dec_candidate_item_id r)),
      (''strategy_name'', PStr (dec_strategy_name r)), (''outcome'', PStr (dec_outcome r)),
      (''reason_code'', opt_obj PStr (dec_reason_code r)), (''score'', opt_obj PFloat (dec_score r)),
      (''created_at'', dt_obj (dec_created_at r))]"

text \<open>The text of the metadata is passed beside the other columns.\<close>

definition decode_decision_row ::
  "(string \<Rightarrow> pyfloat option) \<Rightarrow> row_map \<Rightarrow> jtext option \<Rightarrow> decision_record res" where
  "decode_decision_row parse_float row metadata_json =
     res_bind (coerce_int_with True (DedupeDecisionsRepositoryError ''missing integer `id`'') (row_get row ''id'')) (\<lambda>i.
     res_bind (coerce_int_with True (DedupeDecisionsRepositoryError ''missing integer `item_id`'')
         (row_get row ''item_id'')) (\<lambda>item.
     res_bind (coerce_opt_with (coerce_int_with True (invalid_value ''cluster_id'')) (row_get row ''cluster_id'')) (\<lambda>c.
     res_bind (coerce_opt_with (coerce_int_with True (invalid_value ''candidate_item_id''))
         (row_get row ''candidate_item_id'')) (\<lambda>k.
     res_bind (coerce_str_with (DedupeDecisionsRepositoryError ''missing `strategy_name`'')
         (row_get row ''strategy_name'')) (\<lambda>n.
     res_bind (coerce_str_with (DedupeDecisionsRepositoryError ''missing `outcome`'') (row_get row ''outcome'')) (\<lambda>out.
     res_bind (coerce_opt_with (coerce_str_with (DedupeDecisionsRepositoryError ''invalid string value''))
         (row_get row ''reason_code'')) (\<lambda>r.
     res_bind (coerce_optional_float parse_float ''score'' (row_get row ''score'')) (\<lambda>s.
     res_bind (coerce_datetime_with False (invalid_value ''created_at'')
         (DedupeDecisionsRepositoryError ''missing `created_at`'') (row_get row ''created_at'')) (\<lambda>t.
       Inr \<lparr> dr_decision_id = i, dr_item_id = item, dr_cluster_id = c, dr_candidate_item_id = k,
             dr_strategy_name = n, dr_outcome = out, dr_reason_code = r, dr_score = s,
             dr_metadata_json = metadata_json, dr_created_at = t \<rparr>)))))))))"

definition list_for_item :: "(string \<Rightarrow> pyfloat option) \<Rightarrow> int \<Rightarrow> db \<Rightarrow> decision_record list res" where
  "list_for_item parse_float item_id d =
     res_map (\<lambda>r. decode_decision_row parse_float (decision_columns r) (dec_metadata_json r))
       (sort_key dec_id (filter (\<lambda>r. dec_item_id r = item_id) (decisions d)))"

definition list_for_cluster :: "(string \<Rightarrow> pyfloat option) \<Rightarrow> int \<Rightarrow> db \<Rightarrow> decision_record list res" where
  "list_for_cluster parse_float cluster_id d =
     res_map (\<lambda>r. decode_decision_row parse_float (decision_columns r) (dec_metadata_json r))
       (sort_key dec_id (filter (\<lambda>r. dec_cluster_id r = Some cluster_id) (decisions d)))"

text \<open>The trace route; an entry of the answer has the fields of the record.\<close>

definition item_exists :: "int \<Rightarrow> db \<Rightarrow> bool" where
  "item_exists item_id d \<longleftrightarrow> item_id \<in> item_ids d"

definition get_dedupe_decisions_trace ::
  "(string \<Rightarrow> pyfloat option) \<Rightarrow> int \<Rightarrow> db \<Rightarrow> (int \<times> decision_record list) res" where
  "get_dedupe_decisions_trace parse_float item_id d =
     (if \<not> item_exists item_id d then Inl (HTTP404 ''Item was not found.'')
      else res_bind (list_for_item parse_float item_id d) (\<lambda>records. Inr (item_id, records)))"

section \<open>Lemmas\<close>

definition attempt_ok :: "attempt_obj \<Rightarrow> bool" where
  "attempt_ok a = (case validate_attempt a of Inl e \<Rightarrow> False | Inr b \<Rightarrow> True)"

lemma validate_attempt_id: "validate_attempt a = Inr b \<Longrightarrow> b = a"
  by (auto simp: validate_attempt_def res_bind_Inr)

lemma validate_attempts_eq:
  "validate_attempts as = Inr bs \<longleftrightarrow> list_all attempt_ok as \<and> bs = as"
proof (induction as arbitrary: bs)
  case (Cons a as)
  have "attempt_ok a \<longleftrightarrow> validate_attempt a = Inr a"
    using validate_attempt_id [of a] by (auto simp: attempt_ok_def split: sum.splits)
  then show ?case
    using Cons validate_attempt_id [of a] by (auto simp: validate_attempts_def res_bind_Inr)
qed (auto simp: validate_attempts_def)

lemma attempt_ok_score:
  assumes "attempt_ok a"
  shows "case real_value (ao_score a) of None \<Rightarrow> True | Some x \<Rightarrow> isfinite x"
proof -
  have "\<exists>x. coerce_optional_finite_float ''score'' (ao_score a) = Inr x"
    using assms by (auto simp: attempt_ok_def validate_attempt_def res_bind_Inr split: sum.splits)
  then show ?thesis by (cases "ao_score a") (auto simp: finite_or_raise_def split: if_splits)
qed

text \<open>Every stored score is finite, so every row decodes.\<close>

definition score_ok :: "decision_row \<Rightarrow> bool" where
  "score_ok r = (case dec_score r of None \<Rightarrow> True | Some x \<Rightarrow> isfinite x)"

definition decisions_ok :: "db \<Rightarrow> bool" where
  "decisions_ok d \<longleftrightarrow> db_ok d \<and> list_all score_ok (decisions d)"

definition decision_record_of :: "decision_row \<Rightarrow> decision_record" where
  "decision_record_of r =
     \<lparr> dr_decision_id = dec_id r, dr_item_id = dec_item_id r, dr_cluster_id = dec_cluster_id r,
       dr_candidate_item_id = dec_candidate_item_id r, dr_strategy_name = dec_strategy_name r,
       dr_outcome = dec_outcome r, dr_reason_code = dec_reason_code r, dr_score = dec_score r,
       dr_metadata_json = dec_metadata_json r, dr_created_at = normalize_datetime (dec_created_at r) \<rparr>"

lemma decode_decision_ok:
  assumes "score_ok r"
  shows "decode_decision_row pf (decision_columns r) (dec_metadata_json r) = Inr (decision_record_of r)"
proof -
  have "coerce_optional_float pf ''score'' (opt_obj PFloat (dec_score r)) = Inr (dec_score r)"
    using assms by (cases "dec_score r") (simp_all add: score_ok_def finite_or_raise_def)
  moreover have "coerce_opt_with (coerce_int_with b e) (opt_obj PInt i) = Inr i" for b e i by (cases i) simp_all
  moreover have "coerce_opt_with (coerce_str_with e) (opt_obj PStr t) = Inr t" for e t by (cases t) simp_all
  ultimately show ?thesis
    by (simp add: decode_decision_row_def decision_columns_def row_get_def decision_record_of_def)
qed

lemma list_for_item_eq:
  assumes "decisions_ok d"
  shows "list_for_item pf i d =
    Inr (map decision_record_of (sort_key dec_id (filter (\<lambda>r. dec_item_id r = i) (decisions d))))"
  unfolding list_for_item_def
  by (rule res_map_total) (use assms in \<open>auto simp: decisions_ok_def list_all_iff decode_decision_ok\<close>)

text \<open>The rows that a loop of inserts adds.\<close>

definition refs_ok :: "db \<Rightarrow> int \<Rightarrow> int option \<Rightarrow> int option \<Rightarrow> bool" where
  "refs_ok d i c k \<longleftrightarrow> i \<in> item_ids d \<and> (case c of None \<Rightarrow> True | Some x \<Rightarrow> x \<in> cluster_ids d) \<and>
     (case k of None \<Rightarrow> True | Some x \<Rightarrow> x \<in> item_ids d)"

definition stored_row :: "datetime \<Rightarrow> int \<Rightarrow> decision_row \<Rightarrow> decision_row" where
  "stored_row t n r = r\<lparr> dec_id := n, dec_created_at := t \<rparr>"

lemma insert_loop:
  assumes "refs_ok d i c k"
  shows "\<exists>ids. act_foreach (\<lambda>a. insert_decision (attempt_row i c k m a)) as d =
      (Inr ids, d\<lparr> decisions := decisions d @ map2 (stored_row (current_timestamp d)) ids (map (attempt_row i c k m) as) \<rparr>) \<and>
    length ids = length as \<and> sorted_wrt (<) ids \<and> (\<forall>n \<in> set ids. \<forall>r \<in> set (decisions d). dec_id r < n)"
  using assms
proof (induction as arbitrary: d)
  case Nil
  then show ?case by (simp add: act_return_def)
next
  case (Cons a as)
  let ?n = "sql_next_id (map dec_id (decisions d))"
  let ?r = "stored_row (current_timestamp d) ?n (attempt_row i c k m a)"
  let ?d = "d\<lparr> decisions := decisions d @ [?r] \<rparr>"
  have one: "insert_decision (attempt_row i c k m a) d = (Inr ?n, ?d)"
    using Cons.prems by (simp add: insert_decision_def refs_ok_def attempt_row_def stored_row_def Let_def)
  have "refs_ok ?d i c k" using Cons.prems by (simp add: refs_ok_def split: option.splits)
  from Cons.IH [OF this] obtain ids where ids:
    "act_foreach (\<lambda>a. insert_decision (attempt_row i c k m a)) as ?d =
      (Inr ids, ?d\<lparr> decisions := decisions ?d @ map2 (stored_row (current_timestamp ?d)) ids (map (attempt_row i c k m) as) \<rparr>)"
    "length ids = length as" "sorted_wrt (<) ids" "\<forall>n \<in> set ids. \<forall>r \<in> set (decisions ?d). dec_id r < n"
    by blast
  have "\<forall>n \<in> set ids. ?n < n" using ids(4) by (simp add: stored_row_def)
  moreover have "dec_id r < ?n" if "r \<in> set (decisions d)" for r using that by (intro sql_next_id_greater) simp
  moreover have "current_timestamp ?d = current_timestamp d" by (simp add: current_timestamp_def)
  ultimately show ?case
    by (intro exI [of _ "?n # ids"]) (use one ids in \<open>auto simp: act_bind_def act_return_def\<close>)
qed

lemma filter_map2_rows:
  assumes "length ids = length as"
  shows "filter (\<lambda>r. dec_item_id r = j) (map2 (stored_row t) ids (map (attempt_row i c k m) as)) =
    (if j = i then map2 (stored_row t) ids (map (attempt_row i c k m) as) else [])"
proof -
  have item: "dec_item_id (stored_row t n (attempt_row i c k m a)) = i" for n a
    by (simp add: stored_row_def attempt_row_def)
  show ?thesis using assms by (induction ids as rule: list_induct2) (auto simp: item)
qed

lemma map_id_map2_rows:
  assumes "length ids = length as"
  shows "map dec_id (map2 (stored_row t) ids (map f as)) = ids"
    and "list_all attempt_ok as \<Longrightarrow> list_all score_ok (map2 (stored_row t) ids (map (attempt_row i c k m) as))"
proof -
  show "map dec_id (map2 (stored_row t) ids (map f as)) = ids"
    using assms by (induction ids as rule: list_induct2) (simp_all add: stored_row_def)
  have row: "score_ok (stored_row t n (attempt_row i c k m a))" if "attempt_ok a" for n a
    using attempt_ok_score [OF that] by (simp add: score_ok_def stored_row_def attempt_row_def)
  show "list_all score_ok (map2 (stored_row t) ids (map (attempt_row i c k m) as))" if "list_all attempt_ok as"
    using assms that by (induction ids as rule: list_induct2) (simp_all add: row)
qed

lemma persist_attempts_valid:
  assumes "refs_ok d i c k" and "list_all attempt_ok as" and "encode_metadata meta = Inr m"
  shows "\<exists>ids. persist_attempts (PInt i) (opt_obj PInt c) (opt_obj PInt k) as meta d =
      (Inr ids, d\<lparr> decisions := decisions d @ map2 (stored_row (current_timestamp d)) ids (map (attempt_row i c k m) as) \<rparr>) \<and>
    length ids = length as \<and> sorted_wrt (<) ids \<and> (\<forall>n \<in> set ids. \<forall>r \<in> set (decisions d). dec_id r < n)"
proof -
  have opt: "coerce_optional_write_int f (opt_obj PInt x) = Inr x" for f x
    by (cases x) (simp_all add: coerce_optional_write_int_def)
  have valid: "validate_attempts as = Inr as" using assms(2) by (simp add: validate_attempts_eq)
  show ?thesis
    using insert_loop [OF assms(1), of m as] valid
    by (cases "as = []") (auto simp: persist_attempts_def opt assms(3) act_simps)
qed

lemma persist_attempts_db_ok: "preserves db_ok (persist_attempts i c k as meta)"
  unfolding persist_attempts_def by (intro preserves_intros)

lemma persist_attempts_atomic: "persist_attempts i c k as meta d = (Inl e, d') \<Longrightarrow> d' = d"
  by (auto simp: persist_attempts_def act_bind_def act_lift_def act_return_def
      split: sum.splits if_splits prod.splits dest: transaction_Inl)

lemma persist_attempts_stored:
  assumes ok0: "decisions_ok d" and refs: "refs_ok d i c k" and as: "list_all attempt_ok as" and m: "encode_metadata meta = Inr m"
  shows "\<exists>ids d' old. persist_attempts (PInt i) (opt_obj PInt c) (opt_obj PInt k) as meta d = (Inr ids, d') \<and>
        length ids = length as \<and> sorted_wrt (<) ids \<and> set ids \<inter> dec_id ` set (decisions d) = {} \<and>
        decisions_ok d' \<and> list_for_item pf i d = Inr old \<and>
        list_for_item pf i d' = Inr (old @ map2 (\<lambda>n a. decision_record_of
          (stored_row (current_timestamp d) n (attempt_row i c k m a))) ids as) \<and>
        (\<forall>j. j \<noteq> i \<longrightarrow> list_for_item pf j d' = list_for_item pf j d) \<and>
        d' = d\<lparr> decisions := decisions d' \<rparr>"
proof -
  let ?row = "stored_row (current_timestamp d)" and ?as = "map (attempt_row i c k m) as"
  from persist_attempts_valid [OF refs as m] obtain ids where
    run: "persist_attempts (PInt i) (opt_obj PInt c) (opt_obj PInt k) as meta d =
        (Inr ids, d\<lparr> decisions := decisions d @ map2 ?row ids ?as \<rparr>)"
    and ids: "length ids = length as" "sorted_wrt (<) ids" "\<forall>n \<in> set ids. \<forall>r \<in> set (decisions d). dec_id r < n"
    by blast
  let ?d = "d\<lparr> decisions := decisions d @ map2 ?row ids ?as \<rparr>"
  have "db_ok ?d"
    using preservesD [OF persist_attempts_db_ok, of d "PInt i" "opt_obj PInt c" "opt_obj PInt k" as meta] run ok0
    by (simp add: decisions_ok_def)
  then have ok: "decisions_ok ?d"
    using ok0 map_id_map2_rows(2) [OF ids(1) as] by (simp add: decisions_ok_def)
  have sorted: "sorted (map dec_id (map2 ?row ids ?as))"
    unfolding map_id_map2_rows(1) [OF ids(1)] using ids(2) by (simp add: strict_sorted_iff)
  have ids_new: "dec_id ` set (map2 ?row ids ?as) = set ids"
    using map_id_map2_rows(1) [OF ids(1)] by (metis list.set_map)
  then have later: "dec_id r \<le> dec_id r'" if "r \<in> set (decisions d)" "r' \<in> set (map2 ?row ids ?as)" for r r'
    using that ids(3) by (metis image_eqI less_imp_le)
  have "sort_key dec_id (filter (\<lambda>r. dec_item_id r = i) (decisions ?d)) =
      sort_key dec_id (filter (\<lambda>r. dec_item_id r = i) (decisions d)) @ map2 ?row ids ?as"
    using sort_key_append_later [OF sorted] later by (simp add: filter_map2_rows [OF ids(1)])
  moreover have "map decision_record_of (map2 ?row ids ?as) =
      map2 (\<lambda>n a. decision_record_of (?row n (attempt_row i c k m a))) ids as"
    using ids(1) by (induction ids as rule: list_induct2) simp_all
  moreover have "filter (\<lambda>r. dec_item_id r = j) (decisions ?d) = filter (\<lambda>r. dec_item_id r = j) (decisions d)" if "j \<noteq> i" for j
    using that by (simp add: filter_map2_rows [OF ids(1)])
  ultimately show ?thesis
    using run ids ok list_for_item_eq [OF ok, of pf] list_for_item_eq [OF ok0, of pf]
    by (intro exI [of _ ids] exI [of _ ?d] exI [of _ "map decision_record_of (sort_key dec_id (filter (\<lambda>r. dec_item_id r = i) (decisions d)))"])
      (auto dest: bspec)
qed


text \<open>The attributes of a \<open>StrategyDecisionAttempt\<close>.\<close>

definition attempt_obj_of :: "decision_attempt \<Rightarrow> attempt_obj" where
  "attempt_obj_of a =
     \<lparr> ao_strategy_name = PStr (at_strategy_name a), ao_outcome = PStr (at_outcome a),
       ao_reason = PStr (at_reason a), ao_score = opt_obj PFloat (at_score a) \<rparr>"

lemma attempt_of_ok:
  assumes "well_formed r" and "py_strip name \<noteq> []"
  shows "attempt_ok (attempt_obj_of (attempt_of name r))"
proof -
  have "py_strip ''DUPLICATE'' \<noteq> []" "py_strip ''DISTINCT'' \<noteq> []" "py_strip ''ABSTAIN'' \<noteq> []" by code_simp+
  then have "py_strip (status r) \<noteq> []" by (cases r) simp_all
  moreover have "coerce_optional_finite_float ''score'' (opt_obj PFloat (at_score (attempt_of name r))) =
      Inr (at_score (attempt_of name r))"
    using assms(1) by (cases r) (simp_all add: attempt_of_def well_formed_def finite_or_raise_def)
  ultimately show ?thesis
    using assms
    by (simp add: attempt_ok_def validate_attempt_def attempt_obj_of_def coerce_non_empty_str_def
        well_formed_def attempt_of_def)
qed

lemma run_strategy_well_formed:
  assumes "run_strategy name s = Inr r"
  shows "well_formed r"
proof -
  obtain x where x: "s = Inr x" using assms by (auto simp: run_strategy_def res_bind_Inr)
  show ?thesis
  proof (cases "coerce_strategy_result x")
    case (Inr y)
    then show ?thesis using assms x coerced_well_formed by (simp add: run_strategy_def)
  qed (use assms x in \<open>simp add: run_strategy_def split: if_splits\<close>)
qed

lemma chain_loop_attempts:
  assumes "chain_loop ss attempts = Inr (r, trace)" and "\<forall>s \<in> set ss. py_strip (fst s) \<noteq> []"
    and "\<forall>a \<in> set attempts. attempt_ok (attempt_obj_of a)"
  shows "\<forall>a \<in> set trace. attempt_ok (attempt_obj_of a)"
  using assms
proof (induction ss arbitrary: attempts)
  case (Cons s ss)
  obtain name strategy where s: "s = (name, strategy)" by (cases s)
  then obtain x where x: "run_strategy name strategy = Inr x"
    using Cons.prems(1) by (auto simp: res_bind_Inr)
  have "attempt_ok (attempt_obj_of (attempt_of name x))"
    using attempt_of_ok [OF run_strategy_well_formed [OF x]] Cons.prems(2) by (simp add: s)
  then show ?case
    using Cons.prems Cons.IH [of "attempts @ [attempt_of name x]"] by (auto simp: s x Let_def split: if_splits)
qed simp

section \<open>Properties\<close>

text \<open>
  C16. Persisting attempts is all or nothing. When the item, the cluster and the candidate exist, the
  metadata is serialisable and every attempt is valid, one row per attempt is added, with new
  increasing ids, and the list of the item is the old list followed by the attempts in order; the
  lists of other items and every other table are as before. In every other case in which the call
  raises, nothing is stored.
\<close>

theorem persist_attempts_read_back:
  assumes "decisions_ok d"
  shows "(\<forall>e d'. persist_attempts iv cv kv as meta d = (Inl e, d') \<longrightarrow> d' = d) \<and>
    (refs_ok d i c k \<and> list_all attempt_ok as \<and> encode_metadata meta = Inr m \<longrightarrow>
      (\<exists>ids d' old. persist_attempts (PInt i) (opt_obj PInt c) (opt_obj PInt k) as meta d = (Inr ids, d') \<and>
        length ids = length as \<and> sorted_wrt (<) ids \<and> set ids \<inter> dec_id ` set (decisions d) = {} \<and>
        decisions_ok d' \<and> list_for_item pf i d = Inr old \<and>
        list_for_item pf i d' = Inr (old @ map2 (\<lambda>n a. decision_record_of
          (stored_row (current_timestamp d) n (attempt_row i c k m a))) ids as) \<and>
        (\<forall>j. j \<noteq> i \<longrightarrow> list_for_item pf j d' = list_for_item pf j d) \<and>
        d' = d\<lparr> decisions := decisions d' \<rparr>))"
  using persist_attempts_atomic persist_attempts_stored [OF assms] by blast

theorem persist_attempts_read_back_witness:
  "\<exists>ids d'. persist_attempts (PInt 2) (PInt 2) PNone [attempt_obj_of (attempt_of ''exact_url'' (Distinct ''mismatch'' None))]
     (Some [(PStr ''b'', PInt 1), (PStr ''a'', PInt 2)]) sample_db = (Inr ids, d') \<and> length ids = 1"
proof -
  have "decisions_ok sample_db" "refs_ok sample_db 2 (Some 2) None"
    "list_all attempt_ok [attempt_obj_of (attempt_of ''exact_url'' (Distinct ''mismatch'' None))]"
    "encode_metadata (Some [(PStr ''b'', PInt 1), (PStr ''a'', PInt 2)]) =
      Inr (Some (JText (PDict [(PStr ''a'', PInt 2), (PStr ''b'', PInt 1)])))"
    by code_simp+
  then show ?thesis
    using persist_attempts_read_back [of sample_db PNone PNone PNone "[attempt_obj_of (attempt_of ''exact_url'' (Distinct ''mismatch'' None))]"
        "Some [(PStr ''b'', PInt 1), (PStr ''a'', PInt 2)]" 2 "Some 2" None
        "Some (JText (PDict [(PStr ''a'', PInt 2), (PStr ''b'', PInt 1)]))" "\<lambda>_. None"] by auto
qed

text \<open>
  C17. Whatever the strategies answer, the trace of a chain that returns is accepted by the decisions
  repository: if the strategies have non-blank names and the item exists, every attempt is stored,
  and the trace route then shows them after the earlier ones, in the order in which they ran.
\<close>

theorem chain_trace_is_stored:
  assumes "decisions_ok d" and "i \<in> item_ids d" and "\<forall>s \<in> set ss. py_strip (fst s) \<noteq> []"
    and "execute_strategy_chain_with_trace ss = Inr (r, trace)"
  shows "\<exists>ids d' old entries.
    persist_attempts (PInt i) PNone PNone (map attempt_obj_of trace) None d = (Inr ids, d') \<and>
    get_dedupe_decisions_trace pf i d = Inr (i, old) \<and>
    get_dedupe_decisions_trace pf i d' = Inr (i, old @ entries) \<and>
    map (\<lambda>x. (dr_strategy_name x, dr_outcome x, dr_reason_code x, dr_score x)) entries =
      map (\<lambda>a. (at_strategy_name a, at_outcome a, Some (at_reason a), at_score a)) trace"
proof -
  have "list_all attempt_ok (map attempt_obj_of trace)"
    using chain_loop_attempts [of ss "[]" r trace] assms(3,4)
    by (simp add: execute_strategy_chain_with_trace_def list_all_iff)
  then obtain ids d' old where run:
    "persist_attempts (PInt i) (opt_obj PInt None) (opt_obj PInt None) (map attempt_obj_of trace) None d = (Inr ids, d')"
    "length ids = length trace" "list_for_item pf i d = Inr old"
    "list_for_item pf i d' = Inr (old @ map2 (\<lambda>n a. decision_record_of
      (stored_row (current_timestamp d) n (attempt_row i None None None a))) ids (map attempt_obj_of trace))"
    "d' = d\<lparr> decisions := decisions d' \<rparr>"
    using persist_attempts_stored [of d i None None "map attempt_obj_of trace" None None pf] assms(1,2)
    unfolding refs_ok_def encode_metadata_def by auto
  have "item_ids d' = item_ids d" by (subst run(5)) simp
  moreover have score: "real_value (opt_obj PFloat x) = x" for x by (cases x) simp_all
  have "map (\<lambda>x. (dr_strategy_name x, dr_outcome x, dr_reason_code x, dr_score x)) (map2 (\<lambda>n a. decision_record_of
      (stored_row (current_timestamp d) n (attempt_row i None None None a))) ids (map attempt_obj_of trace)) =
      map (\<lambda>a. (at_strategy_name a, at_outcome a, Some (at_reason a), at_score a)) trace"
    using run(2)
    by (induction ids trace rule: list_induct2)
      (simp_all add: decision_record_of_def stored_row_def attempt_row_def attempt_obj_of_def text_value_def score)
  ultimately show ?thesis
    using assms(2) run(1,3,4) by (auto simp: get_dedupe_decisions_trace_def item_exists_def)
qed

theorem chain_trace_is_stored_witness:
  "\<exists>ids d' entries. persist_attempts (PInt 2) PNone PNone
      (map attempt_obj_of [attempt_of ''exact_url'' (Abstain ''exact_url_missing'' None)]) None sample_db = (Inr ids, d') \<and>
    get_dedupe_decisions_trace (\<lambda>_. None) 2 d' = Inr (2, entries) \<and> map dr_outcome entries = [''ABSTAIN'']"
proof -
  let ?ss = "[(''exact_url'', Inr (result_dict (Abstain ''exact_url_missing'' None)))] :: (string \<times> strategy_callable) list"
  have "py_strip ''exact_url'' \<noteq> []" by code_simp
  then have names: "\<forall>s \<in> set ?ss. py_strip (fst s) \<noteq> []" by simp
  have ok: "decisions_ok sample_db" "2 \<in> item_ids sample_db" by code_simp+
  have none: "get_dedupe_decisions_trace (\<lambda>_. None) 2 sample_db = Inr (2, [])"
    using ok(2) by (simp add: get_dedupe_decisions_trace_def item_exists_def list_for_item_def sample_db_def empty_db_def)
  have "py_strip ''exact_url_missing'' = ''exact_url_missing''" by code_simp
  then have "well_formed (Abstain ''exact_url_missing'' None)" by (simp add: well_formed_def)
  note accepted = coerce_result_dict [OF this]
  have run: "execute_strategy_chain_with_trace ?ss = Inr (Distinct NO_STRATEGY_MATCH_REASON None,
      [attempt_of ''exact_url'' (Abstain ''exact_url_missing'' None)])"
    by (simp add: execute_strategy_chain_with_trace_def run_strategy_def accepted Let_def del: result_dict.simps)
  from chain_trace_is_stored [OF ok names run, of "\<lambda>_. None"] none show ?thesis
    by (auto simp: attempt_of_def map_eq_Cons_conv)
qed

end
