(* ===== verification/Envelope.thy ===== *)
theory Envelope
  imports Python
begin

text \<open>
  \<open>tca/auth/encryption_utils.py\<close> with what it uses of the standard library: Base64 with
  validation, UTF-8 and the JSON envelope. The calls into the \<open>cryptography\<close> package are the fields of
  the record \<open>crypto\<close>; the two random values of an encryption are arguments. Wiping the key from
  memory has no effect on the values and is not represented. Texts are over the code points up
  to 255.
\<close>

section \<open>Base64\<close>

definition b64_alphabet :: string where
  "b64_alphabet = ''ABCDEFGHIJKLMNOPQRSTUVWXYZabcdefghijklmnopqrstuvwxyz0123456789+/''"

definition b64_char :: "nat \<Rightarrow> char" where
  "b64_char n = b64_alphabet ! n"

definition b64_value :: "char \<Rightarrow> nat option" where
  "b64_value c = map_of (zip b64_alphabet [0..<64]) c"

definition byte :: "nat \<Rightarrow> 8 word" where
  "byte n = word_of_nat n"

fun b64encode :: "bytes \<Rightarrow> string" where
  "b64encode [] = []"
| "b64encode [a] = [b64_char (unat a div 4), b64_char (unat a mod 4 * 16), CHR ''='', CHR ''='']"
| "b64encode [a, b] =
     [b64_char (unat a div 4), b64_char (unat a mod 4 * 16 + unat b div 16),
      b64_char (unat b mod 16 * 4), CHR ''='']"
| "b64encode (a # b # c # rest) =
     b64_char (unat a div 4) # b64_char (unat a mod 4 * 16 + unat b div 16) #
     b64_char (unat b mod 16 * 4 + unat c div 64) # b64_char (unat c mod 64) # b64encode rest"

text \<open>
  \<open>binascii.a2b_base64(s, strict_mode=True)\<close>: quads of alphabet characters; a quad may be completed
  by padding, after which nothing may follow; padding after complete quads is ignored.
\<close>

fun b64_quads :: "string \<Rightarrow> bytes option" where
  "b64_quads (c1 # c2 # c3 # c4 # rest) =
     (if c1 = CHR ''='' then (if \<forall>c \<in> set (c2 # c3 # c4 # rest). c = CHR ''='' then Some [] else None)
      else
        case (b64_value c1, b64_value c2) of
          (Some v1, Some v2) \<Rightarrow>
            if c3 = CHR ''='' then
              (if c4 = CHR ''='' \<and> rest = [] then Some [byte (v1 * 4 + v2 div 16)] else None)
            else
             (case b64_value c3 of
                None \<Rightarrow> None
              | Some v3 \<Rightarrow>
                  if c4 = CHR ''='' then
                    (if rest = [] then Some [byte (v1 * 4 + v2 div 16), byte (v2 mod 16 * 16 + v3 div 4)]
                     else None)
                  else
                   (case (b64_value c4, b64_quads rest) of
                      (Some v4, Some bs) \<Rightarrow>
                        Some (byte (v1 * 4 + v2 div 16) # byte (v2 mod 16 * 16 + v3 div 4) #
                              byte (v3 mod 4 * 64 + v4) # bs)
                    | _ \<Rightarrow> None))
        | _ \<Rightarrow> None)"
| "b64_quads s = (if \<forall>c \<in> set s. c = CHR ''='' then Some [] else None)"

definition b64decode :: "string \<Rightarrow> bytes option" where
  "b64decode s =
     (case s of [] \<Rightarrow> Some [] | c # _ \<Rightarrow> if c = CHR ''='' then None else b64_quads s)"

lemma b64_value_char: "n < 64 \<Longrightarrow> b64_value (b64_char n) = Some n \<and> b64_char n \<noteq> CHR ''=''"
proof -
  assume "n < 64"
  moreover have "\<forall>n \<in> set [0..<64]. b64_value (b64_char n) = Some n \<and> b64_char n \<noteq> CHR ''=''" by code_simp
  ultimately show ?thesis by simp
qed

lemma byte_unat [simp]: "byte (unat b) = b"
  by (simp add: byte_def)

lemma unat_byte_less: "unat (b :: 8 word) < 256"
  using unsigned_less [where 'a = nat, of b] by simp

text \<open>The six-bit groups of three bytes, put together again.\<close>

lemma sextet_bounds:
  "unat (a :: 8 word) div 4 < 64"
  "unat (a :: 8 word) mod 4 * 16 < 64"
  "unat (a :: 8 word) mod 4 * 16 + unat (b :: 8 word) div 16 < 64"
  "unat (b :: 8 word) mod 16 * 4 < 64"
  "unat (b :: 8 word) mod 16 * 4 + unat (c :: 8 word) div 64 < 64"
  "unat (c :: 8 word) mod 64 < 64"
proof -
  have l: "unat a < 256" "unat b < 256" "unat c < 256" by (rule unat_byte_less)+
  have m: "unat a mod 4 < 4" "unat b mod 16 < 16" by simp_all
  show "unat a div 4 < 64" using l by simp
  show "unat a mod 4 * 16 < 64" using m by simp
  show "unat a mod 4 * 16 + unat b div 16 < 64" using m(1) l(2) by (simp add: div_less_iff_less_mult)
  show "unat b mod 16 * 4 < 64" using m by simp
  show "unat b mod 16 * 4 + unat c div 64 < 64" using m(2) l(3) by simp
  show "unat c mod 64 < 64" by simp
qed

lemma sextet_join:
  fixes a b c :: nat
  assumes "b < 256" and "c < 256"
  shows "a div 4 * 4 + (a mod 4 * 16) div 16 = a"
    and "a div 4 * 4 + (a mod 4 * 16 + b div 16) div 16 = a"
    and "(a mod 4 * 16 + b div 16) mod 16 * 16 + (b mod 16 * 4) div 4 = b"
    and "(a mod 4 * 16 + b div 16) mod 16 * 16 + (b mod 16 * 4 + c div 64) div 4 = b"
    and "(b mod 16 * 4 + c div 64) mod 4 * 64 + c mod 64 = c"
proof -
  have b: "b div 16 < 16" "c div 64 < 4" using assms by (simp_all add: div_less_iff_less_mult)
  show "a div 4 * 4 + (a mod 4 * 16) div 16 = a" by simp
  show "a div 4 * 4 + (a mod 4 * 16 + b div 16) div 16 = a" using b(1) by simp
  show "(a mod 4 * 16 + b div 16) mod 16 * 16 + (b mod 16 * 4) div 4 = b" using b(1) by (simp add: mod_simps)
  show "(a mod 4 * 16 + b div 16) mod 16 * 16 + (b mod 16 * 4 + c div 64) div 4 = b"
    using b by (simp add: mod_simps)
  show "(b mod 16 * 4 + c div 64) mod 4 * 64 + c mod 64 = c" using b(2) by (simp add: mod_simps)
qed

lemma b64_quads_encode: "b64_quads (b64encode bs) = Some bs"
proof (induction bs rule: b64encode.induct)
  case 1
  show ?case by simp
next
  case (2 a)
  show ?case using b64_value_char [OF sextet_bounds(1) [of a]] b64_value_char [OF sextet_bounds(2) [of a]]
      sextet_join(1) [where a = "unat a" and b = 0 and c = 0] by simp
next
  case (3 a b)
  show ?case
    using b64_value_char [OF sextet_bounds(1) [of a]] b64_value_char [OF sextet_bounds(3) [of a b]]
      b64_value_char [OF sextet_bounds(4) [of b]]
      sextet_join [OF unat_byte_less [of b] unat_byte_less [of b]] by simp
next
  case (4 a b c rest)
  then show ?case
    using b64_value_char [OF sextet_bounds(1) [of a]] b64_value_char [OF sextet_bounds(3) [of a b]]
      b64_value_char [OF sextet_bounds(5) [of b c]] b64_value_char [OF sextet_bounds(6) [of c]]
      sextet_join [OF unat_byte_less [of b] unat_byte_less [of c]] by simp
qed

lemma b64_roundtrip: "b64decode (b64encode bs) = Some bs"
proof (cases "b64encode bs")
  case Nil
  then show ?thesis using b64_quads_encode [of bs] by (simp add: b64decode_def)
next
  case (Cons c cs)
  have "c \<noteq> CHR ''=''"
    using Cons b64_value_char sextet_bounds(1) by (cases bs rule: b64encode.cases) auto
  then show ?thesis using Cons b64_quads_encode [of bs] by (simp add: b64decode_def)
qed

section \<open>UTF-8\<close>

fun utf8_encode :: "string \<Rightarrow> bytes" where
  "utf8_encode [] = []"
| "utf8_encode (c # cs) =
     (let n = of_char c :: nat in
      (if n < 128 then [byte n] else [byte (192 + n div 64), byte (128 + n mod 64)]) @ utf8_encode cs)"

text \<open>A two-byte sequence of a code point below 128 is rejected, as are all other lead bytes.\<close>

fun utf8_decode :: "bytes \<Rightarrow> string option" where
  "utf8_decode [] = Some []"
| "utf8_decode (b # bs) =
     (if unat b < 128 then map_option (\<lambda>cs. char_of (unat b) # cs) (utf8_decode bs)
      else
        case bs of
          [] \<Rightarrow> None
        | b' # rest \<Rightarrow>
            if unat b \<in> {194, 195} \<and> 128 \<le> unat b' \<and> unat b' < 192
            then map_option (\<lambda>cs. char_of ((unat b - 192) * 64 + (unat b' - 128)) # cs) (utf8_decode rest)
            else None)"

lemma unat_byte: "n < 256 \<Longrightarrow> unat (byte n) = n"
  by (simp add: byte_def unsigned_of_nat take_bit_nat_eq_self)

lemma utf8_roundtrip: "utf8_decode (utf8_encode s) = Some s"
proof (induction s)
  case (Cons c cs)
  define n where "n = (of_char c :: nat)"
  have n: "n < 256" "char_of n = c" by (simp_all add: n_def)
  show ?case
  proof (cases "n < 128")
    case True
    then show ?thesis using Cons n by (simp add: unat_byte flip: n_def)
  next
    case False
    then have "n div 64 \<in> {2, 3}" using n(1) by auto
    moreover have "n mod 64 < 64" by simp
    ultimately show ?thesis
      using Cons n False by (auto simp: unat_byte Let_def simp flip: n_def)
  qed
qed simp

section \<open>The envelope\<close>

record crypto =
  aes_key_wrap :: "bytes \<Rightarrow> bytes \<Rightarrow> bytes"
  aes_key_unwrap :: "bytes \<Rightarrow> bytes \<Rightarrow> bytes res"
  gcm_encrypt :: "bytes \<Rightarrow> bytes \<Rightarrow> bytes \<Rightarrow> bytes"
  gcm_decrypt :: "bytes \<Rightarrow> bytes \<Rightarrow> bytes \<Rightarrow> bytes res"

definition ENVELOPE_VERSION :: int where "ENVELOPE_VERSION = 1"
definition DATA_ENCRYPTION_KEY_BYTES :: nat where "DATA_ENCRYPTION_KEY_BYTES = 32"
definition AES_GCM_NONCE_BYTES :: nat where "AES_GCM_NONCE_BYTES = 12"
definition AES_KEY_SIZES_BYTES :: "nat list" where "AES_KEY_SIZES_BYTES = [16, 24, 32]"

abbreviation EnvelopeDecryptionError :: exn where
  "EnvelopeDecryptionError \<equiv>
     Exn ''EnvelopeDecryptionError'' ''unable to decrypt payload with provided key-encryption key''"

definition validate_aes_key :: "bytes \<Rightarrow> unit res" where
  "validate_aes_key key =
     (if length key \<in> set AES_KEY_SIZES_BYTES then Inr ()
      else Inl (ValueError ''key_encryption_key must be an AES key length (16, 24, 32 bytes).''))"

definition validate_dek :: "bytes \<Rightarrow> unit res" where
  "validate_dek dek =
     (if length dek = DATA_ENCRYPTION_KEY_BYTES then Inr ()
      else Inl (ValueError ''data_encryption_key must be exactly 32 bytes.''))"

definition wrap_data_encryption_key :: "crypto \<Rightarrow> bytes \<Rightarrow> bytes \<Rightarrow> bytes res" where
  "wrap_data_encryption_key cr dek kek =
     res_bind (validate_dek dek) (\<lambda>_.
     res_bind (validate_aes_key kek) (\<lambda>_. Inr (aes_key_wrap cr kek dek)))"

definition unwrap_data_encryption_key :: "crypto \<Rightarrow> bytes \<Rightarrow> bytes \<Rightarrow> bytes res" where
  "unwrap_data_encryption_key cr wrapped kek =
     res_bind (validate_aes_key kek) (\<lambda>_.
       case aes_key_unwrap cr kek wrapped of
         Inl e \<Rightarrow> Inl (if exn_class e = ''InvalidUnwrap'' then EnvelopeDecryptionError else e)
       | Inr unwrapped \<Rightarrow>
           if length unwrapped \<noteq> DATA_ENCRYPTION_KEY_BYTES then Inl EnvelopeDecryptionError
           else Inr unwrapped)"

text \<open>\<open>dek\<close> and \<open>nonce\<close> are the random bytes of the call; the keys are written sorted.\<close>

definition encrypt_with_envelope :: "crypto \<Rightarrow> bytes \<Rightarrow> bytes \<Rightarrow> bytes \<Rightarrow> bytes \<Rightarrow> jtext res" where
  "encrypt_with_envelope cr dek nonce plaintext kek =
     res_bind (validate_aes_key kek) (\<lambda>_.
     res_bind (wrap_data_encryption_key cr dek kek) (\<lambda>wrapped_dek.
       Inr (JText (PDict
         [(PStr ''ciphertext'', PStr (b64encode (gcm_encrypt cr dek nonce plaintext))),
          (PStr ''nonce'', PStr (b64encode nonce)),
          (PStr ''version'', PInt ENVELOPE_VERSION),
          (PStr ''wrapped_data_encryption_key'', PStr (b64encode wrapped_dek))]))))"

text \<open>\<open>encode("ascii")\<close> refuses code points above 127, which are not in the alphabet either.\<close>

definition envelope_decode_bytes :: "pyobj \<Rightarrow> bytes res" where
  "envelope_decode_bytes encoded =
     (case as_str encoded of
        None \<Rightarrow> Inl EnvelopeDecryptionError
      | Some s \<Rightarrow> (case b64decode s of None \<Rightarrow> Inl EnvelopeDecryptionError | Some bs \<Rightarrow> Inr bs))"

definition envelope_decode_payload :: "jtext \<Rightarrow> (pyobj \<times> pyobj) list res" where
  "envelope_decode_payload t =
     (case json_loads t of Some (PDict kvs) \<Rightarrow> Inr kvs | _ \<Rightarrow> Inl EnvelopeDecryptionError)"

definition decrypt_with_envelope :: "crypto \<Rightarrow> jtext \<Rightarrow> bytes \<Rightarrow> bytes res" where
  "decrypt_with_envelope cr ciphertext_payload kek =
     res_bind (validate_aes_key kek) (\<lambda>_.
     res_bind (envelope_decode_payload ciphertext_payload) (\<lambda>payload.
     if dict_get payload ''version'' \<noteq> PInt ENVELOPE_VERSION then Inl EnvelopeDecryptionError else
     res_bind (envelope_decode_bytes (dict_get payload ''wrapped_data_encryption_key'')) (\<lambda>wrapped_dek.
     res_bind (envelope_decode_bytes (dict_get payload ''nonce'')) (\<lambda>nonce.
     res_bind (envelope_decode_bytes (dict_get payload ''ciphertext'')) (\<lambda>ciphertext.
     if length nonce \<noteq> AES_GCM_NONCE_BYTES then Inl EnvelopeDecryptionError else
     res_bind (unwrap_data_encryption_key cr wrapped_dek kek) (\<lambda>dek.
       case gcm_decrypt cr dek nonce ciphertext of
         Inl e \<Rightarrow> Inl (if exn_class e \<in> {''InvalidTag'', ''ValueError''} then EnvelopeDecryptionError else e)
       | Inr plaintext \<Rightarrow> Inr plaintext))))))"

text \<open>
  What the code relies on of the package: unwrapping undoes wrapping under the same key, and
  decryption undoes encryption under the same key and nonce.
\<close>

definition crypto_ok :: "crypto \<Rightarrow> bool" where
  "crypto_ok cr \<longleftrightarrow>
     (\<forall>kek dek. length kek \<in> set AES_KEY_SIZES_BYTES \<longrightarrow> length dek = DATA_ENCRYPTION_KEY_BYTES \<longrightarrow>
        aes_key_unwrap cr kek (aes_key_wrap cr kek dek) = Inr dek) \<and>
     (\<forall>dek nonce p. length dek = DATA_ENCRYPTION_KEY_BYTES \<longrightarrow> length nonce = AES_GCM_NONCE_BYTES \<longrightarrow>
        gcm_decrypt cr dek nonce (gcm_encrypt cr dek nonce p) = Inr p)"

definition draws_ok :: "bytes \<Rightarrow> bytes \<Rightarrow> bool" where
  "draws_ok dek nonce \<longleftrightarrow> length dek = DATA_ENCRYPTION_KEY_BYTES \<and> length nonce = AES_GCM_NONCE_BYTES"

lemma envelope_roundtrip_lemma:
  assumes "crypto_ok cr" and "draws_ok dek nonce" and "length kek \<in> set AES_KEY_SIZES_BYTES"
  shows "\<exists>t. encrypt_with_envelope cr dek nonce p kek = Inr t \<and> decrypt_with_envelope cr t kek = Inr p"
  using assms
  by (simp add: encrypt_with_envelope_def decrypt_with_envelope_def wrap_data_encryption_key_def
      unwrap_data_encryption_key_def validate_dek_def validate_aes_key_def envelope_decode_payload_def
      envelope_decode_bytes_def json_loads_def dict_get_def b64_roundtrip crypto_ok_def draws_ok_def)

end
