(* ===== verification/Accounts.thy ===== *)
theory Accounts
  imports Envelope Settings
begin

text \<open>
  \<open>tca/auth/unlock_modes.py\<close>, \<open>kdf.py\<close>, \<open>key_material.py\<close>, \<open>account_storage.py\<close>,
  \<open>session_storage.py\<close> and \<open>tca/telegram/account_loader.py\<close>: the unlock state of the process, the
  key-encryption key derived from the unlock secret and a stored salt, and the encrypted columns of the accounts.
  \<open>hash_secret_raw\<close> of the \<open>argon2\<close> package is the parameter \<open>argon2id\<close>; random bytes are arguments.
\<close>

section \<open>The unlock state\<close>

record unlock_state =
  us_mode :: string
  us_secret :: "string option"

definition initial_unlock_state :: unlock_state where
  "initial_unlock_state = \<lparr> us_mode = ''secure-interactive'', us_secret = None \<rparr>"

abbreviation SensitiveOperationLockedError :: exn where
  "SensitiveOperationLockedError \<equiv>
     Exn ''SensitiveOperationLockedError'' ''Sensitive operations are locked. Run an unlock action first.''"

abbreviation StartupUnlockModeError :: "string \<Rightarrow> exn" where
  "StartupUnlockModeError \<equiv> Exn ''StartupUnlockModeError''"

definition lock :: "string \<Rightarrow> (unlock_state, unit) act" where
  "lock mode = act_modify (\<lambda>s. s\<lparr> us_mode := mode, us_secret := None \<rparr>)"

definition unlock_with_passphrase :: "string \<Rightarrow> (unlock_state, unit) act" where
  "unlock_with_passphrase passphrase =
     (if passphrase = [] then act_raise (ValueError ''Unlock passphrase cannot be empty.'')
      else act_modify (\<lambda>s. s\<lparr> us_secret := Some passphrase \<rparr>))"

definition require_unlocked :: "unlock_state \<Rightarrow> unit res" where
  "require_unlocked s = (if us_secret s = None then Inl SensitiveOperationLockedError else Inr ())"

definition get_sensitive_operation_secret :: "unlock_state \<Rightarrow> string res" where
  "get_sensitive_operation_secret s =
     res_bind (require_unlocked s) (\<lambda>_.
       case us_secret s of None \<Rightarrow> Inl SensitiveOperationLockedError | Some secret \<Rightarrow> Inr secret)"

text \<open>What reading the configured secret file gives.\<close>

datatype secret_file = FileMissing | FileUnreadable | FileText string

definition read_auto_unlock_secret_file :: "secret_file \<Rightarrow> string res" where
  "read_auto_unlock_secret_file f =
     (case f of
        FileMissing \<Rightarrow> Inl (StartupUnlockModeError ''Startup unlock failed: configured auto-unlock secret file was not found'')
      | FileUnreadable \<Rightarrow> Inl (StartupUnlockModeError ''Startup unlock failed: unable to read auto-unlock secret file'')
      | FileText secret \<Rightarrow>
          let normalized = py_strip secret in
          if normalized = []
          then Inl (StartupUnlockModeError ''Startup unlock failed: auto-unlock secret file is empty'')
          else Inr normalized)"

definition initialize_startup_unlock_mode :: "string \<Rightarrow> secret_file option \<Rightarrow> (unlock_state, unit) act" where
  "initialize_startup_unlock_mode mode file =
     act_bind (lock mode) (\<lambda>_.
       if mode = ''secure-interactive'' then act_return ()
       else if mode \<noteq> ''auto-unlock'' then act_raise (ValueError ''Unsupported unlock mode'')
       else
         case file of
           None \<Rightarrow> act_raise (StartupUnlockModeError ''Startup unlock failed: secret file is not set'')
         | Some f \<Rightarrow>
             act_bind (act_lift (read_auto_unlock_secret_file f)) unlock_with_passphrase)"

text \<open>\<open>AuthStartupDependency\<close>: \<open>bootstrap\<close> is the outcome of the second startup hook.\<close>

definition auth_startup :: "string \<Rightarrow> secret_file option \<Rightarrow> unit res \<Rightarrow> (unlock_state, unit) act" where
  "auth_startup mode file bootstrap =
     act_bind (initialize_startup_unlock_mode mode file) (\<lambda>_.
       act_catch (act_lift bootstrap)
         (\<lambda>e. act_bind (\<lambda>s. lock (us_mode s) s) (\<lambda>_. act_raise e)))"

section \<open>The key-encryption key\<close>

definition ARGON2ID_SALT_BYTES :: nat where "ARGON2ID_SALT_BYTES = 16"
definition AUTH_KEY_SALT_SETTING :: string where "AUTH_KEY_SALT_SETTING = ''auth.kek_salt''"

abbreviation KeyMaterialError :: "string \<Rightarrow> exn" where
  "KeyMaterialError \<equiv> Exn ''KeyMaterialError''"

definition derive_key_encryption_key :: "(bytes \<Rightarrow> bytes \<Rightarrow> bytes) \<Rightarrow> string \<Rightarrow> bytes \<Rightarrow> bytes res" where
  "derive_key_encryption_key argon2id passphrase salt =
     (if length salt \<noteq> ARGON2ID_SALT_BYTES then Inl (ValueError ''salt must be exactly 16 bytes.'')
      else Inr (argon2id (utf8_encode passphrase) salt))"

definition decode_salt :: "pyobj \<Rightarrow> bytes res" where
  "decode_salt v =
     (case as_str v of
        None \<Rightarrow> Inl (KeyMaterialError ''Stored auth key salt is invalid: expected base64-encoded string'')
      | Some s \<Rightarrow>
         (case b64decode s of
            None \<Rightarrow> Inl (KeyMaterialError ''Stored auth key salt is invalid: invalid base64 payload'')
          | Some decoded \<Rightarrow>
              if length decoded \<noteq> ARGON2ID_SALT_BYTES
              then Inl (KeyMaterialError ''Stored auth key salt is invalid: unexpected salt length'')
              else Inr decoded))"

definition get_or_create_kek_salt :: "bytes \<Rightarrow> (db, bytes) act" where
  "get_or_create_kek_salt new_salt =
     act_bind (act_read (setting_get_by_key AUTH_KEY_SALT_SETTING)) (\<lambda>existing.
       case existing of
         Some r \<Rightarrow> act_lift (decode_salt (sr_value r))
       | None \<Rightarrow>
          act_bind
            (act_catch
              (act_bind (setting_create AUTH_KEY_SALT_SETTING (PStr (b64encode new_salt)))
                (\<lambda>_. act_return (Some new_salt)))
              (\<lambda>e. if exn_class e = ''SettingAlreadyExistsError'' then act_return None else act_raise e))
            (\<lambda>created.
              case created of
                Some salt \<Rightarrow> act_return salt
              | None \<Rightarrow>
                 act_bind (act_read (setting_get_by_key AUTH_KEY_SALT_SETTING)) (\<lambda>existing.
                   case existing of
                     None \<Rightarrow> act_raise (KeyMaterialError ''Stored auth key salt is missing.'')
                   | Some r \<Rightarrow> act_lift (decode_salt (sr_value r)))))"

definition resolve_key_encryption_key ::
  "(bytes \<Rightarrow> bytes \<Rightarrow> bytes) \<Rightarrow> unlock_state \<Rightarrow> bytes \<Rightarrow> (db, bytes) act" where
  "resolve_key_encryption_key argon2id unlock new_salt =
     act_bind (act_lift (get_sensitive_operation_secret unlock)) (\<lambda>passphrase.
     act_bind (get_or_create_kek_salt new_salt) (\<lambda>salt.
       act_lift (derive_key_encryption_key argon2id passphrase salt)))"

section \<open>Accounts\<close>

record telegram_account_record =
  ta_account_id :: int
  ta_api_id :: int
  ta_api_hash :: string
  ta_phone_number :: "string option"

abbreviation TelegramAccountStorageError :: "string \<Rightarrow> exn" where
  "TelegramAccountStorageError \<equiv> Exn ''TelegramAccountStorageError''"

definition new_account :: "int \<Rightarrow> jtext \<Rightarrow> string option \<Rightarrow> db \<Rightarrow> account_row" where
  "new_account api_id enc phone d =
     \<lparr> acc_id = sql_next_id (map acc_id (accounts d)), acc_api_id = api_id, acc_api_hash_encrypted = enc,
       acc_phone_number = phone, acc_session_encrypted = None, acc_key_version = 1, acc_paused_at = None,
       acc_pause_reason = None, acc_created_at = current_timestamp d, acc_updated_at = current_timestamp d \<rparr>"

definition upsert_account ::
  "crypto \<Rightarrow> bytes \<Rightarrow> bytes \<Rightarrow> int \<Rightarrow> string \<Rightarrow> string option \<Rightarrow> bytes \<Rightarrow> (db, int) act" where
  "upsert_account cr dek nonce api_id api_hash phone kek =
     act_bind (act_lift (encrypt_with_envelope cr dek nonce (utf8_encode api_hash) kek)) (\<lambda>enc.
       transaction (\<lambda>d.
         let hit = (\<lambda>r. phone \<noteq> None \<and> acc_phone_number r = phone);
             d1 = d\<lparr> accounts := update_where hit
                 (\<lambda>r. r\<lparr> acc_api_id := api_id, acc_api_hash_encrypted := enc, acc_phone_number := phone,
                        acc_updated_at := current_timestamp d \<rparr>) (accounts d) \<rparr> in
         case one_or_none (filter hit (accounts d)) of
           Inl e \<Rightarrow> (Inl e, d1)
         | Inr (Some r) \<Rightarrow> (Inr (acc_id r), d1)
         | Inr None \<Rightarrow>
             (Inr (acc_id (new_account api_id enc phone d)),
              d\<lparr> accounts := accounts d @ [new_account api_id enc phone d] \<rparr>)))"

definition decode_utf8_or :: "exn \<Rightarrow> bytes \<Rightarrow> string res" where
  "decode_utf8_or e bs = (case utf8_decode bs of None \<Rightarrow> Inl e | Some s \<Rightarrow> Inr s)"

definition decode_account_row :: "crypto \<Rightarrow> bytes \<Rightarrow> account_row \<Rightarrow> telegram_account_record res" where
  "decode_account_row cr kek r =
     res_bind (decrypt_with_envelope cr (acc_api_hash_encrypted r) kek) (\<lambda>plaintext.
     res_bind (decode_utf8_or (TelegramAccountStorageError
         ''Telegram account payload invalid: api_hash payload is not valid UTF-8 text'') plaintext) (\<lambda>api_hash.
       Inr \<lparr> ta_account_id = acc_id r, ta_api_id = acc_api_id r, ta_api_hash = api_hash,
             ta_phone_number = acc_phone_number r \<rparr>))"

definition list_accounts :: "crypto \<Rightarrow> bytes \<Rightarrow> db \<Rightarrow> telegram_account_record list res" where
  "list_accounts cr kek d = res_map (decode_account_row cr kek) (sort_key acc_id (accounts d))"

definition get_account_id_by_phone_number :: "string \<Rightarrow> db \<Rightarrow> int option res" where
  "get_account_id_by_phone_number phone d =
     res_bind (one_or_none (filter (\<lambda>r. acc_phone_number r = Some phone) (accounts d))) (\<lambda>row.
       Inr (map_option acc_id row))"

section \<open>Sessions\<close>

abbreviation TelegramAccountNotFoundError :: exn where
  "TelegramAccountNotFoundError \<equiv>
     Exn ''TelegramAccountNotFoundError'' ''Unable to access Telegram session: no account row exists''"

abbreviation TelegramSessionStorageError :: "string \<Rightarrow> exn" where
  "TelegramSessionStorageError \<equiv> Exn ''TelegramSessionStorageError''"

definition persist_session ::
  "crypto \<Rightarrow> bytes \<Rightarrow> bytes \<Rightarrow> int \<Rightarrow> string \<Rightarrow> bytes \<Rightarrow> (db, unit) act" where
  "persist_session cr dek nonce account_id string_session kek =
     act_bind (act_lift (encrypt_with_envelope cr dek nonce (utf8_encode string_session) kek)) (\<lambda>enc.
     act_bind
       (transaction (\<lambda>d.
          (one_or_none (filter (\<lambda>r. acc_id r = account_id) (accounts d)),
           d\<lparr> accounts := update_where (\<lambda>r. acc_id r = account_id)
               (\<lambda>r. r\<lparr> acc_session_encrypted := Some enc, acc_updated_at := current_timestamp d \<rparr>)
               (accounts d) \<rparr>)))
       (\<lambda>row. if row = None then act_raise TelegramAccountNotFoundError else act_return ()))"

definition load_session :: "crypto \<Rightarrow> int \<Rightarrow> bytes \<Rightarrow> db \<Rightarrow> string option res" where
  "load_session cr account_id kek d =
     res_bind (one_or_none (filter (\<lambda>r. acc_id r = account_id) (accounts d))) (\<lambda>row.
       case row of
         None \<Rightarrow> Inl TelegramAccountNotFoundError
       | Some r \<Rightarrow>
          (case acc_session_encrypted r of
             None \<Rightarrow> Inr None
           | Some payload \<Rightarrow>
               res_bind (decrypt_with_envelope cr payload kek) (\<lambda>plaintext.
               res_bind (decode_utf8_or (TelegramSessionStorageError
                   ''Stored Telegram session payload is not valid UTF-8 text.'') plaintext) (\<lambda>s.
                 Inr (Some s)))))"

text \<open>\<open>TelegramAccountLoader\<close>: each account with its session.\<close>

definition load_accounts :: "crypto \<Rightarrow> bytes \<Rightarrow> db \<Rightarrow> (telegram_account_record \<times> string option) list res" where
  "load_accounts cr kek d =
     res_bind (list_accounts cr kek d) (\<lambda>accts.
       res_map (\<lambda>a. res_bind (load_session cr (ta_account_id a) kek d) (\<lambda>s. Inr (a, s))) accts)"

section \<open>Lemmas\<close>

definition account_of :: "db \<Rightarrow> int \<Rightarrow> account_row option" where
  "account_of d i = find (\<lambda>r. acc_id r = i) (accounts d)"

definition phones_ok :: "db \<Rightarrow> bool" where
  "phones_ok d \<longleftrightarrow> db_ok d \<and> unique_opt acc_phone_number (accounts d)"

lemma load_session_of:
  assumes "db_ok d"
  shows "load_session cr i kek d =
    (case account_of d i of
       None \<Rightarrow> Inl TelegramAccountNotFoundError
     | Some r \<Rightarrow>
        (case acc_session_encrypted r of
           None \<Rightarrow> Inr None
         | Some payload \<Rightarrow>
             res_bind (decrypt_with_envelope cr payload kek) (\<lambda>plaintext.
             res_bind (decode_utf8_or (TelegramSessionStorageError
                 ''Stored Telegram session payload is not valid UTF-8 text.'') plaintext) (\<lambda>s.
               Inr (Some s)))))"
  using assms by (simp add: load_session_def one_or_none_key db_ok_defs pk_def account_of_def)

lemma accounts_update_ok:
  assumes "db_ok d" and "\<And>r. acc_id (f r) = acc_id r"
  shows "db_ok (d\<lparr> accounts := update_where p f (accounts d) \<rparr>)"
  using assms by (simp add: db_ok_defs table_simps image_update_where)

lemma account_of_update:
  assumes "\<And>r. acc_id (f r) = acc_id r"
  shows "account_of (d\<lparr> accounts := update_where (\<lambda>r. acc_id r = i) f (accounts d) \<rparr>) j =
    (if j = i then map_option f (account_of d i) else account_of d j)"
  using assms by (simp add: account_of_def find_update_key)

lemma persist_session_eq:
  assumes "db_ok d" and "crypto_ok cr" and "draws_ok dek nonce" and "length kek \<in> set AES_KEY_SIZES_BYTES"
    and "account_of d i = Some r"
  shows "\<exists>d'. persist_session cr dek nonce i s kek d = (Inr (), d') \<and> db_ok d' \<and>
    load_session cr i kek d' = Inr (Some s) \<and> (\<forall>j. j \<noteq> i \<longrightarrow> account_of d' j = account_of d j) \<and>
    (\<exists>r'. account_of d' i = Some r' \<and> acc_phone_number r' = acc_phone_number r \<and> acc_api_id r' = acc_api_id r \<and>
       acc_api_hash_encrypted r' = acc_api_hash_encrypted r) \<and>
    map acc_phone_number (accounts d') = map acc_phone_number (accounts d) \<and> settings d' = settings d"
proof -
  from envelope_roundtrip_lemma [OF assms(2-4)] obtain t where
    t: "encrypt_with_envelope cr dek nonce (utf8_encode s) kek = Inr t" "decrypt_with_envelope cr t kek = Inr (utf8_encode s)"
    by blast
  let ?f = "\<lambda>r. r\<lparr> acc_session_encrypted := Some t, acc_updated_at := current_timestamp d \<rparr>"
  let ?d = "d\<lparr> accounts := update_where (\<lambda>r. acc_id r = i) ?f (accounts d) \<rparr>"
  have ok: "db_ok ?d" by (rule accounts_update_ok [OF assms(1)]) simp
  have "one_or_none (filter (\<lambda>r. acc_id r = i) (accounts d)) = Inr (Some r)"
    using assms(1,5) by (simp add: one_or_none_key db_ok_defs pk_def account_of_def)
  then have "persist_session cr dek nonce i s kek d = (Inr (), ?d)"
    using t(1) by (simp add: persist_session_def act_simps)
  moreover have at: "account_of ?d j = (if j = i then Some (?f r) else account_of d j)" for j
    using account_of_update [where f = ?f and d = d and i = i and j = j] assms(5) by simp
  moreover have "load_session cr i kek ?d = Inr (Some s)"
    unfolding load_session_of [OF ok] at by (simp add: t(2) decode_utf8_or_def utf8_roundtrip)
  moreover have "map acc_phone_number (accounts ?d) = map acc_phone_number (accounts d)"
    by (simp add: table_simps)
  ultimately show ?thesis using ok by (intro exI [of _ ?d]) simp
qed

lemma unique_opt_find:
  assumes "unique_opt k rows"
  shows "one_or_none (filter (\<lambda>r. k r = Some v) rows) = Inr (find (\<lambda>r. k r = Some v) rows)"
  using assms
proof (induction rows)
  case (Cons r rows)
  have "filter (\<lambda>r. k r = Some v) rows = []" if "k r = Some v"
    using Cons.prems that by (auto simp: unique_opt_Cons filter_empty_conv image_iff eq_commute)
  with Cons show ?case by (auto simp: unique_opt_Cons)
qed simp

definition phone_owner :: "string \<Rightarrow> db \<Rightarrow> account_row option" where
  "phone_owner p d = find (\<lambda>r. acc_phone_number r = Some p) (accounts d)"

lemma get_account_id_of:
  "phones_ok d \<Longrightarrow> get_account_id_by_phone_number p d = Inr (map_option acc_id (phone_owner p d))"
  by (simp add: get_account_id_by_phone_number_def unique_opt_find phones_ok_def phone_owner_def)

lemma phone_owner_row:
  assumes "phones_ok d" and "phone_owner p d = Some r"
  shows "account_of d (acc_id r) = Some r" "acc_phone_number r = Some p"
    and "x \<in> set (accounts d) \<Longrightarrow> acc_phone_number x = Some p \<longleftrightarrow> acc_id x = acc_id r"
proof -
  have r: "r \<in> set (accounts d)" "acc_phone_number r = Some p"
    using assms(2) by (auto simp: phone_owner_def find_Some_iff)
  then show "acc_phone_number r = Some p" by simp
  have pk: "pk acc_id (accounts d)" using assms(1) by (simp add: phones_ok_def db_ok_defs)
  then show "account_of d (acc_id r) = Some r"
    using r find_key_in [of acc_id "accounts d" r] by (simp add: account_of_def pk_def)
  have one: "filter (\<lambda>r. acc_phone_number r = Some p) (accounts d) = [r]"
  proof -
    have "one_or_none (filter (\<lambda>r. acc_phone_number r = Some p) (accounts d)) = Inr (Some r)"
      using assms by (simp add: unique_opt_find phones_ok_def phone_owner_def)
    then show ?thesis by (cases "filter (\<lambda>r. acc_phone_number r = Some p) (accounts d)" rule: one_or_none.cases) simp_all
  qed
  show "acc_phone_number x = Some p \<longleftrightarrow> acc_id x = acc_id r" if "x \<in> set (accounts d)"
  proof
    assume "acc_phone_number x = Some p"
    then have "x \<in> set (filter (\<lambda>r. acc_phone_number r = Some p) (accounts d))" using that by simp
    then show "acc_id x = acc_id r" unfolding one by simp
  next
    assume "acc_id x = acc_id r"
    then have "x = r" using that r(1) pk by (auto simp: pk_def distinct_map inj_on_def)
    then show "acc_phone_number x = Some p" using r(2) by simp
  qed
qed

lemma upsert_account_known:
  assumes "phones_ok d" and "phone_owner p d = Some r" and "encrypt_with_envelope cr dek nonce (utf8_encode h) kek = Inr t"
  shows "upsert_account cr dek nonce api h (Some p) kek d =
    (Inr (acc_id r), d\<lparr> accounts := update_where (\<lambda>x. acc_id x = acc_id r)
       (\<lambda>x. x\<lparr> acc_api_id := api, acc_api_hash_encrypted := t, acc_phone_number := Some p,
              acc_updated_at := current_timestamp d \<rparr>) (accounts d) \<rparr>)"
proof -
  have same: "update_where (\<lambda>x. acc_phone_number x = Some p) f (accounts d) =
      update_where (\<lambda>x. acc_id x = acc_id r) f (accounts d)" for f
    unfolding update_where_def using phone_owner_row(3) [OF assms(1,2)] by (intro map_cong) auto
  have "one_or_none (filter (\<lambda>r. acc_phone_number r = Some p) (accounts d)) = Inr (Some r)"
    using assms by (simp add: unique_opt_find phones_ok_def phone_owner_def)
  then show ?thesis using assms(3) by (simp add: upsert_account_def act_simps Let_def same)
qed

lemma upsert_account_new:
  assumes "phones_ok d" and "phone_owner p d = None" and "encrypt_with_envelope cr dek nonce (utf8_encode h) kek = Inr t"
  shows "upsert_account cr dek nonce api h (Some p) kek d =
    (Inr (acc_id (new_account api t (Some p) d)),
     d\<lparr> accounts := accounts d @ [new_account api t (Some p) d] \<rparr>)"
proof -
  have "one_or_none (filter (\<lambda>r. acc_phone_number r = Some p) (accounts d)) = Inr None"
    using assms by (simp add: unique_opt_find phones_ok_def phone_owner_def)
  then show ?thesis using assms(3) by (simp add: upsert_account_def act_simps Let_def)
qed

lemma append_account_ok:
  assumes "phones_ok d" and "phone_owner p d = None"
  shows "phones_ok (d\<lparr> accounts := accounts d @ [new_account api t (Some p) d] \<rparr>)"
proof -
  have "Some p \<notin> acc_phone_number ` set (accounts d)"
    using assms(2) by (auto simp: phone_owner_def find_None_iff)
  moreover have "fk ch_account_id (channels d) (insert x (account_ids d))" if "db_ok d" for x
    using that by (auto simp: db_ok_defs fk_def)
  ultimately show ?thesis
    using assms(1) by (simp add: phones_ok_def db_ok_defs table_simps new_account_def)
qed

lemma upsert_account_ok:
  assumes "phones_ok d" and "crypto_ok cr" and "draws_ok dek nonce" and "length kek \<in> set AES_KEY_SIZES_BYTES"
  shows "\<exists>i d' r. upsert_account cr dek nonce api h (Some p) kek d = (Inr i, d') \<and> phones_ok d' \<and>
    account_of d' i = Some r \<and> acc_phone_number r = Some p \<and> acc_api_id r = api \<and>
    decrypt_with_envelope cr (acc_api_hash_encrypted r) kek = Inr (utf8_encode h) \<and>
    (\<forall>j. j \<noteq> i \<longrightarrow> account_of d' j = account_of d j) \<and> settings d' = settings d \<and>
    (case phone_owner p d of None \<Rightarrow> account_of d i = None | Some old \<Rightarrow> i = acc_id old)"
proof -
  from envelope_roundtrip_lemma [OF assms(2-4)] obtain t where
    t: "encrypt_with_envelope cr dek nonce (utf8_encode h) kek = Inr t" "decrypt_with_envelope cr t kek = Inr (utf8_encode h)"
    by blast
  show ?thesis
  proof (cases "phone_owner p d")
    case None
    let ?a = "new_account api t (Some p) d"
    have "account_of d (acc_id ?a) = None" by (simp add: account_of_def find_key_None new_account_def)
    then show ?thesis
      unfolding upsert_account_new [OF assms(1) None t(1)] using append_account_ok [OF assms(1) None, of api t] t(2) None
      by (auto simp: account_of_def find_append new_account_def split: option.split)
  next
    case (Some old)
    let ?f = "\<lambda>x. x\<lparr> acc_api_id := api, acc_api_hash_encrypted := t, acc_phone_number := Some p,
        acc_updated_at := current_timestamp d \<rparr>"
    let ?d = "d\<lparr> accounts := update_where (\<lambda>x. acc_id x = acc_id old) ?f (accounts d) \<rparr>"
    have at: "account_of ?d j = (if j = acc_id old then Some (?f old) else account_of d j)" for j
      using account_of_update [where f = ?f and d = d and i = "acc_id old" and j = j] phone_owner_row(1) [OF assms(1) Some]
      by simp
    have "map acc_phone_number (update_where (\<lambda>x. acc_id x = acc_id old) ?f (accounts d)) = map acc_phone_number (accounts d)"
      using phone_owner_row(3) [OF assms(1) Some] by (intro map_update_where) (metis account_row.select_convs(4) account_row.surjective account_row.update_convs(2,3,4,10))
    then have "phones_ok ?d"
      using assms(1) unique_opt_map_cong accounts_update_ok [of d ?f] by (fastforce simp: phones_ok_def)
    then show ?thesis
      unfolding upsert_account_known [OF assms(1) Some t(1)] using at t(2) Some by auto
  qed
qed

lemma salt_roundtrip: "length salt = ARGON2ID_SALT_BYTES \<Longrightarrow> decode_salt (PStr (b64encode salt)) = Inr salt"
  by (simp add: decode_salt_def b64_roundtrip)

lemma stored_salt_read:
  assumes "settings_ok d" and "setting_value d AUTH_KEY_SALT_SETTING = Some v"
  shows "get_or_create_kek_salt new d = (decode_salt v, d)"
  using assms by (simp add: get_or_create_kek_salt_def act_simps setting_get_by_key_value)

lemma missing_salt_created:
  assumes "settings_ok d" and "setting_value d AUTH_KEY_SALT_SETTING = None"
  shows "get_or_create_kek_salt new d =
    (Inr new, append_setting AUTH_KEY_SALT_SETTING (PStr (b64encode new)) d)"
  using assms by (simp add: get_or_create_kek_salt_def act_simps setting_get_by_key_value setting_create_eq)

lemma kek_salt_kept:
  assumes "settings_ok d" and "length new = ARGON2ID_SALT_BYTES" and "get_or_create_kek_salt new d = (Inr salt, d')"
  shows "settings_ok d' \<and> accounts d' = accounts d \<and>
    (\<exists>v. setting_value d' AUTH_KEY_SALT_SETTING = Some v \<and> decode_salt v = Inr salt)"
proof (cases "setting_value d AUTH_KEY_SALT_SETTING")
  case None
  then show ?thesis
    using assms missing_salt_created [OF assms(1) None, of new] append_setting_value [OF assms(1), of "PStr (b64encode new)"]
    by (auto simp: salt_roundtrip append_setting_def)
next
  case (Some v)
  then show ?thesis using assms stored_salt_read [OF assms(1) Some, of new] by auto
qed

lemma store_account_and_session:
  assumes "phones_ok d" and "crypto_ok cr" and "draws_ok dek nonce" and "draws_ok dek' nonce'"
    and "length kek \<in> set AES_KEY_SIZES_BYTES"
  shows "\<exists>i d1 d2 r. upsert_account cr dek nonce api h (Some p) kek d = (Inr i, d1) \<and>
    persist_session cr dek' nonce' i s kek d1 = (Inr (), d2) \<and> phones_ok d2 \<and>
    load_session cr i kek d2 = Inr (Some s) \<and> get_account_id_by_phone_number p d2 = Inr (Some i) \<and>
    account_of d2 i = Some r \<and> decode_account_row cr kek r =
      Inr \<lparr> ta_account_id = i, ta_api_id = api, ta_api_hash = h, ta_phone_number = Some p \<rparr> \<and>
    (\<forall>j. j \<noteq> i \<longrightarrow> account_of d2 j = account_of d j) \<and> settings d2 = settings d \<and>
    (case phone_owner p d of None \<Rightarrow> account_of d i = None | Some old \<Rightarrow> i = acc_id old)"
proof -
  from upsert_account_ok [OF assms(1-3,5)] obtain i d1 r where up: "upsert_account cr dek nonce api h (Some p) kek d = (Inr i, d1)"
    "phones_ok d1" "account_of d1 i = Some r" "acc_phone_number r = Some p" "acc_api_id r = api"
    "decrypt_with_envelope cr (acc_api_hash_encrypted r) kek = Inr (utf8_encode h)"
    "\<forall>j. j \<noteq> i \<longrightarrow> account_of d1 j = account_of d j" "settings d1 = settings d"
    "case phone_owner p d of None \<Rightarrow> account_of d i = None | Some old \<Rightarrow> i = acc_id old" by blast
  have "db_ok d1" using up(2) by (simp add: phones_ok_def)
  from persist_session_eq [OF this assms(2,4,5) up(3), of s] obtain d2 r2 where st: "persist_session cr dek' nonce' i s kek d1 = (Inr (), d2)"
    "db_ok d2" "load_session cr i kek d2 = Inr (Some s)" "\<forall>j. j \<noteq> i \<longrightarrow> account_of d2 j = account_of d1 j"
    "account_of d2 i = Some r2" "acc_phone_number r2 = acc_phone_number r" "acc_api_id r2 = acc_api_id r"
    "acc_api_hash_encrypted r2 = acc_api_hash_encrypted r" "map acc_phone_number (accounts d2) = map acc_phone_number (accounts d1)" "settings d2 = settings d1"
    by blast
  have phones: "phones_ok d2" using st(2,9) up(2) unique_opt_map_cong by (fastforce simp: phones_ok_def)
  have r2: "r2 \<in> set (accounts d2)" "acc_id r2 = i" using find_key_Some [OF st(5) [unfolded account_of_def]] by auto
  moreover have "acc_phone_number r2 = Some p" using st(6) up(4) by simp
  ultimately have "phone_owner p d2 \<noteq> None" by (auto simp: phone_owner_def find_None_iff)
  then obtain o' where own: "phone_owner p d2 = Some o'" by blast
  then have "acc_id o' = i" using phone_owner_row(3) [OF phones own r2(1)] st(6) up(4) r2(2) by simp
  then have "get_account_id_by_phone_number p d2 = Inr (Some i)" using get_account_id_of [OF phones] own by simp
  moreover have "decode_account_row cr kek r2 =
      Inr \<lparr> ta_account_id = i, ta_api_id = api, ta_api_hash = h, ta_phone_number = Some p \<rparr>"
    using st(6-8) up(4-6) r2(2) by (simp add: decode_account_row_def decode_utf8_or_def utf8_roundtrip)
  ultimately show ?thesis using up st phones by (intro exI [of _ i] exI [of _ d1] exI [of _ d2] exI [of _ r2]) simp
qed

section \<open>Properties\<close>

text \<open>
  The key-encryption key is a function of the unlock secret and of the stored salt. A first
  call on a database without a salt stores the one it drew and returns. After any call that
  returned, in any later state in which the salt setting is still there, a process unlocked with the same
  secret derives the same key, whatever it draws, and changes nothing; a locked process is refused.
\<close>

lemma kek_survives_restart:
  assumes "settings_ok d" and "length new = ARGON2ID_SALT_BYTES"
    and "us_secret u = Some p" and "us_secret u' = Some p" and "us_secret locked = None"
  shows "(setting_value d AUTH_KEY_SALT_SETTING = None \<longrightarrow>
      (\<exists>d'. resolve_key_encryption_key argon2id u new d = (Inr (argon2id (utf8_encode p) new), d'))) \<and>
    (\<forall>k d'. resolve_key_encryption_key argon2id u new d = (Inr k, d') \<longrightarrow> settings_ok d' \<and>
      (\<forall>other later. settings_ok later \<and> setting_value later AUTH_KEY_SALT_SETTING = setting_value d' AUTH_KEY_SALT_SETTING \<longrightarrow>
        resolve_key_encryption_key argon2id u' other later = (Inr k, later))) \<and>
    resolve_key_encryption_key argon2id locked new d = (Inl SensitiveOperationLockedError, d)"
proof (intro conjI allI impI)
  show "\<exists>d'. resolve_key_encryption_key argon2id u new d = (Inr (argon2id (utf8_encode p) new), d')"
    if "setting_value d AUTH_KEY_SALT_SETTING = None"
    using that assms
    by (simp add: resolve_key_encryption_key_def act_simps get_sensitive_operation_secret_def require_unlocked_def
        missing_salt_created derive_key_encryption_key_def)
  show "resolve_key_encryption_key argon2id locked new d = (Inl SensitiveOperationLockedError, d)"
    using assms(5) by (simp add: resolve_key_encryption_key_def act_simps get_sensitive_operation_secret_def require_unlocked_def)
  fix k d' assume "resolve_key_encryption_key argon2id u new d = (Inr k, d')"
  then obtain salt where salt: "get_or_create_kek_salt new d = (Inr salt, d')"
      and k: "derive_key_encryption_key argon2id p salt = Inr k"
    using assms(3) by (auto simp: resolve_key_encryption_key_def act_bind_Inr act_lift_def
        get_sensitive_operation_secret_def require_unlocked_def)
  from kek_salt_kept [OF assms(1,2) salt] show "settings_ok d'" by simp
  from kek_salt_kept [OF assms(1,2) salt] obtain v where
    v: "setting_value d' AUTH_KEY_SALT_SETTING = Some v" "decode_salt v = Inr salt" by blast
  fix other later
  assume "settings_ok later \<and> setting_value later AUTH_KEY_SALT_SETTING = setting_value d' AUTH_KEY_SALT_SETTING"
  then show "resolve_key_encryption_key argon2id u' other later = (Inr k, later)"
    using stored_salt_read [of later v other] v k assms(4)
    by (simp add: resolve_key_encryption_key_def act_simps get_sensitive_operation_secret_def require_unlocked_def)
qed

lemma kek_survives_restart_witness:
  "\<exists>d'. resolve_key_encryption_key (\<lambda>p s. s @ s) \<lparr> us_mode = ''auto-unlock'', us_secret = Some ''pw'' \<rparr>
      (replicate 16 7) (empty_db 0) = (Inr (replicate 32 7), d') \<and>
    resolve_key_encryption_key (\<lambda>p s. s @ s) \<lparr> us_mode = ''secure-interactive'', us_secret = Some ''pw'' \<rparr>
      (replicate 16 9) d' = (Inr (replicate 32 7), d')"
proof -
  let ?a = "\<lambda>p s :: bytes. s @ s" and ?u = "\<lparr> us_mode = ''auto-unlock'', us_secret = Some ''pw'' \<rparr>"
    and ?u' = "\<lparr> us_mode = ''secure-interactive'', us_secret = Some ''pw'' \<rparr>"
  have ok: "settings_ok (empty_db 0)" "length (replicate 16 (7 :: 8 word)) = ARGON2ID_SALT_BYTES"
    "setting_value (empty_db 0) AUTH_KEY_SALT_SETTING = None" by code_simp+
  have two: "replicate 16 (7 :: 8 word) @ replicate 16 7 = replicate 32 7" by (simp flip: replicate_add)
  note stable = kek_survives_restart [OF ok(1,2), of ?u "''pw''" ?u' "initial_unlock_state" ?a]
  then obtain d' where "resolve_key_encryption_key ?a ?u (replicate 16 7) (empty_db 0) = (Inr (replicate 32 7), d')"
    using ok(3) two by (auto simp: initial_unlock_state_def)
  with stable show ?thesis by (auto simp: initial_unlock_state_def)
qed

text \<open>
  Stored credentials: with a cipher that decrypts what it encrypted, storing an account and its
  session under a key and loading them under the same key gives them back. A phone number that is
  already stored keeps its account id, a new one gets a new id; the other accounts are not touched.
\<close>

lemma account_session_roundtrip:
  assumes "phones_ok d" and "crypto_ok cr" and "draws_ok dek nonce" and "draws_ok dek' nonce'"
    and "length kek \<in> set AES_KEY_SIZES_BYTES"
  shows "\<exists>i d1 d2 r. upsert_account cr dek nonce api h (Some p) kek d = (Inr i, d1) \<and>
    persist_session cr dek' nonce' i s kek d1 = (Inr (), d2) \<and> phones_ok d2 \<and>
    load_session cr i kek d2 = Inr (Some s) \<and> get_account_id_by_phone_number p d2 = Inr (Some i) \<and>
    account_of d2 i = Some r \<and> decode_account_row cr kek r =
      Inr \<lparr> ta_account_id = i, ta_api_id = api, ta_api_hash = h, ta_phone_number = Some p \<rparr> \<and>
    (\<forall>j. j \<noteq> i \<longrightarrow> account_of d2 j = account_of d j) \<and>
    (case phone_owner p d of None \<Rightarrow> account_of d i = None | Some old \<Rightarrow> i = acc_id old)"
  using store_account_and_session [OF assms, of api h p s] by blast

text \<open>A cipher that leaves everything as it is, to evaluate the theorem on.\<close>

definition sample_crypto :: crypto where
  "sample_crypto =
     \<lparr> aes_key_wrap = (\<lambda>k d. d), aes_key_unwrap = (\<lambda>k w. Inr w),
       gcm_encrypt = (\<lambda>k n p. p), gcm_decrypt = (\<lambda>k n c. Inr c) \<rparr>"

lemma sample_crypto_ok: "crypto_ok sample_crypto"
  by (simp add: crypto_ok_def sample_crypto_def)

lemma account_session_roundtrip_witness:
  "\<exists>i d1 d2. upsert_account sample_crypto (replicate 32 1) (replicate 12 2) 7 ''h'' (Some ''+49'') (replicate 16 3) sample_db = (Inr i, d1) \<and>
    persist_session sample_crypto (replicate 32 4) (replicate 12 5) i ''session'' (replicate 16 3) d1 = (Inr (), d2) \<and>
    load_session sample_crypto i (replicate 16 3) d2 = Inr (Some ''session'')"
proof -
  have "phones_ok sample_db" by code_simp
  moreover have "draws_ok (replicate 32 1) (replicate 12 2)" "draws_ok (replicate 32 4) (replicate 12 5)"
    "length (replicate 16 (3 :: 8 word)) \<in> set AES_KEY_SIZES_BYTES"
    by (simp_all add: draws_ok_def DATA_ENCRYPTION_KEY_BYTES_def AES_GCM_NONCE_BYTES_def AES_KEY_SIZES_BYTES_def)
  ultimately show ?thesis
    using account_session_roundtrip [OF _ sample_crypto_ok, of sample_db "replicate 32 1" "replicate 12 2"
        "replicate 32 4" "replicate 12 5" "replicate 16 3" 7 "''h''" "''+49''" "''session''"] by blast
qed

end
