(* ===== verification/Auth_Flow.thy ===== *)
theory Auth_Flow
  imports Accounts Ingest_Guards
begin

text \<open>
  \<open>tca/auth/auth_session_state.py\<close>, \<open>tca/auth/service.py\<close> and \<open>tca/api/routes/telegram_auth.py\<close>: the
  temporary sessions of a Telegram login and the three handlers that take a login from the phone
  number to a stored account. The Telethon client is the parameter \<open>telegram_client\<close>: what each call
  on it returns or raises. Exceptions are told apart by their class; the attribute \<open>seconds\<close> of an
  exception is the function \<open>en_seconds\<close>. A handler is its run without another request in between;
  each repository call in it commits on its own.
\<close>

section \<open>Auth sessions\<close>

definition AUTH_SESSION_TTL_SECONDS :: int where "AUTH_SESSION_TTL_SECONDS = 900"

record auth_session_state =
  as_session_id :: string
  as_phone_number :: string
  as_status :: string
  as_expires_at :: int
  as_telegram_session :: "string option"

abbreviation AuthSessionStateError :: "string \<Rightarrow> exn" where
  "AuthSessionStateError \<equiv> Exn ''AuthSessionStateError''"

definition session_not_found :: "string \<Rightarrow> exn" where
  "session_not_found session_id = Exn ''AuthSessionStateNotFoundError''
     (''Auth session state not found for session_id='' @ session_id)"

definition session_expired :: "string \<Rightarrow> exn" where
  "session_expired session_id = Exn ''AuthSessionExpiredError''
     (''Auth session state expired for session_id='' @ session_id)"

definition invalid_expiry :: exn where
  "invalid_expiry = Exn ''AuthSessionStateConfigError''
     ''Auth session expiry must use either expires_at or ttl_seconds.''"

definition now_epoch :: "db \<Rightarrow> int" where
  "now_epoch d = clock d div 1000000"

definition is_expired :: "int \<Rightarrow> db \<Rightarrow> bool" where
  "is_expired expires_at d \<longleftrightarrow> expires_at \<le> now_epoch d"

definition auth_session_columns :: "auth_session_row \<Rightarrow> row_map" where
  "auth_session_columns r =
     [(''session_id'', PStr (au_session_id r)), (''phone_number'', PStr (au_phone_number r)),
      (''status'', PStr (au_status r)), (''expires_at'', PInt (au_expires_at r)),
      (''telegram_session'', opt_obj PStr (au_telegram_session r))]"

definition decode_auth_session :: "row_map \<Rightarrow> auth_session_state res" where
  "decode_auth_session row =
     (let str = (\<lambda>f. coerce_str_with (AuthSessionStateError (''Auth session state missing value: '' @ f)) (row_get row f)) in
      res_bind (str ''session_id'') (\<lambda>i.
      res_bind (str ''phone_number'') (\<lambda>p.
      res_bind (str ''status'') (\<lambda>s.
      res_bind (coerce_int_with False (AuthSessionStateError ''Auth session state missing value: expires_at'')
          (row_get row ''expires_at'')) (\<lambda>x.
      res_bind (coerce_opt_with (coerce_str_with (AuthSessionStateError ''Auth session state invalid value: telegram_session''))
          (row_get row ''telegram_session'')) (\<lambda>t.
        Inr \<lparr> as_session_id = i, as_phone_number = p, as_status = s, as_expires_at = x, as_telegram_session = t \<rparr>))))))"

definition create_session ::
  "string \<Rightarrow> string \<Rightarrow> string \<Rightarrow> string option \<Rightarrow> int option \<Rightarrow> int option \<Rightarrow> (db, auth_session_state) act" where
  "create_session session_id phone_number st telegram_session expires_at ttl_seconds =
     act_bind
       (act_read (\<lambda>d.
          case expires_at of
            None \<Rightarrow> Inr (now_epoch d + (case ttl_seconds of None \<Rightarrow> AUTH_SESSION_TTL_SECONDS | Some ttl \<Rightarrow> ttl))
          | Some x \<Rightarrow> if ttl_seconds \<noteq> None then Inl invalid_expiry else Inr x))
       (\<lambda>expires.
     act_bind
       (transaction (\<lambda>d.
          let row = \<lparr> au_session_id = session_id, au_phone_number = phone_number, au_status = st,
                au_expires_at = expires, au_telegram_session = telegram_session,
                au_created_at = current_timestamp d, au_updated_at = current_timestamp d \<rparr> in
          if session_id \<in> au_session_id ` set (auth_sessions d)
          then (Inl (IntegrityError ''UNIQUE constraint failed: auth_session_state.session_id''), d)
          else (Inr row, d\<lparr> auth_sessions := auth_sessions d @ [row] \<rparr>)))
       (\<lambda>row. act_lift (decode_auth_session (auth_session_columns row))))"

definition delete_session :: "string \<Rightarrow> (db, bool) act" where
  "delete_session session_id =
     act_bind
       (transaction (\<lambda>d.
          (one_or_none (filter (\<lambda>r. au_session_id r = session_id) (auth_sessions d)),
           d\<lparr> auth_sessions := delete_where (\<lambda>r. au_session_id r = session_id) (auth_sessions d) \<rparr>)))
       (\<lambda>row. act_return (row \<noteq> None))"

text \<open>The end of \<open>get_session\<close> and of \<open>update_status\<close>: decode, and drop the row when it has expired.\<close>

definition live_or_expired :: "string \<Rightarrow> auth_session_row option \<Rightarrow> (db, auth_session_state) act" where
  "live_or_expired session_id row =
     (case row of
        None \<Rightarrow> act_raise (session_not_found session_id)
      | Some r \<Rightarrow>
         act_bind (act_lift (decode_auth_session (auth_session_columns r))) (\<lambda>state.
         act_bind (act_get (is_expired (as_expires_at state))) (\<lambda>expired.
           if expired
           then act_bind (delete_session session_id) (\<lambda>_. act_raise (session_expired session_id))
           else act_return state)))"

definition get_session :: "string \<Rightarrow> (db, auth_session_state) act" where
  "get_session session_id =
     act_bind (act_read (\<lambda>d. one_or_none (filter (\<lambda>r. au_session_id r = session_id) (auth_sessions d))))
       (live_or_expired session_id)"

definition update_status ::
  "string \<Rightarrow> string \<Rightarrow> string option \<Rightarrow> bool \<Rightarrow> (db, auth_session_state) act" where
  "update_status session_id st telegram_session update_session =
     act_bind
       (transaction (\<lambda>d.
          let d' = d\<lparr> auth_sessions := update_where (\<lambda>r. au_session_id r = session_id)
                (\<lambda>r. (if update_session then r\<lparr> au_telegram_session := telegram_session \<rparr> else r)
                   \<lparr> au_status := st, au_updated_at := current_timestamp d \<rparr>) (auth_sessions d) \<rparr> in
          (one_or_none (filter (\<lambda>r. au_session_id r = session_id) (auth_sessions d')), d')))
       (live_or_expired session_id)"

section \<open>The Telegram client\<close>

text \<open>
  \<open>tc_sign_in_code\<close> and \<open>tc_sign_in_password\<close> are the two uses of \<open>sign_in\<close>; \<open>tc_save\<close> is \<open>None\<close>
  when the client has no session object with a callable \<open>save\<close>, otherwise what that call gives after
  the sign-in attempt.
\<close>

record telegram_client =
  tc_is_connected :: bool
  tc_connect :: "unit res"
  tc_disconnect :: "unit res"
  tc_send_code_request :: "string \<Rightarrow> bool res"
  tc_sign_in_code :: "string \<Rightarrow> string \<Rightarrow> unit res"
  tc_sign_in_password :: "string \<Rightarrow> unit res"
  tc_save :: "pyobj res option"

text \<open>Connect when needed, run the body, and disconnect in the \<open>finally\<close> block.\<close>

definition with_connection :: "telegram_client \<Rightarrow> 'a res \<Rightarrow> 'a res" where
  "with_connection client body =
     (if tc_is_connected client then body
      else res_bind (tc_connect client) (\<lambda>_.
        case tc_disconnect client of Inl e \<Rightarrow> Inl e | Inr _ \<Rightarrow> body))"

definition send_login_code :: "telegram_client \<Rightarrow> string \<Rightarrow> bool res" where
  "send_login_code client phone_number = with_connection client (tc_send_code_request client phone_number)"

definition sign_in_with_code :: "telegram_client \<Rightarrow> string \<Rightarrow> string \<Rightarrow> unit res" where
  "sign_in_with_code client phone_number code = with_connection client (tc_sign_in_code client phone_number code)"

definition sign_in_with_password :: "telegram_client \<Rightarrow> string \<Rightarrow> unit res" where
  "sign_in_with_password client password = with_connection client (tc_sign_in_password client password)"

definition extract_session_string :: "telegram_client \<Rightarrow> string option res" where
  "extract_session_string client =
     (case tc_save client of
        None \<Rightarrow> Inr None
      | Some saved \<Rightarrow> res_bind saved (\<lambda>v.
          case as_str v of None \<Rightarrow> Inr None | Some s \<Rightarrow> Inr (if s = [] then None else Some s)))"

section \<open>Failures\<close>

abbreviation HTTP403 :: "string \<Rightarrow> exn" where "HTTP403 \<equiv> Exn ''HTTPException:403''"
abbreviation HTTP410 :: "string \<Rightarrow> exn" where "HTTP410 \<equiv> Exn ''HTTPException:410''"
abbreviation HTTP423 :: "string \<Rightarrow> exn" where "HTTP423 \<equiv> Exn ''HTTPException:423''"
abbreviation HTTP500 :: "string \<Rightarrow> exn" where "HTTP500 \<equiv> Exn ''HTTPException:500''"
abbreviation HTTP502 :: "string \<Rightarrow> exn" where "HTTP502 \<equiv> Exn ''HTTPException:502''"

definition phone_errors :: "string list" where
  "phone_errors = [''PhoneNumberBannedError'', ''PhoneNumberFloodError'', ''PhoneNumberInvalidError'',
     ''PhoneNumberUnoccupiedError'']"

definition api_id_errors :: "string list" where
  "api_id_errors = [''ApiIdInvalidError'', ''ConnectionApiIdInvalidError'']"

definition invalid_api_credentials_error :: exn where
  "invalid_api_credentials_error = HTTP400 ''Invalid Telegram API credentials.''"
definition otp_request_failed_error :: exn where
  "otp_request_failed_error = HTTP502 ''Unable to send Telegram login code.''"
definition invalid_login_code_error :: exn where
  "invalid_login_code_error = HTTP400 ''Invalid Telegram login code.''"
definition invalid_password_error :: exn where
  "invalid_password_error = HTTP400 ''Invalid Telegram password.''"
definition missing_password_session_error :: exn where
  "missing_password_session_error = HTTP409 ''Auth session missing Telegram session state.''"
definition password_session_capture_error :: exn where
  "password_session_capture_error = HTTP500 ''Unable to capture Telegram auth session.''"
definition sensitive_operation_locked_error :: exn where
  "sensitive_operation_locked_error = HTTP423 ''Sensitive operations are locked. Run an unlock action first.''"
definition expired_login_code_error :: exn where
  "expired_login_code_error = HTTP410 ''Telegram login code expired.''"
definition auth_session_not_found_error :: "string \<Rightarrow> exn" where
  "auth_session_not_found_error session_id = HTTP404 (''Auth session state not found for session_id='' @ session_id)"
definition auth_session_expired_error :: "string \<Rightarrow> exn" where
  "auth_session_expired_error session_id = HTTP410 (''Auth session state expired for session_id='' @ session_id)"
definition auth_session_status_conflict_error :: "string \<Rightarrow> exn" where
  "auth_session_status_conflict_error st = HTTP409 (''Auth session cannot accept login code when status is '' @ st)"
definition auth_session_password_status_conflict_error :: "string \<Rightarrow> exn" where
  "auth_session_password_status_conflict_error st = HTTP409 (''Auth session cannot accept password when status is '' @ st)"
definition auth_registration_blocked_error :: exn where
  "auth_registration_blocked_error = HTTP403 ''Telegram registration/login is blocked. Retry later.''"
definition auth_login_failed_error :: exn where
  "auth_login_failed_error = HTTP400 ''Telegram login failed. Retry after verifying credentials.''"

text \<open>What a request takes from outside: the client factory, the unlock state, the ciphers and the draws.\<close>

record auth_env =
  en_factory :: "int \<Rightarrow> string \<Rightarrow> string option \<Rightarrow> telegram_client res"
  en_seconds :: "exn \<Rightarrow> pyobj"
  en_crypto :: crypto
  en_argon2id :: "bytes \<Rightarrow> bytes \<Rightarrow> bytes"
  en_unlock :: unlock_state
  en_session_id :: string
  en_salt :: bytes
  en_dek :: bytes
  en_nonce :: bytes
  en_session_dek :: bytes
  en_session_nonce :: bytes

definition DEFAULT_RETRY_AFTER_SECONDS :: int where "DEFAULT_RETRY_AFTER_SECONDS = 3600"

definition extract_retry_after_seconds :: "auth_env \<Rightarrow> exn \<Rightarrow> int option" where
  "extract_retry_after_seconds env e =
     (case is_int_obj (en_seconds env e) of
        None \<Rightarrow> None
      | Some n \<Rightarrow> if n > 0 then Some n else None)"

definition build_retry_payload :: "auth_env \<Rightarrow> exn \<Rightarrow> string \<Rightarrow> pyobj" where
  "build_retry_payload env e retry_hint =
     (let retry_after_seconds = (case extract_retry_after_seconds env e of
            None \<Rightarrow> DEFAULT_RETRY_AFTER_SECONDS | Some n \<Rightarrow> n) in
      PDict [(PStr ''error_type'', PStr (exn_class e)),
             (PStr ''retry_after_seconds'', PInt retry_after_seconds),
             (PStr ''retry_hint'', PStr retry_hint)])"

definition map_auth_error_notification :: "auth_env \<Rightarrow> exn \<Rightarrow> string \<times> string \<times> string \<times> pyobj" where
  "map_auth_error_notification env e =
     (if exn_class e \<in> set [''PhoneNumberBannedError'', ''PhoneNumberFloodError'']
      then (''auth_registration_blocked'', ''high'', ''Telegram registration/login is blocked for this account.'',
            build_retry_payload env e ''Wait before retrying. If this persists, review the Telegram account.'')
      else (''auth_login_failed'', ''medium'', ''Telegram login failed for the supplied account details.'',
            build_retry_payload env e ''Confirm the phone number and retry the login flow.''))"

definition auth_failure_http_error :: "string \<Rightarrow> exn" where
  "auth_failure_http_error notification_type =
     (if notification_type = ''auth_registration_blocked'' then auth_registration_blocked_error
      else auth_login_failed_error)"

definition record_auth_failure_risk_breach :: "string \<Rightarrow> (db, unit) act" where
  "record_auth_failure_risk_breach phone_number =
     act_bind (act_read (get_account_id_by_phone_number phone_number)) (\<lambda>account_id.
       case account_id of
         None \<Rightarrow> act_return ()
       | Some a \<Rightarrow>
          act_catch
            (\<lambda>d. act_bind (record_account_risk_breach a ''auth-failure'' (utc_now d)) (\<lambda>_. act_return ()) d)
            (\<lambda>e. if exn_class e = ''CancelledError'' then act_raise e else act_return ()))"

definition record_auth_failure_notification :: "auth_env \<Rightarrow> exn \<Rightarrow> string \<Rightarrow> (db, string) act" where
  "record_auth_failure_notification env e phone_number =
     (case map_auth_error_notification env e of (type, severity, message, payload) \<Rightarrow>
       act_bind (notification_create type severity message payload) (\<lambda>_.
       act_bind (if phone_number \<noteq> [] then record_auth_failure_risk_breach phone_number else act_return ()) (\<lambda>_.
         act_return type)))"

text \<open>The \<open>except\<close> clauses that the three handlers share.\<close>

definition refuse_login :: "auth_env \<Rightarrow> string \<Rightarrow> exn \<Rightarrow> (db, 'a) act" where
  "refuse_login env phone_number e =
     (if exn_class e \<in> set phone_errors
      then act_bind (record_auth_failure_notification env e phone_number) (\<lambda>type.
             act_raise (auth_failure_http_error type))
      else if exn_class e \<in> set api_id_errors then act_raise invalid_api_credentials_error
      else act_raise e)"

section \<open>The handlers\<close>

definition session_errors_to_http :: "string \<Rightarrow> exn \<Rightarrow> (db, 'a) act" where
  "session_errors_to_http session_id e =
     (if exn_class e = ''AuthSessionStateNotFoundError'' then act_raise (auth_session_not_found_error session_id)
      else if exn_class e = ''AuthSessionExpiredError'' then act_raise (auth_session_expired_error session_id)
      else act_raise e)"

definition locked_to_http :: "exn \<Rightarrow> (db, 'a) act" where
  "locked_to_http e =
     (if exn_class e = ''SensitiveOperationLockedError'' then act_raise sensitive_operation_locked_error
      else act_raise e)"

definition update_auth_session_status ::
  "string \<Rightarrow> string \<Rightarrow> string option \<Rightarrow> bool \<Rightarrow> (db, auth_session_state) act" where
  "update_auth_session_status session_id st telegram_session update_session =
     act_catch (update_status session_id st telegram_session update_session) (session_errors_to_http session_id)"

definition delete_auth_session :: "string \<Rightarrow> (db, unit) act" where
  "delete_auth_session session_id = act_bind (delete_session session_id) (\<lambda>_. act_return ())"

definition persist_authenticated_session ::
  "auth_env \<Rightarrow> int \<Rightarrow> string \<Rightarrow> string \<Rightarrow> string \<Rightarrow> (db, unit) act" where
  "persist_authenticated_session env api_id api_hash phone_number session_string =
     act_bind (resolve_key_encryption_key (en_argon2id env) (en_unlock env) (en_salt env)) (\<lambda>kek.
     act_bind (upsert_account (en_crypto env) (en_dek env) (en_nonce env) api_id api_hash (Some phone_number) kek)
       (\<lambda>account_id.
         persist_session (en_crypto env) (en_session_dek env) (en_session_nonce env) account_id session_string kek))"

definition start_telegram_auth :: "auth_env \<Rightarrow> int \<Rightarrow> string \<Rightarrow> string \<Rightarrow> (db, string) act" where
  "start_telegram_auth env api_id api_hash phone_number =
     act_bind (act_lift (en_factory env api_id api_hash None)) (\<lambda>client.
     act_bind (act_catch (act_lift (send_login_code client phone_number)) (refuse_login env phone_number)) (\<lambda>sent.
       if \<not> sent then act_raise otp_request_failed_error else
       act_bind (create_session (en_session_id env) phone_number ''code_sent'' None None None) (\<lambda>created.
         act_return (as_session_id created))))"

text \<open>The end of both verify handlers, after a sign-in that succeeded.\<close>

definition finish_login ::
  "auth_env \<Rightarrow> telegram_client \<Rightarrow> int \<Rightarrow> string \<Rightarrow> auth_session_state \<Rightarrow> bool \<Rightarrow> (db, string \<times> string) act" where
  "finish_login env client api_id api_hash session_state clear =
     act_bind (act_lift (extract_session_string client)) (\<lambda>saved.
       case saved of
         None \<Rightarrow> act_raise password_session_capture_error
       | Some session_string \<Rightarrow>
          act_bind
            (act_catch
              (persist_authenticated_session env api_id api_hash (as_phone_number session_state) session_string)
              locked_to_http) (\<lambda>_.
          act_bind (update_auth_session_status (as_session_id session_state) ''authenticated'' None clear) (\<lambda>updated.
            act_return (as_session_id updated, as_status updated))))"

definition verify_telegram_code ::
  "auth_env \<Rightarrow> string \<Rightarrow> int \<Rightarrow> string \<Rightarrow> string \<Rightarrow> (db, string \<times> string) act" where
  "verify_telegram_code env session_id api_id api_hash code =
     act_bind (act_catch (get_session session_id) (session_errors_to_http session_id)) (\<lambda>session_state.
     if as_status session_state \<noteq> ''code_sent''
     then act_raise (auth_session_status_conflict_error (as_status session_state)) else
     act_bind (act_catch (act_lift (require_unlocked (en_unlock env))) locked_to_http) (\<lambda>_.
     act_bind (act_lift (en_factory env api_id api_hash None)) (\<lambda>client.
       case sign_in_with_code client (as_phone_number session_state) code of
         Inr _ \<Rightarrow> finish_login env client api_id api_hash session_state False
       | Inl e \<Rightarrow>
          if exn_class e = ''SessionPasswordNeededError''
          then
            act_bind (act_lift (extract_session_string client)) (\<lambda>saved.
              case saved of
                None \<Rightarrow> act_raise password_session_capture_error
              | Some session_string \<Rightarrow>
                 act_bind (update_auth_session_status (as_session_id session_state) ''password_required''
                     (Some session_string) True) (\<lambda>updated.
                   act_return (as_session_id updated, as_status updated)))
          else if exn_class e = ''PhoneCodeInvalidError'' then act_raise invalid_login_code_error
          else if exn_class e = ''PhoneCodeExpiredError''
          then act_bind (delete_auth_session (as_session_id session_state)) (\<lambda>_. act_raise expired_login_code_error)
          else refuse_login env (as_phone_number session_state) e)))"

definition verify_telegram_password ::
  "auth_env \<Rightarrow> string \<Rightarrow> int \<Rightarrow> string \<Rightarrow> string \<Rightarrow> (db, string \<times> string) act" where
  "verify_telegram_password env session_id api_id api_hash password =
     act_bind (act_catch (get_session session_id) (session_errors_to_http session_id)) (\<lambda>session_state.
     if as_status session_state \<noteq> ''password_required''
     then act_raise (auth_session_password_status_conflict_error (as_status session_state)) else
     case as_telegram_session session_state of
       None \<Rightarrow> act_raise missing_password_session_error
     | Some telegram_session \<Rightarrow>
        if telegram_session = [] then act_raise missing_password_session_error else
        act_bind (act_catch (act_lift (require_unlocked (en_unlock env))) locked_to_http) (\<lambda>_.
        act_bind (act_lift (en_factory env api_id api_hash (Some telegram_session))) (\<lambda>client.
          case sign_in_with_password client password of
            Inr _ \<Rightarrow> finish_login env client api_id api_hash session_state True
          | Inl e \<Rightarrow>
             if exn_class e = ''PasswordHashInvalidError'' then act_raise invalid_password_error
             else refuse_login env (as_phone_number session_state) e)))"

section \<open>Sessions as a finite map\<close>

definition auth_session_of :: "db \<Rightarrow> string \<Rightarrow> auth_session_row option" where
  "auth_session_of d sid = find (\<lambda>r. au_session_id r = sid) (auth_sessions d)"

definition login_status :: "db \<Rightarrow> string \<Rightarrow> string option" where
  "login_status d sid = map_option au_status (auth_session_of d sid)"

definition state_of_session :: "auth_session_row \<Rightarrow> auth_session_state" where
  "state_of_session r =
     \<lparr> as_session_id = au_session_id r, as_phone_number = au_phone_number r, as_status = au_status r,
       as_expires_at = au_expires_at r, as_telegram_session = au_telegram_session r \<rparr>"

definition without_session :: "string \<Rightarrow> db \<Rightarrow> db" where
  "without_session sid d = d\<lparr> auth_sessions := delete_where (\<lambda>r. au_session_id r = sid) (auth_sessions d) \<rparr>"

definition with_status :: "string \<Rightarrow> string \<Rightarrow> string option \<Rightarrow> bool \<Rightarrow> db \<Rightarrow> db" where
  "with_status sid st ts upd d =
     d\<lparr> auth_sessions := update_where (\<lambda>r. au_session_id r = sid)
         (\<lambda>r. (if upd then r\<lparr> au_telegram_session := ts \<rparr> else r)
            \<lparr> au_status := st, au_updated_at := current_timestamp d \<rparr>) (auth_sessions d) \<rparr>"

lemma decode_auth_session_ok [simp]: "decode_auth_session (auth_session_columns r) = Inr (state_of_session r)"
  by (simp add: decode_auth_session_def auth_session_columns_def row_get_def state_of_session_def
      coerce_opt_obj [where h = "\<lambda>x. x"] option.map_ident)

abbreviation session_keys_ok :: "db \<Rightarrow> bool" where
  "session_keys_ok d \<equiv> pk au_session_id (auth_sessions d)"

lemma session_keys_after [simp]:
  "session_keys_ok d \<Longrightarrow> session_keys_ok (without_session sid d)"
  "session_keys_ok (with_status sid st ts upd d) = session_keys_ok d"
  by (simp_all add: without_session_def with_status_def table_simps)

lemma auth_session_of_after [simp]:
  "auth_session_of (without_session sid d) x = (if x = sid then None else auth_session_of d x)"
  "auth_session_of (with_status sid st ts upd d) x =
     (if x = sid then map_option (\<lambda>r. (if upd then r\<lparr> au_telegram_session := ts \<rparr> else r)
            \<lparr> au_status := st, au_updated_at := current_timestamp d \<rparr>) (auth_session_of d x)
      else auth_session_of d x)"
  by (simp_all add: auth_session_of_def without_session_def with_status_def find_delete_key find_update_key)

lemma session_only [simp]:
  "accounts (without_session sid d) = accounts d" "settings (without_session sid d) = settings d"
  "accounts (with_status sid st ts upd d) = accounts d" "settings (with_status sid st ts upd d) = settings d"
  "clock (without_session sid d) = clock d" "clock (with_status sid st ts upd d) = clock d"
  by (simp_all add: without_session_def with_status_def)

lemma is_expired_after [simp]:
  "is_expired x (without_session sid d) = is_expired x d" "is_expired x (with_status sid st ts upd d) = is_expired x d"
  by (simp_all add: is_expired_def now_epoch_def)

lemma one_session:
  "session_keys_ok d \<Longrightarrow>
   one_or_none (filter (\<lambda>r. au_session_id r = sid) (auth_sessions d)) = Inr (auth_session_of d sid)"
  by (simp add: pk_def one_or_none_key auth_session_of_def)

lemma delete_session_eq:
  "session_keys_ok d \<Longrightarrow> delete_session sid d = (Inr (auth_session_of d sid \<noteq> None), without_session sid d)"
  by (simp add: delete_session_def act_simps one_session without_session_def)

lemma auth_session_key: "auth_session_of d sid = Some r \<Longrightarrow> au_session_id r = sid"
  unfolding auth_session_of_def by (drule find_key_Some) simp

lemma live_or_expired_eq:
  assumes "session_keys_ok d"
  shows "live_or_expired sid (Some r) d =
    (if is_expired (au_expires_at r) d then (Inl (session_expired sid), without_session sid d)
     else (Inr (state_of_session r), d))"
  using delete_session_eq [OF assms, of sid]
  by (simp add: live_or_expired_def act_bind_def act_lift_def act_get_def act_raise_def act_return_def state_of_session_def)

lemma get_session_eq:
  assumes "session_keys_ok d"
  shows "get_session sid d =
    (case auth_session_of d sid of
       None \<Rightarrow> (Inl (session_not_found sid), d)
     | Some r \<Rightarrow> if is_expired (au_expires_at r) d then (Inl (session_expired sid), without_session sid d)
         else (Inr (state_of_session r), d))"
  using assms
  by (cases "auth_session_of d sid")
    (simp_all add: get_session_def act_bind_def act_read_def one_session live_or_expired_eq,
     simp add: live_or_expired_def act_raise_def)

lemma update_status_eq:
  assumes "session_keys_ok d" and "auth_session_of d sid = Some r" and "\<not> is_expired (au_expires_at r) d"
  shows "\<exists>s. update_status sid st ts upd d = (Inr s, with_status sid st ts upd d) \<and>
     as_session_id s = sid \<and> as_status s = st"
proof -
  let ?d = "with_status sid st ts upd d"
  have "one_or_none (filter (\<lambda>r. au_session_id r = sid) (auth_sessions ?d)) = Inr (auth_session_of ?d sid)"
    using assms(1) by (intro one_session) simp
  then have run: "update_status sid st ts upd d = live_or_expired sid (auth_session_of ?d sid) ?d"
    by (simp add: update_status_def with_status_def Let_def act_bind_def transaction_def)
  show ?thesis
    using assms auth_session_key [OF assms(2)] unfolding run
    by (simp add: live_or_expired_eq) (simp add: state_of_session_def)
qed

lemma update_auth_session_status_eq:
  assumes "session_keys_ok d" and "auth_session_of d sid = Some r" and "\<not> is_expired (au_expires_at r) d"
  shows "\<exists>s. update_auth_session_status sid st ts upd d = (Inr s, with_status sid st ts upd d) \<and>
     as_session_id s = sid \<and> as_status s = st"
proof -
  obtain s where "update_status sid st ts upd d = (Inr s, with_status sid st ts upd d)" "as_session_id s = sid" "as_status s = st"
    using update_status_eq [OF assms] by blast
  then show ?thesis by (simp add: update_auth_session_status_def act_catch_def)
qed

text \<open>The first part of both verify handlers.\<close>

lemma open_session_eq:
  assumes "session_keys_ok d"
  shows "act_catch (get_session sid) (session_errors_to_http sid) d =
    (case auth_session_of d sid of
       None \<Rightarrow> (Inl (auth_session_not_found_error sid), d)
     | Some r \<Rightarrow> if is_expired (au_expires_at r) d then (Inl (auth_session_expired_error sid), without_session sid d)
         else (Inr (state_of_session r), d))"
  using assms
  by (auto simp: act_catch_def get_session_eq session_errors_to_http_def session_not_found_def session_expired_def
      act_raise_def split: option.split)

section \<open>What leaves the sessions alone\<close>

definition sessions_frame :: "auth_session_row list \<Rightarrow> int \<Rightarrow> db \<Rightarrow> bool" where
  "sessions_frame xs t d \<longleftrightarrow> auth_sessions d = xs \<and> clock d = t"

named_theorems session_framed \<open>writers that leave the sessions and the clock alone\<close>

lemma sessions_frameI:
  "(\<And>d. auth_sessions (snd (m d)) = auth_sessions d \<and> clock (snd (m d)) = clock d) \<Longrightarrow> preserves (sessions_frame xs t) m"
  by (auto simp: preserves_def sessions_frame_def)

lemma notification_create_sessions [session_framed]: "preserves (sessions_frame xs t) (notification_create a b c p)"
  unfolding notification_create_def
  by (intro preserves_intros sessions_frameI) (simp add: insert_notification_def Let_def)

lemma set_pause_columns_sessions: "preserves (sessions_frame xs t) (set_pause_columns a p r)"
  unfolding set_pause_columns_def
  by (intro preserves_intros sessions_frameI) (simp add: Let_def)

lemma pause_account_sessions [session_framed]: "preserves (sessions_frame xs t) (pause_account a r p)"
  using set_pause_columns_sessions by (simp add: preserves_def pause_account_def)

lemma setting_upsert_sessions [session_framed]: "preserves (sessions_frame xs t) (setting_upsert k v)"
  unfolding setting_upsert_def
  by (intro preserves_intros sessions_frameI) (simp add: insert_setting_def Let_def split: option.split)

lemma setting_create_sessions [session_framed]: "preserves (sessions_frame xs t) (setting_create k v)"
  unfolding setting_create_def
  by (intro preserves_intros sessions_frameI) (simp add: insert_setting_def Let_def)

lemma risk_breach_sessions [session_framed]: "preserves (sessions_frame xs t) (record_account_risk_breach a r time)"
  unfolding record_account_risk_breach_def upsert_risk_state_def Let_def
  by (intro preserves_intros session_framed)

lemma preserves_on_state: "(\<And>t. preserves I (f t)) \<Longrightarrow> preserves I (\<lambda>s. f (g s) s)"
  by (simp add: preserves_def)

lemma auth_failure_risk_breach_sessions [session_framed]:
  "preserves (sessions_frame xs t) (record_auth_failure_risk_breach p)"
proof -
  have "preserves (sessions_frame xs t)
      (\<lambda>d. act_bind (record_account_risk_breach a r (utc_now d)) (\<lambda>_. act_return ()) d)" for a r
    by (rule preserves_on_state) (intro preserves_intros session_framed)
  then show ?thesis unfolding record_auth_failure_risk_breach_def by (intro preserves_intros)
qed

lemma refuse_login_sessions [session_framed]: "preserves (sessions_frame xs t) (refuse_login env p e)"
  unfolding refuse_login_def record_auth_failure_notification_def
  by (cases "map_auth_error_notification env e") (simp only: prod.case, intro preserves_intros session_framed)

lemma kek_sessions [session_framed]: "preserves (sessions_frame xs t) (resolve_key_encryption_key a u n)"
  unfolding resolve_key_encryption_key_def get_or_create_kek_salt_def
  by (intro preserves_intros session_framed)

lemma persist_authenticated_session_sessions [session_framed]:
  "preserves (sessions_frame xs t) (persist_authenticated_session env api h p s)"
proof -
  have "preserves (sessions_frame xs t) (upsert_account cr dek n api h q k)" for cr dek n q k
    unfolding upsert_account_def
    by (intro preserves_intros sessions_frameI) (simp add: Let_def split: sum.split option.split)
  moreover have "preserves (sessions_frame xs t) (persist_session cr dek n i s k)" for cr dek n i k
    unfolding persist_session_def by (intro preserves_intros sessions_frameI) simp
  ultimately show ?thesis unfolding persist_authenticated_session_def by (intro preserves_intros session_framed)
qed

lemma session_framed_view:
  assumes "\<And>xs t. preserves (sessions_frame xs t) m" and "m d = (r, d')"
  shows "auth_sessions d' = auth_sessions d" and "clock d' = clock d" and "auth_session_of d' = auth_session_of d"
    and "is_expired x d' = is_expired x d"
proof -
  have "sessions_frame (auth_sessions d) (clock d) d'"
    using preserves_result [OF assms(1) _ assms(2)] by (simp add: sessions_frame_def)
  then show "auth_sessions d' = auth_sessions d" "clock d' = clock d" by (simp_all add: sessions_frame_def)
  then show "auth_session_of d' = auth_session_of d" "is_expired x d' = is_expired x d"
    by (simp_all add: fun_eq_iff auth_session_of_def is_expired_def now_epoch_def)
qed

section \<open>The moves of a login\<close>

lemma locked_to_http_eq: "locked_to_http e d =
    (Inl (if exn_class e = ''SensitiveOperationLockedError'' then sensitive_operation_locked_error else e), d)"
  by (simp add: locked_to_http_def act_raise_def)

lemma finish_login_eq:
  assumes "session_keys_ok d" and "auth_session_of d sid = Some r" and "\<not> is_expired (au_expires_at r) d"
    and "finish_login env client api h (state_of_session r) clear d = (res, d')"
  shows "(\<exists>e. res = Inl e \<and> auth_session_of d' = auth_session_of d) \<or>
    (\<exists>d1 s. res = Inr (sid, ''authenticated'') \<and> d' = with_status sid ''authenticated'' None clear d1 \<and>
       extract_session_string client = Inr (Some s) \<and> auth_session_of d1 = auth_session_of d \<and>
       persist_authenticated_session env api h (au_phone_number r) s d = (Inr (), d1))"
proof (cases "extract_session_string client")
  case (Inr saved)
  show ?thesis
  proof (cases saved)
    case (Some s)
    have ids: "as_phone_number (state_of_session r) = au_phone_number r" "as_session_id (state_of_session r) = sid"
      using auth_session_key [OF assms(2)] by (simp_all add: state_of_session_def)
    obtain pr d1 where pr: "persist_authenticated_session env api h (au_phone_number r) s d = (pr, d1)" by fastforce
    note same = session_framed_view [OF persist_authenticated_session_sessions pr]
    show ?thesis
    proof (cases pr)
      case (Inl e)
      then show ?thesis
        using assms(4) pr same \<open>extract_session_string client = _\<close> Some
        by (auto simp: finish_login_def ids act_bind_def act_catch_def act_lift_def locked_to_http_eq)
    next
      case (Inr u)
      obtain st where st: "update_auth_session_status sid ''authenticated'' None clear d1 =
          (Inr st, with_status sid ''authenticated'' None clear d1)" "as_session_id st = sid" "as_status st = ''authenticated''"
        using update_auth_session_status_eq [of d1 sid r "''authenticated''" None clear] assms(1-3) same by auto
      then show ?thesis
        using assms(4) pr same(3) \<open>extract_session_string client = _\<close> Some Inr
        by (auto simp: finish_login_def ids act_bind_def act_catch_def act_lift_def act_return_def)
    qed
  qed (use assms(4) Inr in \<open>auto simp: finish_login_def act_simps\<close>)
qed (use assms(4) in \<open>auto simp: finish_login_def act_simps\<close>)

lemma refuse_login_Inl:
  obtains x d' where "(refuse_login env p e :: (db, 'a) act) d = (Inl x, d')" and "auth_session_of d' = auth_session_of d"
proof -
  let ?m = "refuse_login env p e :: (db, 'a) act"
  obtain r d' where run: "?m d = (r, d')" by fastforce
  have "\<exists>x. fst (?m d) = Inl x"
    by (auto simp: refuse_login_def act_bind_def act_raise_def split: prod.split sum.split)
  then show thesis using run session_framed_view(3) [OF refuse_login_sessions run] that by auto
qed

text \<open>
  The abstract machine of one login: what the stored session says, the answer of Telegram and the
  lock decide the new status and the response. \<open>LMoved\<close> is a successful response.
\<close>

datatype login_outcome = LSame | LMoved string | LDropped

text \<open>\<open>answer\<close> is \<open>None\<close> when the handler did not get as far as asking Telegram.\<close>

definition code_outcomes :: "unit res option \<Rightarrow> login_outcome set" where
  "code_outcomes answer =
     (case answer of
        None \<Rightarrow> {LSame}
      | Some (Inr _) \<Rightarrow> {LSame, LMoved ''authenticated''}
      | Some (Inl e) \<Rightarrow>
          if exn_class e = ''SessionPasswordNeededError'' then {LSame, LMoved ''password_required''}
          else if exn_class e = ''PhoneCodeExpiredError'' then {LDropped} else {LSame})"

definition password_outcomes :: "unit res option \<Rightarrow> login_outcome set" where
  "password_outcomes answer =
     (case answer of Some (Inr _) \<Rightarrow> {LSame, LMoved ''authenticated''} | _ \<Rightarrow> {LSame})"

text \<open>A run that ended in an outcome: the response and the statuses before and after.\<close>

definition ends_in :: "login_outcome \<Rightarrow> string \<Rightarrow> db \<Rightarrow> (string \<times> string) res \<Rightarrow> db \<Rightarrow> bool" where
  "ends_in o' sid d res d' \<longleftrightarrow>
     (case o' of
        LSame \<Rightarrow> (\<exists>e. res = Inl e) \<and> login_status d' = login_status d
      | LMoved st \<Rightarrow> res = Inr (sid, st) \<and> login_status d' = (login_status d)(sid \<mapsto> st)
      | LDropped \<Rightarrow> (\<exists>e. res = Inl e) \<and> login_status d' = (login_status d)(sid := None))"

definition live_in :: "string \<Rightarrow> db \<Rightarrow> string \<Rightarrow> auth_session_row option" where
  "live_in st d sid =
     (case auth_session_of d sid of
        None \<Rightarrow> None
      | Some r \<Rightarrow> if au_status r = st \<and> \<not> is_expired (au_expires_at r) d then Some r else None)"

definition code_answer :: "auth_env \<Rightarrow> int \<Rightarrow> string \<Rightarrow> string \<Rightarrow> auth_session_row option \<Rightarrow> unit res option" where
  "code_answer env api h code r =
     (case (r, us_secret (en_unlock env), en_factory env api h None) of
        (Some r, Some _, Inr client) \<Rightarrow> Some (sign_in_with_code client (au_phone_number r) code)
      | _ \<Rightarrow> None)"

definition password_answer :: "auth_env \<Rightarrow> int \<Rightarrow> string \<Rightarrow> string \<Rightarrow> auth_session_row option \<Rightarrow> unit res option" where
  "password_answer env api h password r =
     (case (r, us_secret (en_unlock env), en_factory env api h (Option.bind r au_telegram_session)) of
        (Some r, Some _, Inr client) \<Rightarrow>
          if au_telegram_session r \<in> {None, Some []} then None else Some (sign_in_with_password client password)
      | _ \<Rightarrow> None)"

lemma login_status_view:
  "auth_session_of d' = auth_session_of d \<Longrightarrow> login_status d' = login_status d"
  "auth_session_of d1 = auth_session_of d \<Longrightarrow> auth_session_of d sid = Some r \<Longrightarrow>
     login_status (with_status sid st ts upd d1) = (login_status d)(sid \<mapsto> st)"
  "login_status (without_session sid d) = (login_status d)(sid := None)"
  by (auto simp: login_status_def fun_eq_iff)

lemma finish_login_ends:
  assumes "session_keys_ok d" and "auth_session_of d sid = Some r" and "\<not> is_expired (au_expires_at r) d"
    and "finish_login env client api h (state_of_session r) clear d = (res, d')"
  shows "\<exists>o' \<in> {LSame, LMoved ''authenticated''}. ends_in o' sid d res d'"
  using finish_login_eq [OF assms]
proof
  assume "\<exists>e. res = Inl e \<and> auth_session_of d' = auth_session_of d"
  then show ?thesis using login_status_view(1) [of d' d] by (auto simp: ends_in_def)
next
  assume "\<exists>d1 s. res = Inr (sid, ''authenticated'') \<and> d' = with_status sid ''authenticated'' None clear d1 \<and>
       extract_session_string client = Inr (Some s) \<and> auth_session_of d1 = auth_session_of d \<and>
       persist_authenticated_session env api h (au_phone_number r) s d = (Inr (), d1)"
  then obtain d1 where "res = Inr (sid, ''authenticated'')" "d' = with_status sid ''authenticated'' None clear d1"
      "auth_session_of d1 = auth_session_of d" by blast
  then show ?thesis using login_status_view(2) [of d1 d sid r] assms(2) by (auto simp: ends_in_def)
qed

lemma locked_check:
  "act_catch (act_lift (require_unlocked u)) locked_to_http d =
     (if us_secret u = None then (Inl sensitive_operation_locked_error, d) else (Inr (), d))"
  by (simp add: act_simps require_unlocked_def locked_to_http_def)

lemma state_of_session_sel [simp]:
  "as_status (state_of_session r) = au_status r" "as_phone_number (state_of_session r) = au_phone_number r"
  "as_session_id (state_of_session r) = au_session_id r" "as_telegram_session (state_of_session r) = au_telegram_session r"
  by (simp_all add: state_of_session_def)

lemma bind_returns: "m s = (Inr x, t) \<Longrightarrow> act_bind m f s = f x t"
  by (simp add: act_bind_def)

lemma bind_raises: "m s = (Inl e, t) \<Longrightarrow> act_bind m f s = (Inl e, t)"
  by (simp add: act_bind_def)

lemma bind_lift: "act_bind (act_lift r) f s = (case r of Inl e \<Rightarrow> (Inl e, s) | Inr x \<Rightarrow> f x s)"
  by (simp add: act_bind_def act_lift_def)

text \<open>Both handlers go through the same checks before they ask Telegram.\<close>

definition login_gate ::
  "auth_env \<Rightarrow> string \<Rightarrow> (auth_session_state \<Rightarrow> exn option) \<Rightarrow> (auth_session_state \<Rightarrow> telegram_client res) \<Rightarrow>
   (telegram_client \<Rightarrow> auth_session_state \<Rightarrow> (db, 'a) act) \<Rightarrow> (db, 'a) act" where
  "login_gate env sid conflict mk body =
     act_bind (act_catch (get_session sid) (session_errors_to_http sid)) (\<lambda>s.
       case conflict s of
         Some e \<Rightarrow> act_raise e
       | None \<Rightarrow>
          act_bind (act_catch (act_lift (require_unlocked (en_unlock env))) locked_to_http) (\<lambda>_.
          act_bind (act_lift (mk s)) (\<lambda>client. body client s)))"

definition code_conflict :: "auth_session_state \<Rightarrow> exn option" where
  "code_conflict s =
     (if as_status s \<noteq> ''code_sent'' then Some (auth_session_status_conflict_error (as_status s)) else None)"

definition password_conflict :: "auth_session_state \<Rightarrow> exn option" where
  "password_conflict s =
     (if as_status s \<noteq> ''password_required'' then Some (auth_session_password_status_conflict_error (as_status s))
      else if as_telegram_session s \<in> {None, Some []} then Some missing_password_session_error else None)"

definition after_code :: "auth_env \<Rightarrow> int \<Rightarrow> string \<Rightarrow> string \<Rightarrow> telegram_client \<Rightarrow> auth_session_state \<Rightarrow> (db, string \<times> string) act" where
  "after_code env api h code client s =
     (case sign_in_with_code client (as_phone_number s) code of
        Inr _ \<Rightarrow> finish_login env client api h s False
      | Inl e \<Rightarrow>
          if exn_class e = ''SessionPasswordNeededError''
          then act_bind (act_lift (extract_session_string client)) (\<lambda>saved.
              case saved of
                None \<Rightarrow> act_raise password_session_capture_error
              | Some session_string \<Rightarrow>
                 act_bind (update_auth_session_status (as_session_id s) ''password_required'' (Some session_string) True)
                   (\<lambda>updated. act_return (as_session_id updated, as_status updated)))
          else if exn_class e = ''PhoneCodeInvalidError'' then act_raise invalid_login_code_error
          else if exn_class e = ''PhoneCodeExpiredError''
          then act_bind (delete_auth_session (as_session_id s)) (\<lambda>_. act_raise expired_login_code_error)
          else refuse_login env (as_phone_number s) e)"

definition after_password :: "auth_env \<Rightarrow> int \<Rightarrow> string \<Rightarrow> string \<Rightarrow> telegram_client \<Rightarrow> auth_session_state \<Rightarrow> (db, string \<times> string) act" where
  "after_password env api h password client s =
     (case sign_in_with_password client password of
        Inr _ \<Rightarrow> finish_login env client api h s True
      | Inl e \<Rightarrow>
          if exn_class e = ''PasswordHashInvalidError'' then act_raise invalid_password_error
          else refuse_login env (as_phone_number s) e)"

lemma verify_code_gate:
  "verify_telegram_code env sid api h code =
   login_gate env sid code_conflict (\<lambda>_. en_factory env api h None) (after_code env api h code)"
  unfolding verify_telegram_code_def login_gate_def after_code_def code_conflict_def
  by (intro arg_cong2 [where f = act_bind] refl ext) simp

lemma verify_password_gate:
  "verify_telegram_password env sid api h password =
   login_gate env sid password_conflict (\<lambda>s. en_factory env api h (as_telegram_session s)) (after_password env api h password)"
  unfolding verify_telegram_password_def login_gate_def after_password_def password_conflict_def
  by (intro arg_cong2 [where f = act_bind] refl ext) (simp split: option.split)

lemma login_gate_eq:
  assumes "session_keys_ok d"
  shows "login_gate env sid conflict mk body d =
    (case auth_session_of d sid of
       None \<Rightarrow> (Inl (auth_session_not_found_error sid), d)
     | Some r \<Rightarrow>
        if is_expired (au_expires_at r) d then (Inl (auth_session_expired_error sid), without_session sid d)
        else case conflict (state_of_session r) of
          Some e \<Rightarrow> (Inl e, d)
        | None \<Rightarrow>
           if us_secret (en_unlock env) = None then (Inl sensitive_operation_locked_error, d)
           else case mk (state_of_session r) of
             Inl e \<Rightarrow> (Inl e, d)
           | Inr client \<Rightarrow> body client (state_of_session r) d)"
  unfolding login_gate_def
  by (auto simp: act_bind_def [of "act_catch _ _"] open_session_eq [OF assms] locked_check bind_lift act_raise_def
      split: option.split)

lemma after_code_ends:
  assumes "session_keys_ok d" and "auth_session_of d sid = Some r" and "\<not> is_expired (au_expires_at r) d"
    and "after_code env api h code client (state_of_session r) d = (res, d')"
  shows "\<exists>o' \<in> code_outcomes (Some (sign_in_with_code client (au_phone_number r) code)). ends_in o' sid d res d'"
proof (cases "sign_in_with_code client (au_phone_number r) code")
  case (Inr u)
  then have "finish_login env client api h (state_of_session r) False d = (res, d')"
    using assms(4) by (simp add: after_code_def)
  from finish_login_ends [OF assms(1-3) this] Inr show ?thesis by (simp add: code_outcomes_def)
next
  case (Inl e)
  have key: "au_session_id r = sid" by (rule auth_session_key [OF assms(2)])
  consider "exn_class e = ''SessionPasswordNeededError''" | "exn_class e = ''PhoneCodeInvalidError''"
    | "exn_class e = ''PhoneCodeExpiredError''"
    | "exn_class e \<notin> {''SessionPasswordNeededError'', ''PhoneCodeInvalidError'', ''PhoneCodeExpiredError''}" by blast
  then show ?thesis
  proof cases
    case 1
    show ?thesis
    proof (cases "\<exists>s. extract_session_string client = Inr (Some s)")
      case True
      then obtain s where s: "extract_session_string client = Inr (Some s)" by blast
      obtain st where "update_auth_session_status sid ''password_required'' (Some s) True d =
          (Inr st, with_status sid ''password_required'' (Some s) True d)" "as_session_id st = sid" "as_status st = ''password_required''"
        using update_auth_session_status_eq [OF assms(1-3), of "''password_required''" "Some s" True] by blast
      then show ?thesis
        using assms(2,4) Inl 1 s key login_status_view(2) [of d d sid r]
        by (auto simp: after_code_def bind_lift bind_returns act_return_def code_outcomes_def ends_in_def)
    next
      case False
      then show ?thesis
        using assms(4) Inl 1 by (auto simp: after_code_def bind_lift act_raise_def code_outcomes_def ends_in_def split: sum.splits option.splits)
    qed
  next
    case 3
    then show ?thesis
      using assms(1,4) Inl key by (auto simp: after_code_def delete_auth_session_def act_bind_def delete_session_eq act_return_def
          act_raise_def code_outcomes_def ends_in_def login_status_view(3))
  next
    case 4
    obtain x d2 where "(refuse_login env (au_phone_number r) e :: (db, string \<times> string) act) d = (Inl x, d2)"
        "auth_session_of d2 = auth_session_of d"
      by (rule refuse_login_Inl)
    then show ?thesis
      using assms(4) Inl 4 login_status_view(1) [of d2 d] by (auto simp: after_code_def code_outcomes_def ends_in_def)
  qed (use assms(4) Inl in \<open>auto simp: after_code_def act_raise_def code_outcomes_def ends_in_def\<close>)
qed

lemma after_password_ends:
  assumes "session_keys_ok d" and "auth_session_of d sid = Some r" and "\<not> is_expired (au_expires_at r) d"
    and "after_password env api h password client (state_of_session r) d = (res, d')"
  shows "\<exists>o' \<in> password_outcomes (Some (sign_in_with_password client password)). ends_in o' sid d res d'"
proof (cases "sign_in_with_password client password")
  case (Inr u)
  then have "finish_login env client api h (state_of_session r) True d = (res, d')"
    using assms(4) by (simp add: after_password_def)
  from finish_login_ends [OF assms(1-3) this] Inr show ?thesis by (simp add: password_outcomes_def)
next
  case (Inl e)
  obtain x d2 where "(refuse_login env (au_phone_number r) e :: (db, string \<times> string) act) d = (Inl x, d2)"
      "auth_session_of d2 = auth_session_of d"
    by (rule refuse_login_Inl)
  then show ?thesis
    using assms(4) Inl login_status_view(1) [of d2 d]
    by (auto simp: after_password_def act_raise_def password_outcomes_def ends_in_def split: if_splits)
qed

section \<open>Storing a login\<close>

definition salt_ok :: "db \<Rightarrow> bool" where
  "salt_ok d = (case setting_value d AUTH_KEY_SALT_SETTING of None \<Rightarrow> True | Some v \<Rightarrow> \<not> isl (decode_salt v))"

text \<open>What a login relies on: ciphers that decrypt what they encrypted, a 32-byte key, draws of the right sizes.\<close>

definition env_ok :: "auth_env \<Rightarrow> bool" where
  "env_ok env \<longleftrightarrow> crypto_ok (en_crypto env) \<and> (\<forall>p s. length (en_argon2id env p s) = 32) \<and>
     length (en_salt env) = ARGON2ID_SALT_BYTES \<and> draws_ok (en_dek env) (en_nonce env) \<and>
     draws_ok (en_session_dek env) (en_session_nonce env)"

lemma resolved_key_stays:
  assumes "settings_ok d" and "setting_value d AUTH_KEY_SALT_SETTING = Some v" and "decode_salt v = Inr salt"
    and "length salt = ARGON2ID_SALT_BYTES" and "us_secret u = Some p"
  shows "resolve_key_encryption_key argon2id u new d = (Inr (argon2id (utf8_encode p) salt), d)"
  using assms stored_salt_read [OF assms(1,2), of new]
  by (simp add: resolve_key_encryption_key_def act_simps get_sensitive_operation_secret_def require_unlocked_def
      derive_key_encryption_key_def)

lemma decoded_salt_length: "decode_salt v = Inr salt \<Longrightarrow> length salt = ARGON2ID_SALT_BYTES"
  by (auto simp: decode_salt_def split: option.splits if_splits)

lemma kek_resolves:
  assumes "phones_ok d" and "settings_ok d" and "salt_ok d" and "length new = ARGON2ID_SALT_BYTES" and "us_secret u = Some p"
  shows "\<exists>salt d1. resolve_key_encryption_key argon2id u new d = (Inr (argon2id (utf8_encode p) salt), d1) \<and>
    phones_ok d1 \<and> settings_ok d1 \<and>
    (\<exists>v. setting_value d1 AUTH_KEY_SALT_SETTING = Some v \<and> decode_salt v = Inr salt)"
proof (cases "setting_value d AUTH_KEY_SALT_SETTING")
  case None
  let ?d = "append_setting AUTH_KEY_SALT_SETTING (PStr (b64encode new)) d"
  have "store_setting AUTH_KEY_SALT_SETTING (PStr (b64encode new)) d = ?d" using None by (simp add: store_setting_def)
  then have "phones_ok ?d"
    using store_setting_db_ok [of d AUTH_KEY_SALT_SETTING "PStr (b64encode new)"] assms(1,2)
    by (simp add: phones_ok_def) (simp add: append_setting_def)
  moreover have "resolve_key_encryption_key argon2id u new d = (Inr (argon2id (utf8_encode p) new), ?d)"
    using assms missing_salt_created [OF assms(2) None, of new]
    by (simp add: resolve_key_encryption_key_def act_simps get_sensitive_operation_secret_def require_unlocked_def
        derive_key_encryption_key_def)
  ultimately show ?thesis
    using append_setting_value [OF assms(2) _ None, of "PStr (b64encode new)"] salt_roundtrip [OF assms(4)] by auto
next
  case (Some v)
  then obtain salt where "decode_salt v = Inr salt" using assms(3) by (cases "decode_salt v") (simp_all add: salt_ok_def)
  then show ?thesis
    using resolved_key_stays [OF assms(2) Some _ decoded_salt_length assms(5), of salt v argon2id new] assms(1,2) Some by auto
qed

text \<open>What a stored login means to a later process that is unlocked with the same secret.\<close>

definition login_stored :: "auth_env \<Rightarrow> string \<Rightarrow> int \<Rightarrow> string \<Rightarrow> string \<Rightarrow> string \<Rightarrow> db \<Rightarrow> bool" where
  "login_stored env p api h phone s d \<longleftrightarrow> (\<exists>k i r.
     (\<forall>u new. us_secret u = Some p \<longrightarrow> resolve_key_encryption_key (en_argon2id env) u new d = (Inr k, d)) \<and>
     get_account_id_by_phone_number phone d = Inr (Some i) \<and> load_session (en_crypto env) i k d = Inr (Some s) \<and>
     account_of d i = Some r \<and> decode_account_row (en_crypto env) k r =
       Inr \<lparr> ta_account_id = i, ta_api_id = api, ta_api_hash = h, ta_phone_number = Some phone \<rparr>)"

lemma login_stored_cong:
  assumes "accounts d' = accounts d" and "settings d' = settings d" and "settings_ok d"
    and "login_stored env p api h phone s d"
  shows "login_stored env p api h phone s d'"
proof -
  have key: "resolve_key_encryption_key a u new d' = (Inr k, d')"
    if old: "resolve_key_encryption_key a u new d = (Inr k, d)" for a u new k
  proof -
    have "settings_ok d'" "setting_value d' = setting_value d"
      using assms(2,3) by (simp_all add: settings_ok_def setting_value_def fun_eq_iff)
    moreover from this assms(3) have get: "setting_get_by_key AUTH_KEY_SALT_SETTING d' = setting_get_by_key AUTH_KEY_SALT_SETTING d"
      by (simp add: setting_get_by_key_value)
    moreover obtain x where "us_secret u = Some x"
      using old by (cases "us_secret u")
        (simp_all add: resolve_key_encryption_key_def get_sensitive_operation_secret_def require_unlocked_def act_simps)
    moreover have "setting_value d AUTH_KEY_SALT_SETTING \<noteq> None"
    proof
      assume none: "setting_value d AUTH_KEY_SALT_SETTING = None"
      from \<open>us_secret u = Some x\<close> missing_salt_created [OF assms(3) none, of new] old
      have "append_setting AUTH_KEY_SALT_SETTING (PStr (b64encode new)) d = d"
        by (auto simp: resolve_key_encryption_key_def get_sensitive_operation_secret_def require_unlocked_def act_simps)
      then have "settings (append_setting AUTH_KEY_SALT_SETTING (PStr (b64encode new)) d) = settings d" by simp
      then show False by (simp add: append_setting_def)
    qed
    ultimately show ?thesis
      using old stored_salt_read [OF assms(3)] stored_salt_read [of d']
      by (auto simp: resolve_key_encryption_key_def get_sensitive_operation_secret_def require_unlocked_def act_simps
          split: sum.splits)
  qed
  have "get_account_id_by_phone_number phone d' = get_account_id_by_phone_number phone d"
    "load_session (en_crypto env) i k d' = load_session (en_crypto env) i k d" "account_of d' i = account_of d i" for i k
    using assms(1) by (simp_all add: get_account_id_by_phone_number_def load_session_def account_of_def)
  moreover obtain k i r where
    "(\<forall>u new. us_secret u = Some p \<longrightarrow> resolve_key_encryption_key (en_argon2id env) u new d = (Inr k, d)) \<and>
     get_account_id_by_phone_number phone d = Inr (Some i) \<and> load_session (en_crypto env) i k d = Inr (Some s) \<and>
     account_of d i = Some r \<and> decode_account_row (en_crypto env) k r =
       Inr \<lparr> ta_account_id = i, ta_api_id = api, ta_api_hash = h, ta_phone_number = Some phone \<rparr>"
    using assms(4) unfolding login_stored_def by blast
  ultimately show ?thesis
    unfolding login_stored_def using key by (intro exI [of _ k] exI [of _ i] exI [of _ r]) simp
qed

lemma persist_authenticated_session_stores:
  assumes "phones_ok d" and "settings_ok d" and "salt_ok d" and "env_ok env" and "us_secret (en_unlock env) = Some p"
  shows "\<exists>d1. persist_authenticated_session env api h phone s d = (Inr (), d1) \<and> settings_ok d1 \<and>
    login_stored env p api h phone s d1"
proof -
  have env: "crypto_ok (en_crypto env)" "length (en_salt env) = ARGON2ID_SALT_BYTES" "draws_ok (en_dek env) (en_nonce env)"
    "draws_ok (en_session_dek env) (en_session_nonce env)" "length (en_argon2id env x y) \<in> set AES_KEY_SIZES_BYTES" for x y
    using assms(4) by (simp_all add: env_ok_def AES_KEY_SIZES_BYTES_def)
  from kek_resolves [OF assms(1-3) env(2) assms(5), of "en_argon2id env"] obtain salt d1 v where
    kek: "resolve_key_encryption_key (en_argon2id env) (en_unlock env) (en_salt env) d = (Inr (en_argon2id env (utf8_encode p) salt), d1)"
    "phones_ok d1" "settings_ok d1" "setting_value d1 AUTH_KEY_SALT_SETTING = Some v" "decode_salt v = Inr salt" by blast
  let ?k = "en_argon2id env (utf8_encode p) salt"
  from store_account_and_session [OF kek(2) env(1,3,4) env(5) [of "utf8_encode p" salt], where api = api and h = h and p = phone and s = s] obtain i d2 d3 r where
    st: "upsert_account (en_crypto env) (en_dek env) (en_nonce env) api h (Some phone) ?k d1 = (Inr i, d2)"
    "persist_session (en_crypto env) (en_session_dek env) (en_session_nonce env) i s ?k d2 = (Inr (), d3)"
    "load_session (en_crypto env) i ?k d3 = Inr (Some s)" "get_account_id_by_phone_number phone d3 = Inr (Some i)"
    "account_of d3 i = Some r" "decode_account_row (en_crypto env) ?k r =
      Inr \<lparr> ta_account_id = i, ta_api_id = api, ta_api_hash = h, ta_phone_number = Some phone \<rparr>"
    "settings d3 = settings d1" by metis
  have "persist_authenticated_session env api h phone s d = (Inr (), d3)"
    by (simp add: persist_authenticated_session_def act_bind_def kek(1) st(1,2))
  moreover have s3: "settings_ok d3" "setting_value d3 AUTH_KEY_SALT_SETTING = Some v"
    using st(7) kek(3,4) by (simp_all add: settings_ok_def setting_value_def)
  moreover have "resolve_key_encryption_key (en_argon2id env) u new d3 = (Inr ?k, d3)" if "us_secret u = Some p" for u new
    by (rule resolved_key_stays [OF s3 kek(5) decoded_salt_length [OF kek(5)] that])
  ultimately show ?thesis using st(3-6) unfolding login_stored_def by blast
qed

lemma finish_login_stores:
  assumes "phones_ok d" and "settings_ok d" and "salt_ok d" and "env_ok env" and "us_secret (en_unlock env) = Some p"
    and "session_keys_ok d" and "auth_session_of d sid = Some r" and "\<not> is_expired (au_expires_at r) d"
    and "extract_session_string client = Inr (Some s)"
  shows "\<exists>d'. finish_login env client api h (state_of_session r) clear d = (Inr (sid, ''authenticated''), d') \<and>
    login_stored env p api h (au_phone_number r) s d' \<and> login_status d' = (login_status d)(sid \<mapsto> ''authenticated'')"
proof -
  obtain d1 where d1: "persist_authenticated_session env api h (au_phone_number r) s d = (Inr (), d1)" "settings_ok d1"
      "login_stored env p api h (au_phone_number r) s d1"
    using persist_authenticated_session_stores [OF assms(1-5)] by blast
  note same = session_framed_view [OF persist_authenticated_session_sessions d1(1)]
  let ?d = "with_status sid ''authenticated'' None clear d1"
  obtain st where st: "update_auth_session_status sid ''authenticated'' None clear d1 = (Inr st, ?d)"
      "as_session_id st = sid" "as_status st = ''authenticated''"
    using update_auth_session_status_eq [of d1 sid r "''authenticated''" None clear] assms(6-8) same by auto
  have "finish_login env client api h (state_of_session r) clear d = (Inr (sid, ''authenticated''), ?d)"
    using assms(9) d1(1) st auth_session_key [OF assms(7)]
    by (simp add: finish_login_def bind_lift) (simp add: act_bind_def act_catch_def act_return_def)
  moreover have "login_stored env p api h (au_phone_number r) s ?d"
    using login_stored_cong [OF _ _ d1(2,3)] by simp
  ultimately show ?thesis using login_status_view(2) [OF same(3) assms(7)] by blast
qed

section \<open>Failed logins\<close>

text \<open>Which account has which phone number.\<close>

definition phone_book :: "db \<Rightarrow> (int \<times> string option) list" where
  "phone_book d = map (\<lambda>r. (acc_id r, acc_phone_number r)) (accounts d)"

lemma account_id_by_phone_book:
  assumes "phone_book d' = phone_book d"
  shows "get_account_id_by_phone_number p d' = get_account_id_by_phone_number p d"
proof -
  have one: "one_or_none (map f xs) = res_bind (one_or_none xs) (\<lambda>x. Inr (map_option f x))" for f and xs :: "'a list"
    by (cases xs rule: one_or_none.cases) simp_all
  have "get_account_id_by_phone_number p d =
      res_bind (one_or_none (filter (\<lambda>x. snd x = Some p) (phone_book d))) (\<lambda>x. Inr (map_option fst x))" for d
    by (simp add: get_account_id_by_phone_number_def phone_book_def filter_map comp_def one option.map_comp res_bind_def
        split: sum.split)
  with assms show ?thesis by simp
qed

definition book_frame :: "(int \<times> string option) list \<Rightarrow> db \<Rightarrow> bool" where
  "book_frame b d \<longleftrightarrow> phone_book d = b"

lemma book_frameI: "(\<And>d. phone_book (snd (m d)) = phone_book d) \<Longrightarrow> preserves (book_frame b) m"
  by (simp add: preserves_def book_frame_def)

lemma risk_breach_book: "preserves (book_frame b) (record_account_risk_breach a r t)"
proof -
  have "preserves (book_frame b) (set_pause_columns i p q)" for i p q
    unfolding set_pause_columns_def
    by (intro preserves_intros book_frameI) (simp add: phone_book_def table_simps)
  then have "preserves (book_frame b) (pause_account i p q)" for i p q by (simp add: preserves_def pause_account_def)
  moreover have "preserves (book_frame b) (setting_upsert k v)" for k v
    unfolding setting_upsert_def
    by (intro preserves_intros book_frameI) (simp add: insert_setting_def Let_def phone_book_def split: option.split)
  moreover have "preserves (book_frame b) (notification_create x y z p)" for x y z p
    unfolding notification_create_def
    by (intro preserves_intros book_frameI) (simp add: insert_notification_def Let_def phone_book_def)
  ultimately show ?thesis
    unfolding record_account_risk_breach_def upsert_risk_state_def Let_def by (intro preserves_intros)
qed

lemma breach_keeps_book: "record_account_risk_breach a r t d = (x, d') \<Longrightarrow> phone_book d' = phone_book d"
  using preserves_result [OF risk_breach_book, of "phone_book d" d a r t x d'] by (simp add: book_frame_def)

definition failure_type :: "exn \<Rightarrow> string" where
  "failure_type e =
     (if exn_class e \<in> {''PhoneNumberBannedError'', ''PhoneNumberFloodError''} then ''auth_registration_blocked''
      else ''auth_login_failed'')"

lemma auth_error_notification_shape:
  "\<exists>sv m pay. map_auth_error_notification env e = (failure_type e, sv, m, pay) \<and> is_dumpable pay \<and> \<not> is_none pay"
proof -
  have "is_dumpable (build_retry_payload env e hint) \<and> \<not> is_none (build_retry_payload env e hint)" for hint
    by (simp add: build_retry_payload_def Let_def)
  then show ?thesis
    by (cases "exn_class e \<in> {''PhoneNumberBannedError'', ''PhoneNumberFloodError''}")
      (auto simp: map_auth_error_notification_def failure_type_def)
qed

lemma guards_ok_alert: "guards_ok d \<Longrightarrow> guards_ok (with_alert ty sv m p d)"
  using settings_ok_cong [of "with_alert ty sv m p d" d] by (simp add: guards_ok_def with_alert_db_ok) (simp add: with_alert_def)

lemma risk_view_alert: "risk_view (with_alert ty sv m p d) = risk_view d"
  using stored_breaches_cong [of "with_alert ty sv m p d" d] by (simp add: risk_view_def with_alert_def fun_eq_iff)

text \<open>A refused phone number is one breach of the account that has this number.\<close>

lemma refuse_login_counts:
  assumes "guards_ok d" and "exn_class e \<in> set phone_errors" and "phone \<noteq> []"
    and "get_account_id_by_phone_number phone d = Inr (Some a)"
  obtains d' n alerts where "(refuse_login env phone e :: (db, 'a) act) d = (Inl (auth_failure_http_error (failure_type e)), d')"
    and "guards_ok d'" and "phone_book d' = phone_book d"
    and "risk_view d' = (risk_view d)(a := map_option (risk_step (clock d)) (risk_view d a))"
    and "notifications d' = notifications d @ n # alerts" and "nt_type n = failure_type e"
proof -
  obtain sv m pay where map: "map_auth_error_notification env e = (failure_type e, sv, m, pay)"
      and pay: "is_dumpable pay" "\<not> is_none pay"
    using auth_error_notification_shape by blast
  let ?d = "with_alert (failure_type e) sv m pay d"
  obtain n where n: "notification_create (failure_type e) sv m pay d = (Inr n, ?d)"
    using notification_create_eq [OF pay] by blast
  have "phone_book ?d = phone_book d" by (simp add: phone_book_def with_alert_def)
  with assms(4) have id: "get_account_id_by_phone_number phone ?d = Inr (Some a)"
    using account_id_by_phone_book [of ?d d phone] by simp
  obtain r d' where br: "record_account_risk_breach a ''auth-failure'' (utc_now ?d) ?d = (Inr r, d')"
      "breach_effect a (utc_now ?d) ?d d'"
    using record_breach_effect [OF guards_ok_alert [OF assms(1)]] by blast
  have inst: "instant (utc_now ?d) = clock d" by (simp add: utc_now_def with_alert_def instant_def offset_us_def)
  have "(refuse_login env phone e :: (db, 'a) act) d = (Inl (auth_failure_http_error (failure_type e)), d')"
    using assms(2,3) by (simp add: refuse_login_def record_auth_failure_notification_def map record_auth_failure_risk_breach_def
        act_bind_def n act_read_def id act_catch_def br(1) act_return_def act_raise_def)
  moreover obtain alerts where "notifications d' = notifications ?d @ alerts" using br(2) by (auto simp: breach_effect_def)
  moreover have "notifications ?d = notifications d @ [notification_of (failure_type e) sv m (Some (JText (sort_keys pay))) d]"
    by (simp add: with_alert_def)
  moreover have "phone_book d' = phone_book d"
    using breach_keeps_book [OF br(1)] \<open>phone_book ?d = phone_book d\<close> by simp
  ultimately show thesis
    using that br(2) by (simp add: breach_effect_def inst risk_view_alert notification_of_def)
qed

text \<open>A sequence of attempts to log in, each at its time, each refused by Telegram with a phone-number error.\<close>

definition attempt_at :: "auth_env \<Rightarrow> int \<Rightarrow> string \<Rightarrow> string \<Rightarrow> int \<Rightarrow> db \<Rightarrow> db" where
  "attempt_at env api h phone t d = snd (start_telegram_auth env api h phone (d\<lparr> clock := t \<rparr>))"

lemma start_refused:
  assumes "en_factory env api h None = Inr client" and "send_login_code client phone = Inl e"
  shows "start_telegram_auth env api h phone d =
    act_bind (refuse_login env phone e) (\<lambda>sent.
       if \<not> sent then act_raise otp_request_failed_error else
       act_bind (create_session (en_session_id env) phone ''code_sent'' None None None) (\<lambda>created.
         act_return (as_session_id created))) d"
  using assms by (simp add: start_telegram_auth_def bind_lift) (simp add: act_bind_def act_catch_def act_lift_def)

lemma attempts_count:
  assumes "en_factory env api h None = Inr client" and "send_login_code client phone = Inl e"
    and "exn_class e \<in> set phone_errors" and "phone \<noteq> []"
    and "guards_ok d" and "get_account_id_by_phone_number phone d = Inr (Some a)"
  shows "guards_ok (fold (attempt_at env api h phone) ts d) \<and>
    risk_view (fold (attempt_at env api h phone) ts d) =
      (risk_view d)(a := map_option (fold risk_step ts) (risk_view d a))"
  using assms(5,6)
proof (induction ts arbitrary: d)
  case Nil
  then show ?case by (simp add: option.map_id0 [unfolded id_def] fun_eq_iff option.map_ident)
next
  case (Cons t ts)
  let ?d = "d\<lparr> clock := t \<rparr>"
  have d: "guards_ok ?d" "phone_book ?d = phone_book d" "risk_view ?d = risk_view d"
    using Cons.prems(1) stored_breaches_cong [of ?d d] settings_ok_cong [of ?d d]
    by (simp_all add: guards_ok_def db_ok_defs phone_book_def risk_view_def fun_eq_iff)
  have "get_account_id_by_phone_number phone ?d = Inr (Some a)"
    using Cons.prems(2) account_id_by_phone_book [OF d(2), of phone] by simp
  then obtain d' n alerts where
    r: "(refuse_login env phone e :: (db, bool) act) ?d = (Inl (auth_failure_http_error (failure_type e)), d')"
    "guards_ok d'" "phone_book d' = phone_book ?d"
    "risk_view d' = (risk_view ?d)(a := map_option (risk_step (clock ?d)) (risk_view ?d a))"
    "notifications d' = notifications ?d @ n # alerts" "nt_type n = failure_type e"
    by (rule refuse_login_counts [OF d(1) assms(3,4)])
  then have at: "attempt_at env api h phone t d = d'"
    by (simp add: attempt_at_def start_refused [OF assms(1,2)] act_bind_def)
  have "get_account_id_by_phone_number phone d' = Inr (Some a)"
    using Cons.prems(2) account_id_by_phone_book [of d' d phone] r(3) d(2) by simp
  from Cons.IH [OF r(2) this] show ?case
    by (simp add: at r(4) d(3) option.map_comp comp_def fun_eq_iff)
qed

section \<open>A sample login\<close>

definition sample_client :: "bool res \<Rightarrow> unit res \<Rightarrow> telegram_client" where
  "sample_client sent entered =
     \<lparr> tc_is_connected = False, tc_connect = Inr (), tc_disconnect = Inr (), tc_send_code_request = (\<lambda>_. sent),
       tc_sign_in_code = (\<lambda>_ _. entered), tc_sign_in_password = (\<lambda>_. entered), tc_save = Some (Inr (PStr ''session'')) \<rparr>"

definition sample_env :: "telegram_client \<Rightarrow> auth_env" where
  "sample_env client =
     \<lparr> en_factory = (\<lambda>_ _ _. Inr client), en_seconds = (\<lambda>_. PNone), en_crypto = sample_crypto,
       en_argon2id = (\<lambda>_ _. replicate 32 3), en_unlock = \<lparr> us_mode = ''auto-unlock'', us_secret = Some ''pw'' \<rparr>,
       en_session_id = ''s1'', en_salt = replicate 16 7, en_dek = replicate 32 1, en_nonce = replicate 12 2,
       en_session_dek = replicate 32 4, en_session_nonce = replicate 12 5 \<rparr>"

definition sample_login_db :: "string \<Rightarrow> db" where
  "sample_login_db st =
     sample_db\<lparr> accounts := [(sample_account 1)\<lparr> acc_phone_number := Some ''+49'' \<rparr>],
       auth_sessions := [\<lparr> au_session_id = ''s1'', au_phone_number = ''+49'', au_status = st, au_expires_at = 900,
         au_telegram_session = None, au_created_at = DT 0 None, au_updated_at = DT 0 None \<rparr>], clock := 5000000 \<rparr>"

lemma sample_login_ok:
  "phones_ok (sample_login_db st)" "settings_ok (sample_login_db st)" "salt_ok (sample_login_db st)"
  "setting_value (sample_login_db st) k = setting_value sample_db k" "env_ok (sample_env client)"
proof -
  have "phones_ok sample_db" "settings_ok sample_db" "salt_ok sample_db" by code_simp+
  then show "phones_ok (sample_login_db st)" "settings_ok (sample_login_db st)" "salt_ok (sample_login_db st)"
      "setting_value (sample_login_db st) k = setting_value sample_db k"
    by (simp_all add: sample_login_db_def phones_ok_def db_ok_defs settings_ok_def salt_ok_def setting_value_def
        sample_db_def pk_def sample_account_def unique_opt_Cons)
  show "env_ok (sample_env client)"
    by (simp add: env_ok_def sample_env_def sample_crypto_ok draws_ok_def ARGON2ID_SALT_BYTES_def
        DATA_ENCRYPTION_KEY_BYTES_def AES_GCM_NONCE_BYTES_def)
qed

lemma code_moves:
  assumes keys: "session_keys_ok d" and Some: "auth_session_of d sid = Some r" and False: "\<not> is_expired (au_expires_at r) d"
  shows "\<exists>o' \<in> code_outcomes (code_answer env api h code (live_in ''code_sent'' d sid)).
    ends_in o' sid d (fst (verify_telegram_code env sid api h code d)) (snd (verify_telegram_code env sid api h code d))"
proof (cases "au_status r = ''code_sent'' \<and> us_secret (en_unlock env) \<noteq> None \<and> (\<exists>client. en_factory env api h None = Inr client)")
  case True
  then obtain client p where c: "en_factory env api h None = Inr client" "us_secret (en_unlock env) = Some p"
      "au_status r = ''code_sent''" by blast
  then have "verify_telegram_code env sid api h code d = after_code env api h code client (state_of_session r) d"
    by (simp add: verify_code_gate login_gate_eq [OF keys] Some False live_in_def ends_in_def code_conflict_def)
  then show ?thesis
    using after_code_ends [OF keys Some False, of env api h code client] c
    by (simp add: live_in_def Some False code_answer_def)
next
  case other: False
  then show ?thesis
    by (auto simp: verify_code_gate login_gate_eq [OF keys] Some False live_in_def ends_in_def code_conflict_def code_answer_def code_outcomes_def split: option.splits sum.splits)
qed

lemma password_moves:
  assumes keys: "session_keys_ok d" and Some: "auth_session_of d sid = Some r" and False: "\<not> is_expired (au_expires_at r) d"
  shows "\<exists>o' \<in> password_outcomes (password_answer env api h password (live_in ''password_required'' d sid)).
    ends_in o' sid d (fst (verify_telegram_password env sid api h password d)) (snd (verify_telegram_password env sid api h password d))"
proof (cases "au_status r = ''password_required'' \<and> au_telegram_session r \<notin> {None, Some []} \<and> us_secret (en_unlock env) \<noteq> None \<and>
    (\<exists>client. en_factory env api h (au_telegram_session r) = Inr client)")
  case True
  then obtain client p ts where c: "en_factory env api h (Some ts) = Inr client" "us_secret (en_unlock env) = Some p"
      "au_status r = ''password_required''" "au_telegram_session r = Some ts" "ts \<noteq> []" by auto
  then have "verify_telegram_password env sid api h password d = after_password env api h password client (state_of_session r) d"
    by (auto simp: verify_password_gate login_gate_eq [OF keys] Some False live_in_def ends_in_def password_conflict_def)
  then show ?thesis
    using after_password_ends [OF keys Some False, of env api h password client] c
    by (simp add: live_in_def Some False password_answer_def)
next
  case other: False
  then show ?thesis
    by (auto simp: verify_password_gate login_gate_eq [OF keys] Some False live_in_def ends_in_def password_conflict_def password_answer_def password_outcomes_def
        split: option.splits sum.splits if_splits)
qed

section \<open>Properties\<close>

text \<open>
  C20. The steps of a login as a state machine. Verifying a code or a password touches no session but
  the named one. An expired session is dropped. The status becomes authenticated only from
  code-sent after Telegram accepted the code, or from password-required after it accepted the
  password; it becomes password-required only from code-sent when Telegram asked for a password; in all these cases
  the process was unlocked, and only then is the response a success. A code that Telegram calls expired
  drops the session. In every other case the request fails and no status changes.
\<close>

theorem login_moves:
  assumes "session_keys_ok d"
  shows "(\<exists>o' \<in> (if \<exists>r. auth_session_of d sid = Some r \<and> is_expired (au_expires_at r) d then {LDropped}
        else code_outcomes (code_answer env api h code (live_in ''code_sent'' d sid))).
      ends_in o' sid d (fst (verify_telegram_code env sid api h code d)) (snd (verify_telegram_code env sid api h code d))) \<and>
    (\<exists>o' \<in> (if \<exists>r. auth_session_of d sid = Some r \<and> is_expired (au_expires_at r) d then {LDropped}
        else password_outcomes (password_answer env api h password (live_in ''password_required'' d sid))).
      ends_in o' sid d (fst (verify_telegram_password env sid api h password d))
        (snd (verify_telegram_password env sid api h password d)))"
proof (cases "auth_session_of d sid")
  case None
  then show ?thesis
    by (simp add: verify_code_gate verify_password_gate login_gate_eq [OF assms] live_in_def code_answer_def
        password_answer_def code_outcomes_def password_outcomes_def ends_in_def)
next
  case (Some r)
  show ?thesis
  proof (cases "is_expired (au_expires_at r) d")
    case True
    then show ?thesis
      using Some by (simp add: verify_code_gate verify_password_gate login_gate_eq [OF assms] ends_in_def login_status_view(3))
  next
    case False
    show ?thesis
      using code_moves [OF assms Some False] password_moves [OF assms Some False] Some False by simp
  qed
qed

theorem login_moves_witness:
  "session_keys_ok (sample_login_db ''code_sent'') \<and>
   (\<exists>o' \<in> {LSame, LMoved ''password_required''}. ends_in o' ''s1'' (sample_login_db ''code_sent'')
      (fst (verify_telegram_code (sample_env (sample_client (Inr True) (Inl (Exn ''SessionPasswordNeededError'' []))))
         ''s1'' 7 ''h'' ''1'' (sample_login_db ''code_sent'')))
      (snd (verify_telegram_code (sample_env (sample_client (Inr True) (Inl (Exn ''SessionPasswordNeededError'' []))))
         ''s1'' 7 ''h'' ''1'' (sample_login_db ''code_sent''))))"
proof -
  let ?e = "sample_env (sample_client (Inr True) (Inl (Exn ''SessionPasswordNeededError'' [])))"
  have ok: "session_keys_ok (sample_login_db ''code_sent'')"
    using sample_login_ok(1) by (simp add: phones_ok_def db_ok_defs)
  have "code_outcomes (code_answer ?e 7 ''h'' ''1'' (live_in ''code_sent'' (sample_login_db ''code_sent'') ''s1'')) =
      {LSame, LMoved ''password_required''}"
    "\<not> (\<exists>r. auth_session_of (sample_login_db ''code_sent'') ''s1'' = Some r \<and> is_expired (au_expires_at r) (sample_login_db ''code_sent''))"
    by (simp_all add: code_outcomes_def code_answer_def live_in_def auth_session_of_def sample_login_db_def is_expired_def
        now_epoch_def sample_env_def sample_client_def sign_in_with_code_def with_connection_def)
  then show ?thesis
    using ok login_moves [OF ok, of "''s1''" ?e 7 "''h''" "''1''" "''x''", THEN conjunct1] by (simp only: if_False simp_thms)
qed

lemma live_inD:
  "live_in st d sid = Some r \<Longrightarrow>
   auth_session_of d sid = Some r \<and> au_status r = st \<and> \<not> is_expired (au_expires_at r) d"
  by (auto simp: live_in_def split: option.splits if_splits)

lemma verify_code_stores:
  assumes "phones_ok d" and "settings_ok d" and "salt_ok d" and "env_ok env" and "us_secret (en_unlock env) = Some p"
    and "extract_session_string client = Inr (Some s)" and r: "live_in ''code_sent'' d sid = Some r"
    and c: "en_factory env api h None = Inr client" and ok: "sign_in_with_code client (au_phone_number r) code = Inr ()"
  shows "\<exists>d'. verify_telegram_code env sid api h code d = (Inr (sid, ''authenticated''), d') \<and>
    login_stored env p api h (au_phone_number r) s d' \<and> login_status d' = (login_status d)(sid \<mapsto> ''authenticated'')"
proof -
  have keys: "session_keys_ok d" using assms(1) by (simp add: phones_ok_def db_ok_defs)
  have "verify_telegram_code env sid api h code d = finish_login env client api h (state_of_session r) False d"
    using live_inD [OF r] c ok assms(5)
    by (simp add: verify_code_gate login_gate_eq [OF keys] code_conflict_def after_code_def)
  with finish_login_stores [OF assms(1-5) keys _ _ assms(6), of sid r api h False] live_inD [OF r] show ?thesis by simp
qed

text \<open>
  C21. A login completes. When Telegram accepts the code of a live session (or the password, in the
  second step), the client gives a session string, the process is unlocked and the stored salt (if any) is
  readable, the handler answers authenticated, and from then on a process unlocked with the same
  secret derives the key without writing, finds the account under the phone number and reads
  back the session string, the API id and the API hash.
\<close>

theorem login_completes:
  assumes "phones_ok d" and "settings_ok d" and "salt_ok d" and "env_ok env" and "us_secret (en_unlock env) = Some p"
    and "extract_session_string client = Inr (Some s)"
  shows "(\<forall>r. live_in ''code_sent'' d sid = Some r \<and> en_factory env api h None = Inr client \<and>
        sign_in_with_code client (au_phone_number r) code = Inr () \<longrightarrow>
      (\<exists>d'. verify_telegram_code env sid api h code d = (Inr (sid, ''authenticated''), d') \<and>
        login_stored env p api h (au_phone_number r) s d' \<and> login_status d' = (login_status d)(sid \<mapsto> ''authenticated''))) \<and>
    (\<forall>r ts. live_in ''password_required'' d sid = Some r \<and> au_telegram_session r = Some ts \<and> ts \<noteq> [] \<and>
        en_factory env api h (Some ts) = Inr client \<and> sign_in_with_password client password = Inr () \<longrightarrow>
      (\<exists>d'. verify_telegram_password env sid api h password d = (Inr (sid, ''authenticated''), d') \<and>
        login_stored env p api h (au_phone_number r) s d' \<and> login_status d' = (login_status d)(sid \<mapsto> ''authenticated'')))"
proof -
  have keys: "session_keys_ok d" using assms(1) by (simp add: phones_ok_def db_ok_defs)
  note stores = finish_login_stores [OF assms(1-5) keys _ _ assms(6)]
  show ?thesis
  proof (intro conjI allI impI; elim conjE)
    fix r assume r: "live_in ''code_sent'' d sid = Some r" and c: "en_factory env api h None = Inr client"
      and ok: "sign_in_with_code client (au_phone_number r) code = Inr ()"
    show "\<exists>d'. verify_telegram_code env sid api h code d = (Inr (sid, ''authenticated''), d') \<and>
        login_stored env p api h (au_phone_number r) s d' \<and> login_status d' = (login_status d)(sid \<mapsto> ''authenticated'')"
      by (rule verify_code_stores [OF assms r c ok])
  next
    fix r ts assume r: "live_in ''password_required'' d sid = Some r" and ts: "au_telegram_session r = Some ts" "ts \<noteq> []"
      and c: "en_factory env api h (Some ts) = Inr client" and ok: "sign_in_with_password client password = Inr ()"
    have "verify_telegram_password env sid api h password d = finish_login env client api h (state_of_session r) True d"
      using live_inD [OF r] c ok ts assms(5)
      by (simp add: verify_password_gate login_gate_eq [OF keys] password_conflict_def after_password_def)
    with stores [of sid r api h True] live_inD [OF r]
    show "\<exists>d'. verify_telegram_password env sid api h password d = (Inr (sid, ''authenticated''), d') \<and>
        login_stored env p api h (au_phone_number r) s d' \<and> login_status d' = (login_status d)(sid \<mapsto> ''authenticated'')" by simp
  qed
qed

theorem login_completes_witness:
  "\<exists>d'. verify_telegram_code (sample_env (sample_client (Inr True) (Inr ()))) ''s1'' 8 ''h'' ''1'' (sample_login_db ''code_sent'') =
      (Inr (''s1'', ''authenticated''), d') \<and>
    login_stored (sample_env (sample_client (Inr True) (Inr ()))) ''pw'' 8 ''h'' ''+49'' ''session'' d'"
proof -
  let ?c = "sample_client (Inr True) (Inr ())" and ?d = "sample_login_db ''code_sent''"
  obtain r where r: "live_in ''code_sent'' ?d ''s1'' = Some r" "au_phone_number r = ''+49''"
    by (simp add: live_in_def auth_session_of_def sample_login_db_def is_expired_def now_epoch_def)
  moreover have "us_secret (en_unlock (sample_env ?c)) = Some ''pw''" "extract_session_string ?c = Inr (Some ''session'')"
    "en_factory (sample_env ?c) 8 ''h'' None = Inr ?c" "sign_in_with_code ?c (au_phone_number r) ''1'' = Inr ()"
    by (simp_all add: sample_env_def sample_client_def extract_session_string_def sign_in_with_code_def with_connection_def)
  moreover note login_completes [OF sample_login_ok(1-3) [of "''code_sent''"] sample_login_ok(5) [of ?c], of "''pw''" ?c "''session''" "''s1''" 8 "''h''" "''1''" "''x''"]
  ultimately show ?thesis by auto
qed

text \<open>
  C22. Refused logins count as account risk: for a stored account that is not paused and has no breach
  on record, attempts to start a login with its phone number that Telegram refuses with a phone-number error, made
  in the order of their times, leave it paused exactly when some three consecutive ones lie within
  3600 seconds. No other account's counter or pause changes.
\<close>

theorem refused_logins_pause_account:
  assumes "en_factory env api h None = Inr client" and "send_login_code client phone = Inl e"
    and "exn_class e \<in> set phone_errors" and "phone \<noteq> []" and "guards_ok d"
    and "get_account_id_by_phone_number phone d = Inr (Some a)" and "risk_view d a = Some (False, [])" and "sorted ts"
  shows "map_option fst (risk_view (fold (attempt_at env api h phone) ts d) a) = Some (crowded ts) \<and>
    (\<forall>b. b \<noteq> a \<longrightarrow> risk_view (fold (attempt_at env api h phone) ts d) b = risk_view d b)"
proof -
  have "fst (fold risk_step ts (False, [])) = crowded ts" using risk_run [OF assms(8)] by blast
  then show ?thesis using attempts_count [OF assms(1-6), of ts] assms(7) by simp
qed

theorem refused_logins_pause_account_witness:
  "map_option fst (risk_view (fold (attempt_at (sample_env (sample_client (Inl (Exn ''PhoneNumberFloodError'' [])) (Inr ()))) 8 ''h'' ''+49'')
     [0, 1800000000, 3600000000] (sample_login_db ''code_sent'')) 1) = Some True"
proof -
  let ?c = "sample_client (Inl (Exn ''PhoneNumberFloodError'' [])) (Inr ())" and ?d = "sample_login_db ''code_sent''"
  have "guards_ok ?d" using sample_login_ok(1,2) by (simp add: guards_ok_def phones_ok_def)
  moreover have "get_account_id_by_phone_number ''+49'' ?d = Inr (Some 1)"
    by (simp add: get_account_id_by_phone_number_def sample_login_db_def sample_account_def)
  moreover have "risk_view ?d 1 = Some (False, [])"
  proof -
    have "setting_value sample_db (state_key 1) = None" by code_simp
    then show ?thesis
      using sample_login_ok(4) by (simp add: risk_view_def stored_breaches_def decode_risk_state_def)
        (simp add: sample_login_db_def sample_account_def)
  qed
  moreover have "crowded [0, 1800000000, 3600000000]" by (simp add: crowded_def risk_window_us_def)
  moreover have "en_factory (sample_env ?c) 8 ''h'' None = Inr ?c" "send_login_code ?c ''+49'' = Inl (Exn ''PhoneNumberFloodError'' [])"
    by (simp_all add: sample_env_def sample_client_def send_login_code_def with_connection_def)
  ultimately show ?thesis
    using refused_logins_pause_account [of "sample_env ?c" 8 "''h''" ?c "''+49''" _ ?d 1 "[0, 1800000000, 3600000000]"]
    by (simp add: phone_errors_def)
qed

end
