(* ===== verification/Code_Points.thy ===== *)
theory Code_Points
  imports Python
begin

text \<open>
  Texts as lists of code points, for the parts of the system whose texts may hold characters beyond
  Latin-1: the bot messages and the normalization of items. The string methods that those parts use
  are here; what depends on the Unicode tables of the interpreter (case mapping, compatibility
  normalization, the letters and digits) is the parameter \<open>unicode_tables\<close>.
\<close>

type_synonym utext = "nat list"

definition cps :: "string \<Rightarrow> utext" where
  "cps s = map of_char s"

text \<open>\<open>\s\<close> in a pattern over \<open>str\<close>.\<close>

definition space_cp :: "nat \<Rightarrow> bool" where
  "space_cp c \<longleftrightarrow> (9 \<le> c \<and> c \<le> 13) \<or> (28 \<le> c \<and> c \<le> 32) \<or> c = 133 \<or> c = 160 \<or> c = 5760 \<or>
     (8192 \<le> c \<and> c \<le> 8202) \<or> c = 8232 \<or> c = 8233 \<or> c = 8239 \<or> c = 8287 \<or> c = 12288"

text \<open>
  \<open>str.lower\<close>, \<open>unicodedata.normalize("NFKC", s)\<close>, \<open>str.isalnum\<close> of one character, and whether
  the check of a bracketed host accepts a network location (an IP address per \<open>ipaddress\<close>).
\<close>

record unicode_tables =
  ut_lower :: "utext \<Rightarrow> utext"
  ut_nfkc :: "utext \<Rightarrow> utext"
  ut_isalnum :: "nat \<Rightarrow> bool"
  ut_bracket_ok :: "utext \<Rightarrow> bool"

definition u_strip :: "utext \<Rightarrow> utext" where
  "u_strip s = rev (dropWhile space_cp (rev (dropWhile space_cp s)))"

text \<open>\<open>s.split(sep)\<close> for a one-character separator, and \<open>sep.join(parts)\<close>.\<close>

fun u_split_on :: "nat \<Rightarrow> utext \<Rightarrow> utext list" where
  "u_split_on sep [] = [[]]"
| "u_split_on sep (c # cs) =
     (if c = sep then [] # u_split_on sep cs
      else case u_split_on sep cs of [] \<Rightarrow> [[c]] | part # rest \<Rightarrow> (c # part) # rest)"

fun u_join :: "utext \<Rightarrow> utext list \<Rightarrow> utext" where
  "u_join sep [] = []"
| "u_join sep [s] = s"
| "u_join sep (s # t # ts) = s @ sep @ u_join sep (t # ts)"

text \<open>\<open>s.split()\<close>: the runs of characters that are not white space.\<close>

fun u_words :: "utext \<Rightarrow> utext list" where
  "u_words [] = []"
| "u_words (c # cs) =
     (if space_cp c then u_words cs
      else case cs of
        [] \<Rightarrow> [[c]]
      | c' # _ \<Rightarrow> if space_cp c' then [c] # u_words cs
                 else case u_words cs of [] \<Rightarrow> [[c]] | w # ws \<Rightarrow> (c # w) # ws)"

text \<open>\<open>s.partition(sep)\<close> and \<open>s.rpartition(sep)\<close>: the part in front, whether the separator occurs, the rest.\<close>

definition u_partition :: "nat \<Rightarrow> utext \<Rightarrow> utext \<times> bool \<times> utext" where
  "u_partition sep s = (takeWhile (\<lambda>c. c \<noteq> sep) s, sep \<in> set s, tl (dropWhile (\<lambda>c. c \<noteq> sep) s))"

definition u_rpartition :: "nat \<Rightarrow> utext \<Rightarrow> utext \<times> bool \<times> utext" where
  "u_rpartition sep s =
     (if sep \<in> set s
      then (rev (tl (dropWhile (\<lambda>c. c \<noteq> sep) (rev s))), True, rev (takeWhile (\<lambda>c. c \<noteq> sep) (rev s)))
      else ([], False, s))"

definition u_starts :: "utext \<Rightarrow> utext \<Rightarrow> bool" where
  "u_starts p s \<longleftrightarrow> take (length p) s = p"

lemma u_split_on_nonempty [simp]: "u_split_on sep s \<noteq> []"
  by (cases s) (auto split: list.split)

lemma u_split_on_none: "sep \<notin> set s \<Longrightarrow> u_split_on sep s = [s]"
  by (induction s) auto

lemma u_split_on_append: "u_split_on sep (s @ sep # t) = u_split_on sep s @ u_split_on sep t"
proof (induction s)
  case (Cons c s)
  then show ?case by (cases "u_split_on sep s") auto
qed simp

lemma u_split_on_parts: "p \<in> set (u_split_on sep s) \<Longrightarrow> sep \<notin> set p"
proof (induction s arbitrary: p)
  case (Cons c s)
  then show ?case by (cases "u_split_on sep s") (auto split: if_splits)
qed simp

lemma u_split_on_subset: "p \<in> set (u_split_on sep s) \<Longrightarrow> set p \<subseteq> set s"
proof (induction s arbitrary: p)
  case (Cons c s)
  obtain q qs where "u_split_on sep s = q # qs" by (cases "u_split_on sep s") auto
  with Cons show ?case by (cases "c = sep") fastforce+
qed simp

lemma u_split_on_join:
  "ps \<noteq> [] \<Longrightarrow> (\<And>p. p \<in> set ps \<Longrightarrow> sep \<notin> set p) \<Longrightarrow> u_split_on sep (u_join [sep] ps) = ps"
  by (induction "[sep]" ps rule: u_join.induct) (auto simp: u_split_on_none u_split_on_append)

lemma find_sep:
  "sep \<notin> set s \<Longrightarrow> takeWhile (\<lambda>c. c \<noteq> sep) s = s \<and> dropWhile (\<lambda>c. c \<noteq> sep) s = []"
  "sep \<notin> set s \<Longrightarrow> takeWhile (\<lambda>c. c \<noteq> sep) (s @ sep # t) = s \<and> dropWhile (\<lambda>c. c \<noteq> sep) (s @ sep # t) = sep # t"
  by (induction s) auto

lemma u_partition_none: "sep \<notin> set s \<Longrightarrow> u_partition sep s = (s, False, [])"
  unfolding u_partition_def by (metis find_sep(1) list.sel(2))

lemma u_partition_at: "sep \<notin> set s \<Longrightarrow> u_partition sep (s @ sep # t) = (s, True, t)"
  unfolding u_partition_def using find_sep(2) [of sep s t] by (simp del: takeWhile_eq_all_conv)

lemma u_rpartition_none: "sep \<notin> set s \<Longrightarrow> u_rpartition sep s = ([], False, s)"
  by (simp add: u_rpartition_def)

end
