(* ===== verification/Bot_Format.thy ===== *)
theory Bot_Format
  imports Code_Points
begin

text \<open>
  \<open>tca/bot/formatter.py\<close>: the HTML message for one cluster. The message may hold characters beyond
  Latin-1 (the ellipsis), so texts are lists of code points here; \<open>cps\<close> reads a stored text. The
  regular expressions of \<open>truncate_html\<close> are written as the scanner they describe. Lemmas: the
  length bound, the tags stay balanced, and user text contributes no markup.
\<close>

section \<open>Characters of the markup\<close>

definition alnum_cp :: "nat \<Rightarrow> bool" where
  "alnum_cp c \<longleftrightarrow> (48 \<le> c \<and> c \<le> 57) \<or> (65 \<le> c \<and> c \<le> 90) \<or> (97 \<le> c \<and> c \<le> 122)"

definition lower_cp :: "nat \<Rightarrow> nat" where
  "lower_cp c = (if 65 \<le> c \<and> c \<le> 90 then c + 32 else c)"

abbreviation LT :: nat where "LT \<equiv> 60"
abbreviation GT :: nat where "GT \<equiv> 62"
abbreviation SLASH :: nat where "SLASH \<equiv> 47"

definition ellipsis :: utext where "ellipsis = [8230]"

section \<open>Truncation\<close>

text \<open>
  The pattern of a tag at the front of the text: \<open><\<close>, an optional slash, letters and digits, and then
  either \<open>>\<close> or white space and everything up to the first \<open>>\<close>. The result is the length of
  the match.
\<close>

definition tag_end :: "utext \<Rightarrow> nat option" where
  "tag_end s =
     (case s of
        [] \<Rightarrow> None
      | c # cs \<Rightarrow>
         if c = GT then Some 1
         else if space_cp c then (if GT \<in> set cs then Some (length (takeWhile (\<lambda>x. x \<noteq> GT) s) + 1) else None)
         else None)"

definition match_tag :: "utext \<Rightarrow> nat option" where
  "match_tag s =
     (case s of
        [] \<Rightarrow> None
      | c # cs \<Rightarrow>
         if c \<noteq> LT then None
         else
           let k = (if cs \<noteq> [] \<and> hd cs = SLASH then 1 else 0);
               name = takeWhile alnum_cp (drop k cs) in
           if name = [] then None
           else map_option (\<lambda>n. 1 + k + length name + n) (tag_end (drop (k + length name) cs)))"

lemma tag_end_pos: "tag_end s = Some n \<Longrightarrow> 0 < n \<and> n \<le> length s"
  by (auto simp: tag_end_def split: list.splits if_splits)
    (metis (mono_tags, lifting) Suc_leI dropWhile_eq_Nil_conv length_append length_greater_0_conv less_add_same_cancel1
      takeWhile_dropWhile_id)

lemma match_tag_pos: "match_tag s = Some n \<Longrightarrow> 0 < n"
  by (auto simp: match_tag_def Let_def split: list.splits if_splits)

text \<open>\<open>token_pattern.split\<close>: texts and tags in turn; empty texts are skipped by the loop.\<close>

function split_tokens :: "utext \<Rightarrow> utext \<Rightarrow> utext list" where
  "split_tokens acc [] = [acc]"
| "split_tokens acc (c # cs) =
     (case match_tag (c # cs) of
        None \<Rightarrow> split_tokens (acc @ [c]) cs
      | Some n \<Rightarrow> acc # take n (c # cs) # split_tokens [] (drop n (c # cs)))"
  by pat_completeness auto
termination by (relation "measure (\<lambda>(acc, s). length s)") (auto dest: match_tag_pos)

definition tag_name :: "utext \<Rightarrow> utext option" where
  "tag_name t =
     (case t of
        [] \<Rightarrow> None
      | c # cs \<Rightarrow>
         let name = takeWhile alnum_cp (if cs \<noteq> [] \<and> hd cs = SLASH then tl cs else cs) in
         if c = LT \<and> name \<noteq> [] then Some (map lower_cp name) else None)"

definition is_tag :: "utext \<Rightarrow> bool" where
  "is_tag t \<longleftrightarrow> t \<noteq> [] \<and> hd t = LT \<and> last t = GT"

definition is_end_tag :: "utext \<Rightarrow> bool" where
  "is_end_tag t \<longleftrightarrow> take 2 t = [LT, SLASH]"

definition self_closing :: "utext \<Rightarrow> bool" where
  "self_closing t \<longleftrightarrow> 2 \<le> length t \<and> drop (length t - 2) t = [SLASH, GT]"

definition closing_len :: "utext list \<Rightarrow> nat" where
  "closing_len tags = sum_list (map (\<lambda>t. length t + 3) tags)"

text \<open>\<open>list.pop\<close> of the matching tag at the end.\<close>

definition pop_tag :: "utext \<Rightarrow> utext list \<Rightarrow> utext list" where
  "pop_tag name tags = (if tags \<noteq> [] \<and> last tags = name then butlast tags else tags)"

text \<open>The loop over the tokens, from the open tags and the parts collected so far.\<close>

fun truncate_loop :: "nat \<Rightarrow> utext list \<Rightarrow> utext list \<Rightarrow> nat \<Rightarrow> utext list \<Rightarrow> utext list \<times> utext list" where
  "truncate_loop max_len tags parts len [] = (tags, parts)"
| "truncate_loop max_len tags parts len (t # ts) =
     (if t = [] then truncate_loop max_len tags parts len ts
      else if is_tag t then
        (case tag_name t of
           None \<Rightarrow> truncate_loop max_len tags parts len ts
         | Some name \<Rightarrow>
            let new_open = (if is_end_tag t then pop_tag name tags
                            else if self_closing t then tags else tags @ [name]) in
            if len + length t + closing_len new_open + 1 > max_len then (tags, parts)
            else truncate_loop max_len new_open (parts @ [t]) (len + length t) ts)
      else if max_len \<le> 1 + closing_len tags + len then (tags, parts)
      else
        let available = max_len - 1 - closing_len tags - len in
        if length t > available then (tags, parts @ [take available t])
        else truncate_loop max_len tags (parts @ [t]) (len + length t) ts)"

definition close_tag :: "utext \<Rightarrow> utext" where
  "close_tag name = [LT, SLASH] @ name @ [GT]"

definition truncate_html :: "nat \<Rightarrow> utext \<Rightarrow> utext" where
  "truncate_html max_len s =
     (if length s \<le> max_len then s
      else
        case truncate_loop max_len [] [] 0 (split_tokens [] s) of
          (tags, parts) \<Rightarrow> concat parts @ ellipsis @ concat (map close_tag (rev tags)))"

section \<open>The message\<close>

text \<open>\<open>html.escape\<close> with quotes.\<close>

definition escape_cp :: "nat \<Rightarrow> utext" where
  "escape_cp c =
     (if c = 38 then cps ''&amp;'' else if c = LT then cps ''&lt;'' else if c = GT then cps ''&gt;''
      else if c = 34 then cps ''&quot;'' else if c = 39 then cps ''&#x27;'' else [c])"

definition html_escape :: "utext \<Rightarrow> utext" where
  "html_escape s = concat (map escape_cp s)"

record delivery_entry =
  de_cluster_id :: int
  de_title :: "string option"
  de_body :: "string option"
  de_canonical_url :: "string option"
  de_published_at :: "datetime option"
  de_channel_name :: string
  de_channel_username :: "string option"
  de_duplicate_count :: int

text \<open>\<open>html.escape(x) if x else ''\<close> for an optional text.\<close>

definition escaped_or_empty :: "string option \<Rightarrow> utext" where
  "escaped_or_empty x = (case x of None \<Rightarrow> [] | Some s \<Rightarrow> html_escape (cps s))"

definition title_html :: "utext \<Rightarrow> utext \<Rightarrow> utext" where
  "title_html escaped_title escaped_url =
     (let title = (if escaped_title \<noteq> [] then cps ''<b>'' @ escaped_title @ cps ''</b>'' else []) in
      if escaped_url = [] then title
      else cps ''<a href=\"'' @ escaped_url @ cps ''\">'' @ (if title \<noteq> [] then title else escaped_url) @ cps ''</a>'')"

definition attribution_html :: "utext \<Rightarrow> utext \<Rightarrow> int \<Rightarrow> utext" where
  "attribution_html escaped_name escaped_username duplicate_count =
     cps ''via '' @ escaped_name @
     (if escaped_username \<noteq> [] then cps '' (@'' @ escaped_username @ cps '')'' else []) @
     (if duplicate_count > 1 then cps '' +'' @ cps (int_text duplicate_count) @ cps '' duplicates'' else [])"

fun join_parts :: "utext list \<Rightarrow> utext" where
  "join_parts [] = []"
| "join_parts [p] = p"
| "join_parts (p # q # ps) = p @ [10, 10] @ join_parts (q # ps)"

definition full_message :: "delivery_entry \<Rightarrow> utext" where
  "full_message e =
     (let title = title_html (escaped_or_empty (de_title e)) (escaped_or_empty (de_canonical_url e));
          body = (case de_body e of None \<Rightarrow> [] | Some b \<Rightarrow> html_escape (cps (take 500 b)));
          attr = attribution_html (html_escape (cps (de_channel_name e))) (escaped_or_empty (de_channel_username e))
                   (de_duplicate_count e) in
      join_parts ((if title \<noteq> [] then [title] else []) @ (if body \<noteq> [] then [body] else []) @ [attr]))"

definition MESSAGE_LIMIT :: nat where "MESSAGE_LIMIT = 4096"

definition format_delivery_message :: "delivery_entry \<Rightarrow> utext" where
  "format_delivery_message e = truncate_html MESSAGE_LIMIT (full_message e)"

section \<open>The length bound\<close>

lemma closing_len_length: "length (concat (map close_tag (rev tags))) = closing_len tags"
  by (induction tags) (simp_all add: closing_len_def close_tag_def)

lemma truncate_loop_bound:
  assumes "truncate_loop m tags parts len ts = (tags', parts')" and "len = length (concat parts)"
    and "len + closing_len tags + 1 \<le> m"
  shows "length (concat parts') + closing_len tags' + 1 \<le> m"
  using assms
proof (induction m tags parts len ts rule: truncate_loop.induct)
  case (2 m tags parts len t ts)
  consider "t = []" | "t \<noteq> []" "is_tag t" | "t \<noteq> []" "\<not> is_tag t" by blast
  then show ?case
  proof cases
    case 1
    then show ?thesis using 2 by simp
  next
    case tag: 2
    show ?thesis
    proof (cases "tag_name t")
      case None
      then show ?thesis using 2 tag by simp
    next
      case (Some name)
      let ?new = "if is_end_tag t then pop_tag name tags else if self_closing t then tags else tags @ [name]"
      show ?thesis
      proof (cases "len + length t + closing_len ?new + 1 > m")
        case True
        then have "(tags', parts') = (tags, parts)" using 2(5) tag Some by (simp add: Let_def)
        then show ?thesis using 2(6,7) by simp
      next
        case False
        then have "truncate_loop m ?new (parts @ [t]) (len + length t) ts = (tags', parts')"
          using 2(5) tag Some by (simp add: Let_def)
        then show ?thesis using 2(3) [OF _ tag(2) Some refl False] tag(1) 2(6) False by simp
      qed
    qed
  next
    case 3
    then show ?thesis using 2 by (auto simp: Let_def split: if_splits)
  qed
qed simp

lemma truncate_html_bound: "0 < m \<Longrightarrow> length (truncate_html m s) \<le> m"
proof (cases "length s \<le> m")
  case False
  assume "0 < m"
  obtain tags parts where run: "truncate_loop m [] [] 0 (split_tokens [] s) = (tags, parts)" by fastforce
  from truncate_loop_bound [OF this] \<open>0 < m\<close>
  have "length (concat parts) + closing_len tags + 1 \<le> m" by (simp add: closing_len_def)
  then show ?thesis using run False by (simp add: truncate_html_def ellipsis_def closing_len_length)
qed (simp add: truncate_html_def)

section \<open>Balanced tags\<close>

text \<open>
  An independent reading of the markup: \<open>well_nested tags s\<close> says that \<open>s\<close>, read inside the open
  \<open>tags\<close>, has no stray angle bracket, closes only the innermost open tag and closes every tag.
\<close>

function well_nested :: "utext list \<Rightarrow> utext \<Rightarrow> bool" where
  "well_nested tags [] \<longleftrightarrow> tags = []"
| "well_nested tags (c # cs) \<longleftrightarrow>
     (if c = LT then
        (let inner = takeWhile (\<lambda>x. x \<noteq> GT) cs; rest = dropWhile (\<lambda>x. x \<noteq> GT) cs in
         rest \<noteq> [] \<and> LT \<notin> set inner \<and> inner \<noteq> [] \<and>
         (if hd inner = SLASH
          then tags \<noteq> [] \<and> last tags = tl inner \<and> well_nested (butlast tags) (tl rest)
          else takeWhile alnum_cp inner \<noteq> [] \<and> well_nested (tags @ [takeWhile alnum_cp inner]) (tl rest)))
      else c \<noteq> GT \<and> well_nested tags cs)"
  by pat_completeness auto
termination
  by (relation "measure (\<lambda>(tags, s). length s)") (auto simp: le_imp_less_Suc le_diff_conv length_dropWhile_le le_SucI)

definition plain :: "utext \<Rightarrow> bool" where
  "plain s \<longleftrightarrow> LT \<notin> set s \<and> GT \<notin> set s"

definition tag_word :: "utext \<Rightarrow> bool" where
  "tag_word name \<longleftrightarrow> name \<noteq> [] \<and> (\<forall>c \<in> set name. alnum_cp c \<and> lower_cp c = c)"

text \<open>The two kinds of tag that the messages hold.\<close>

inductive opens :: "utext \<Rightarrow> utext \<Rightarrow> bool" where
  "tag_word name \<Longrightarrow> opens name ([LT] @ name @ [GT])"
| "tag_word name \<Longrightarrow> plain attrs \<Longrightarrow> (attrs = [] \<or> last attrs \<noteq> SLASH) \<Longrightarrow> opens name ([LT] @ name @ [32] @ attrs @ [GT])"

inductive closes :: "utext \<Rightarrow> utext \<Rightarrow> bool" where
  "tag_word name \<Longrightarrow> closes name ([LT, SLASH] @ name @ [GT])"

lemma tag_word_chars:
  assumes "tag_word name"
  shows "GT \<notin> set name" "LT \<notin> set name" "SLASH \<notin> set name" "32 \<notin> set name" "takeWhile alnum_cp (name @ GT # x) = name"
    "takeWhile alnum_cp (name @ 32 # x) = name" "map lower_cp name = name" "takeWhile alnum_cp name = name"
proof -
  have word: "\<forall>c \<in> set name. alnum_cp c" "\<not> alnum_cp GT" "\<not> alnum_cp LT" "\<not> alnum_cp SLASH" "\<not> alnum_cp 32"
    using assms by (auto simp: tag_word_def alnum_cp_def)
  then show "GT \<notin> set name" "LT \<notin> set name" "SLASH \<notin> set name" "32 \<notin> set name" by blast+
  show "takeWhile alnum_cp (name @ GT # x) = name" "takeWhile alnum_cp (name @ 32 # x) = name" "takeWhile alnum_cp name = name"
    using word by (simp_all add: takeWhile_append2 takeWhile_append)
  show "map lower_cp name = name" using assms by (simp add: tag_word_def map_idI)
qed

lemma takeWhile_until: "x \<notin> set a \<Longrightarrow> takeWhile (\<lambda>c. c \<noteq> x) (a @ x # b) = a"
  by (induction a) auto

lemma dropWhile_until: "x \<notin> set a \<Longrightarrow> dropWhile (\<lambda>c. c \<noteq> x) (a @ x # b) = x # b"
  by (induction a) auto

lemma well_nested_plain: "plain a \<Longrightarrow> well_nested tags (a @ s) = well_nested tags s"
  by (induction a) (auto simp: plain_def)

lemma word_head: "tag_word name \<Longrightarrow> hd (name @ x) \<noteq> SLASH \<and> hd name \<noteq> SLASH \<and> name \<noteq> []"
  using tag_word_chars(3) [of name] by (cases name) (auto simp: tag_word_def)

lemma well_nested_open:
  assumes "opens name t"
  shows "well_nested tags (t @ s) = well_nested (tags @ [name]) s"
  using assms
proof cases
  case 1
  then show ?thesis
    using word_head [of name "[]"] tag_word_chars(1,2) [of name]
    by (simp add: takeWhile_until dropWhile_until tag_word_chars(8) del: takeWhile_eq_all_conv)
next
  case (2 attrs)
  have gt: "GT \<notin> set (name @ 32 # attrs)" "LT \<notin> set (name @ 32 # attrs)"
    using 2 tag_word_chars(1,2) [of name] by (auto simp: plain_def)
  have cut: "takeWhile (\<lambda>x. x \<noteq> GT) (name @ 32 # attrs @ GT # s) = name @ 32 # attrs"
    "dropWhile (\<lambda>x. x \<noteq> GT) (name @ 32 # attrs @ GT # s) = GT # s"
    using takeWhile_until [OF gt(1), of s] dropWhile_until [OF gt(1), of s] by simp_all
  show ?thesis
    using 2(1,2) gt(2) word_head [of name "32 # attrs"] tag_word_chars(6) [of name attrs]
    by (simp only: 2(1) append.simps append_assoc well_nested.simps cut Let_def list.sel) simp
qed

lemma well_nested_close:
  assumes "closes name t"
  shows "well_nested tags (t @ s) \<longleftrightarrow> tags \<noteq> [] \<and> last tags = name \<and> well_nested (butlast tags) s"
  using assms
proof cases
  case 1
  have gt: "GT \<notin> set (SLASH # name)" "LT \<notin> set (SLASH # name)" using 1 tag_word_chars(1,2) [of name] by auto
  have "well_nested tags (LT # (SLASH # name) @ GT # s) \<longleftrightarrow> tags \<noteq> [] \<and> last tags = name \<and> well_nested (butlast tags) s"
    using gt by (simp add: takeWhile_until dropWhile_until)
  then show ?thesis using 1(1) by simp
qed

text \<open>The scanner recognizes exactly these tags, and nothing in plain text.\<close>

lemma match_tag_plain: "plain [c] \<Longrightarrow> match_tag (c # s) = None"
  by (simp add: match_tag_def plain_def)

lemma tag_end_gt: "tag_end (GT # s) = Some 1"
  by (simp add: tag_end_def)

lemma tag_end_attrs: "plain attrs \<Longrightarrow> tag_end (32 # attrs @ GT # s) = Some (length attrs + 2)"
  using takeWhile_until [of GT "32 # attrs" s] by (auto simp: tag_end_def space_cp_def plain_def)

lemma match_tag_open:
  assumes "opens name t"
  shows "match_tag (t @ s) = Some (length t)" "is_tag t" "tag_name t = Some name" "\<not> is_end_tag t" "\<not> self_closing t"
proof -
  have word: "tag_word name" using assms by (auto elim: opens.cases)
  note w = tag_word_chars [OF word] and h = word_head [OF word]
  show "match_tag (t @ s) = Some (length t)"
    using assms
  proof cases
    case 1
    then show ?thesis
      using w(5) [of s] h [of "GT # s"] by (simp add: match_tag_def Let_def tag_end_gt)
  next
    case (2 attrs)
    then show ?thesis
      using w(6) [of "attrs @ GT # s"] h [of "32 # attrs @ GT # s"] by (simp add: match_tag_def Let_def tag_end_attrs)
  qed
  show "is_tag t" using assms by (auto simp: is_tag_def elim: opens.cases)
  show "tag_name t = Some name"
    using assms
  proof cases
    case 1
    then show ?thesis using w(5) [of "[]"] w(7) h [of "[GT]"] by (simp add: tag_name_def)
  next
    case (2 attrs)
    then show ?thesis using w(6) [of "attrs @ [GT]"] w(7) h [of "32 # attrs @ [GT]"] by (simp add: tag_name_def)
  qed
  obtain c cs where "name = c # cs" "c \<noteq> SLASH" using h [of "[]"] by (cases name) auto
  then show "\<not> is_end_tag t" using assms by (auto simp: is_end_tag_def elim!: opens.cases)
  have end_word: "last name \<noteq> SLASH" using h w(3) last_in_set by metis
  show "\<not> self_closing t"
    using assms
  proof cases
    case 1
    then have "drop (length t - 2) t = [last name, GT]"
      using h by (cases name rule: rev_cases) simp_all
    with end_word show ?thesis by (simp add: self_closing_def)
  next
    case (2 attrs)
    then have "drop (length t - 2) t = [if attrs = [] then 32 else last attrs, GT]"
      by (cases attrs rule: rev_cases) simp_all
    with 2(4) show ?thesis by (auto simp: self_closing_def)
  qed
qed

lemma match_tag_close:
  assumes "closes name t"
  shows "match_tag (t @ s) = Some (length t)" "is_tag t" "tag_name t = Some name" "is_end_tag t"
  using assms tag_word_chars [of name] word_head [of name "[]"]
  by (auto simp: match_tag_def Let_def tag_end_gt is_tag_def tag_name_def is_end_tag_def elim!: closes.cases)

inductive marked :: "utext \<Rightarrow> bool" where
  marked_nil: "marked []"
| marked_plain: "plain [c] \<Longrightarrow> marked s \<Longrightarrow> marked (c # s)"
| marked_open: "opens name t \<Longrightarrow> marked s \<Longrightarrow> marked (t @ s)"
| marked_close: "closes name t \<Longrightarrow> marked s \<Longrightarrow> marked (t @ s)"

definition token_ok :: "utext \<Rightarrow> bool" where
  "token_ok t \<longleftrightarrow> plain t \<or> (\<exists>name. opens name t \<or> closes name t)"

lemma plain_append [simp]: "plain (a @ b) \<longleftrightarrow> plain a \<and> plain b"
  by (auto simp: plain_def)

lemma split_at_tag: "match_tag (t @ s) = Some (length t) \<Longrightarrow> t \<noteq> [] \<Longrightarrow> split_tokens acc (t @ s) = acc # t # split_tokens [] s"
  by (cases t) auto

lemma split_tokens_marked:
  assumes "marked s" and "plain acc"
  shows "(\<forall>t \<in> set (split_tokens acc s). token_ok t) \<and> concat (split_tokens acc s) = acc @ s"
  using assms
proof (induction arbitrary: acc rule: marked.induct)
  case marked_nil
  then show ?case by (simp add: token_ok_def)
next
  case (marked_plain c s)
  then show ?case using marked_plain.IH [of "acc @ [c]"] by (simp add: match_tag_plain)
next
  case (marked_open name t s)
  then have "t \<noteq> []" by (auto elim: opens.cases)
  from split_at_tag [OF match_tag_open(1) [OF marked_open(1)] this] marked_open show ?case
    using marked_open.IH [of "[]"] by (auto simp: token_ok_def plain_def)
next
  case (marked_close name t s)
  then have "t \<noteq> []" by (auto elim: closes.cases)
  from split_at_tag [OF match_tag_close(1) [OF marked_close(1)] this] marked_close show ?case
    using marked_close.IH [of "[]"] by (auto simp: token_ok_def plain_def)
qed

text \<open>
  Cutting a well-nested message at any token, and a plain one anywhere, and closing the tags that
  are open gives a well-nested message.
\<close>

definition leads_to :: "utext list \<Rightarrow> utext list \<Rightarrow> bool" where
  "leads_to parts tags \<longleftrightarrow>
     (\<forall>s. well_nested [] (concat parts @ s) = well_nested tags s) \<and> (\<forall>name \<in> set tags. tag_word name)"

lemma leads_to_token:
  assumes "leads_to parts tags" and "well_nested tags (t @ rest)" and "token_ok t" and "\<not> plain t"
  shows "\<exists>name. is_tag t \<and> tag_name t = Some name \<and>
    (let new = (if is_end_tag t then pop_tag name tags else if self_closing t then tags else tags @ [name]) in
     leads_to (parts @ [t]) new \<and> well_nested new rest)"
proof -
  from assms(3,4) obtain name where "opens name t \<or> closes name t" by (auto simp: token_ok_def)
  then show ?thesis
  proof
    assume o: "opens name t"
    then have "leads_to (parts @ [t]) (tags @ [name])" "well_nested (tags @ [name]) rest"
      using assms(1,2) by (auto simp: leads_to_def well_nested_open elim: opens.cases)
    with match_tag_open [OF o] show ?thesis by (simp add: Let_def)
  next
    assume c: "closes name t"
    then have top: "tags \<noteq> []" "last tags = name" "well_nested (butlast tags) rest"
      using assms(2) by (simp_all add: well_nested_close)
    then have "leads_to (parts @ [t]) (butlast tags)"
      using assms(1) by (auto simp: leads_to_def well_nested_close [OF c] dest: in_set_butlastD)
    with match_tag_close [OF c] top show ?thesis by (simp add: Let_def pop_tag_def)
  qed
qed

lemma leads_to_plain: "leads_to parts tags \<Longrightarrow> plain t \<Longrightarrow> leads_to (parts @ [t]) tags"
  by (simp add: leads_to_def well_nested_plain)

lemma plain_not_tag: "plain t \<Longrightarrow> \<not> is_tag t"
  by (cases t) (auto simp: plain_def is_tag_def)

lemma plain_take: "plain t \<Longrightarrow> plain (take n t)"
  by (auto simp: plain_def dest: in_set_takeD)

lemma truncate_loop_nested:
  assumes "truncate_loop m tags parts len ts = (tags', parts')" and "leads_to parts tags"
    and "well_nested tags (concat ts)" and "\<forall>t \<in> set ts. token_ok t"
  shows "leads_to parts' tags'"
  using assms
proof (induction m tags parts len ts rule: truncate_loop.induct)
  case (2 m tags parts len t ts)
  show ?case
  proof (cases "plain t")
    case True
    note nt = plain_not_tag [OF True]
    have rest: "well_nested tags (concat ts)" using 2(7) True by (simp add: well_nested_plain)
    consider "t = []" | "t \<noteq> []" "m \<le> 1 + closing_len tags + len"
      | "t \<noteq> []" "\<not> m \<le> 1 + closing_len tags + len" by blast
    then show ?thesis
    proof cases
      case 3
      let ?avail = "m - 1 - closing_len tags - len"
      show ?thesis
      proof (cases "length t > ?avail")
        case cut: True
        then show ?thesis using 2(5,6) 3 nt leads_to_plain [OF _ plain_take [OF True]] by (auto simp: Let_def)
      next
        case False
        then have "truncate_loop m tags (parts @ [t]) (len + length t) ts = (tags', parts')"
          using 2(5) 3 nt by (simp add: Let_def)
        then show ?thesis using 2(4) [OF 3(1) nt 3(2) refl False] leads_to_plain [OF 2(6) True] rest 2(8) by simp
      qed
    qed (use 2 nt rest in auto)
  next
    case False
    then have "t \<noteq> []" by (auto simp: plain_def)
    obtain name where n: "is_tag t" "tag_name t = Some name"
      and new: "let new = (if is_end_tag t then pop_tag name tags else if self_closing t then tags else tags @ [name]) in
         leads_to (parts @ [t]) new \<and> well_nested new (concat ts)"
      using leads_to_token [OF 2(6), of t "concat ts"] 2(7,8) False by auto
    let ?new = "if is_end_tag t then pop_tag name tags else if self_closing t then tags else tags @ [name]"
    show ?thesis
    proof (cases "len + length t + closing_len ?new + 1 > m")
      case True
      then have "(tags', parts') = (tags, parts)" using 2(5) \<open>t \<noteq> []\<close> n by (simp add: Let_def)
      then show ?thesis using 2(6) by simp
    next
      case False
      then have "truncate_loop m ?new (parts @ [t]) (len + length t) ts = (tags', parts')"
        using 2(5) \<open>t \<noteq> []\<close> n by (simp add: Let_def)
      then show ?thesis using 2(3) [OF \<open>t \<noteq> []\<close> n refl False] new 2(8) by (simp add: Let_def)
    qed
  qed
qed simp

lemma closing_tags_nested: "\<forall>name \<in> set tags. tag_word name \<Longrightarrow> well_nested tags (concat (map close_tag (rev tags)))"
proof (induction tags rule: rev_induct)
  case (snoc name tags)
  then have "closes name (close_tag name)" unfolding close_tag_def by (intro closes.intros) simp
  then show ?case using snoc by (simp add: well_nested_close)
qed simp

lemma truncate_html_nested:
  assumes "marked s" and "well_nested [] s"
  shows "well_nested [] (truncate_html m s)"
proof (cases "length s \<le> m")
  case False
  obtain tags parts where run: "truncate_loop m [] [] 0 (split_tokens [] s) = (tags, parts)" by fastforce
  have "leads_to parts tags"
    using truncate_loop_nested [OF run] split_tokens_marked [OF assms(1), of "[]"] assms(2)
    by (simp add: leads_to_def plain_def)
  then have "well_nested [] (concat parts @ ellipsis @ concat (map close_tag (rev tags)))"
    using closing_tags_nested [of tags] well_nested_plain [of ellipsis tags]
    by (simp add: leads_to_def plain_def ellipsis_def)
  then show ?thesis using run False by (simp add: truncate_html_def)
qed (use assms in \<open>simp add: truncate_html_def\<close>)

section \<open>The messages\<close>

lemma plain_escape: "plain (html_escape s)"
proof -
  have "plain (escape_cp c)" for c by (simp add: escape_cp_def cps_def plain_def)
  then show ?thesis by (induction s) (auto simp: html_escape_def plain_def)
qed

lemma plain_escaped [simp]: "plain (escaped_or_empty x)"
  by (auto simp: escaped_or_empty_def plain_escape plain_def [of "[]"] split: option.split)

text \<open>A piece of a message that leaves the nesting as it found it.\<close>

definition piece :: "utext \<Rightarrow> bool" where
  "piece p \<longleftrightarrow> marked p \<and> (\<forall>tags s. well_nested tags (p @ s) = well_nested tags s)"

lemma marked_append: "marked a \<Longrightarrow> marked b \<Longrightarrow> marked (a @ b)"
  by (induction rule: marked.induct) (auto intro: marked.intros)

lemma marked_text: "plain a \<Longrightarrow> marked a"
  by (induction a) (auto intro: marked.intros simp: plain_def)

lemma piece_plain: "plain a \<Longrightarrow> piece a"
  by (simp add: piece_def marked_text well_nested_plain)

lemma piece_append: "piece a \<Longrightarrow> piece b \<Longrightarrow> piece (a @ b)"
  by (simp add: piece_def marked_append)

lemma piece_wrap:
  assumes "opens name t" and "piece a" and "closes name u"
  shows "piece (t @ a @ u)"
  using assms marked_append [of t "a @ u"] marked_append [of a u] marked_open [OF assms(1) marked_nil]
    marked_close [OF assms(3) marked_nil]
  by (auto simp: piece_def well_nested_open well_nested_close)

lemma title_piece:
  assumes "plain t" and "plain u"
  shows "piece (title_html t u)"
proof -
  have b: "opens (cps ''b'') (cps ''<b>'')" "closes (cps ''b'') (cps ''</b>'')"
    using opens.intros(1) [of "cps ''b''"] closes.intros [of "cps ''b''"]
    by (simp_all add: cps_def tag_word_def alnum_cp_def lower_cp_def)
  have a: "opens (cps ''a'') (cps ''<a href=\"'' @ u @ cps ''\">'')" "closes (cps ''a'') (cps ''</a>'')"
    using opens.intros(2) [of "cps ''a''" "cps ''href=\"'' @ u @ cps ''\"''"] closes.intros [of "cps ''a''"] assms(2)
    by (simp_all add: cps_def tag_word_def alnum_cp_def lower_cp_def plain_def)
  have "piece (cps ''<b>'' @ t @ cps ''</b>'')" by (rule piece_wrap [OF b(1) piece_plain [OF assms(1)] b(2)])
  then have title: "piece (if t \<noteq> [] then cps ''<b>'' @ t @ cps ''</b>'' else [])"
    using piece_plain [of "[]"] by (simp add: plain_def)
  then have "piece ((cps ''<a href=\"'' @ u @ cps ''\">'') @
      (if (if t \<noteq> [] then cps ''<b>'' @ t @ cps ''</b>'' else []) \<noteq> []
       then (if t \<noteq> [] then cps ''<b>'' @ t @ cps ''</b>'' else []) else u) @ cps ''</a>'')"
    using piece_plain [OF assms(2)] by (intro piece_wrap [OF a(1) _ a(2)]) simp
  with title show ?thesis by (simp add: title_html_def Let_def)
qed

lemma piece_nil: "piece []"
  by (rule piece_plain) (simp add: plain_def)

lemma join_pieces: "\<forall>p \<in> set ps. piece p \<Longrightarrow> piece (join_parts ps)"
proof (induction ps rule: join_parts.induct)
  case (3 p q ps)
  have "piece [10, 10]" by (rule piece_plain) (simp add: plain_def)
  moreover have "piece p" "piece (join_parts (q # ps))" using 3 by simp_all
  ultimately show ?case by (simp only: join_parts.simps piece_append)
qed (simp_all add: piece_nil)

lemma plain_digits: "plain (cps (int_text n))"
proof -
  have digit: "of_char c \<noteq> LT \<and> of_char c \<noteq> GT" if "c \<in> set (nat_text k)" for c k
    using nat_text_digits [OF that] by (auto simp: decimal_char_def)
  have "plain (cps (nat_text k))" for k
    unfolding plain_def cps_def by (simp add: image_iff) (metis digit)
  then show ?thesis by (auto simp: int_text_def cps_def plain_def)
qed

lemma attribution_piece: "piece (attribution_html (html_escape n) (escaped_or_empty u) k)"
  using plain_escape [of n] plain_digits [of k] plain_escaped [of u]
  by (intro piece_plain) (simp add: attribution_html_def, simp add: cps_def plain_def)

lemma full_message_piece: "piece (full_message e)"
proof -
  have "piece (title_html (escaped_or_empty t) (escaped_or_empty u))" for t u
    by (intro title_piece plain_escaped)
  moreover have "piece (html_escape x)" for x by (intro piece_plain plain_escape)
  ultimately show ?thesis
    unfolding full_message_def Let_def
    by (intro join_pieces) (auto simp: attribution_piece split: option.splits)
qed

section \<open>Property\<close>

text \<open>
  C24. Every message the bot sends has at most 4096 characters, whatever the stored texts are, and is
  well nested: only the markup of the formatter, no stray angle bracket from a title, a text, a URL
  or a channel name, and every tag closed in order, also when the text had to be cut. A message that
  fits is sent unchanged.
\<close>

theorem delivery_message_valid:
  "length (format_delivery_message e) \<le> 4096 \<and> well_nested [] (format_delivery_message e) \<and>
   (length (full_message e) \<le> 4096 \<longrightarrow> format_delivery_message e = full_message e)"
proof -
  have "marked (full_message e)" using full_message_piece [of e] by (simp add: piece_def)
  moreover have "well_nested [] (full_message e @ []) = well_nested [] []"
    using full_message_piece [of e] unfolding piece_def by blast
  then have "well_nested [] (full_message e)" by simp
  ultimately show ?thesis
    using truncate_html_bound [of MESSAGE_LIMIT "full_message e"] truncate_html_nested [of "full_message e" MESSAGE_LIMIT]
    by (simp add: format_delivery_message_def MESSAGE_LIMIT_def truncate_html_def)
qed

theorem delivery_message_valid_witness:
  "well_nested [] (format_delivery_message
     \<lparr> de_cluster_id = 1, de_title = Some ''a<b'', de_body = None, de_canonical_url = Some ''http://x'',
       de_published_at = None, de_channel_name = ''c'', de_channel_username = None, de_duplicate_count = 2 \<rparr>)"
  using delivery_message_valid by blast

end
