(* ===== verification/Thread_Query.thy ===== *)
theory Thread_Query
  imports Samples
begin

text \<open>
  \<open>tca/storage/thread_query_repo.py\<close> and \<open>tca/api/routes/thread.py\<close>: the timeline of cluster
  representatives, in pages. The query is written as its joins, its grouping, its order and its
  limit. Lemmas: under the invariant of the store every cluster gives exactly one row, the count
  is the number of members, and the pages cut one fixed list.
\<close>

section \<open>The query\<close>

record thread_entry =
  te_cluster_id :: int
  te_cluster_key :: string
  te_item_id :: int
  te_published_at :: "datetime option"
  te_title :: "string option"
  te_body :: "string option"
  te_canonical_url :: "string option"
  te_channel_id :: int
  te_channel_name :: string
  te_channel_username :: "string option"
  te_duplicate_count :: int

abbreviation ThreadQueryRepositoryError :: "string \<Rightarrow> exn" where
  "ThreadQueryRepositoryError \<equiv> Exn ''ThreadQueryRepositoryError''"

text \<open>The right side of a \<open>LEFT JOIN\<close>: the matching rows, or one row of nulls.\<close>

definition outer :: "'a list \<Rightarrow> 'a option list" where
  "outer xs = (if xs = [] then [None] else map Some xs)"

text \<open>The joined rows of one cluster, by their member; \<open>COUNT\<close> skips nulls.\<close>

definition joined_members :: "cluster_row \<Rightarrow> db \<Rightarrow> member_row option list" where
  "joined_members c d =
     concat (map (\<lambda>m.
       concat (map (\<lambda>i.
         map (\<lambda>ch. m)
           (outer (case i of None \<Rightarrow> []
              | Some i' \<Rightarrow> filter (\<lambda>ch. ch_id ch = it_channel_id i') (channels d))))
         (outer (case m of None \<Rightarrow> []
            | Some m' \<Rightarrow> filter (\<lambda>i. it_id i = mb_item_id m') (items d)))))
       (outer (filter (\<lambda>m. mb_cluster_id m = cl_id c) (members d))))"

definition duplicate_count :: "cluster_row \<Rightarrow> db \<Rightarrow> nat" where
  "duplicate_count c d = length (filter (\<lambda>m. m \<noteq> None) (joined_members c d))"

text \<open>
  One group per cluster, representative and channel: the inner joins. The columns of a group are
  functions of the three keys, so grouping by all of them is grouping by these.
\<close>

definition thread_groups :: "db \<Rightarrow> (cluster_row \<times> item_row \<times> channel_row) list" where
  "thread_groups d =
     concat (map (\<lambda>c.
       concat (map (\<lambda>i.
         map (\<lambda>ch. (c, i, ch)) (filter (\<lambda>ch. ch_id ch = it_channel_id i) (channels d)))
         (filter (\<lambda>i. cl_representative c = Some (it_id i)) (items d))))
       (clusters d))"

text \<open>
  The order, written increasing: unknown publication first, then the text of the publication
  time, then the cluster id; the query sorts by each of them the other way round.
\<close>

definition thread_key :: "cluster_row \<times> item_row \<times> channel_row \<Rightarrow> int \<times> (int \<times> string) \<times> int" where
  "thread_key g =
     (case g of (c, i, ch) \<Rightarrow>
       (case it_published_at i of None \<Rightarrow> 0 | Some _ \<Rightarrow> 1,
        case it_published_at i of None \<Rightarrow> (0, []) | Some p \<Rightarrow> text_key p,
        cl_id c))"

definition thread_rows :: "db \<Rightarrow> (cluster_row \<times> item_row \<times> channel_row) list" where
  "thread_rows d = rev (sort_key thread_key (thread_groups d))"

definition thread_columns :: "db \<Rightarrow> cluster_row \<times> item_row \<times> channel_row \<Rightarrow> row_map" where
  "thread_columns d g =
     (case g of (c, i, ch) \<Rightarrow>
       [(''cluster_id'', PInt (cl_id c)), (''cluster_key'', PStr (cl_key c)),
        (''representative_item_id'', PInt (it_id i)),
        (''representative_published_at'', opt_obj dt_obj (it_published_at i)),
        (''representative_title'', opt_obj PStr (it_title i)),
        (''representative_body'', opt_obj PStr (it_body i)),
        (''representative_canonical_url'', opt_obj PStr (it_canonical_url i)),
        (''representative_channel_id'', PInt (ch_id ch)),
        (''representative_channel_name'', PStr (ch_name ch)),
        (''representative_channel_username'', opt_obj PStr (ch_username ch)),
        (''duplicate_count'', PInt (int (duplicate_count c d)))])"

section \<open>Decoding and paging\<close>

definition coerce_positive_int :: "string \<Rightarrow> pyobj \<Rightarrow> int res" where
  "coerce_positive_int f v =
     (let e = ThreadQueryRepositoryError (''invalid `'' @ f @ ''` value'') in
      res_bind (coerce_int_with True e v) (\<lambda>i. if i > 0 then Inr i else Inl e))"

text \<open>A digit string is never negative, so one test serves both kinds of object.\<close>

definition coerce_non_negative_int :: "string \<Rightarrow> pyobj \<Rightarrow> int res" where
  "coerce_non_negative_int f v =
     (let e = ThreadQueryRepositoryError (''invalid `'' @ f @ ''` value'') in
      res_bind (coerce_int_with True e v) (\<lambda>i. if i \<ge> 0 then Inr i else Inl e))"

definition thread_opt_str :: "pyobj \<Rightarrow> string option res" where
  "thread_opt_str v = coerce_opt_with (coerce_str_with (ThreadQueryRepositoryError ''invalid string value'')) v"

definition decode_thread_entry_row :: "row_map \<Rightarrow> thread_entry res" where
  "decode_thread_entry_row row =
     res_bind (coerce_positive_int ''cluster_id'' (row_get row ''cluster_id'')) (\<lambda>c.
     res_bind (coerce_str_with (ThreadQueryRepositoryError ''invalid `cluster_key` value'')
         (row_get row ''cluster_key'')) (\<lambda>k.
     res_bind (coerce_positive_int ''representative_item_id'' (row_get row ''representative_item_id'')) (\<lambda>i.
     res_bind (coerce_opt_with
         (coerce_datetime_with True (ThreadQueryRepositoryError ''invalid `representative_published_at` value'')
           (ThreadQueryRepositoryError ''invalid `representative_published_at` value''))
         (row_get row ''representative_published_at'')) (\<lambda>p.
     res_bind (thread_opt_str (row_get row ''representative_title'')) (\<lambda>t.
     res_bind (thread_opt_str (row_get row ''representative_body'')) (\<lambda>b.
     res_bind (thread_opt_str (row_get row ''representative_canonical_url'')) (\<lambda>u.
     res_bind (coerce_positive_int ''representative_channel_id'' (row_get row ''representative_channel_id'')) (\<lambda>ch.
     res_bind (coerce_str_with (ThreadQueryRepositoryError ''invalid `representative_channel_name` value'')
         (row_get row ''representative_channel_name'')) (\<lambda>n.
     res_bind (thread_opt_str (row_get row ''representative_channel_username'')) (\<lambda>un.
     res_bind (coerce_non_negative_int ''duplicate_count'' (row_get row ''duplicate_count'')) (\<lambda>dup.
       Inr \<lparr> te_cluster_id = c, te_cluster_key = k, te_item_id = i, te_published_at = p, te_title = t,
             te_body = b, te_canonical_url = u, te_channel_id = ch, te_channel_name = n,
             te_channel_username = un, te_duplicate_count = dup \<rparr>)))))))))))"

definition list_entries :: "pyobj \<Rightarrow> pyobj \<Rightarrow> db \<Rightarrow> thread_entry list res" where
  "list_entries page page_size d =
     res_bind (coerce_positive_int ''page'' page) (\<lambda>page_number.
     res_bind (coerce_positive_int ''page_size'' page_size) (\<lambda>size'.
       let offset = (page_number - 1) * size' in
       res_map (\<lambda>g. decode_thread_entry_row (thread_columns d g))
         (take (nat size') (drop (nat offset) (thread_rows d)))))"

text \<open>The route; an entry of the answer has the fields of the record.\<close>

definition list_thread_entries :: "int \<Rightarrow> int \<Rightarrow> db \<Rightarrow> thread_entry list res" where
  "list_thread_entries page size' d = list_entries (PInt page) (PInt size') d"

section \<open>The joins under the constraints\<close>

lemma outer_single [simp]: "outer [x] = [Some x]" "outer [] = [None]"
  by (simp_all add: outer_def)

lemma one_item:
  assumes "db_ok d" and "i \<in> item_ids d"
  obtains r where "filter (\<lambda>x. it_id x = i) (items d) = [r]" "it_id r = i" "r \<in> set (items d)"
  using assms filter_key_unique [of it_id "items d"] by (auto simp: db_ok_defs pk_def)

lemma one_channel:
  assumes "db_ok d" and "r \<in> set (items d)"
  obtains ch where "filter (\<lambda>x. ch_id x = it_channel_id r) (channels d) = [ch]" "ch_id ch = it_channel_id r"
    "ch \<in> set (channels d)"
proof -
  have "it_channel_id r \<in> channel_ids d" using assms by (auto simp: db_ok_defs fk_def)
  then show thesis
    using that assms(1) filter_key_unique [of ch_id "channels d"] by (auto simp: db_ok_defs pk_def)
qed

lemma duplicate_count_members:
  assumes "db_ok d"
  shows "duplicate_count c d = card (member_items (cl_id c) d)"
proof -
  let ?ms = "filter (\<lambda>m. mb_cluster_id m = cl_id c) (members d)"
  have one: "concat (map (\<lambda>i. map (\<lambda>ch. Some m)
        (outer (case i of None \<Rightarrow> [] | Some i' \<Rightarrow> filter (\<lambda>ch. ch_id ch = it_channel_id i') (channels d))))
        (outer (filter (\<lambda>i. it_id i = mb_item_id m) (items d)))) = [Some m]" if "m \<in> set (members d)" for m
  proof -
    have "mb_item_id m \<in> item_ids d" using that assms by (auto simp: db_ok_defs fk_def)
    from one_item [OF assms this] obtain r where r: "filter (\<lambda>x. it_id x = mb_item_id m) (items d) = [r]" "r \<in> set (items d)" .
    obtain ch where "filter (\<lambda>x. ch_id x = it_channel_id r) (channels d) = [ch]" using one_channel [OF assms r(2)] .
    then show ?thesis by (simp add: r(1))
  qed
  have "duplicate_count c d = length ?ms"
  proof (cases "?ms = []")
    case True
    then show ?thesis by (simp add: duplicate_count_def joined_members_def)
  next
    case False
    let ?h = "\<lambda>m. concat (map (\<lambda>i. map (\<lambda>ch. Some m)
        (outer (case i of None \<Rightarrow> [] | Some i' \<Rightarrow> filter (\<lambda>ch. ch_id ch = it_channel_id i') (channels d))))
        (outer (filter (\<lambda>i. it_id i = mb_item_id m) (items d))))"
    have "joined_members c d = concat (map ?h ?ms)"
      unfolding joined_members_def outer_def [of ?ms] using False by (simp add: comp_def)
    also have "map ?h ?ms = map (\<lambda>m. [Some m]) ?ms"
      by (rule map_cong [OF refl], rule one) simp
    finally have "joined_members c d = concat (map (\<lambda>m. [Some m]) ?ms)" .
    then show ?thesis by (simp add: duplicate_count_def concat_map_singleton filter_map comp_def)
  qed
  moreover have "distinct (map (\<lambda>m. (mb_cluster_id m, mb_item_id m)) ?ms)"
    using assms by (simp add: db_ok_defs pk_def distinct_map_filter)
  then have "distinct (map mb_item_id ?ms)" by (auto simp: distinct_map inj_on_def)
  then have "length ?ms = card (member_items (cl_id c) d)"
    using distinct_card [of "map mb_item_id ?ms"] by (simp add: member_items_def)
  ultimately show ?thesis by simp
qed

lemma thread_group_facts:
  assumes "store_ok d" and "c \<in> set (clusters d)"
  obtains i ch where
    "concat (map (\<lambda>i. map (\<lambda>ch. (c, i, ch)) (filter (\<lambda>ch. ch_id ch = it_channel_id i) (channels d)))
      (filter (\<lambda>i. cl_representative c = Some (it_id i)) (items d))) = [(c, i, ch)]"
proof -
  have ok: "db_ok d" using assms(1) by (simp add: store_ok_def)
  have "represented d c" using assms by (simp add: store_ok_def reps_ok_def)
  then obtain k where k: "cl_representative c = Some k" "k \<in> member_items (cl_id c) d"
    by (auto simp: represented_iff)
  then have "k \<in> item_ids d" using ok by (auto simp: member_items_iff db_ok_defs fk_def)
  from one_item [OF ok this] obtain r where r: "filter (\<lambda>x. it_id x = k) (items d) = [r]" "r \<in> set (items d)" .
  obtain ch where "filter (\<lambda>x. ch_id x = it_channel_id r) (channels d) = [ch]" using one_channel [OF ok r(2)] .
  moreover have "filter (\<lambda>i. cl_representative c = Some (it_id i)) (items d) = [r]"
    using r(1) by (simp add: k(1) eq_commute [of k])
  ultimately have "concat (map (\<lambda>i. map (\<lambda>ch. (c, i, ch)) (filter (\<lambda>ch. ch_id ch = it_channel_id i) (channels d)))
      (filter (\<lambda>i. cl_representative c = Some (it_id i)) (items d))) = [(c, r, ch)]"
    by simp
  then show thesis by (rule that)
qed

lemma concat_singletons:
  "(\<And>x. x \<in> set xs \<Longrightarrow> \<exists>y. f x = [y] \<and> g y = x) \<Longrightarrow> map g (concat (map f xs)) = xs"
proof (induction xs)
  case (Cons x xs)
  then obtain y where "f x = [y]" "g y = x" by auto
  with Cons show ?case by simp
qed simp

lemma thread_groups_clusters: "store_ok d \<Longrightarrow> map fst (thread_groups d) = clusters d"
  unfolding thread_groups_def by (rule concat_singletons) (rule thread_group_facts, assumption, assumption, simp)

lemma thread_groups_member:
  assumes "(c, i, ch) \<in> set (thread_groups d)"
  shows "c \<in> set (clusters d)" "cl_representative c = Some (it_id i)" "i \<in> set (items d)"
    "ch \<in> set (channels d)" "ch_id ch = it_channel_id i"
  using assms by (auto simp: thread_groups_def)

section \<open>Properties\<close>

definition positive_ids :: "db \<Rightarrow> bool" where
  "positive_ids d \<longleftrightarrow> (\<forall>i \<in> cluster_ids d \<union> item_ids d \<union> channel_ids d. 0 < i)"

definition thread_entry_of :: "db \<Rightarrow> cluster_row \<times> item_row \<times> channel_row \<Rightarrow> thread_entry" where
  "thread_entry_of d g =
     (case g of (c, i, ch) \<Rightarrow>
       \<lparr> te_cluster_id = cl_id c, te_cluster_key = cl_key c, te_item_id = it_id i,
         te_published_at = map_option normalize_datetime (it_published_at i), te_title = it_title i,
         te_body = it_body i, te_canonical_url = it_canonical_url i, te_channel_id = ch_id ch,
         te_channel_name = ch_name ch, te_channel_username = ch_username ch,
         te_duplicate_count = int (duplicate_count c d) \<rparr>)"

lemma decode_thread_columns:
  assumes "positive_ids d" and "g \<in> set (thread_rows d)"
  shows "decode_thread_entry_row (thread_columns d g) = Inr (thread_entry_of d g)"
proof -
  obtain c i ch where g: "g = (c, i, ch)" by (cases g)
  then have "(c, i, ch) \<in> set (thread_groups d)" using assms(2) by (simp add: thread_rows_def)
  from thread_groups_member [OF this] have "cl_id c \<in> cluster_ids d" "it_id i \<in> item_ids d" "ch_id ch \<in> channel_ids d"
    using imageI [of c "set (clusters d)" cl_id] imageI [of i "set (items d)" it_id] imageI [of ch "set (channels d)" ch_id]
    by blast+
  then have pos: "0 < cl_id c" "0 < it_id i" "0 < ch_id ch" using assms(1) unfolding positive_ids_def by blast+
  have str: "thread_opt_str (opt_obj PStr t) = Inr t" for t by (cases t) (simp_all add: thread_opt_str_def)
  show ?thesis
    using pos
    by (simp add: g decode_thread_entry_row_def thread_columns_def row_get_def str coerce_positive_int_def
        coerce_non_negative_int_def thread_entry_of_def Let_def coerce_opt_obj [where h = normalize_datetime])
qed

lemma thread_rows_order:
  assumes "store_ok d"
  shows "sorted_wrt (\<lambda>g h. thread_key h < thread_key g) (thread_rows d)"
proof -
  let ?s = "sort_key thread_key (thread_groups d)"
  have "distinct (map (\<lambda>g. cl_id (fst g)) (thread_groups d))"
    using thread_groups_clusters [OF assms] assms
    by (simp add: store_ok_def db_ok_defs pk_def flip: map_map [unfolded comp_def])
  then have "distinct (map thread_key (thread_groups d))"
    using distinct_map [of "\<lambda>k. snd (snd k)" "map thread_key (thread_groups d)"]
    by (simp add: comp_def thread_key_def split_def)
  then have "distinct (map thread_key ?s)" by (simp add: distinct_map)
  then have "sorted_wrt (<) (map thread_key ?s)" by (simp add: strict_sorted_iff)
  then show ?thesis by (simp add: thread_rows_def sorted_wrt_rev sorted_wrt_map)
qed

lemma list_thread_entries_page:
  assumes "store_ok d" and "positive_ids d" and "0 < s" and "1 \<le> p"
  shows "list_thread_entries p s d =
    Inr (take (nat s) (drop (nat ((p - 1) * s)) (map (thread_entry_of d) (thread_rows d))))"
proof -
  let ?page = "take (nat s) (drop (nat ((p - 1) * s)) (thread_rows d))"
  have "set ?page \<subseteq> set (thread_rows d)" by (meson set_drop_subset set_take_subset subset_trans)
  then have "res_map (\<lambda>g. decode_thread_entry_row (thread_columns d g)) ?page = Inr (map (thread_entry_of d) ?page)"
    by (intro res_map_total decode_thread_columns assms(2)) auto
  then show ?thesis
    using assms(3,4)
    by (simp add: list_thread_entries_def list_entries_def coerce_positive_int_def Let_def take_map drop_map)
qed

text \<open>
  C15. The thread: on a store that satisfies its invariant, every page of the timeline is answered,
  and the pages are the consecutive cuts of one list. In that list every cluster appears exactly
  once, shown by its representative, which is one of its members, with the number of its members
  as the duplicate count; entries with a publication time come first, later times before
  earlier ones, and equal times by decreasing cluster id.
\<close>

theorem thread_pages_cut_timeline:
  assumes "store_ok d" and "positive_ids d" and "0 < s"
  defines "timeline \<equiv> map (thread_entry_of d) (thread_rows d)"
  shows "(\<forall>p \<ge> 1. list_thread_entries p s d = Inr (take (nat s) (drop (nat ((p - 1) * s)) timeline))) \<and>
    sorted_wrt (\<lambda>g h. thread_key h < thread_key g) (thread_rows d) \<and>
    distinct (map te_cluster_id timeline) \<and> set (map te_cluster_id timeline) = cluster_ids d \<and>
    (\<forall>e \<in> set timeline. te_item_id e \<in> member_items (te_cluster_id e) d \<and>
      te_duplicate_count e = int (card (member_items (te_cluster_id e) d)))"
proof (intro conjI allI impI ballI)
  have ok: "db_ok d" using assms(1) by (simp add: store_ok_def)
  show "list_thread_entries p s d = Inr (take (nat s) (drop (nat ((p - 1) * s)) timeline))" if "1 \<le> p" for p
    unfolding timeline_def by (rule list_thread_entries_page [OF assms(1-3) that])
  show "sorted_wrt (\<lambda>g h. thread_key h < thread_key g) (thread_rows d)" by (rule thread_rows_order [OF assms(1)])
  have ids: "map te_cluster_id timeline = map (\<lambda>g. cl_id (fst g)) (thread_rows d)"
    by (auto simp: timeline_def thread_entry_of_def)
  have groups: "map (\<lambda>g. cl_id (fst g)) (thread_groups d) = map cl_id (clusters d)"
    using arg_cong [OF thread_groups_clusters [OF assms(1)], of "map cl_id"] by (simp add: comp_def)
  have "set (map (\<lambda>g. cl_id (fst g)) (thread_rows d)) = set (map (\<lambda>g. cl_id (fst g)) (thread_groups d))"
    by (simp add: thread_rows_def)
  then show "set (map te_cluster_id timeline) = cluster_ids d" unfolding ids groups by simp
  have "distinct (map (\<lambda>g. cl_id (fst g)) (thread_groups d))"
    unfolding groups using ok by (simp add: db_ok_defs pk_def)
  then show "distinct (map te_cluster_id timeline)"
    unfolding ids thread_rows_def by (simp add: distinct_map flip: rev_map)
  fix e assume "e \<in> set timeline"
  then obtain c i ch where g: "(c, i, ch) \<in> set (thread_groups d)" "e = thread_entry_of d (c, i, ch)"
    by (auto simp: timeline_def thread_rows_def)
  note facts = thread_groups_member [OF g(1)]
  have "represented d c" using facts(1) assms(1) by (simp add: store_ok_def reps_ok_def)
  then show "te_item_id e \<in> member_items (te_cluster_id e) d"
    using facts(2) by (auto simp: g(2) thread_entry_of_def represented_iff)
  show "te_duplicate_count e = int (card (member_items (te_cluster_id e) d))"
    using duplicate_count_members [OF ok] by (simp add: g(2) thread_entry_of_def)
qed

theorem thread_pages_cut_timeline_witness:
  "\<exists>e. list_thread_entries 1 1 sample_db = Inr [e] \<and> te_cluster_id e = 2 \<and> te_duplicate_count e = 2"
proof -
  have "positive_ids sample_db" by code_simp
  moreover have "map (thread_entry_of sample_db) (thread_rows sample_db) =
      [thread_entry_of sample_db (sample_cluster 2 ''b'' 3, sample_item 3 (Some ''http://e.x''), sample_channel 1),
       thread_entry_of sample_db (sample_cluster 1 ''a'' 1, sample_item 1 None, sample_channel 1)]"
    "te_duplicate_count (thread_entry_of sample_db (sample_cluster 2 ''b'' 3, sample_item 3 (Some ''http://e.x''), sample_channel 1)) = 2"
    "te_cluster_id (thread_entry_of sample_db (sample_cluster 2 ''b'' 3, sample_item 3 (Some ''http://e.x''), sample_channel 1)) = 2"
    by code_simp+
  ultimately show ?thesis using thread_pages_cut_timeline [OF sample_db_ok, of 1] by auto
qed

end
