(* ===== verification/Bot_Delivery.thy ===== *)
theory Bot_Delivery
  imports Bot_Format Thread_Query Settings Notifications
begin

text \<open>
  \<open>tca/bot/client.py\<close>, \<open>tca/storage/bot_deliveries_repo.py\<close>, \<open>tca/bot/delivery.py\<close> and
  \<open>tca/api/routes/bot_config.py\<close>. The Bot API behind \<open>httpx\<close> is a parameter: a function from the
  requests made so far to the outcome of the last one, so it may answer each of them in any way.
  The state is the database, the log of the requests and the failure counters of the loop. Lemmas:
  a run sends the oldest undelivered clusters, records a delivery exactly for the accepted
  messages, and stops for good on a rejected token.
\<close>

section \<open>The world of the client\<close>

datatype http_request = HttpGet string | HttpPost string "(string \<times> utext) list"

text \<open>
  An answer with its status and its body as a JSON text; \<open>httpx.RequestError\<close>; any other exception
  of the call (an invalid URL, a cancellation).
\<close>

datatype http_outcome = HttpResponse int jtext | HttpRequestError | HttpRaises exn

record bot_state =
  bt_db :: db
  bt_requests :: "http_request list"
  bt_failures :: "int \<Rightarrow> nat option"

text \<open>\<open>be_repr\<close> is \<open>str\<close> on floats and containers.\<close>

record bot_env =
  be_http :: "http_request list \<Rightarrow> http_outcome"
  be_repr :: "pyobj \<Rightarrow> string"

definition on_bot_db :: "(db, 'a) act \<Rightarrow> (bot_state, 'a) act" where
  "on_bot_db m s = (case m (bt_db s) of (r, d) \<Rightarrow> (r, s\<lparr> bt_db := d \<rparr>))"

definition http_call :: "bot_env \<Rightarrow> http_request \<Rightarrow> (bot_state, http_outcome) act" where
  "http_call env q s =
     (let s' = s\<lparr> bt_requests := bt_requests s @ [q] \<rparr> in (Inr (be_http env (bt_requests s')), s'))"

section \<open>The API client\<close>

abbreviation BotTokenInvalidError :: exn where
  "BotTokenInvalidError \<equiv> Exn ''BotTokenInvalidError'' ''Invalid bot token (401 Unauthorized)''"

abbreviation BotNetworkError :: exn where
  "BotNetworkError \<equiv> Exn ''BotNetworkError'' ''Network error connecting to Telegram API''"

abbreviation BotApiError :: "string \<Rightarrow> exn" where
  "BotApiError \<equiv> Exn ''BotApiError''"

text \<open>
  The part that \<open>validate_token\<close> and \<open>send_message\<close> share: \<open>raise_for_status\<close> accepts the codes 200
  to 299, the body is a JSON object with a true \<open>ok\<close>, and its \<open>result\<close> is an object.
\<close>

definition api_result :: "http_outcome \<Rightarrow> (pyobj \<times> pyobj) list res" where
  "api_result outcome =
     (case outcome of
        HttpRaises e \<Rightarrow> Inl e
      | HttpRequestError \<Rightarrow> Inl BotNetworkError
      | HttpResponse code body \<Rightarrow>
          if \<not> (200 \<le> code \<and> code \<le> 299) then
            Inl (if code = 401 then BotTokenInvalidError else BotApiError ''Telegram API error'')
          else
            (case json_loads body of
               None \<Rightarrow> Inl (BotApiError ''Invalid JSON response from Telegram API'')
             | Some (PDict data) \<Rightarrow>
                 if \<not> py_truthy (dict_get data ''ok'') then Inl (BotApiError ''Telegram API returned ok=false'')
                 else (case dict_get data ''result'' of
                         PDict result \<Rightarrow> Inr result
                       | _ \<Rightarrow> Inl (BotApiError ''Unexpected result format from Telegram API''))
             | Some _ \<Rightarrow> Inl (BotApiError ''Telegram API returned ok=false'')))"

text \<open>The identifiers pass \<open>isinstance(value, int)\<close>, so they may also be a \<open>bool\<close>; they stay objects here.\<close>

record bot_info =
  bi_bot_id :: pyobj
  bi_username :: string

definition parse_bot_info :: "(pyobj \<times> pyobj) list \<Rightarrow> bot_info res" where
  "parse_bot_info result =
     (let bot_id = dict_get result ''id'' in
      case (is_int_obj bot_id, as_str (dict_get result ''username'')) of
        (Some _, Some username) \<Rightarrow> Inr \<lparr> bi_bot_id = bot_id, bi_username = username \<rparr>
      | _ \<Rightarrow> Inl (BotApiError ''Missing required fields id/username in result''))"

definition validate_token :: "bot_env \<Rightarrow> string \<Rightarrow> (bot_state, bot_info) act" where
  "validate_token env token =
     act_bind (http_call env (HttpGet (''https://api.telegram.org/bot'' @ token @ ''/getMe''))) (\<lambda>outcome.
       act_lift (res_bind (api_result outcome) parse_bot_info))"

definition parse_sent_message :: "(pyobj \<times> pyobj) list \<Rightarrow> pyobj res" where
  "parse_sent_message result =
     (let message_id = dict_get result ''message_id'' in
      case is_int_obj message_id of
        None \<Rightarrow> Inl (BotApiError ''Missing required message_id in result'')
      | Some _ \<Rightarrow> Inr message_id)"

definition send_request :: "string \<Rightarrow> string \<Rightarrow> utext \<Rightarrow> http_request" where
  "send_request token chat_id message =
     HttpPost (''https://api.telegram.org/bot'' @ token @ ''/sendMessage'')
       [(''chat_id'', cps chat_id), (''text'', message), (''parse_mode'', cps ''HTML'')]"

definition send_message :: "bot_env \<Rightarrow> string \<Rightarrow> string \<Rightarrow> utext \<Rightarrow> (bot_state, pyobj) act" where
  "send_message env token chat_id message =
     act_bind (http_call env (send_request token chat_id message)) (\<lambda>outcome.
       act_lift (res_bind (api_result outcome) parse_sent_message))"

section \<open>The deliveries repository\<close>

record delivery_record =
  dr_delivery_id :: int
  dr_cluster_id :: int
  dr_delivered_at :: datetime
  dr_telegram_message_id :: "string option"

abbreviation BotDeliveryDecodeError :: "string \<Rightarrow> exn" where
  "BotDeliveryDecodeError \<equiv> Exn ''BotDeliveryDecodeError''"

abbreviation BotDeliveryAlreadyExistsError :: exn where
  "BotDeliveryAlreadyExistsError \<equiv> Exn ''BotDeliveryAlreadyExistsError'' ''Delivery already recorded for cluster_id''"

definition delivery_int :: "string \<Rightarrow> pyobj \<Rightarrow> int res" where
  "delivery_int f = coerce_int_with False (BotDeliveryDecodeError (''missing integer `'' @ f @ ''`''))"

definition delivery_opt_str :: "pyobj \<Rightarrow> string option res" where
  "delivery_opt_str = coerce_opt_with (coerce_str_with (BotDeliveryDecodeError ''invalid string value''))"

definition delivery_columns :: "delivery_row \<Rightarrow> row_map" where
  "delivery_columns r =
     [(''id'', PInt (bd_id r)), (''cluster_id'', PInt (bd_cluster_id r)), (''delivered_at'', dt_obj (bd_delivered_at r)),
      (''telegram_message_id'', opt_obj PStr (bd_telegram_message_id r))]"

definition decode_delivery_row :: "row_map \<Rightarrow> delivery_record res" where
  "decode_delivery_row row =
     res_bind (delivery_int ''id'' (row_get row ''id'')) (\<lambda>i.
     res_bind (delivery_int ''cluster_id'' (row_get row ''cluster_id'')) (\<lambda>c.
     res_bind (coerce_datetime_with False (BotDeliveryDecodeError ''invalid datetime format'')
         (BotDeliveryDecodeError ''missing datetime value'') (row_get row ''delivered_at'')) (\<lambda>t.
     res_bind (delivery_opt_str (row_get row ''telegram_message_id'')) (\<lambda>m.
       Inr \<lparr> dr_delivery_id = i, dr_cluster_id = c, dr_delivered_at = t, dr_telegram_message_id = m \<rparr>))))"

definition new_delivery :: "int \<Rightarrow> string option \<Rightarrow> db \<Rightarrow> delivery_row" where
  "new_delivery cluster_id message_id d =
     \<lparr> bd_id = sql_next_id (map bd_id (deliveries d)), bd_cluster_id = cluster_id,
       bd_delivered_at = current_timestamp d, bd_telegram_message_id = message_id \<rparr>"

definition insert_delivery :: "int \<Rightarrow> string option \<Rightarrow> (db, delivery_row) act" where
  "insert_delivery cluster_id message_id d =
     (if cluster_id \<in> bd_cluster_id ` set (deliveries d)
      then (Inl (IntegrityError ''UNIQUE constraint failed: bot_deliveries.cluster_id''), d)
      else if cluster_id \<notin> cluster_ids d then (Inl (IntegrityError ''FOREIGN KEY constraint failed''), d)
      else (Inr (new_delivery cluster_id message_id d),
            d\<lparr> deliveries := deliveries d @ [new_delivery cluster_id message_id d] \<rparr>))"

definition is_duplicate_cluster_integrity_error :: "exn \<Rightarrow> bool" where
  "is_duplicate_cluster_integrity_error e \<longleftrightarrow>
     exn_class e = ''IntegrityError'' \<and> exn_message e = ''UNIQUE constraint failed: bot_deliveries.cluster_id''"

definition record_delivery :: "int \<Rightarrow> string option \<Rightarrow> (db, delivery_record) act" where
  "record_delivery cluster_id message_id =
     act_bind
       (transaction
         (act_catch (insert_delivery cluster_id message_id)
           (\<lambda>e. act_raise (if is_duplicate_cluster_integrity_error e then BotDeliveryAlreadyExistsError else e))))
       (\<lambda>row. act_lift (decode_delivery_row (delivery_columns row)))"

definition has_been_delivered :: "int \<Rightarrow> db \<Rightarrow> bool" where
  "has_been_delivered cluster_id d \<longleftrightarrow> filter (\<lambda>r. bd_cluster_id r = cluster_id) (deliveries d) \<noteq> []"

text \<open>
  The inner joins are those of the timeline; the outer join with \<open>bot_deliveries\<close> keeps the clusters
  that have no delivery, and the count is over the outer join with the members.
\<close>

definition undelivered_groups :: "db \<Rightarrow> (cluster_row \<times> item_row \<times> channel_row) list" where
  "undelivered_groups d =
     sort_key (\<lambda>g. cl_id (fst g)) (filter (\<lambda>g. \<not> has_been_delivered (cl_id (fst g)) d) (thread_groups d))"

definition member_count :: "cluster_row \<Rightarrow> db \<Rightarrow> nat" where
  "member_count c d = length (filter (\<lambda>m. m \<noteq> None) (outer (filter (\<lambda>m. mb_cluster_id m = cl_id c) (members d))))"

definition entry_columns :: "db \<Rightarrow> cluster_row \<times> item_row \<times> channel_row \<Rightarrow> row_map" where
  "entry_columns d g =
     (case g of (c, i, ch) \<Rightarrow>
       [(''cluster_id'', PInt (cl_id c)), (''representative_title'', opt_obj PStr (it_title i)),
        (''representative_body'', opt_obj PStr (it_body i)),
        (''representative_canonical_url'', opt_obj PStr (it_canonical_url i)),
        (''representative_published_at'', opt_obj dt_obj (it_published_at i)),
        (''channel_name'', PStr (ch_name ch)), (''channel_username'', opt_obj PStr (ch_username ch)),
        (''duplicate_count'', PInt (int (member_count c d)))])"

definition decode_entry_row :: "row_map \<Rightarrow> delivery_entry res" where
  "decode_entry_row row =
     res_bind (delivery_int ''cluster_id'' (row_get row ''cluster_id'')) (\<lambda>c.
     res_bind (delivery_opt_str (row_get row ''representative_title'')) (\<lambda>t.
     res_bind (delivery_opt_str (row_get row ''representative_body'')) (\<lambda>b.
     res_bind (delivery_opt_str (row_get row ''representative_canonical_url'')) (\<lambda>u.
     res_bind (coerce_opt_with
         (coerce_datetime_with True (BotDeliveryDecodeError ''invalid datetime format for `representative_published_at`'')
           (BotDeliveryDecodeError ''invalid `representative_published_at` value type''))
         (row_get row ''representative_published_at'')) (\<lambda>p.
     res_bind (coerce_str_with (BotDeliveryDecodeError ''missing `channel_name`'') (row_get row ''channel_name'')) (\<lambda>n.
     res_bind (delivery_opt_str (row_get row ''channel_username'')) (\<lambda>un.
     res_bind (delivery_int ''duplicate_count'' (row_get row ''duplicate_count'')) (\<lambda>k.
       Inr \<lparr> de_cluster_id = c, de_title = t, de_body = b, de_canonical_url = u, de_published_at = p,
             de_channel_name = n, de_channel_username = un, de_duplicate_count = k \<rparr>))))))))"

text \<open>\<open>LIMIT\<close>: a negative bound is none; an integer beyond 64 bits cannot be bound to the statement.\<close>

definition sql_limit :: "int \<Rightarrow> 'a list \<Rightarrow> 'a list res" where
  "sql_limit n rows =
     (if n < - (2 ^ 63) \<or> 2 ^ 63 \<le> n
      then Inl (Exn ''OverflowError'' ''Python int too large to convert to SQLite INTEGER'')
      else Inr (if n < 0 then rows else take (nat n) rows))"

definition list_undelivered_entries :: "int \<Rightarrow> db \<Rightarrow> delivery_entry list res" where
  "list_undelivered_entries n d =
     res_bind (sql_limit n (undelivered_groups d)) (\<lambda>gs. res_map (\<lambda>g. decode_entry_row (entry_columns d g)) gs)"

section \<open>The delivery loop\<close>

datatype entry_outcome = Delivered delivery_record | TokenRejected | NotDelivered

definition handle_token_invalid :: "string \<Rightarrow> (db, unit) act" where
  "handle_token_invalid chat_id =
     act_bind (notification_create ''bot_token_invalid'' ''error''
         ''Telegram bot token is invalid. Bot delivery has been disabled.''
         (PDict [(PStr ''chat_id'', PStr chat_id)])) (\<lambda>_.
     act_bind (setting_upsert ''bot.enabled'' (PBool False)) (\<lambda>_. act_return ()))"

definition log_failure :: "int \<Rightarrow> exn \<Rightarrow> (db, notification_record) act" where
  "log_failure cluster_id exc =
     notification_create ''bot_delivery_failed'' ''warning''
       (''Failed to deliver cluster '' @ int_text cluster_id @ '': '' @ exn_message exc)
       (PDict [(PStr ''cluster_id'', PInt cluster_id), (PStr ''error'', PStr (exn_message exc))])"

definition set_failures :: "int \<Rightarrow> nat option \<Rightarrow> (bot_state, unit) act" where
  "set_failures cluster_id n = act_modify (\<lambda>s. s\<lparr> bt_failures := (bt_failures s)(cluster_id := n) \<rparr>)"

text \<open>The third failure in a row of a cluster is reported, and the count begins again.\<close>

definition count_failure :: "int \<Rightarrow> exn \<Rightarrow> (bot_state, unit) act" where
  "count_failure cluster_id exc s =
     (let fail_count = (case bt_failures s cluster_id of None \<Rightarrow> 0 | Some n \<Rightarrow> n) + 1 in
      if fail_count \<ge> 3 then
        act_bind (on_bot_db (log_failure cluster_id exc)) (\<lambda>_. set_failures cluster_id (Some 0)) s
      else set_failures cluster_id (Some fail_count) s)"

definition process_entry :: "bot_env \<Rightarrow> string \<Rightarrow> string \<Rightarrow> delivery_entry \<Rightarrow> (bot_state, entry_outcome) act" where
  "process_entry env token chat_id entry =
     act_catch
       (act_bind (send_message env token chat_id (format_delivery_message entry)) (\<lambda>sent.
        act_bind (on_bot_db (record_delivery (de_cluster_id entry) (Some (py_str (be_repr env) sent)))) (\<lambda>rec.
        act_bind (set_failures (de_cluster_id entry) None) (\<lambda>_. act_return (Delivered rec)))))
       (\<lambda>exc.
         if exn_class exc = ''BotTokenInvalidError'' then
           act_bind (on_bot_db (handle_token_invalid chat_id)) (\<lambda>_. act_return TokenRejected)
         else if exn_class exc = ''CancelledError'' then act_raise exc
         else act_bind (count_failure (de_cluster_id entry) exc) (\<lambda>_. act_return NotDelivered))"

fun process_entries ::
  "bot_env \<Rightarrow> string \<Rightarrow> string \<Rightarrow> delivery_entry list \<Rightarrow> (bot_state, delivery_record list) act" where
  "process_entries env token chat_id [] = act_return []"
| "process_entries env token chat_id (e # es) =
     act_bind (process_entry env token chat_id e) (\<lambda>outcome.
       case outcome of
         Delivered rec \<Rightarrow> act_bind (process_entries env token chat_id es) (\<lambda>recs. act_return (rec # recs))
       | TokenRejected \<Rightarrow> act_return []
       | NotDelivered \<Rightarrow> process_entries env token chat_id es)"

text \<open>A stored setting as the loop and the routes read it.\<close>

definition setting_text :: "bot_env \<Rightarrow> setting_record option \<Rightarrow> string option" where
  "setting_text env rec = map_option (\<lambda>r. py_str (be_repr env) (sr_value r)) rec"

definition setting_flag :: "setting_record option \<Rightarrow> bool" where
  "setting_flag rec = (case rec of None \<Rightarrow> False | Some r \<Rightarrow> py_truthy (sr_value r))"

text \<open>\<open>int(value)\<close> of an integer, a \<open>bool\<close> or a float; other values leave the default.\<close>

definition batch_size_of :: "setting_record option \<Rightarrow> int res" where
  "batch_size_of rec =
     (case rec of
        None \<Rightarrow> Inr 10
      | Some r \<Rightarrow>
         (case sr_value r of
            PInt n \<Rightarrow> Inr n
          | PBool b \<Rightarrow> Inr (of_bool b)
          | PFloat (Finite q) \<Rightarrow> Inr (if q < 0 then \<lceil>q\<rceil> else \<lfloor>q\<rfloor>)
          | PFloat NotANumber \<Rightarrow> Inl (ValueError ''cannot convert float NaN to integer'')
          | PFloat _ \<Rightarrow> Inl (Exn ''OverflowError'' ''cannot convert float infinity to integer'')
          | _ \<Rightarrow> Inr 10))"

definition bot_setting :: "string \<Rightarrow> (bot_state, setting_record option) act" where
  "bot_setting key = on_bot_db (act_read (setting_get_by_key key))"

text \<open>\<open>not token or not chat_id\<close>.\<close>

definition blank :: "string option \<Rightarrow> bool" where
  "blank x \<longleftrightarrow> x = None \<or> x = Some []"

definition delivery_run_once :: "bot_env \<Rightarrow> (bot_state, delivery_record list) act" where
  "delivery_run_once env =
     act_bind (bot_setting ''bot.enabled'') (\<lambda>enabled_rec.
     if \<not> setting_flag enabled_rec then act_return []
     else
     act_bind (bot_setting ''bot.token'') (\<lambda>token_rec.
     act_bind (bot_setting ''bot.chat_id'') (\<lambda>chat_id_rec.
     let token = setting_text env token_rec; chat_id = setting_text env chat_id_rec in
     if blank token \<or> blank chat_id then act_return []
     else
     act_bind (bot_setting ''bot.delivery_batch_size'') (\<lambda>batch_rec.
     act_bind (act_lift (batch_size_of batch_rec)) (\<lambda>batch_size.
     act_bind (on_bot_db (act_read (list_undelivered_entries batch_size))) (\<lambda>undelivered.
       process_entries env (the token) (the chat_id) undelivered))))))"

section \<open>The service\<close>

text \<open>
  The interval that \<open>startup\<close> resolves, and the loop: one element of \<open>nows\<close> per turn in which the
  stop event is not set, the reading of the loop clock. An exception of a run is logged, a
  cancellation ends the task. The second component gives the times of the runs.
\<close>

definition delivery_interval :: "int \<Rightarrow> db \<Rightarrow> int res" where
  "delivery_interval initial d =
     res_bind (setting_get_by_key ''bot.delivery_interval_seconds'' d) (\<lambda>rec.
       case rec of
         None \<Rightarrow> Inr initial
       | Some r \<Rightarrow>
          (case is_int_obj (sr_value r) of
             None \<Rightarrow> Inr initial
           | Some n \<Rightarrow> Inr (if n > 0 then n else initial)))"

fun delivery_run_loop ::
  "bot_env \<Rightarrow> int \<Rightarrow> rat \<Rightarrow> rat list \<Rightarrow> bot_state \<Rightarrow> (unit res \<times> rat list) \<times> bot_state" where
  "delivery_run_loop env interval last_run_at [] s = ((Inr (), []), s)"
| "delivery_run_loop env interval last_run_at (now # nows) s =
     (if now - last_run_at \<ge> of_int interval then
        (case delivery_run_once env s of
           (Inl e, s') \<Rightarrow>
             if exn_class e = ''CancelledError'' then ((Inl e, [now]), s')
             else (case delivery_run_loop env interval now nows s' of ((r, runs), t) \<Rightarrow> ((r, now # runs), t))
         | (Inr _, s') \<Rightarrow>
             (case delivery_run_loop env interval now nows s' of ((r, runs), t) \<Rightarrow> ((r, now # runs), t)))
      else delivery_run_loop env interval last_run_at nows s)"

section \<open>The routes\<close>

abbreviation HTTP422 :: "string \<Rightarrow> exn" where
  "HTTP422 \<equiv> Exn ''HTTPException:422''"

definition put_config_key :: "string \<times> pyobj \<Rightarrow> (db, unit) act" where
  "put_config_key kv =
     act_bind (setting_update (fst kv) (snd kv)) (\<lambda>updated.
       case updated of
         None \<Rightarrow> act_bind (setting_create (fst kv) (snd kv)) (\<lambda>_. act_return ())
       | Some _ \<Rightarrow> act_return ())"

definition write_config :: "string \<Rightarrow> string \<Rightarrow> (db, unit) act" where
  "write_config token chat_id =
     act_bind (act_foreach put_config_key
        [(''bot.token'', PStr token), (''bot.chat_id'', PStr chat_id), (''bot.enabled'', PBool True)])
       (\<lambda>_. act_return ())"

text \<open>The answer is the bot's user name and the chat id.\<close>

definition configure_bot :: "bot_env \<Rightarrow> string \<Rightarrow> string \<Rightarrow> (bot_state, string \<times> string) act" where
  "configure_bot env token chat_id =
     act_bind
       (act_catch (validate_token env token)
         (\<lambda>exc. act_raise
            (if exn_class exc = ''BotTokenInvalidError'' then HTTP422 ''Invalid Telegram bot token''
             else if exn_class exc = ''CancelledError'' then exc
             else HTTP400 ''Failed to validate bot token'')))
       (\<lambda>info. act_bind (on_bot_db (write_config token chat_id)) (\<lambda>_. act_return (bi_username info, chat_id)))"

definition mask_token :: "string \<Rightarrow> string" where
  "mask_token token =
     (if length token > 4 then replicate (length token - 4) CHR ''*'' @ drop (length token - 4) token
      else replicate (length token) CHR ''*'')"

record bot_status =
  bs_token_masked :: "string option"
  bs_chat_id :: "string option"
  bs_enabled :: bool

definition get_bot_config :: "bot_env \<Rightarrow> db \<Rightarrow> bot_status res" where
  "get_bot_config env d =
     res_bind (setting_get_by_key ''bot.token'' d) (\<lambda>token_rec.
     res_bind (setting_get_by_key ''bot.chat_id'' d) (\<lambda>chat_id_rec.
     res_bind (setting_get_by_key ''bot.enabled'' d) (\<lambda>enabled_rec.
       let token = setting_text env token_rec; chat_id = setting_text env chat_id_rec in
       if blank token \<or> blank chat_id
       then Inr \<lparr> bs_token_masked = None, bs_chat_id = None, bs_enabled = False \<rparr>
       else Inr \<lparr> bs_token_masked = Some (mask_token (the token)), bs_chat_id = chat_id,
                  bs_enabled = setting_flag enabled_rec \<rparr>)))"

definition delete_bot_config :: "(db, unit) act" where
  "delete_bot_config =
     act_bind (setting_delete ''bot.token'') (\<lambda>_.
     act_bind (setting_delete ''bot.chat_id'') (\<lambda>_.
     act_bind (setting_upsert ''bot.enabled'' (PBool False)) (\<lambda>_. act_return ())))"

definition test_message :: utext where
  "test_message = cps ''TCA bot delivery test '' @ [8212] @ cps '' connection verified.''"

definition test_bot_config :: "bot_env \<Rightarrow> (bot_state, pyobj) act" where
  "test_bot_config env =
     act_bind (bot_setting ''bot.token'') (\<lambda>token_rec.
     act_bind (bot_setting ''bot.chat_id'') (\<lambda>chat_id_rec.
     let token = setting_text env token_rec; chat_id = setting_text env chat_id_rec in
     if blank token \<or> blank chat_id then act_raise (HTTP422 ''Telegram bot delivery is not configured.'')
     else
       act_catch (send_message env (the token) (the chat_id) test_message)
         (\<lambda>exc. act_raise (if exn_class exc = ''CancelledError'' then exc
                           else HTTP400 ''Test message delivery failed''))))"

section \<open>The entries of a run\<close>

definition entry_of :: "db \<Rightarrow> cluster_row \<times> item_row \<times> channel_row \<Rightarrow> delivery_entry" where
  "entry_of d g =
     (case g of (c, i, ch) \<Rightarrow>
       \<lparr> de_cluster_id = cl_id c, de_title = it_title i, de_body = it_body i, de_canonical_url = it_canonical_url i,
         de_published_at = map_option normalize_datetime (it_published_at i), de_channel_name = ch_name ch,
         de_channel_username = ch_username ch, de_duplicate_count = int (member_count c d) \<rparr>)"

lemma entry_of_cluster [simp]: "de_cluster_id (entry_of d g) = cl_id (fst g)"
  by (simp add: entry_of_def split: prod.split)

lemma delivery_opt_str_obj [simp]: "delivery_opt_str (opt_obj PStr x) = Inr x"
  by (cases x) (simp_all add: delivery_opt_str_def)

lemma decode_entry_columns: "decode_entry_row (entry_columns d g) = Inr (entry_of d g)"
  by (cases g)
    (simp add: decode_entry_row_def entry_columns_def entry_of_def row_get_def delivery_int_def
      coerce_opt_obj [where h = normalize_datetime])

lemma list_undelivered_entries_eq:
  assumes "0 \<le> n" and "n < 2 ^ 63"
  shows "list_undelivered_entries n d = Inr (map (entry_of d) (take (nat n) (undelivered_groups d)))"
  using assms unfolding list_undelivered_entries_def
  by (simp add: sql_limit_def res_map_total [where g = "entry_of d"] decode_entry_columns)

lemma undelivered_ids:
  assumes "store_ok d"
  shows "map (\<lambda>g. cl_id (fst g)) (undelivered_groups d) =
    sorted_list_of_set {c \<in> cluster_ids d. \<not> has_been_delivered c d}" (is "map ?id _ = sorted_list_of_set ?S")
proof -
  let ?gs = "filter (\<lambda>g. \<not> has_been_delivered (cl_id (fst g)) d) (thread_groups d)"
  have "map ?id (thread_groups d) = map cl_id (map fst (thread_groups d))" by simp
  then have ids: "map ?id (thread_groups d) = map cl_id (clusters d)"
    using thread_groups_clusters [OF assms] by simp
  have "map ?id ?gs = filter (\<lambda>c. \<not> has_been_delivered c d) (map cl_id (clusters d))"
    unfolding ids [symmetric] filter_map comp_def ..
  then have all: "set (map ?id ?gs) = ?S" by auto
  have "distinct (map ?id (thread_groups d))"
    using assms unfolding ids by (simp add: store_ok_def db_ok_defs pk_def)
  then have "distinct (map ?id ?gs)" by (rule distinct_map_filter)
  then have "distinct (map ?id (undelivered_groups d))"
    by (simp add: undelivered_groups_def distinct_map)
  moreover have "sorted (map ?id (undelivered_groups d))" by (simp add: undelivered_groups_def)
  moreover have "set (map ?id (undelivered_groups d)) = ?S"
    using all by (simp add: undelivered_groups_def)
  ultimately show ?thesis by (metis sorted_list_of_set.idem_if_sorted_distinct)
qed

lemma has_been_delivered_iff: "has_been_delivered c d \<longleftrightarrow> c \<in> bd_cluster_id ` set (deliveries d)"
  by (auto simp: has_been_delivered_def filter_empty_conv)

section \<open>One entry\<close>

text \<open>What the client makes of the answer to a request, from the requests before it.\<close>

definition answer :: "bot_env \<Rightarrow> http_request list \<Rightarrow> http_request \<Rightarrow> pyobj res" where
  "answer env reqs q = res_bind (api_result (be_http env (reqs @ [q]))) parse_sent_message"

definition entry_request :: "string \<Rightarrow> string \<Rightarrow> delivery_entry \<Rightarrow> http_request" where
  "entry_request token chat_id e = send_request token chat_id (format_delivery_message e)"

lemma send_message_eq:
  "send_message env token chat_id m s =
   (answer env (bt_requests s) (send_request token chat_id m),
    s\<lparr> bt_requests := bt_requests s @ [send_request token chat_id m] \<rparr>)"
  by (simp add: send_message_def http_call_def act_simps answer_def Let_def)

definition delivery_of :: "delivery_row \<Rightarrow> delivery_record" where
  "delivery_of r =
     \<lparr> dr_delivery_id = bd_id r, dr_cluster_id = bd_cluster_id r, dr_delivered_at = normalize_datetime (bd_delivered_at r),
       dr_telegram_message_id = bd_telegram_message_id r \<rparr>"

lemma decode_delivery_columns: "decode_delivery_row (delivery_columns r) = Inr (delivery_of r)"
  by (simp add: decode_delivery_row_def delivery_columns_def delivery_of_def row_get_def delivery_int_def)

lemma record_delivery_new:
  assumes "c \<in> cluster_ids d" and "c \<notin> bd_cluster_id ` set (deliveries d)"
  shows "record_delivery c m d =
    (Inr (delivery_of (new_delivery c m d)), d\<lparr> deliveries := deliveries d @ [new_delivery c m d] \<rparr>)"
  using assms by (simp add: record_delivery_def insert_delivery_def act_simps decode_delivery_columns)

text \<open>A cluster that has a delivery is refused, whatever the message.\<close>

lemma record_delivery_again:
  "c \<in> bd_cluster_id ` set (deliveries d) \<Longrightarrow> record_delivery c m d = (Inl BotDeliveryAlreadyExistsError, d)"
  by (simp add: record_delivery_def insert_delivery_def act_simps is_duplicate_cluster_integrity_error_def)

text \<open>Alerts leave the tables of the loop as they are.\<close>

definition alerted :: "db \<Rightarrow> db \<Rightarrow> bool" where
  "alerted d d' \<longleftrightarrow> (\<exists>ns. d' = d\<lparr> notifications := notifications d @ ns \<rparr>)"

lemma alerted_same [simp]: "alerted d d"
  unfolding alerted_def by (rule exI [of _ "[]"]) simp

lemma alerted_tables:
  assumes "alerted d d'"
  shows "deliveries d' = deliveries d" "clusters d' = clusters d" "settings d' = settings d"
  using assms by (auto simp: alerted_def)

lemma notification_create_alerts:
  assumes "is_dumpable p" and "\<not> is_none p"
  shows "\<exists>r d'. notification_create t sev m p d = (Inr r, d') \<and> alerted d d'"
  using assms
  by (auto simp: notification_create_def encode_payload_json_def act_simps insert_notification_def Let_def
      decode_notification_row_def decode_payload_json_def notification_of_def json_loads_def alerted_def)

lemma settings_table_cong: "settings d' = settings d \<Longrightarrow> settings_ok d' = settings_ok d"
  by (simp add: settings_ok_def)

lemma handle_token_invalid_eq:
  assumes "settings_ok d"
  shows "\<exists>d1. handle_token_invalid chat_id d = (Inr (), store_setting ''bot.enabled'' (PBool False) d1) \<and> alerted d d1"
proof -
  obtain r d1 where create: "notification_create ''bot_token_invalid'' ''error''
         ''Telegram bot token is invalid. Bot delivery has been disabled.''
         (PDict [(PStr ''chat_id'', PStr chat_id)]) d = (Inr r, d1)" and d1: "alerted d d1"
    using notification_create_alerts [of "PDict [(PStr ''chat_id'', PStr chat_id)]"] by fastforce
  have "settings_ok d1" using settings_table_cong [OF alerted_tables(3) [OF d1]] assms by simp
  then show ?thesis
    using create d1 by (auto simp: handle_token_invalid_def act_bind_def act_return_def setting_upsert_eq)
qed

lemma count_failure_eq:
  "\<exists>d' f. count_failure c exc s = (Inr (), s\<lparr> bt_db := d', bt_failures := f \<rparr>) \<and> alerted (bt_db s) d'"
proof -
  obtain r d' where "log_failure c exc (bt_db s) = (Inr r, d')" "alerted (bt_db s) d'"
    unfolding log_failure_def
    using notification_create_alerts [of "PDict [(PStr ''cluster_id'', PInt c), (PStr ''error'', PStr (exn_message exc))]"]
    by fastforce
  then show ?thesis
    by (cases s) (auto simp: count_failure_def Let_def act_bind_def on_bot_db_def set_failures_def act_modify_def
        intro: exI [of _ "bt_db s"] split: option.split)
qed

lemma process_entry_accepted:
  assumes "answer env (bt_requests s) (entry_request token chat_id e) = Inr m"
    and "de_cluster_id e \<in> cluster_ids (bt_db s)" and "de_cluster_id e \<notin> bd_cluster_id ` set (deliveries (bt_db s))"
  shows "\<exists>row f. bd_cluster_id row = de_cluster_id e \<and> bd_telegram_message_id row = Some (py_str (be_repr env) m) \<and>
    process_entry env token chat_id e s =
      (Inr (Delivered (delivery_of row)),
       s\<lparr> bt_db := (bt_db s)\<lparr> deliveries := deliveries (bt_db s) @ [row] \<rparr>,
          bt_requests := bt_requests s @ [entry_request token chat_id e], bt_failures := f \<rparr>)"
  using assms
  by (intro exI [of _ "new_delivery (de_cluster_id e) (Some (py_str (be_repr env) m)) (bt_db s)"]
      exI [of _ "(bt_failures s)(de_cluster_id e := None)"] conjI)
    (simp add: new_delivery_def, simp add: new_delivery_def,
     simp add: process_entry_def act_simps send_message_eq entry_request_def on_bot_db_def record_delivery_new
      set_failures_def)

lemma process_entry_token_rejected:
  assumes "answer env (bt_requests s) (entry_request token chat_id e) = Inl x" and "exn_class x = ''BotTokenInvalidError''"
    and "settings_ok (bt_db s)"
  shows "\<exists>d. alerted (bt_db s) d \<and>
    process_entry env token chat_id e s =
      (Inr TokenRejected, s\<lparr> bt_db := store_setting ''bot.enabled'' (PBool False) d,
          bt_requests := bt_requests s @ [entry_request token chat_id e] \<rparr>)"
proof -
  obtain d1 where "handle_token_invalid chat_id (bt_db s) = (Inr (), store_setting ''bot.enabled'' (PBool False) d1)"
    "alerted (bt_db s) d1"
    using handle_token_invalid_eq [OF assms(3)] by blast
  with assms(1,2) show ?thesis
    by (intro exI [of _ d1]) (simp add: process_entry_def act_simps send_message_eq entry_request_def on_bot_db_def)
qed

lemma process_entry_cancelled:
  assumes "answer env (bt_requests s) (entry_request token chat_id e) = Inl x" and "exn_class x = ''CancelledError''"
  shows "process_entry env token chat_id e s =
      (Inl x, s\<lparr> bt_requests := bt_requests s @ [entry_request token chat_id e] \<rparr>)"
  using assms by (simp add: process_entry_def act_simps send_message_eq entry_request_def)

lemma process_entry_failed:
  assumes "answer env (bt_requests s) (entry_request token chat_id e) = Inl x"
    and "exn_class x \<noteq> ''BotTokenInvalidError''" and "exn_class x \<noteq> ''CancelledError''"
  shows "\<exists>d f. alerted (bt_db s) d \<and>
    process_entry env token chat_id e s =
      (Inr NotDelivered, s\<lparr> bt_db := d, bt_requests := bt_requests s @ [entry_request token chat_id e], bt_failures := f \<rparr>)"
proof -
  let ?s = "s\<lparr> bt_requests := bt_requests s @ [entry_request token chat_id e] \<rparr>"
  obtain d f where "count_failure (de_cluster_id e) x ?s = (Inr (), ?s\<lparr> bt_db := d, bt_failures := f \<rparr>)" "alerted (bt_db s) d"
    using count_failure_eq [of "de_cluster_id e" x ?s] by auto
  with assms show ?thesis
    by (intro exI [of _ d] exI [of _ f]) (simp add: process_entry_def act_simps send_message_eq entry_request_def)
qed

section \<open>A whole run\<close>

text \<open>
  The attempts of a run with their answers, as a function of the requests before it: the loop goes
  on after every answer but a rejected token and a cancellation.
\<close>

definition stops :: "pyobj res \<Rightarrow> bool" where
  "stops a = (case a of Inl x \<Rightarrow> exn_class x = ''BotTokenInvalidError'' \<or> exn_class x = ''CancelledError'' | Inr _ \<Rightarrow> False)"

fun attempts ::
  "bot_env \<Rightarrow> string \<Rightarrow> string \<Rightarrow> http_request list \<Rightarrow> delivery_entry list \<Rightarrow> (delivery_entry \<times> pyobj res) list" where
  "attempts env token chat_id reqs [] = []"
| "attempts env token chat_id reqs (e # es) =
     (let a = answer env reqs (entry_request token chat_id e) in
      (e, a) # (if stops a then [] else attempts env token chat_id (reqs @ [entry_request token chat_id e]) es))"

text \<open>The clusters of the accepted messages, with the message ids.\<close>

definition accepted :: "bot_env \<Rightarrow> (delivery_entry \<times> pyobj res) list \<Rightarrow> (int \<times> string option) list" where
  "accepted env tries =
     concat (map (\<lambda>(e, a). case a of Inl _ \<Rightarrow> [] | Inr m \<Rightarrow> [(de_cluster_id e, Some (py_str (be_repr env) m))]) tries)"

definition token_rejected :: "(delivery_entry \<times> pyobj res) list \<Rightarrow> bool" where
  "token_rejected tries \<longleftrightarrow> (\<exists>(e, a) \<in> set tries. \<exists>x. a = Inl x \<and> exn_class x = ''BotTokenInvalidError'')"

lemma attempts_stop:
  assumes "stops (answer env reqs (entry_request token chat_id e))"
  shows "attempts env token chat_id reqs (e # es) = [(e, answer env reqs (entry_request token chat_id e))]"
  using assms by (simp add: Let_def)

lemma attempts_go_on:
  assumes "\<not> stops (answer env reqs (entry_request token chat_id e))"
  shows "attempts env token chat_id reqs (e # es) =
    (e, answer env reqs (entry_request token chat_id e)) # attempts env token chat_id (reqs @ [entry_request token chat_id e]) es"
  using assms by (simp add: Let_def)

lemma accepted_simps [simp]:
  "accepted env [] = []"
  "accepted env ((e, Inl x) # tries) = accepted env tries"
  "accepted env ((e, Inr m) # tries) = (de_cluster_id e, Some (py_str (be_repr env) m)) # accepted env tries"
  by (simp_all add: accepted_def)

lemma token_rejected_Cons [simp]:
  "\<not> token_rejected []"
  "token_rejected ((e, a) # tries) \<longleftrightarrow> (\<exists>x. a = Inl x \<and> exn_class x = ''BotTokenInvalidError'') \<or> token_rejected tries"
  by (auto simp: token_rejected_def)

definition run_effect :: "bot_env \<Rightarrow> string \<Rightarrow> string \<Rightarrow> (delivery_entry \<times> pyobj res) list \<Rightarrow> bot_state \<Rightarrow> bot_state \<Rightarrow> bool" where
  "run_effect env token chat_id tries s t \<longleftrightarrow>
     bt_requests t = bt_requests s @ map (\<lambda>(e, a). entry_request token chat_id e) tries \<and>
     clusters (bt_db t) = clusters (bt_db s) \<and> settings_ok (bt_db t) \<and>
     (\<exists>rows. deliveries (bt_db t) = deliveries (bt_db s) @ rows \<and>
        map (\<lambda>r. (bd_cluster_id r, bd_telegram_message_id r)) rows = accepted env tries) \<and>
     setting_value (bt_db t) =
       (if token_rejected tries then (setting_value (bt_db s))(''bot.enabled'' \<mapsto> PBool False) else setting_value (bt_db s))"

lemma setting_value_cong: "settings d' = settings d \<Longrightarrow> setting_value d' = setting_value d"
  by (simp add: setting_value_def fun_eq_iff)

lemma store_setting_tables [simp]:
  "deliveries (store_setting k v d) = deliveries d" "clusters (store_setting k v d) = clusters d"
  by (simp_all add: store_setting_def append_setting_def overwrite_setting_def)

lemma run_effect_step:
  assumes "run_effect env token chat_id tries s1 t"
    and "bt_requests s1 = bt_requests s @ [entry_request token chat_id e]"
    and "clusters (bt_db s1) = clusters (bt_db s)" and "settings (bt_db s1) = settings (bt_db s)"
    and "deliveries (bt_db s1) = deliveries (bt_db s) @ rows"
    and "map (\<lambda>r. (bd_cluster_id r, bd_telegram_message_id r)) rows = accepted env [(e, a)]"
    and "\<not> stops a"
  shows "run_effect env token chat_id ((e, a) # tries) s t"
proof -
  obtain more where m: "deliveries (bt_db t) = deliveries (bt_db s1) @ more"
      "map (\<lambda>r. (bd_cluster_id r, bd_telegram_message_id r)) more = accepted env tries"
    using assms(1) by (auto simp: run_effect_def)
  have acc: "accepted env ((e, a) # tries) = accepted env [(e, a)] @ accepted env tries" by (simp add: accepted_def)
  have rej: "token_rejected ((e, a) # tries) = token_rejected tries" using assms(7) by (auto simp: stops_def)
  have "deliveries (bt_db t) = deliveries (bt_db s) @ (rows @ more)" using m(1) assms(5) by simp
  moreover have "map (\<lambda>r. (bd_cluster_id r, bd_telegram_message_id r)) (rows @ more) = accepted env ((e, a) # tries)"
    using m(2) assms(6) by (simp add: acc)
  ultimately have "\<exists>rows. deliveries (bt_db t) = deliveries (bt_db s) @ rows \<and>
      map (\<lambda>r. (bd_cluster_id r, bd_telegram_message_id r)) rows = accepted env ((e, a) # tries)" by blast
  then show ?thesis
    using assms(1-4) rej setting_value_cong [OF assms(4)] by (simp add: run_effect_def)
qed

lemma process_entries_effect:
  assumes "settings_ok (bt_db s)" and "distinct (map de_cluster_id es)"
    and "\<forall>e \<in> set es. de_cluster_id e \<in> cluster_ids (bt_db s) \<and> de_cluster_id e \<notin> bd_cluster_id ` set (deliveries (bt_db s))"
  shows "run_effect env token chat_id (attempts env token chat_id (bt_requests s) es) s
    (snd (process_entries env token chat_id es s))"
  using assms
proof (induction es arbitrary: s)
  case Nil
  then show ?case by (simp add: run_effect_def act_simps)
next
  case (Cons e es)
  let ?q = "entry_request token chat_id e"
  let ?a = "answer env (bt_requests s) ?q"
  consider m where "?a = Inr m"
    | x where "?a = Inl x" "exn_class x = ''BotTokenInvalidError''"
    | x where "?a = Inl x" "exn_class x = ''CancelledError''"
    | x where "?a = Inl x" "exn_class x \<noteq> ''BotTokenInvalidError''" "exn_class x \<noteq> ''CancelledError''"
    by (cases ?a) auto
  then show ?case
  proof cases
    case 1
    obtain row f where row: "bd_cluster_id row = de_cluster_id e" "bd_telegram_message_id row = Some (py_str (be_repr env) m)"
      and run: "process_entry env token chat_id e s = (Inr (Delivered (delivery_of row)),
         s\<lparr> bt_db := (bt_db s)\<lparr> deliveries := deliveries (bt_db s) @ [row] \<rparr>,
            bt_requests := bt_requests s @ [?q], bt_failures := f \<rparr>)" (is "_ = (_, ?s1)")
      using process_entry_accepted [OF 1] Cons.prems(3) by force
    have ok: "settings_ok (bt_db ?s1)" using Cons.prems(1) settings_table_cong [of "bt_db ?s1" "bt_db s"] by simp
    have "de_cluster_id e' \<noteq> de_cluster_id e" if "e' \<in> set es" for e'
      using Cons.prems(2) that by (metis distinct.simps(2) image_eqI list.set_map list.simps(9))
    then have "\<forall>e' \<in> set es. de_cluster_id e' \<in> cluster_ids (bt_db ?s1) \<and>
        de_cluster_id e' \<notin> bd_cluster_id ` set (deliveries (bt_db ?s1))"
      using Cons.prems(3) row(1) by simp
    from Cons.IH [OF ok _ this] Cons.prems(2)
    have rest: "run_effect env token chat_id (attempts env token chat_id (bt_requests s @ [?q]) es) ?s1
        (snd (process_entries env token chat_id es ?s1))" by simp
    have go: "\<not> stops ?a" by (simp add: 1 stops_def)
    have "snd (process_entries env token chat_id (e # es) s) = snd (process_entries env token chat_id es ?s1)"
      by (simp add: act_bind_def run act_return_def split: prod.split sum.split)
    then show ?thesis
      using run_effect_step [OF rest, of s e "[row]" ?a] go row by (simp add: attempts_go_on 1 del: attempts.simps)
  next
    case 2
    obtain d where d: "alerted (bt_db s) d" and run: "process_entry env token chat_id e s = (Inr TokenRejected,
        s\<lparr> bt_db := store_setting ''bot.enabled'' (PBool False) d, bt_requests := bt_requests s @ [?q] \<rparr>)"
      using process_entry_token_rejected [OF 2 Cons.prems(1)] by blast
    have ok: "settings_ok d" using Cons.prems(1) settings_table_cong [OF alerted_tables(3) [OF d]] by simp
    have st: "stops ?a" by (simp add: 2 stops_def)
    show ?thesis
      using run alerted_tables [OF d] kv.get_put [OF ok, of "PBool False"] kv.inv_put [OF ok, of "PBool False"]
        setting_value_cong [OF alerted_tables(3) [OF d]]
      by (simp add: attempts_stop [OF st] run_effect_def act_bind_def act_return_def 2 del: attempts.simps)
  next
    case 3
    have st: "stops ?a" by (simp add: 3 stops_def)
    show ?thesis
      using process_entry_cancelled [OF 3] Cons.prems(1)
      by (simp add: attempts_stop [OF st] run_effect_def act_bind_def 3 del: attempts.simps)
  next
    case 4
    obtain d f where d: "alerted (bt_db s) d" and run: "process_entry env token chat_id e s = (Inr NotDelivered,
        s\<lparr> bt_db := d, bt_requests := bt_requests s @ [?q], bt_failures := f \<rparr>)" (is "_ = (_, ?s1)")
      using process_entry_failed [OF 4] by blast
    note tables = alerted_tables [OF d]
    have "settings_ok (bt_db ?s1)" using Cons.prems(1) settings_table_cong [OF tables(3)] by simp
    from Cons.IH [OF this] Cons.prems(2,3) tables
    have rest: "run_effect env token chat_id (attempts env token chat_id (bt_requests s @ [?q]) es) ?s1
        (snd (process_entries env token chat_id es ?s1))" by simp
    have go: "\<not> stops ?a" using 4 by (simp add: stops_def)
    have "snd (process_entries env token chat_id (e # es) s) = snd (process_entries env token chat_id es ?s1)"
      by (simp add: act_bind_def run)
    then show ?thesis
      using run_effect_step [OF rest, of s e "[]" ?a] go tables by (simp add: attempts_go_on 4 del: attempts.simps)
  qed
qed

text \<open>The settings with which a run gets to its entries.\<close>

definition bot_ready :: "bot_env \<Rightarrow> string \<Rightarrow> string \<Rightarrow> int \<Rightarrow> db \<Rightarrow> bool" where
  "bot_ready env token chat_id n d \<longleftrightarrow>
     (case setting_value d ''bot.enabled'' of None \<Rightarrow> False | Some v \<Rightarrow> py_truthy v) \<and>
     map_option (py_str (be_repr env)) (setting_value d ''bot.token'') = Some token \<and> token \<noteq> [] \<and>
     map_option (py_str (be_repr env)) (setting_value d ''bot.chat_id'') = Some chat_id \<and> chat_id \<noteq> [] \<and>
     batch_size_of (map_option (\<lambda>v. \<lparr> sr_key = ''bot.delivery_batch_size'', sr_value = v \<rparr>)
        (setting_value d ''bot.delivery_batch_size'')) = Inr n \<and> 0 \<le> n \<and> n < 2 ^ 63"

definition batch :: "int \<Rightarrow> db \<Rightarrow> delivery_entry list" where
  "batch n d = map (entry_of d) (take (nat n) (undelivered_groups d))"

lemma bot_setting_eq:
  "settings_ok (bt_db s) \<Longrightarrow>
   bot_setting k s = (Inr (map_option (\<lambda>v. \<lparr> sr_key = k, sr_value = v \<rparr>) (setting_value (bt_db s) k)), s)"
  by (simp add: bot_setting_def on_bot_db_def act_read_def setting_get_by_key_value)

lemma delivery_run_once_ready:
  assumes "settings_ok (bt_db s)" and "bot_ready env token chat_id n (bt_db s)"
  shows "delivery_run_once env s = process_entries env token chat_id (batch n (bt_db s)) s"
proof -
  obtain v w x where set: "setting_value (bt_db s) ''bot.enabled'' = Some v" "py_truthy v"
    "setting_value (bt_db s) ''bot.token'' = Some w" "py_str (be_repr env) w = token"
    "setting_value (bt_db s) ''bot.chat_id'' = Some x" "py_str (be_repr env) x = chat_id"
    using assms(2) by (auto simp: bot_ready_def split: option.splits)
  have "on_bot_db (act_read (list_undelivered_entries n)) s = (Inr (batch n (bt_db s)), s)"
    using assms(2) by (simp add: on_bot_db_def act_read_def list_undelivered_entries_eq bot_ready_def batch_def)
  then show ?thesis
    using assms set
    by (simp add: delivery_run_once_def act_bind_def bot_setting_eq setting_flag_def setting_text_def blank_def
        act_lift_def bot_ready_def Let_def)
qed

lemma batch_ids:
  "store_ok d \<Longrightarrow> map de_cluster_id (batch n d) =
    take (nat n) (sorted_list_of_set {c \<in> cluster_ids d. \<not> has_been_delivered c d})"
  by (simp add: batch_def take_map [symmetric] undelivered_ids [symmetric] comp_def)

lemma run_once_effect:
  assumes "store_ok (bt_db s)" and "settings_ok (bt_db s)" and "bot_ready env token chat_id n (bt_db s)"
  shows "run_effect env token chat_id (attempts env token chat_id (bt_requests s) (batch n (bt_db s))) s
    (snd (delivery_run_once env s))"
proof -
  let ?d = "bt_db s"
  have ids: "map de_cluster_id (batch n ?d) = take (nat n) (sorted_list_of_set {c \<in> cluster_ids ?d. \<not> has_been_delivered c ?d})"
    by (rule batch_ids [OF assms(1)])
  then have "distinct (map de_cluster_id (batch n ?d))" by simp
  moreover have "de_cluster_id e \<in> cluster_ids ?d \<and> de_cluster_id e \<notin> bd_cluster_id ` set (deliveries ?d)"
    if "e \<in> set (batch n ?d)" for e
  proof -
    have "de_cluster_id e \<in> set (map de_cluster_id (batch n ?d))" using that by simp
    then have "de_cluster_id e \<in> set (sorted_list_of_set {c \<in> cluster_ids ?d. \<not> has_been_delivered c ?d})"
      unfolding ids by (rule in_set_takeD)
    then show ?thesis by (simp add: has_been_delivered_iff)
  qed
  ultimately show ?thesis
    unfolding delivery_run_once_ready [OF assms(2,3)] by (intro process_entries_effect assms(2)) auto
qed

lemma attempts_prefix:
  "\<exists>k. map fst (attempts env token chat_id reqs es) = take k es"
proof (induction es arbitrary: reqs)
  case (Cons e es)
  obtain k where "map fst (attempts env token chat_id (reqs @ [entry_request token chat_id e]) es) = take k es"
    using Cons by blast
  then show ?case
    by (cases "stops (answer env reqs (entry_request token chat_id e))")
      (auto simp: attempts_stop attempts_go_on simp del: attempts.simps intro: exI [of _ 1] exI [of _ "Suc k"])
qed simp

lemma attempts_all:
  "\<forall>(e, a) \<in> set (attempts env token chat_id reqs es). \<not> stops a \<Longrightarrow> map fst (attempts env token chat_id reqs es) = es"
  by (induction es arbitrary: reqs) (auto simp: Let_def split: if_splits)

lemma run_disabled:
  assumes "settings_ok (bt_db s)" and "setting_value (bt_db s) ''bot.enabled'' = Some (PBool False)"
  shows "delivery_run_once env s = (Inr [], s)"
  using assms by (simp add: delivery_run_once_def act_bind_def bot_setting_eq setting_flag_def act_return_def)

lemma mask_token_length [simp]: "length (mask_token t) = length t"
  by (simp add: mask_token_def)

lemma run_effect_rows:
  assumes "run_effect env token chat_id tries s t"
  shows "map (\<lambda>r. (bd_cluster_id r, bd_telegram_message_id r)) (deliveries (bt_db t)) =
    map (\<lambda>r. (bd_cluster_id r, bd_telegram_message_id r)) (deliveries (bt_db s)) @ accepted env tries"
  using assms by (auto simp: run_effect_def)

subsection \<open>A sample\<close>

definition sample_bot_setting :: "int \<Rightarrow> string \<Rightarrow> pyobj \<Rightarrow> setting_row" where
  "sample_bot_setting n k v = \<lparr> st_id = n, st_key = k, st_value_json = JText v, st_updated_at = sample_time \<rparr>"

definition sample_bot :: bot_state where
  "sample_bot =
     \<lparr> bt_db = sample_db\<lparr> settings :=
         [sample_bot_setting 1 ''bot.token'' (PStr ''tok:12345''), sample_bot_setting 2 ''bot.chat_id'' (PStr ''@c''),
          sample_bot_setting 3 ''bot.enabled'' (PBool True)] \<rparr>,
       bt_requests = [], bt_failures = (\<lambda>_. None) \<rparr>"

definition sample_bot_env :: "http_outcome \<Rightarrow> bot_env" where
  "sample_bot_env a = \<lparr> be_http = (\<lambda>_. a), be_repr = (\<lambda>_. []) \<rparr>"

definition sample_ok_answer :: http_outcome where
  "sample_ok_answer =
     HttpResponse 200 (JText (PDict [(PStr ''ok'', PBool True), (PStr ''result'', PDict [(PStr ''message_id'', PInt 7)])]))"

lemma sample_bot_ok: "store_ok (bt_db sample_bot)" "settings_ok (bt_db sample_bot)"
  by code_simp+

lemma sample_bot_ready: "bot_ready (sample_bot_env a) ''tok:12345'' ''@c'' 10 (bt_db sample_bot)"
  by (simp add: bot_ready_def sample_bot_def setting_value_def sample_bot_setting_def json_loads_def batch_size_of_def)

lemma sample_ok_accepted: "answer (sample_bot_env sample_ok_answer) reqs q = Inr (PInt 7)"
  by (simp add: answer_def sample_bot_env_def sample_ok_answer_def api_result_def json_loads_def dict_get_def
      parse_sent_message_def)

subsection \<open>Configuration\<close>

lemma put_config_key_eq:
  assumes "settings_ok d" and "is_json_value v"
  shows "put_config_key (k, v) d = (Inr (), store_setting k v d)"
  using assms by (simp add: put_config_key_def act_bind_def act_return_def setting_update_eq setting_create_eq store_setting_def)

definition config_written :: "string \<Rightarrow> string \<Rightarrow> db \<Rightarrow> db" where
  "config_written token chat_id d =
     store_setting ''bot.enabled'' (PBool True) (store_setting ''bot.chat_id'' (PStr chat_id)
       (store_setting ''bot.token'' (PStr token) d))"

lemma write_config_eq:
  assumes "settings_ok d"
  shows "write_config token chat_id d = (Inr (), config_written token chat_id d)"
    and "setting_value (config_written token chat_id d) = (setting_value d)(''bot.token'' \<mapsto> PStr token,
      ''bot.chat_id'' \<mapsto> PStr chat_id, ''bot.enabled'' \<mapsto> PBool True)"
    and "settings_ok (config_written token chat_id d)"
  using assms
  by (simp_all add: write_config_def act_bind_def act_return_def put_config_key_eq kv.inv_put kv.get_put config_written_def)

lemma delete_bot_config_eq:
  assumes "settings_ok d"
  shows "\<exists>d'. delete_bot_config d = (Inr (), d') \<and> settings_ok d' \<and>
    setting_value d' = (setting_value d)(''bot.token'' := None, ''bot.chat_id'' := None, ''bot.enabled'' \<mapsto> PBool False)"
proof -
  have "settings_ok (erase_setting ''bot.chat_id'' (erase_setting ''bot.token'' d))"
    using assms by (simp add: kv.inv_remove)
  then show ?thesis
    using assms
    by (simp add: delete_bot_config_def act_bind_def act_return_def setting_delete_eq setting_upsert_eq kv.get_put
        kv.inv_put kv.inv_remove kv.get_remove)
qed

text \<open>Runs of the service are at least an interval apart.\<close>

lemma delivery_run_loop_spacing:
  "delivery_run_loop env interval start nows s = ((r, runs), t) \<Longrightarrow>
   successively (\<lambda>x y. of_int interval \<le> y - x) (start # runs)"
proof (induction env interval start nows s arbitrary: r runs t rule: delivery_run_loop.induct)
  case (2 env interval start now nows s)
  show ?case
  proof (cases "now - start \<ge> of_int interval")
    case True
    obtain x s' where run: "delivery_run_once env s = (x, s')" by fastforce
    show ?thesis
    proof (cases "\<exists>e. x = Inl e \<and> exn_class e = ''CancelledError''")
      case c: True
      then show ?thesis using 2(4) True run by auto
    next
      case go: False
      obtain r' runs' t' where rest: "delivery_run_loop env interval now nows s' = ((r', runs'), t')"
        by (metis surj_pair)
      then have "runs = now # runs'" using 2(4) True run go by (cases x) auto
      moreover have "successively (\<lambda>x y. of_int interval \<le> y - x) (now # runs')"
        using 2(1,2) [OF True] run go rest by (cases x) auto
      ultimately show ?thesis using True by simp
    qed
  next
    case False
    then show ?thesis using 2(3) [OF False] 2(4) by simp
  qed
qed simp

section \<open>Properties\<close>

text \<open>
  C23. One run of the delivery loop with the bot enabled and configured. It attempts the oldest clusters
  that have no delivery, in the order of their ids and at most as many as the batch size, one
  \<open>sendMessage\<close> with the formatted message each, up to the first rejected token or cancellation; and
  it records a delivery, with the message id, for exactly the attempts that the Bot API accepted, in
  that order, and for no others.
\<close>

theorem delivery_run_sends_oldest_undelivered:
  assumes "store_ok (bt_db s)" and "settings_ok (bt_db s)" and "bot_ready env token chat_id n (bt_db s)"
  defines "tries \<equiv> attempts env token chat_id (bt_requests s) (batch n (bt_db s))"
    and "t \<equiv> snd (delivery_run_once env s)"
  shows "(\<exists>k. map (\<lambda>(e, a). de_cluster_id e) tries =
       take k (take (nat n) (sorted_list_of_set {c \<in> cluster_ids (bt_db s). \<not> has_been_delivered c (bt_db s)}))) \<and>
     bt_requests t = bt_requests s @ map (\<lambda>(e, a). entry_request token chat_id e) tries \<and>
     map (\<lambda>r. (bd_cluster_id r, bd_telegram_message_id r)) (deliveries (bt_db t)) =
       map (\<lambda>r. (bd_cluster_id r, bd_telegram_message_id r)) (deliveries (bt_db s)) @ accepted env tries \<and>
     clusters (bt_db t) = clusters (bt_db s)"
proof -
  obtain k where "map fst tries = take k (batch n (bt_db s))" unfolding tries_def using attempts_prefix by blast
  then have "map de_cluster_id (map fst tries) = take k (map de_cluster_id (batch n (bt_db s)))"
    by (simp only: take_map)
  then have "map (\<lambda>(e, a). de_cluster_id e) tries =
      take k (take (nat n) (sorted_list_of_set {c \<in> cluster_ids (bt_db s). \<not> has_been_delivered c (bt_db s)}))"
    unfolding batch_ids [OF assms(1)] by (simp add: case_prod_unfold comp_def)
  moreover have "run_effect env token chat_id tries s t"
    unfolding tries_def t_def by (rule run_once_effect [OF assms(1-3)])
  ultimately show ?thesis
    using run_effect_rows [of env token chat_id tries s t] by (auto simp: run_effect_def)
qed

theorem delivery_run_sends_oldest_undelivered_witness:
  "map bd_cluster_id (deliveries (bt_db (snd (delivery_run_once (sample_bot_env sample_ok_answer) sample_bot)))) = [1, 2]"
proof -
  let ?env = "sample_bot_env sample_ok_answer" and ?d = "bt_db sample_bot"
  let ?tries = "attempts ?env ''tok:12345'' ''@c'' (bt_requests sample_bot) (batch 10 ?d)"
  have none: "deliveries ?d = []" by (simp add: sample_bot_def sample_db_def empty_db_def)
  have ids: "map de_cluster_id (batch 10 ?d) = [1, 2]" by code_simp
  then obtain e1 e2 where b: "batch 10 ?d = [e1, e2]" "de_cluster_id e1 = 1" "de_cluster_id e2 = 2" by auto
  have "map (\<lambda>r. (bd_cluster_id r, bd_telegram_message_id r))
      (deliveries (bt_db (snd (delivery_run_once ?env sample_bot)))) = accepted ?env ?tries"
    using delivery_run_sends_oldest_undelivered [OF sample_bot_ok sample_bot_ready, of sample_ok_answer]
    by (simp add: none)
  then have "map fst (map (\<lambda>r. (bd_cluster_id r, bd_telegram_message_id r))
      (deliveries (bt_db (snd (delivery_run_once ?env sample_bot))))) = map fst (accepted ?env ?tries)" by simp
  then show ?thesis by (simp add: b sample_ok_accepted Let_def stops_def comp_def)
qed

text \<open>
  C25. A token that the Bot API rejects switches the bot off for good: when an attempt of a run ends
  with 401, the setting \<open>bot.enabled\<close> is false afterwards and every later run, whatever the API would
  answer, makes no request, changes nothing and returns no delivery.
\<close>

theorem rejected_token_stops_delivery:
  assumes "store_ok (bt_db s)" and "settings_ok (bt_db s)" and "bot_ready env token chat_id n (bt_db s)"
    and "token_rejected (attempts env token chat_id (bt_requests s) (batch n (bt_db s)))"
  shows "let t = snd (delivery_run_once env s) in
     setting_value (bt_db t) = (setting_value (bt_db s))(''bot.enabled'' \<mapsto> PBool False) \<and>
     delivery_run_once env' t = (Inr [], t)"
proof -
  let ?t = "snd (delivery_run_once env s)"
  have ok: "settings_ok (bt_db ?t)"
    and off: "setting_value (bt_db ?t) = (setting_value (bt_db s))(''bot.enabled'' \<mapsto> PBool False)"
    using run_once_effect [OF assms(1-3)] assms(4) by (simp_all add: run_effect_def)
  have "delivery_run_once env' ?t = (Inr [], ?t)" by (rule run_disabled [OF ok]) (simp add: off)
  with off show ?thesis by (simp add: Let_def)
qed

theorem rejected_token_stops_delivery_witness:
  "let env = sample_bot_env (HttpResponse 401 (JMalformed [])); t = snd (delivery_run_once env sample_bot) in
     setting_value (bt_db t) ''bot.enabled'' = Some (PBool False) \<and>
     delivery_run_once (sample_bot_env sample_ok_answer) t = (Inr [], t)"
proof -
  let ?env = "sample_bot_env (HttpResponse 401 (JMalformed []))"
  have "map de_cluster_id (batch 10 (bt_db sample_bot)) = [1, 2]" by code_simp
  then obtain e es where "batch 10 (bt_db sample_bot) = e # es" by auto
  moreover have "answer ?env reqs q = Inl BotTokenInvalidError" for reqs q
    by (simp add: answer_def sample_bot_env_def api_result_def)
  ultimately have "token_rejected (attempts ?env ''tok:12345'' ''@c'' (bt_requests sample_bot) (batch 10 (bt_db sample_bot)))"
    by (simp add: Let_def)
  from rejected_token_stops_delivery [OF sample_bot_ok sample_bot_ready this, of "sample_bot_env sample_ok_answer"]
  show ?thesis by (simp add: Let_def)
qed

text \<open>
  Configuring the bot, and what the status shows of the token. When the Bot API accepts the token,
  the settings hold the token, the chat and the enabled flag, the other keys are as before, and the
  status of the configuration shows the chat, the flag and a text as long as the token: stars, but for
  the last four characters of a token that is longer than that. When it does not,
  the answer is 422 for a rejected token and 400 for any other failure, and no setting changes.
\<close>

lemma configure_bot_outcome:
  fixes env :: bot_env
  assumes "settings_ok (bt_db s)" and "token \<noteq> []" and "chat_id \<noteq> []"
  defines "a \<equiv> res_bind (api_result (be_http env (bt_requests s @
      [HttpGet (''https://api.telegram.org/bot'' @ token @ ''/getMe'')]))) parse_bot_info"
  shows "case configure_bot env token chat_id s of (r, t) \<Rightarrow>
     (case a of
        Inr info \<Rightarrow>
          r = Inr (bi_username info, chat_id) \<and>
          setting_value (bt_db t) = (setting_value (bt_db s))(''bot.token'' \<mapsto> PStr token, ''bot.chat_id'' \<mapsto> PStr chat_id,
             ''bot.enabled'' \<mapsto> PBool True) \<and>
          (let hidden = length token - (if length token > 4 then 4 else 0) in
           get_bot_config env' (bt_db t) =
             Inr \<lparr> bs_token_masked = Some (replicate hidden CHR ''*'' @ drop hidden token),
                   bs_chat_id = Some chat_id, bs_enabled = True \<rparr>)
      | Inl x \<Rightarrow>
          bt_db t = bt_db s \<and>
          r = Inl (if exn_class x = ''BotTokenInvalidError'' then HTTP422 ''Invalid Telegram bot token''
                   else if exn_class x = ''CancelledError'' then x else HTTP400 ''Failed to validate bot token''))"
proof -
  have valid: "validate_token env token s =
      (a, s\<lparr> bt_requests := bt_requests s @ [HttpGet (''https://api.telegram.org/bot'' @ token @ ''/getMe'')] \<rparr>)"
    by (simp add: validate_token_def http_call_def act_simps a_def Let_def)
  show ?thesis
  proof (cases a)
    case (Inl x)
    then show ?thesis using valid by (simp add: configure_bot_def act_simps)
  next
    case (Inr info)
    let ?d = "config_written token chat_id (bt_db s)"
    note w = write_config_eq [OF assms(1), of token chat_id]
    have "configure_bot env token chat_id s = (Inr (bi_username info, chat_id),
        s\<lparr> bt_requests := bt_requests s @ [HttpGet (''https://api.telegram.org/bot'' @ token @ ''/getMe'')], bt_db := ?d \<rparr>)"
      using valid Inr w(1) by (simp add: configure_bot_def act_simps on_bot_db_def)
    moreover have "get_bot_config env' ?d =
        Inr \<lparr> bs_token_masked = Some (mask_token token), bs_chat_id = Some chat_id, bs_enabled = True \<rparr>"
      using assms(2,3) w(2,3)
      by (simp add: get_bot_config_def setting_get_by_key_value setting_text_def setting_flag_def blank_def Let_def)
    ultimately show ?thesis using w(2) Inr by (simp add: mask_token_def)
  qed
qed

lemma configure_bot_outcome_witness:
  "fst (configure_bot (sample_bot_env (HttpResponse 401 (JMalformed []))) ''t'' ''c'' sample_bot) =
     Inl (HTTP422 ''Invalid Telegram bot token'')"
proof -
  have "res_bind (api_result (be_http (sample_bot_env (HttpResponse 401 (JMalformed []))) q)) parse_bot_info =
      Inl BotTokenInvalidError" for q
    by (simp add: sample_bot_env_def api_result_def)
  then show ?thesis
    using configure_bot_outcome [OF sample_bot_ok(2), where token = "''t''" and chat_id = "''c''"
        and env = "sample_bot_env (HttpResponse 401 (JMalformed []))" and env' = "sample_bot_env sample_ok_answer"]
    by (simp split: prod.splits)
qed

end
