(* ===== verification/Backup.thy ===== *)
theory Backup
  imports Settings Notifications
begin

text \<open>
  \<open>tca/ops/backup_job.py\<close>: the nightly copy of the database. The state is the database and the
  directory of the backups; the outcomes of the file operations, of the online backup and of the
  integrity check are fields of the record \<open>backup_io\<close>, so each of them may fail. Lemmas: a run
  leaves the newest backups and the copy of tonight, a failed run leaves every backup as it was and
  an alert.
\<close>

section \<open>The directory\<close>

datatype dir_node = DbFile db | OtherFile | SubDir

record backup_state =
  bk_db :: db
  bk_dir :: "(string \<times> dir_node) list"

text \<open>
  \<open>io_backup\<close>: the exception of connecting or copying with what it leaves at the temporary path;
  \<open>io_integrity\<close>: the row that \<open>PRAGMA integrity_check\<close> gives for a file, a tuple or not.
\<close>

record backup_io =
  io_source_exists :: bool
  io_mkdir :: "exn option"
  io_backup :: "(exn \<times> dir_node option) option"
  io_integrity :: "dir_node \<Rightarrow> pyobj list option res"
  io_replace :: "exn option"
  io_unlink :: "string \<Rightarrow> exn option"

definition dir_del :: "string \<Rightarrow> (string \<times> dir_node) list \<Rightarrow> (string \<times> dir_node) list" where
  "dir_del n dir = filter (\<lambda>f. fst f \<noteq> n) dir"

definition dir_set :: "string \<Rightarrow> dir_node option \<Rightarrow> (string \<times> dir_node) list \<Rightarrow> (string \<times> dir_node) list" where
  "dir_set n v dir = dir_del n dir @ (case v of None \<Rightarrow> [] | Some x \<Rightarrow> [(n, x)])"

definition set_node :: "string \<Rightarrow> dir_node option \<Rightarrow> (backup_state, unit) act" where
  "set_node n v = act_modify (\<lambda>s. s\<lparr> bk_dir := dir_set n v (bk_dir s) \<rparr>)"

definition unlink :: "backup_io \<Rightarrow> string \<Rightarrow> (backup_state, unit) act" where
  "unlink io n = act_bind (raise_opt (io_unlink io n)) (\<lambda>_. set_node n None)"

definition unlink_if_exists :: "backup_io \<Rightarrow> string \<Rightarrow> (backup_state, unit) act" where
  "unlink_if_exists io n =
     act_bind (act_get (\<lambda>s. map_of (bk_dir s) n)) (\<lambda>v. if v = None then act_return () else unlink io n)"

section \<open>The backup\<close>

abbreviation NightlySQLiteBackupError :: "string \<Rightarrow> exn" where
  "NightlySQLiteBackupError \<equiv> Exn ''NightlySQLiteBackupError''"

definition coerce_integrity_check_row :: "pyobj list option \<Rightarrow> string res" where
  "coerce_integrity_check_row row =
     (case row of
        None \<Rightarrow> Inl (NightlySQLiteBackupError ''PRAGMA integrity_check returned invalid row shape.'')
      | Some cells \<Rightarrow>
          if length cells \<noteq> 1
          then Inl (NightlySQLiteBackupError ''PRAGMA integrity_check returned unexpected column count.'')
          else (case as_str (hd cells) of
                  None \<Rightarrow> Inl (NightlySQLiteBackupError ''PRAGMA integrity_check returned non-string result.'')
                | Some v \<Rightarrow> Inr (py_lower v)))"

text \<open>Connecting to a missing file creates an empty database, for which the check is another row.\<close>

definition run_integrity_check :: "backup_io \<Rightarrow> string \<Rightarrow> (backup_state, string) act" where
  "run_integrity_check io n =
     act_bind (act_get (\<lambda>s. map_of (bk_dir s) n)) (\<lambda>v.
       act_lift (res_bind (io_integrity io (case v of None \<Rightarrow> OtherFile | Some x \<Rightarrow> x)) coerce_integrity_check_row))"

definition copy_database :: "backup_io \<Rightarrow> string \<Rightarrow> (backup_state, unit) act" where
  "copy_database io n s =
     (case io_backup io of
        None \<Rightarrow> set_node n (Some (DbFile (bk_db s))) s
      | Some (e, left) \<Rightarrow> act_bind (set_node n left) (\<lambda>_. act_raise e) s)"

definition replace_file :: "backup_io \<Rightarrow> string \<Rightarrow> string \<Rightarrow> (backup_state, unit) act" where
  "replace_file io src dst =
     act_bind (raise_opt (io_replace io)) (\<lambda>_.
     act_bind (act_get (\<lambda>s. map_of (bk_dir s) src)) (\<lambda>v.
     act_bind (set_node src None) (\<lambda>_. set_node dst v)))"

definition temporary_name :: "string \<Rightarrow> string" where
  "temporary_name n = n @ ''.tmp''"

definition create_backup_and_run_integrity_check :: "backup_io \<Rightarrow> string \<Rightarrow> (backup_state, string) act" where
  "create_backup_and_run_integrity_check io n =
     (let tmp = temporary_name n in
      if \<not> io_source_exists io then act_raise (Exn ''FileNotFoundError'' ''Source SQLite database does not exist'')
      else
        act_bind (raise_opt (io_mkdir io)) (\<lambda>_.
        act_bind (unlink_if_exists io tmp) (\<lambda>_.
        act_bind
          (act_catch
            (act_bind (copy_database io tmp) (\<lambda>_.
             act_bind (run_integrity_check io tmp) (\<lambda>result.
             if result \<noteq> ''ok'' then act_raise (NightlySQLiteBackupError ''SQLite backup integrity_check failed'')
             else replace_file io tmp n)))
            (\<lambda>e. act_bind (unlink_if_exists io tmp) (\<lambda>_. act_raise e)))
          (\<lambda>_. act_return ''ok''))))"

section \<open>Retention\<close>

definition backup_name :: "string \<Rightarrow> bool" where
  "backup_name n \<longleftrightarrow> take 4 n = ''tca-'' \<and> 7 \<le> length n \<and> drop (length n - 3) n = ''.db''"

definition is_file :: "dir_node \<Rightarrow> bool" where
  "is_file v \<longleftrightarrow> v \<noteq> SubDir"

definition backup_files :: "(string \<times> dir_node) list \<Rightarrow> string list" where
  "backup_files dir = rev (sort (map fst (filter (\<lambda>f. backup_name (fst f) \<and> is_file (snd f)) dir)))"

text \<open>The directory exists here: the backup before has made it.\<close>

definition cleanup_old_backups :: "backup_io \<Rightarrow> int \<Rightarrow> (backup_state, unit) act" where
  "cleanup_old_backups io retain_count =
     (if retain_count < 1 then act_return ()
      else
        act_bind (act_get (\<lambda>s. backup_files (bk_dir s))) (\<lambda>files.
        act_bind (act_foreach (unlink io) (drop (nat retain_count) files)) (\<lambda>_. act_return ())))"

definition coerce_retain_count :: "pyobj \<Rightarrow> int" where
  "coerce_retain_count value =
     (case value of
        PInt n \<Rightarrow> if n > 0 then n else 14
      | PFloat (Finite q) \<Rightarrow> if q = of_int \<lfloor>q\<rfloor> \<and> \<lfloor>q\<rfloor> > 0 then \<lfloor>q\<rfloor> else 14
      | _ \<Rightarrow> 14)"

text \<open>Only the exceptions of SQLAlchemy fall back to the default.\<close>

definition resolve_retain_count :: "db \<Rightarrow> int res" where
  "resolve_retain_count d =
     (case setting_get_by_key ''backup.retain_count'' d of
        Inl e \<Rightarrow> if exn_class e = ''MultipleResultsFound'' then Inr 14 else Inl e
      | Inr None \<Rightarrow> Inr 14
      | Inr (Some r) \<Rightarrow> Inr (coerce_retain_count (sr_value r)))"

section \<open>The job\<close>

definition on_backup_db :: "(db, 'a) act \<Rightarrow> (backup_state, 'a) act" where
  "on_backup_db m s = (case m (bk_db s) of (r, d) \<Rightarrow> (r, s\<lparr> bk_db := d \<rparr>))"

definition backup_file_name :: "datetime \<Rightarrow> string" where
  "backup_file_name run_at =
     (case civil_from_days (wall_us run_at div 1000000 div 86400) of (y, m, d) \<Rightarrow>
        ''tca-'' @ pad_digits 4 y @ pad_digits 2 m @ pad_digits 2 d @ ''.db'')"

definition iso_t_text :: "datetime \<Rightarrow> string" where
  "iso_t_text d = take 10 (dt_text d) @ ''T'' @ drop 11 (dt_text d)"

definition create_failure_notification ::
  "string \<Rightarrow> string \<Rightarrow> datetime \<Rightarrow> exn \<Rightarrow> (db, notification_record) act" where
  "create_failure_notification backup_dir n run_at e =
     notification_create ''backup_failure'' ''high'' ''Nightly SQLite backup failed.''
       (PDict [(PStr ''backup_path'', PStr (backup_dir @ ''/'' @ n)), (PStr ''error_type'', PStr (exn_class e)),
               (PStr ''error_message'', PStr (exn_message e)), (PStr ''failed_at'', PIso run_at (iso_t_text run_at))])"

text \<open>The two guarded steps of the job share their handler.\<close>

definition guarded ::
  "string \<Rightarrow> string \<Rightarrow> datetime \<Rightarrow> (backup_state, 'a) act \<Rightarrow> (backup_state, 'a) act" where
  "guarded backup_dir n run_at m =
     act_catch m
       (\<lambda>e. if exn_class e = ''CancelledError'' then act_raise e
            else act_bind (on_backup_db (create_failure_notification backup_dir n run_at e)) (\<lambda>_.
                   act_raise (NightlySQLiteBackupError ''Nightly SQLite backup job failed.'')))"

text \<open>The summary is the name of the backup and the result of the check.\<close>

definition backup_run_once :: "backup_io \<Rightarrow> string \<Rightarrow> datetime \<Rightarrow> (backup_state, string \<times> string) act" where
  "backup_run_once io backup_dir now =
     (let run_at = normalize_datetime now; n = backup_file_name run_at in
      act_bind (guarded backup_dir n run_at (create_backup_and_run_integrity_check io n)) (\<lambda>result.
      act_bind (on_backup_db (act_read resolve_retain_count)) (\<lambda>retain_count.
      act_bind (guarded backup_dir n run_at (cleanup_old_backups io retain_count)) (\<lambda>_.
        act_return (n, result)))))"

section \<open>The directory as a map\<close>

lemma map_of_dir_del: "map_of (dir_del n dir) = (map_of dir)(n := None)"
  by (induction dir) (auto simp: dir_del_def)

lemma map_of_dir_set [simp]: "map_of (dir_set n v dir) = (map_of dir)(n := v)"
  by (cases v) (auto simp: dir_set_def map_of_dir_del map_add_def fun_eq_iff split: option.split)

lemma distinct_dir_set [simp]: "distinct (map fst dir) \<Longrightarrow> distinct (map fst (dir_set n v dir))"
  by (cases v) (auto simp: dir_set_def dir_del_def distinct_map_filter)

text \<open>Acts that change the directory at one name only.\<close>

definition only_at :: "string \<Rightarrow> backup_state \<Rightarrow> backup_state \<Rightarrow> bool" where
  "only_at n s t \<longleftrightarrow> bk_db t = bk_db s \<and> (\<forall>m. m \<noteq> n \<longrightarrow> map_of (bk_dir t) m = map_of (bk_dir s) m)"

definition fails_keeping :: "('s \<Rightarrow> bool) \<Rightarrow> ('s, 'a) act \<Rightarrow> bool" where
  "fails_keeping I m \<longleftrightarrow> (\<forall>s e t. I s \<longrightarrow> m s = (Inl e, t) \<longrightarrow> I t)"

lemma fails_keeping_preserves: "preserves I m \<Longrightarrow> fails_keeping I m"
  by (auto simp: fails_keeping_def dest: preserves_result)

lemma fails_keeping_bind:
  "preserves I m \<Longrightarrow> (\<And>x. fails_keeping I (f x)) \<Longrightarrow> fails_keeping I (act_bind m f)"
  unfolding fails_keeping_def
  by (auto simp: act_bind_def dest: preserves_result split: prod.splits sum.splits)

lemma fails_keeping_catch:
  "fails_keeping I m \<Longrightarrow> (\<And>e. preserves I (h e)) \<Longrightarrow> fails_keeping I (act_catch m h)"
  unfolding fails_keeping_def
  by (auto simp: act_catch_def split: prod.splits sum.splits) (metis preserves_result)

lemma fails_keeping_then: "fails_keeping I m \<Longrightarrow> fails_keeping I (act_bind m (\<lambda>_. act_return x))"
  by (auto simp: fails_keeping_def act_bind_def act_return_def split: prod.splits sum.splits)

lemma raise_opt_preserves [preserves_intros]: "preserves I (raise_opt e)"
  by (simp add: raise_opt_def preserves_intros)

lemma set_node_only_at: "preserves (only_at n s) (set_node n v)"
  by (rule preservesI) (simp add: set_node_def act_modify_def only_at_def)

lemma unlink_only_at: "preserves (only_at n s) (unlink io n)"
  unfolding unlink_def by (intro preserves_intros set_node_only_at)

lemma unlink_if_exists_only_at: "preserves (only_at n s) (unlink_if_exists io n)"
  unfolding unlink_if_exists_def by (intro preserves_intros unlink_only_at)

lemma copy_database_only_at: "preserves (only_at n s) (copy_database io n)"
proof (rule preservesI)
  fix t assume t: "only_at n s t"
  have keep: "preserves (only_at n s) (act_bind (set_node n v) (\<lambda>_. act_raise e))" for v e
    by (intro preserves_intros set_node_only_at)
  show "only_at n s (snd (copy_database io n t))"
    using preservesD [OF set_node_only_at t] preservesD [OF keep t] by (auto simp: copy_database_def split: option.split)
qed

lemma replace_file_fails: "fails_keeping I (replace_file io src dst)"
  by (auto simp: fails_keeping_def replace_file_def act_simps raise_opt_def set_node_def split: option.splits)

lemma create_backup_fails:
  assumes "create_backup_and_run_integrity_check io n s = (Inl e, t)"
  shows "only_at (temporary_name n) s t"
proof -
  let ?I = "only_at (temporary_name n) s"
  have check: "preserves ?I (run_integrity_check io (temporary_name n))"
    unfolding run_integrity_check_def by (intro preserves_intros)
  have body: "fails_keeping ?I
      (act_bind (copy_database io (temporary_name n)) (\<lambda>_.
       act_bind (run_integrity_check io (temporary_name n)) (\<lambda>result.
       if result \<noteq> ''ok'' then act_raise (NightlySQLiteBackupError ''SQLite backup integrity_check failed'')
       else replace_file io (temporary_name n) n)))"
  proof (intro fails_keeping_bind copy_database_only_at check)
    fix result
    show "fails_keeping ?I (if result \<noteq> ''ok''
        then act_raise (NightlySQLiteBackupError ''SQLite backup integrity_check failed'') else replace_file io (temporary_name n) n)"
      by (cases "result = ''ok''") (simp_all add: replace_file_fails fails_keeping_preserves preserves_raise)
  qed
  have "preserves ?I (act_bind (unlink_if_exists io (temporary_name n)) (\<lambda>_. act_raise e))" for e
    by (intro preserves_intros unlink_if_exists_only_at)
  then have caught: "fails_keeping ?I (act_bind
      (act_catch (act_bind (copy_database io (temporary_name n)) (\<lambda>_.
         act_bind (run_integrity_check io (temporary_name n)) (\<lambda>result.
         if result \<noteq> ''ok'' then act_raise (NightlySQLiteBackupError ''SQLite backup integrity_check failed'')
         else replace_file io (temporary_name n) n)))
        (\<lambda>e. act_bind (unlink_if_exists io (temporary_name n)) (\<lambda>_. act_raise e)))
      (\<lambda>_. act_return ''ok''))"
    by (intro fails_keeping_then fails_keeping_catch [OF body])
  have "fails_keeping ?I (create_backup_and_run_integrity_check io n)"
    unfolding create_backup_and_run_integrity_check_def Let_def
    using fails_keeping_bind [OF raise_opt_preserves [of ?I "io_mkdir io"] fails_keeping_bind [OF unlink_if_exists_only_at caught]]
      fails_keeping_preserves [OF preserves_raise]
    by (simp only: split: if_split) blast
  moreover have "?I s" by (simp add: only_at_def)
  ultimately show ?thesis using assms by (auto simp: fails_keeping_def)
qed

section \<open>A run that succeeds\<close>

definition io_ok :: "backup_io \<Rightarrow> db \<Rightarrow> bool" where
  "io_ok io d \<longleftrightarrow> io_source_exists io \<and> io_mkdir io = None \<and> io_backup io = None \<and> io_replace io = None \<and>
     io_unlink io = (\<lambda>_. None) \<and> io_integrity io (DbFile d) = Inr (Some [PStr ''ok''])"

lemma py_lower_ok: "py_lower ''ok'' = ''ok''" by code_simp

lemma unlink_ok: "io_unlink io = (\<lambda>_. None) \<Longrightarrow> unlink io n s = (Inr (), s\<lparr> bk_dir := dir_set n None (bk_dir s) \<rparr>)"
  by (simp add: unlink_def raise_opt_def set_node_def act_simps)

lemma create_backup_ok:
  assumes "io_ok io (bk_db s)" and "distinct (map fst (bk_dir s))"
  shows "\<exists>dir. create_backup_and_run_integrity_check io n s = (Inr ''ok'', s\<lparr> bk_dir := dir \<rparr>) \<and> distinct (map fst dir) \<and>
    map_of dir = (map_of (bk_dir s))(temporary_name n := None, n \<mapsto> DbFile (bk_db s))"
proof -
  let ?tmp = "temporary_name n"
  obtain dir0 where clean: "unlink_if_exists io ?tmp s = (Inr (), s\<lparr> bk_dir := dir0 \<rparr>)"
    and dir0: "distinct (map fst dir0)" "map_of dir0 = (map_of (bk_dir s))(?tmp := None)"
  proof (cases "map_of (bk_dir s) ?tmp")
    case None
    then have "unlink_if_exists io ?tmp s = (Inr (), s\<lparr> bk_dir := bk_dir s \<rparr>)" by (simp add: unlink_if_exists_def act_simps)
    with None that assms(2) show thesis by (metis fun_upd_triv)
  next
    case (Some v)
    then have "unlink_if_exists io ?tmp s = (Inr (), s\<lparr> bk_dir := dir_set ?tmp None (bk_dir s) \<rparr>)"
      using assms(1) by (simp add: unlink_if_exists_def act_simps unlink_ok io_ok_def)
    then show thesis by (rule that) (use assms(2) in simp_all)
  qed
  let ?dir = "dir_set n (Some (DbFile (bk_db s))) (dir_set ?tmp None (dir_set ?tmp (Some (DbFile (bk_db s))) dir0))"
  have "create_backup_and_run_integrity_check io n s = (Inr ''ok'', s\<lparr> bk_dir := ?dir \<rparr>)"
    using assms(1) clean
    by (simp add: create_backup_and_run_integrity_check_def Let_def act_bind_def act_catch_def act_return_def raise_opt_def
        io_ok_def copy_database_def set_node_def act_modify_def run_integrity_check_def act_get_def act_lift_def
        coerce_integrity_check_row_def py_lower_ok replace_file_def)
  moreover have "map_of ?dir = (map_of (bk_dir s))(?tmp := None, n \<mapsto> DbFile (bk_db s))" by (simp add: dir0(2))
  ultimately show ?thesis using dir0(1) by (intro exI [of _ ?dir]) simp
qed

lemma unlink_all:
  assumes "io_unlink io = (\<lambda>_. None)"
  shows "\<exists>dir. act_foreach (unlink io) ns s = (Inr (map (\<lambda>_. ()) ns), s\<lparr> bk_dir := dir \<rparr>) \<and>
    (\<forall>m. map_of dir m = (if m \<in> set ns then None else map_of (bk_dir s) m))"
proof (induction ns arbitrary: s)
  case Nil
  show ?case by (intro exI [of _ "bk_dir s"]) (simp add: act_simps)
next
  case (Cons n ns)
  let ?s = "s\<lparr> bk_dir := dir_set n None (bk_dir s) \<rparr>"
  obtain dir where "act_foreach (unlink io) ns ?s = (Inr (map (\<lambda>_. ()) ns), ?s\<lparr> bk_dir := dir \<rparr>)"
    "\<forall>m. map_of dir m = (if m \<in> set ns then None else map_of (bk_dir ?s) m)"
    using Cons by blast
  then show ?case
    by (intro exI [of _ dir]) (simp add: act_bind_def act_return_def unlink_ok [OF assms, of n s])
qed

lemma backup_files_member:
  "distinct (map fst dir) \<Longrightarrow>
   m \<in> set (backup_files dir) \<longleftrightarrow> backup_name m \<and> (\<exists>v. map_of dir m = Some v \<and> is_file v)"
  by (auto simp: backup_files_def map_of_eq_Some_iff) (force simp: map_of_eq_Some_iff)

lemma retain_count_positive: "settings_ok d \<Longrightarrow> \<exists>k. resolve_retain_count d = Inr k \<and> 1 \<le> k"
  by (auto simp: resolve_retain_count_def setting_get_by_key_value coerce_retain_count_def
      split: option.split pyobj.split pyfloat.split)

lemma cleanup_ok:
  assumes "io_unlink io = (\<lambda>_. None)" and "1 \<le> k"
  shows "\<exists>dir. cleanup_old_backups io k s = (Inr (), s\<lparr> bk_dir := dir \<rparr>) \<and>
    (\<forall>m. map_of dir m = (if m \<in> set (drop (nat k) (backup_files (bk_dir s))) then None else map_of (bk_dir s) m))"
proof -
  obtain dir where d: "act_foreach (unlink io) (drop (nat k) (backup_files (bk_dir s))) s =
      (Inr (map (\<lambda>_. ()) (drop (nat k) (backup_files (bk_dir s)))), s\<lparr> bk_dir := dir \<rparr>)"
    "\<forall>m. map_of dir m = (if m \<in> set (drop (nat k) (backup_files (bk_dir s))) then None else map_of (bk_dir s) m)"
    using unlink_all [OF assms(1)] by blast
  then show ?thesis
    using assms(2) by (intro exI [of _ dir]) (simp add: cleanup_old_backups_def act_bind_def act_get_def act_return_def)
qed

text \<open>The backup with the last name is never among those that the cleanup deletes.\<close>

lemma last_name_kept:
  assumes "distinct (map fst dir)" and "\<forall>m \<in> set (backup_files dir). m \<le> n" and "1 \<le> k"
  shows "n \<notin> set (drop k (backup_files dir))"
proof
  assume deleted: "n \<in> set (drop k (backup_files dir))"
  then obtain x xs where files: "backup_files dir = x # xs" by (cases "backup_files dir") auto
  have "n \<in> set xs" using deleted assms(3) unfolding files by (cases k) (auto dest: in_set_dropD)
  moreover have "sorted_wrt (\<ge>) (backup_files dir)" "distinct (backup_files dir)"
    using assms(1) by (auto simp: backup_files_def sorted_wrt_rev distinct_map_filter)
  ultimately have "n \<le> x" "x \<noteq> n" unfolding files by auto
  moreover have "x \<le> n" using assms(2) by (simp add: files)
  ultimately show False by simp
qed

section \<open>Properties\<close>

text \<open>
  C37. A nightly backup that succeeds, in a directory where no backup bears a later name than tonight's
  (the names are dates). The directory then holds a copy of the current database under tonight's
  name, no temporary file, and of the backups (tonight's included) exactly the newest by name, as
  many as the retention setting says; everything else in the directory is untouched, and so is the
  database.
\<close>

theorem backup_run_keeps_newest:
  assumes "io_ok io (bk_db s)" and "settings_ok (bk_db s)" and "distinct (map fst (bk_dir s))"
    and "\<forall>m \<in> set (backup_files (bk_dir s)). m \<le> backup_file_name (normalize_datetime now)"
  shows "\<exists>k dir written. resolve_retain_count (bk_db s) = Inr k \<and> 1 \<le> k \<and>
     backup_run_once io where_to now s =
       (Inr (backup_file_name (normalize_datetime now), ''ok''), s\<lparr> bk_dir := dir \<rparr>) \<and>
     map_of dir (backup_file_name (normalize_datetime now)) = Some (DbFile (bk_db s)) \<and>
     map_of written = (map_of (bk_dir s))(temporary_name (backup_file_name (normalize_datetime now)) := None,
        backup_file_name (normalize_datetime now) \<mapsto> DbFile (bk_db s)) \<and> distinct (map fst written) \<and>
     (\<forall>m. map_of dir m = (if m \<in> set (drop (nat k) (backup_files written)) then None else map_of written m))"
proof -
  let ?n = "backup_file_name (normalize_datetime now)"
  obtain written where w: "create_backup_and_run_integrity_check io ?n s = (Inr ''ok'', s\<lparr> bk_dir := written \<rparr>)"
    "distinct (map fst written)" "map_of written = (map_of (bk_dir s))(temporary_name ?n := None, ?n \<mapsto> DbFile (bk_db s))"
    using create_backup_ok [OF assms(1,3)] by blast
  obtain k where k: "resolve_retain_count (bk_db s) = Inr k" "1 \<le> k" using retain_count_positive [OF assms(2)] by blast
  have "io_unlink io = (\<lambda>_. None)" using assms(1) by (simp add: io_ok_def)
  then obtain dir where d: "cleanup_old_backups io k (s\<lparr> bk_dir := written \<rparr>) = (Inr (), s\<lparr> bk_dir := dir \<rparr>)"
    "\<forall>m. map_of dir m = (if m \<in> set (drop (nat k) (backup_files written)) then None else map_of written m)"
    using cleanup_ok [OF _ k(2), of io "s\<lparr> bk_dir := written \<rparr>"] by auto
  have "\<forall>m \<in> set (backup_files written). m \<le> ?n"
    using assms(4) unfolding backup_files_member [OF w(2)] Ball_def backup_files_member [OF assms(3)] w(3)
    by (auto split: if_splits)
  then have "?n \<notin> set (drop (nat k) (backup_files written))" using k(2) by (intro last_name_kept [OF w(2)]) simp_all
  then have "map_of dir ?n = Some (DbFile (bk_db s))" using d(2) w(3) by simp
  moreover have "backup_run_once io where_to now s = (Inr (?n, ''ok''), s\<lparr> bk_dir := dir \<rparr>)"
    using w(1) k(1) d(1)
    by (simp add: backup_run_once_def Let_def act_bind_def guarded_def act_catch_def act_return_def on_backup_db_def act_read_def)
  ultimately show ?thesis using w(2,3) k d(2) by blast
qed

definition sample_io :: backup_io where
  "sample_io = \<lparr> io_source_exists = True, io_mkdir = None, io_backup = None,
     io_integrity = (\<lambda>_. Inr (Some [PStr ''ok''])), io_replace = None, io_unlink = (\<lambda>_. None) \<rparr>"

definition sample_backups :: backup_state where
  "sample_backups = \<lparr> bk_db = sample_db, bk_dir = [(''tca-20230101.db'', OtherFile), (''notes.txt'', OtherFile)] \<rparr>"

theorem backup_run_keeps_newest_witness:
  "\<exists>t. backup_run_once sample_io ''/b'' sample_time sample_backups = (Inr (''tca-20231114.db'', ''ok''), t) \<and>
     map_of (bk_dir t) ''tca-20231114.db'' = Some (DbFile sample_db) \<and> map_of (bk_dir t) ''notes.txt'' = Some OtherFile"
proof -
  have name: "backup_file_name (normalize_datetime sample_time) = ''tca-20231114.db''" by code_simp
  have "io_ok sample_io (bk_db sample_backups)" by (simp add: io_ok_def sample_io_def)
  moreover have "settings_ok (bk_db sample_backups)" "distinct (map fst (bk_dir sample_backups))" by code_simp+
  moreover have "\<forall>m \<in> set (backup_files (bk_dir sample_backups)). m \<le> backup_file_name (normalize_datetime sample_time)"
    unfolding name by code_simp
  ultimately obtain k dir written where
    run: "backup_run_once sample_io ''/b'' sample_time sample_backups = (Inr (''tca-20231114.db'', ''ok''), sample_backups\<lparr> bk_dir := dir \<rparr>)"
    and tonight: "map_of dir ''tca-20231114.db'' = Some (DbFile (bk_db sample_backups))"
    and w: "map_of written = (map_of (bk_dir sample_backups))(temporary_name ''tca-20231114.db'' := None,
        ''tca-20231114.db'' \<mapsto> DbFile (bk_db sample_backups))" "distinct (map fst written)"
    and d: "\<forall>m. map_of dir m = (if m \<in> set (drop (nat k) (backup_files written)) then None else map_of written m)"
    using backup_run_keeps_newest [where io = sample_io and s = sample_backups and now = sample_time and where_to = "''/b''"]
    unfolding name by blast
  have "\<not> backup_name ''notes.txt''" by code_simp
  then have "''notes.txt'' \<notin> set (drop (nat k) (backup_files written))"
    using backup_files_member [OF w(2)] by (blast dest: in_set_dropD)
  then have "map_of dir ''notes.txt'' = Some OtherFile" using d w(1) by (simp add: temporary_name_def sample_backups_def)
  with run tonight show ?thesis by (auto simp: sample_backups_def)
qed

text \<open>
  C38. A backup that cannot be made loses nothing. Whichever step of copying, checking or renaming
  fails, with whatever exception, every file of the directory other than the temporary one is as it
  was before, last night's backups and an earlier one of the same day included; the run raises
  the job's error and stores one alert of high severity.
\<close>

theorem failed_backup_loses_nothing:
  assumes "create_backup_and_run_integrity_check io (backup_file_name (normalize_datetime now)) s = (Inl e, t)"
    and "exn_class e \<noteq> ''CancelledError''"
  shows "\<exists>t' alert. backup_run_once io where_to now s =
       (Inl (NightlySQLiteBackupError ''Nightly SQLite backup job failed.''), t') \<and>
     (\<forall>m. m \<noteq> temporary_name (backup_file_name (normalize_datetime now)) \<longrightarrow> map_of (bk_dir t') m = map_of (bk_dir s) m) \<and>
     bk_db t' = (bk_db s)\<lparr> notifications := notifications (bk_db s) @ [alert] \<rparr> \<and>
     nt_type alert = ''backup_failure'' \<and> nt_severity alert = ''high''"
proof -
  have keep: "only_at (temporary_name (backup_file_name (normalize_datetime now))) s t"
    by (rule create_backup_fails [OF assms(1)])
  obtain r alert where n: "create_failure_notification where_to (backup_file_name (normalize_datetime now)) (normalize_datetime now) e (bk_db t) =
      (Inr r, (bk_db t)\<lparr> notifications := notifications (bk_db t) @ [alert] \<rparr>)"
    "nt_type alert = ''backup_failure''" "nt_severity alert = ''high''"
    by (simp add: create_failure_notification_def notification_create_def encode_payload_json_def act_simps insert_notification_def
        Let_def decode_notification_row_def decode_payload_json_def notification_of_def json_loads_def)
  have "backup_run_once io where_to now s = (Inl (NightlySQLiteBackupError ''Nightly SQLite backup job failed.''),
      t\<lparr> bk_db := (bk_db t)\<lparr> notifications := notifications (bk_db t) @ [alert] \<rparr> \<rparr>)"
    using assms n(1)
    by (simp add: backup_run_once_def Let_def act_bind_def guarded_def act_catch_def on_backup_db_def act_raise_def)
  with keep n(2,3) show ?thesis by (auto simp: only_at_def)
qed

theorem failed_backup_loses_nothing_witness:
  "\<exists>t. backup_run_once (sample_io\<lparr> io_replace := Some (Exn ''PermissionError'' []) \<rparr>) ''/b'' sample_time sample_backups =
       (Inl (NightlySQLiteBackupError ''Nightly SQLite backup job failed.''), t) \<and>
     map_of (bk_dir t) ''tca-20230101.db'' = Some OtherFile"
proof -
  let ?io = "sample_io\<lparr> io_replace := Some (Exn ''PermissionError'' []) \<rparr>"
  have name: "backup_file_name (normalize_datetime sample_time) = ''tca-20231114.db''" by code_simp
  have "fst (create_backup_and_run_integrity_check ?io ''tca-20231114.db'' sample_backups) = Inl (Exn ''PermissionError'' [])"
    by code_simp
  then obtain t where "create_backup_and_run_integrity_check ?io (backup_file_name (normalize_datetime sample_time)) sample_backups =
      (Inl (Exn ''PermissionError'' []), t)"
    unfolding name by (metis prod.collapse)
  from failed_backup_loses_nothing [OF this, where where_to = "''/b''"] show ?thesis
    unfolding name by (auto simp: temporary_name_def sample_backups_def)
qed

end
