(* ===== verification/App_Auth.thy ===== *)
theory App_Auth
  imports Settings Envelope
begin

text \<open>
  \<open>tca/auth/bootstrap_token.py\<close>, \<open>tca/api/bearer_auth.py\<close>, \<open>tca/api/cookie_auth.py\<close>,
  \<open>tca/ui/login_routes.py\<close> and the signing key of \<open>tca/api/app.py\<close>: who may call the API and the UI.
  SHA-256 and HMAC are the fields of the record \<open>web_crypto\<close>; random values, the clock in seconds and
  the results of file operations are arguments. What \<open>HTTPBearer\<close> reads from the header is a field
  of the request. Lemmas: only the token whose digest is stored opens the API, a session cookie
  of a login is valid for a day, and nothing else is accepted.
\<close>

section \<open>Digests\<close>

record web_crypto =
  wc_sha256 :: "string \<Rightarrow> string"
  wc_hmac :: "bytes \<Rightarrow> string \<Rightarrow> string"

definition ascii_text :: "string \<Rightarrow> bool" where
  "ascii_text s \<longleftrightarrow> (\<forall>c \<in> set s. of_char c < (128 :: nat))"

text \<open>\<open>hmac.compare_digest\<close> refuses texts with characters outside ASCII.\<close>

definition compare_digest :: "string \<Rightarrow> string \<Rightarrow> bool res" where
  "compare_digest a b =
     (if ascii_text a \<and> ascii_text b then Inr (a = b)
      else Inl (TypeError ''comparing strings with non-ASCII characters is not supported''))"

definition compute_token_sha256_digest :: "web_crypto \<Rightarrow> string \<Rightarrow> string" where
  "compute_token_sha256_digest cr token = wc_sha256 cr token"

section \<open>The bootstrap token\<close>

definition BOOTSTRAP_BEARER_TOKEN_DIGEST_KEY :: string where
  "BOOTSTRAP_BEARER_TOKEN_DIGEST_KEY = ''auth.bootstrap_bearer_token_sha256''"

definition resolve_bootstrap_token_output_path :: "(string \<Rightarrow> string) \<Rightarrow> string option \<Rightarrow> string" where
  "resolve_bootstrap_token_output_path expanduser raw_path =
     (case raw_path of
        None \<Rightarrow> ''/data/bootstrap-bearer-token.txt''
      | Some p \<Rightarrow> if py_strip p = [] then ''/data/bootstrap-bearer-token.txt'' else expanduser (py_strip p))"

record boot_state =
  bo_db :: db
  bo_files :: "string \<Rightarrow> string option"

text \<open>
  The three file operations, each with the exception it raises, if any; \<open>fo_left\<close> is what a failed
  write leaves in the file.
\<close>

record file_outcome =
  fo_mkdir :: "exn option"
  fo_write :: "exn option"
  fo_left :: "string option"
  fo_chmod :: "exn option"

definition set_file :: "string \<Rightarrow> string option \<Rightarrow> (boot_state, unit) act" where
  "set_file path content = act_modify (\<lambda>s. s\<lparr> bo_files := (bo_files s)(path := content) \<rparr>)"

definition write_bootstrap_token :: "file_outcome \<Rightarrow> string \<Rightarrow> string \<Rightarrow> (boot_state, unit) act" where
  "write_bootstrap_token fo path token =
     act_bind (raise_opt (fo_mkdir fo)) (\<lambda>_.
     act_bind (set_file path (if fo_write fo = None then Some (token @ [CHR 0x0A]) else fo_left fo)) (\<lambda>_.
     act_bind (raise_opt (fo_write fo)) (\<lambda>_.
       raise_opt (fo_chmod fo))))"

definition is_os_error :: "exn \<Rightarrow> bool" where
  "is_os_error e \<longleftrightarrow> exn_class e \<in> {''OSError'', ''FileNotFoundError'', ''FileExistsError'', ''PermissionError'',
     ''NotADirectoryError'', ''IsADirectoryError'', ''BlockingIOError'', ''InterruptedError'', ''TimeoutError''}"

definition on_boot_db :: "(db, 'a) act \<Rightarrow> (boot_state, 'a) act" where
  "on_boot_db m s = (case m (bo_db s) of (r, d) \<Rightarrow> (r, s\<lparr> bo_db := d \<rparr>))"

definition ensure_bootstrap_bearer_token ::
  "web_crypto \<Rightarrow> file_outcome \<Rightarrow> string \<Rightarrow> string \<Rightarrow> (boot_state, bool) act" where
  "ensure_bootstrap_bearer_token cr fo plain_token path =
     act_bind (on_boot_db (act_read (setting_get_by_key BOOTSTRAP_BEARER_TOKEN_DIGEST_KEY))) (\<lambda>existing.
     if existing \<noteq> None then act_return False
     else
       let digest = compute_token_sha256_digest cr plain_token in
       act_bind
         (act_catch
           (act_bind (on_boot_db (setting_create BOOTSTRAP_BEARER_TOKEN_DIGEST_KEY (PStr digest))) (\<lambda>_. act_return True))
           (\<lambda>e. if exn_class e = ''SettingAlreadyExistsError'' then act_return False else act_raise e))
         (\<lambda>created.
           if \<not> created then act_return False
           else
             act_catch
               (act_bind (write_bootstrap_token fo path plain_token) (\<lambda>_. act_return True))
               (\<lambda>e. if is_os_error e then
                      act_bind (on_boot_db (setting_delete_if_value_matches BOOTSTRAP_BEARER_TOKEN_DIGEST_KEY (PStr digest)))
                        (\<lambda>_. act_raise e)
                    else act_raise e)))"

section \<open>Bearer and cookie authentication\<close>

abbreviation HTTP401 :: "string \<Rightarrow> exn" where
  "HTTP401 \<equiv> Exn ''HTTPException:401''"

definition stored_digest :: "db \<Rightarrow> string option res" where
  "stored_digest d =
     res_bind (setting_get_by_key BOOTSTRAP_BEARER_TOKEN_DIGEST_KEY d) (\<lambda>rec.
       Inr (case rec of None \<Rightarrow> None | Some r \<Rightarrow> as_str (sr_value r)))"

definition require_bearer_auth :: "web_crypto \<Rightarrow> string option \<Rightarrow> db \<Rightarrow> unit res" where
  "require_bearer_auth cr credentials d =
     (case credentials of
        None \<Rightarrow> Inl (HTTP401 ''Unauthorized.'')
      | Some token \<Rightarrow>
         if token = [] then Inl (HTTP401 ''Unauthorized.'')
         else
           res_bind (stored_digest d) (\<lambda>stored.
             case stored of
               None \<Rightarrow> Inl (HTTP401 ''Unauthorized.'')
             | Some digest \<Rightarrow>
                 res_bind (compare_digest digest (compute_token_sha256_digest cr token)) (\<lambda>same.
                   if same then Inr () else Inl (HTTP401 ''Unauthorized.''))))"

definition SESSION_COOKIE_NAME :: string where "SESSION_COOKIE_NAME = ''tca_session''"
definition SESSION_COOKIE_MAX_AGE_SECONDS :: int where "SESSION_COOKIE_MAX_AGE_SECONDS = 86400"

definition create_signed_cookie_value :: "web_crypto \<Rightarrow> bytes \<Rightarrow> int \<Rightarrow> string" where
  "create_signed_cookie_value cr signing_key issued_at =
     int_text issued_at @ ''.'' @ wc_hmac cr signing_key (int_text issued_at)"

definition verify_signed_cookie_value :: "web_crypto \<Rightarrow> bytes \<Rightarrow> string \<Rightarrow> int \<Rightarrow> int \<Rightarrow> bool res" where
  "verify_signed_cookie_value cr signing_key cookie_value max_age_seconds now =
     (if CHR ''.'' \<notin> set cookie_value then Inr False
      else
        let timestamp = takeWhile (\<lambda>c. c \<noteq> CHR ''.'') cookie_value;
            presented_signature = tl (dropWhile (\<lambda>c. c \<noteq> CHR ''.'') cookie_value) in
        case py_int_text timestamp of
          None \<Rightarrow> Inr False
        | Some issued_at \<Rightarrow>
            res_bind (compare_digest (wc_hmac cr signing_key timestamp) presented_signature) (\<lambda>same.
              if \<not> same then Inr False else Inr (now - issued_at \<le> max_age_seconds)))"

record ui_request =
  ur_credentials :: "string option"
  ur_cookie :: "string option"

definition is_http_exception :: "exn \<Rightarrow> bool" where
  "is_http_exception e \<longleftrightarrow> take 13 (exn_class e) = ''HTTPException''"

abbreviation UIAuthRedirectError :: exn where
  "UIAuthRedirectError \<equiv> Exn ''UIAuthRedirectError'' []"

abbreviation MissingSigningKey :: exn where
  "MissingSigningKey \<equiv> TypeError ''Missing app cookie signing key: app.state.cookie_signing_key.''"

definition require_ui_auth :: "web_crypto \<Rightarrow> bytes option \<Rightarrow> int \<Rightarrow> ui_request \<Rightarrow> db \<Rightarrow> unit res" where
  "require_ui_auth cr key now rq d =
     (case require_bearer_auth cr (ur_credentials rq) d of
        Inr _ \<Rightarrow> Inr ()
      | Inl e \<Rightarrow>
         if \<not> is_http_exception e then Inl e
         else
           (case key of
              None \<Rightarrow> Inl MissingSigningKey
            | Some k \<Rightarrow>
               (case ur_cookie rq of
                  None \<Rightarrow> Inl UIAuthRedirectError
                | Some c \<Rightarrow>
                   res_bind (verify_signed_cookie_value cr k c SESSION_COOKIE_MAX_AGE_SECONDS now) (\<lambda>valid.
                     if valid then Inr () else Inl UIAuthRedirectError))))"

section \<open>Login and logout\<close>

datatype cookie_change =
    SetCookie string string string int
  | DeleteCookie string string

datatype ui_response = LoginForm "string option" | Redirect string "cookie_change option"

definition login_page :: "web_crypto \<Rightarrow> bytes option \<Rightarrow> int \<Rightarrow> ui_request \<Rightarrow> ui_response res" where
  "login_page cr key now rq =
     (case (key, ur_cookie rq) of
        (Some k, Some c) \<Rightarrow>
          res_bind (verify_signed_cookie_value cr k c SESSION_COOKIE_MAX_AGE_SECONDS now) (\<lambda>valid.
            Inr (if valid then Redirect ''/ui'' None else LoginForm None))
      | _ \<Rightarrow> Inr (LoginForm None))"

text \<open>The form field is a text, a file or absent.\<close>

definition login_submit :: "web_crypto \<Rightarrow> bytes option \<Rightarrow> int \<Rightarrow> pyobj \<Rightarrow> db \<Rightarrow> ui_response res" where
  "login_submit cr key now token_field d =
     (case as_str token_field of
        None \<Rightarrow> Inr (LoginForm (Some ''Token is required.''))
      | Some token \<Rightarrow>
         if py_strip token = [] then Inr (LoginForm (Some ''Token is required.''))
         else
           res_bind (stored_digest d) (\<lambda>stored.
             case stored of
               None \<Rightarrow> Inr (LoginForm (Some ''Invalid token.''))
             | Some digest \<Rightarrow>
                 if compute_token_sha256_digest cr (py_strip token) \<noteq> digest
                 then Inr (LoginForm (Some ''Invalid token.''))
                 else
                   (case key of
                      None \<Rightarrow> Inl MissingSigningKey
                    | Some k \<Rightarrow>
                        Inr (Redirect ''/ui'' (Some (SetCookie SESSION_COOKIE_NAME (create_signed_cookie_value cr k now)
                          ''/ui'' SESSION_COOKIE_MAX_AGE_SECONDS))))))"

definition logout :: ui_response where
  "logout = Redirect ''/ui/login'' (Some (DeleteCookie SESSION_COOKIE_NAME ''/ui''))"

section \<open>The signing key\<close>

text \<open>\<open>bytes.hex\<close> and \<open>bytes.fromhex\<close>, which skips white space between the bytes.\<close>

definition hex_char :: "nat \<Rightarrow> char" where
  "hex_char n = ''0123456789abcdef'' ! n"

definition hex_value :: "char \<Rightarrow> nat option" where
  "hex_value c = map_of (zip ''0123456789abcdefABCDEF'' ([0..<16] @ [10..<16])) c"

definition bytes_hex :: "bytes \<Rightarrow> string" where
  "bytes_hex bs = concat (map (\<lambda>b. [hex_char (unat b div 16), hex_char (unat b mod 16)]) bs)"

definition hex_space :: "char \<Rightarrow> bool" where
  "hex_space c \<longleftrightarrow> of_char c \<in> {9, 10, 11, 12, 13, 32 :: nat}"

fun bytes_fromhex :: "string \<Rightarrow> bytes option" where
  "bytes_fromhex [] = Some []"
| "bytes_fromhex [c] = (if hex_space c then Some [] else None)"
| "bytes_fromhex (c # c' # cs) =
     (if hex_space c then bytes_fromhex (c' # cs)
      else
        case (hex_value c, hex_value c') of
          (Some h, Some l) \<Rightarrow> map_option (\<lambda>bs. byte (h * 16 + l) # bs) (bytes_fromhex cs)
        | _ \<Rightarrow> None)"

text \<open>
  \<open>base64.b64decode\<close> without validation: characters outside the alphabet are skipped, and complete
  padding ends the data. The arguments are the position in the quad, the bits left over and the
  padding seen.
\<close>

fun b64_lax :: "nat \<Rightarrow> nat \<Rightarrow> nat \<Rightarrow> string \<Rightarrow> bytes option" where
  "b64_lax q left pads [] = (if q = 0 then Some [] else None)"
| "b64_lax q left pads (c # cs) =
     (if c = CHR ''='' then
        (if q \<ge> 2 then (if q + (pads + 1) \<ge> 4 then Some [] else b64_lax q left (pads + 1) cs)
         else b64_lax q left pads cs)
      else
        case b64_value c of
          None \<Rightarrow> b64_lax q left pads cs
        | Some v \<Rightarrow>
            if q = 0 then b64_lax 1 v 0 cs
            else if q = 1 then map_option (\<lambda>bs. byte (left * 4 + v div 16) # bs) (b64_lax 2 (v mod 16) 0 cs)
            else if q = 2 then map_option (\<lambda>bs. byte (left * 16 + v div 4) # bs) (b64_lax 3 (v mod 4) 0 cs)
            else map_option (\<lambda>bs. byte (left * 64 + v) # bs) (b64_lax 0 0 0 cs))"

definition b64decode_lax :: "string \<Rightarrow> bytes option" where
  "b64decode_lax s = (if ascii_text s then b64_lax 0 0 0 s else None)"

definition env_cookie_key :: "string \<Rightarrow> bytes" where
  "env_cookie_key env_key =
     (case b64decode_lax env_key of
        None \<Rightarrow> utf8_encode env_key
      | Some key \<Rightarrow> if length key < 32 then utf8_encode env_key else key)"

definition COOKIE_KEY_SETTING :: string where
  "COOKIE_KEY_SETTING = ''auth.cookie_signing_key''"

definition stored_cookie_key :: "(pyobj \<Rightarrow> string) \<Rightarrow> db \<Rightarrow> bytes option res" where
  "stored_cookie_key repr_of d =
     res_bind (setting_get_by_key COOKIE_KEY_SETTING d) (\<lambda>rec.
       case rec of
         None \<Rightarrow> Inr None
       | Some r \<Rightarrow>
          (case bytes_fromhex (py_str repr_of (sr_value r)) of
             None \<Rightarrow> Inl (ValueError ''non-hexadecimal number found in fromhex() arg'')
           | Some key \<Rightarrow> Inr (Some key)))"

text \<open>
  The result is the key that \<open>app.state\<close> has afterwards; \<open>app_key\<close> is the one that \<open>create_app\<close> put
  there. An empty environment variable counts as none.
\<close>

definition resolve_persistent_cookie_signing_key ::
  "(pyobj \<Rightarrow> string) \<Rightarrow> string option \<Rightarrow> bytes \<Rightarrow> bytes option \<Rightarrow> (db, bytes option) act" where
  "resolve_persistent_cookie_signing_key repr_of env_key random app_key =
     (if env_key \<noteq> None \<and> env_key \<noteq> Some [] then act_return (Some (env_cookie_key (the env_key)))
      else
        act_bind
          (act_catch (act_read (stored_cookie_key repr_of))
            (\<lambda>e. if exn_class e = ''CancelledError'' then act_raise e else act_return None))
          (\<lambda>stored.
            case stored of
              Some key \<Rightarrow> act_return (Some key)
            | None \<Rightarrow>
                act_catch
                  (act_bind (setting_create COOKIE_KEY_SETTING (PStr (bytes_hex random))) (\<lambda>_. act_return (Some random)))
                  (\<lambda>e. if exn_class e = ''SettingAlreadyExistsError'' then
                         act_bind (act_read (stored_cookie_key repr_of)) (\<lambda>stored.
                           act_return (case stored of None \<Rightarrow> app_key | Some key \<Rightarrow> Some key))
                       else if exn_class e = ''CancelledError'' then act_raise e
                       else act_return app_key)))"

section \<open>Texts of numbers\<close>

lemma py_strip_id: "s \<noteq> [] \<Longrightarrow> \<not> isspace_char (hd s) \<Longrightarrow> \<not> isspace_char (last s) \<Longrightarrow> py_strip s = s"
proof -
  have keep: "t \<noteq> [] \<Longrightarrow> \<not> isspace_char (hd t) \<Longrightarrow> dropWhile isspace_char t = t" for t by (cases t) auto
  assume "s \<noteq> []" "\<not> isspace_char (hd s)" "\<not> isspace_char (last s)"
  then show ?thesis using keep [of s] keep [of "rev s"] by (simp add: py_strip_def hd_rev)
qed

lemma digit_facts:
  assumes "decimal_char c"
  shows "\<not> isspace_char c" "c \<noteq> CHR ''-''" "c \<noteq> CHR ''+''" "c \<noteq> CHR ''_''" "c \<noteq> CHR ''.''"
  using assms by (auto simp: decimal_char_def isspace_char_def)

lemma underscores_ok_digits: "\<forall>c \<in> set s. decimal_char c \<Longrightarrow> underscores_ok b s \<longleftrightarrow> b \<or> s \<noteq> []"
  by (induction s arbitrary: b) (auto dest: digit_facts(4))

lemma nat_text_nonempty [simp]: "nat_text n \<noteq> []"
  by (subst nat_text.simps) simp

lemma digits_filter: "\<forall>c \<in> set s. decimal_char c \<Longrightarrow> filter (\<lambda>c. c \<noteq> CHR ''_'') s = s"
  by (auto simp: filter_id_conv dest: digit_facts(4))

lemma py_int_text_roundtrip:
  assumes "length (int_text n) \<le> 4300"
  shows "py_int_text (int_text n) = Some n"
proof -
  have d: "\<forall>c \<in> set (nat_text k). decimal_char c" for k using nat_text_digits by blast
  have ends: "\<not> isspace_char (hd (nat_text k))" "\<not> isspace_char (last (nat_text k))" "hd (nat_text k) \<noteq> CHR ''-''"
    "hd (nat_text k) \<noteq> CHR ''+''" for k
    using digit_facts [OF bspec [OF d [of k]]] by simp_all
  show ?thesis
  proof (cases "n < 0")
    case True
    let ?t = "nat_text (nat (- n))"
    have "py_strip (CHR ''-'' # ?t) = CHR ''-'' # ?t"
      using ends(2) by (intro py_strip_id) (simp_all add: isspace_char_def)
    then show ?thesis
      using True assms d [of "nat (- n)"]
      by (simp add: int_text_def py_int_text_def Let_def underscores_ok_digits digits_filter decimal_value_nat_text)
  next
    case False
    let ?t = "nat_text (nat n)"
    have "py_strip ?t = ?t" using ends by (intro py_strip_id) simp_all
    then show ?thesis
      using False assms ends(3,4) [of "nat n"] d [of "nat n"]
      by (simp add: int_text_def py_int_text_def Let_def underscores_ok_digits digits_filter decimal_value_nat_text)
  qed
qed

lemma int_text_no_dot: "CHR ''.'' \<notin> set (int_text n)"
  using nat_text_digits digit_facts(5) by (auto simp: int_text_def)

lemma split_at_dot:
  assumes "CHR ''.'' \<notin> set a"
  shows "takeWhile (\<lambda>c. c \<noteq> CHR ''.'') (a @ CHR ''.'' # b) = a"
    and "tl (dropWhile (\<lambda>c. c \<noteq> CHR ''.'') (a @ CHR ''.'' # b)) = b"
  using assms by (induction a) auto

lemma hex_digits: "n < 16 \<Longrightarrow> hex_value (hex_char n) = Some n \<and> \<not> hex_space (hex_char n)"
proof -
  assume "n < 16"
  moreover have "\<forall>n \<in> set [0..<16]. hex_value (hex_char n) = Some n \<and> \<not> hex_space (hex_char n)" by code_simp
  ultimately show ?thesis by simp
qed

lemma fromhex_hex [simp]: "bytes_fromhex (bytes_hex bs) = Some bs"
proof (induction bs)
  case (Cons b bs)
  have "unat b div 16 < 16" using unat_byte_less [of b] by simp
  then show ?case
    using Cons hex_digits [of "unat b div 16"] hex_digits [of "unat b mod 16"] by (simp add: bytes_hex_def)
qed (simp add: bytes_hex_def)

section \<open>Cookies\<close>

text \<open>\<open>hexdigest\<close> gives hexadecimal digits.\<close>

definition hex_digests :: "web_crypto \<Rightarrow> bool" where
  "hex_digests cr \<longleftrightarrow> (\<forall>t. ascii_text (wc_sha256 cr t)) \<and> (\<forall>k t. ascii_text (wc_hmac cr k t))"

lemma verify_created_cookie:
  assumes "hex_digests cr" and "length (int_text issued) \<le> 4300"
  shows "verify_signed_cookie_value cr k (create_signed_cookie_value cr k issued) m now = Inr (now - issued \<le> m)"
  using assms split_at_dot [OF int_text_no_dot [of issued], of "wc_hmac cr k (int_text issued)"]
  by (simp add: verify_signed_cookie_value_def create_signed_cookie_value_def py_int_text_roundtrip compare_digest_def
      hex_digests_def)

lemma verify_signed_cookie_iff:
  assumes "hex_digests cr"
  shows "verify_signed_cookie_value cr k c m now = Inr True \<longleftrightarrow>
    (\<exists>t n. c = t @ ''.'' @ wc_hmac cr k t \<and> CHR ''.'' \<notin> set t \<and> py_int_text t = Some n \<and> now - n \<le> m)"
proof (cases "CHR ''.'' \<in> set c")
  case True
  then obtain t b where c: "c = t @ CHR ''.'' # b" "CHR ''.'' \<notin> set t" by (meson split_list_first)
  have uniq: "t' = t" if "t @ CHR ''.'' # b = t' @ CHR ''.'' # b'" "CHR ''.'' \<notin> set t'" for t' b'
    using split_at_dot(1) [OF c(2), of b] split_at_dot(1) [OF that(2), of b'] that(1) by simp
  show ?thesis
    using assms split_at_dot [OF c(2), of b] c(2) uniq
    by (auto simp: verify_signed_cookie_value_def c(1) compare_digest_def hex_digests_def split: option.splits)
next
  case False
  then show ?thesis by (auto simp: verify_signed_cookie_value_def)
qed

section \<open>Tokens and keys\<close>

lemma stored_digest_value: "settings_ok d \<Longrightarrow>
   stored_digest d = Inr (case setting_value d BOOTSTRAP_BEARER_TOKEN_DIGEST_KEY of None \<Rightarrow> None | Some v \<Rightarrow> as_str v)"
  by (simp add: stored_digest_def setting_get_by_key_value split: option.split)

definition digest_ok :: "db \<Rightarrow> bool" where
  "digest_ok d \<longleftrightarrow> settings_ok d \<and>
     (case setting_value d BOOTSTRAP_BEARER_TOKEN_DIGEST_KEY of
        None \<Rightarrow> True | Some v \<Rightarrow> (case as_str v of None \<Rightarrow> True | Some t \<Rightarrow> ascii_text t))"

lemma require_bearer_auth_eq:
  assumes "hex_digests cr" and "digest_ok d"
  shows "require_bearer_auth cr cred d =
    (if \<exists>t. cred = Some t \<and> t \<noteq> [] \<and> stored_digest d = Inr (Some (wc_sha256 cr t))
     then Inr () else Inl (HTTP401 ''Unauthorized.''))"
  using assms
  by (auto simp: require_bearer_auth_def stored_digest_value digest_ok_def compare_digest_def hex_digests_def
      compute_token_sha256_digest_def split: option.splits)

lemma append_delete_setting:
  assumes "settings_ok d" and "setting_value d k = None"
  shows "delete_where (\<lambda>r. st_key r = k \<and> st_value_json r = t) (settings (append_setting k v d)) =
    settings d @ (if t = JText v then [] else [last (settings (append_setting k v d))])"
proof -
  have "k \<notin> st_key ` set (settings d)" using assms by (simp add: setting_value_None_iff)
  then have "filter (\<lambda>r. \<not> (st_key r = k \<and> st_value_json r = t)) (settings d) = settings d"
    by (auto simp: filter_id_conv)
  then show ?thesis by (auto simp: delete_where_def append_setting_def)
qed

lemma rollback_restores:
  assumes "settings_ok d" and "setting_value d k = None" and "is_json_value v"
  shows "setting_delete_if_value_matches k v (append_setting k v d) = (Inr True, d)"
proof -
  let ?hit = "\<lambda>r. st_key r = k \<and> st_value_json r = JText v"
  let ?row = "\<lparr> st_id = sql_next_id (map st_id (settings d)), st_key = k, st_value_json = JText v,
             st_updated_at = current_timestamp d \<rparr>"
  have "k \<notin> st_key ` set (settings d)" using assms by (simp add: setting_value_None_iff)
  then have "filter ?hit (settings d) = []" by (auto simp: filter_empty_conv)
  then have "filter ?hit (settings (append_setting k v d)) = [?row]" by (simp add: append_setting_def)
  then show ?thesis
    using append_delete_setting [OF assms(1,2), of "JText v" v] assms(3)
    by (simp add: setting_delete_if_value_matches_def act_simps Let_def) (simp add: append_setting_def)
qed

lemma ensure_token_first:
  assumes "settings_ok (bo_db s)" and "setting_value (bo_db s) BOOTSTRAP_BEARER_TOKEN_DIGEST_KEY = None"
  shows "ensure_bootstrap_bearer_token cr fo token path s =
    act_catch (act_bind (write_bootstrap_token fo path token) (\<lambda>_. act_return True))
      (\<lambda>e. if is_os_error e then
             act_bind (on_boot_db (setting_delete_if_value_matches BOOTSTRAP_BEARER_TOKEN_DIGEST_KEY (PStr (wc_sha256 cr token))))
               (\<lambda>_. act_raise e)
           else act_raise e)
      (s\<lparr> bo_db := append_setting BOOTSTRAP_BEARER_TOKEN_DIGEST_KEY (PStr (wc_sha256 cr token)) (bo_db s) \<rparr>)"
  unfolding ensure_bootstrap_bearer_token_def using assms
  by (simp add: act_bind_def act_catch_def act_return_def on_boot_db_def act_read_def setting_get_by_key_value setting_create_eq
      compute_token_sha256_digest_def Let_def)

lemma ensure_token_again:
  assumes "settings_ok (bo_db s)" and "setting_value (bo_db s) BOOTSTRAP_BEARER_TOKEN_DIGEST_KEY \<noteq> None"
  shows "ensure_bootstrap_bearer_token cr fo token path s = (Inr False, s)"
  using assms
  by (auto simp: ensure_bootstrap_bearer_token_def act_bind_def act_return_def on_boot_db_def act_read_def setting_get_by_key_value)

lemma write_token_result:
  "write_bootstrap_token fo path token s =
    (case (fo_mkdir fo, fo_write fo, fo_chmod fo) of
       (Some e, _, _) \<Rightarrow> (Inl e, s)
     | (None, Some e, _) \<Rightarrow> (Inl e, s\<lparr> bo_files := (bo_files s)(path := fo_left fo) \<rparr>)
     | (None, None, Some e) \<Rightarrow> (Inl e, s\<lparr> bo_files := (bo_files s)(path \<mapsto> token @ [CHR 0x0A]) \<rparr>)
     | (None, None, None) \<Rightarrow> (Inr (), s\<lparr> bo_files := (bo_files s)(path \<mapsto> token @ [CHR 0x0A]) \<rparr>))"
  by (simp add: write_bootstrap_token_def raise_opt_def set_file_def act_simps split: option.split)

lemma cookie_key_stored:
  assumes "settings_ok d" and "setting_value d COOKIE_KEY_SETTING = Some (PStr (bytes_hex key))"
  shows "resolve_persistent_cookie_signing_key repr_of None random app_key d = (Inr (Some key), d)"
  using assms
  by (simp add: resolve_persistent_cookie_signing_key_def act_bind_def act_catch_def act_read_def act_return_def
      stored_cookie_key_def setting_get_by_key_value)

lemma cookie_key_created:
  assumes "settings_ok d" and "setting_value d COOKIE_KEY_SETTING = None"
  shows "resolve_persistent_cookie_signing_key repr_of None random app_key d =
    (Inr (Some random), append_setting COOKIE_KEY_SETTING (PStr (bytes_hex random)) d)"
  using assms
  by (simp add: resolve_persistent_cookie_signing_key_def act_bind_def act_catch_def act_read_def act_return_def
      stored_cookie_key_def setting_get_by_key_value setting_create_eq)

text \<open>
  A stored key that is not hexadecimal ends the startup: the first read is forgiven, the key cannot
  be created again, and the second read raises outside of every handler.
\<close>

lemma cookie_key_malformed:
  assumes "settings_ok d" and "setting_value d COOKIE_KEY_SETTING = Some v" and "bytes_fromhex (py_str repr_of v) = None"
  shows "resolve_persistent_cookie_signing_key repr_of None random app_key d =
    (Inl (ValueError ''non-hexadecimal number found in fromhex() arg''), d)"
  using assms
  by (simp add: resolve_persistent_cookie_signing_key_def act_bind_def act_catch_def act_read_def act_return_def
      stored_cookie_key_def setting_get_by_key_value setting_create_eq)

section \<open>Properties\<close>

text \<open>
  C26. The bootstrap token. On the first start the token is written to the output file and only its
  digest to the settings; from then on the API accepts exactly the bearer tokens with that digest,
  and a later start, whatever it draws, creates nothing and leaves database and files as they are.
  When the file cannot be written, the start fails with that error and the database is as before,
  so the next start tries again.
\<close>

theorem bootstrap_token_opens_api:
  assumes "hex_digests cr" and "settings_ok (bo_db s)"
    and "setting_value (bo_db s) BOOTSTRAP_BEARER_TOKEN_DIGEST_KEY = None"
  shows "case ensure_bootstrap_bearer_token cr fo token path s of (r, t) \<Rightarrow>
     (if fo_mkdir fo = None \<and> fo_write fo = None \<and> fo_chmod fo = None then
        r = Inr True \<and> bo_files t = (bo_files s)(path \<mapsto> token @ [CHR 0x0A]) \<and>
        setting_value (bo_db t) = (setting_value (bo_db s))(BOOTSTRAP_BEARER_TOKEN_DIGEST_KEY \<mapsto> PStr (wc_sha256 cr token)) \<and>
        (\<forall>cred. require_bearer_auth cr cred (bo_db t) = Inr () \<longleftrightarrow>
           (\<exists>p. cred = Some p \<and> p \<noteq> [] \<and> wc_sha256 cr p = wc_sha256 cr token)) \<and>
        ensure_bootstrap_bearer_token cr fo' token' path' t = (Inr False, t)
      else
        (\<forall>e. e \<in> {fo_mkdir fo, fo_write fo, fo_chmod fo} \<longrightarrow> (case e of None \<Rightarrow> True | Some x \<Rightarrow> is_os_error x)) \<longrightarrow>
        (\<exists>e. r = Inl e) \<and> bo_db t = bo_db s)"
proof (cases "fo_mkdir fo = None \<and> fo_write fo = None \<and> fo_chmod fo = None")
  case True
  let ?d = "append_setting BOOTSTRAP_BEARER_TOKEN_DIGEST_KEY (PStr (wc_sha256 cr token)) (bo_db s)"
  let ?t = "s\<lparr> bo_db := ?d, bo_files := (bo_files s)(path \<mapsto> token @ [CHR 0x0A]) \<rparr>"
  have run: "ensure_bootstrap_bearer_token cr fo token path s = (Inr True, ?t)"
    using True ensure_token_first [OF assms(2,3)]
    by (simp add: act_catch_def act_bind_def act_return_def write_token_result)
  have v: "setting_value ?d = (setting_value (bo_db s))(BOOTSTRAP_BEARER_TOKEN_DIGEST_KEY \<mapsto> PStr (wc_sha256 cr token))"
    and ok: "settings_ok ?d"
    using append_setting_value [OF assms(2) _ assms(3)] by simp_all
  have dig: "digest_ok ?d" "stored_digest ?d = Inr (Some (wc_sha256 cr token))"
    using ok v assms(1) by (simp_all add: digest_ok_def stored_digest_value hex_digests_def)
  have "require_bearer_auth cr cred ?d = Inr () \<longleftrightarrow> (\<exists>p. cred = Some p \<and> p \<noteq> [] \<and> wc_sha256 cr p = wc_sha256 cr token)" for cred
    by (auto simp: require_bearer_auth_eq [OF assms(1) dig(1)] dig(2))
  moreover have "ensure_bootstrap_bearer_token cr fo' token' path' ?t = (Inr False, ?t)"
    by (rule ensure_token_again) (simp_all add: ok v)
  ultimately show ?thesis using True run v by simp
next
  case False
  then show ?thesis
    using ensure_token_first [OF assms(2,3), of cr fo token path] rollback_restores [OF assms(2,3), of "PStr (wc_sha256 cr token)"]
    by (auto simp: act_catch_def act_bind_def act_raise_def write_token_result on_boot_db_def split: option.splits)
qed

definition sample_web_crypto :: web_crypto where
  "sample_web_crypto = \<lparr> wc_sha256 = (\<lambda>t. int_text (int (length t))), wc_hmac = (\<lambda>k t. ''ab'') \<rparr>"

lemma sample_web_crypto_hex: "hex_digests sample_web_crypto"
proof -
  have "of_char c < (128 :: nat)" if "c \<in> set (nat_text n)" for c n
    using nat_text_digits [OF that] by (simp add: decimal_char_def)
  then show ?thesis by (auto simp: hex_digests_def sample_web_crypto_def ascii_text_def int_text_def)
qed

lemma sample_settings_ok: "settings_ok sample_db" by code_simp

theorem bootstrap_token_opens_api_witness:
  "fst (ensure_bootstrap_bearer_token sample_web_crypto \<lparr> fo_mkdir = None, fo_write = None, fo_left = None, fo_chmod = None \<rparr>
     ''tok'' ''/out'' \<lparr> bo_db = sample_db, bo_files = Map.empty \<rparr>) = Inr True"
proof -
  let ?s = "\<lparr> bo_db = sample_db, bo_files = Map.empty \<rparr>"
  have "setting_value (bo_db ?s) BOOTSTRAP_BEARER_TOKEN_DIGEST_KEY = None"
    by (simp add: setting_value_def sample_db_def empty_db_def)
  then show ?thesis
    using bootstrap_token_opens_api [OF sample_web_crypto_hex, where s = ?s and token = "''tok''" and path = "''/out''"
        and fo = "\<lparr> fo_mkdir = None, fo_write = None, fo_left = None, fo_chmod = None \<rparr>" and token' = "[]" and path' = "[]"
        and fo' = "\<lparr> fo_mkdir = None, fo_write = None, fo_left = None, fo_chmod = None \<rparr>"] sample_settings_ok
    by (simp split: prod.splits)
qed

text \<open>
  C27. Who gets into the UI: a request is let through exactly when it carries a bearer token with the
  stored digest, or a session cookie whose signature is the HMAC of its time stamp under the
  signing key and whose time stamp is at most a day old.
\<close>

theorem ui_access_exactly:
  assumes "hex_digests cr" and "digest_ok d"
  shows "require_ui_auth cr (Some key) now rq d = Inr () \<longleftrightarrow>
    (\<exists>t. ur_credentials rq = Some t \<and> t \<noteq> [] \<and> stored_digest d = Inr (Some (wc_sha256 cr t))) \<or>
    (\<exists>t n. ur_cookie rq = Some (t @ ''.'' @ wc_hmac cr key t) \<and> CHR ''.'' \<notin> set t \<and> py_int_text t = Some n \<and>
       now - n \<le> 86400)"
proof (cases "\<exists>t. ur_credentials rq = Some t \<and> t \<noteq> [] \<and> stored_digest d = Inr (Some (wc_sha256 cr t))")
  case True
  then have "require_bearer_auth cr (ur_credentials rq) d = Inr ()"
    unfolding require_bearer_auth_eq [OF assms] by simp
  with True show ?thesis by (simp add: require_ui_auth_def)
next
  case False
  then have refused: "require_bearer_auth cr (ur_credentials rq) d = Inl (HTTP401 ''Unauthorized.'')"
    unfolding require_bearer_auth_eq [OF assms] by (rule if_not_P)
  have "require_ui_auth cr (Some key) now rq d = Inr () \<longleftrightarrow>
      (\<exists>c. ur_cookie rq = Some c \<and> verify_signed_cookie_value cr key c 86400 now = Inr True)"
    by (auto simp: require_ui_auth_def refused is_http_exception_def SESSION_COOKIE_MAX_AGE_SECONDS_def res_bind_Inr
        split: option.splits if_splits)
  with False show ?thesis by (auto simp: verify_signed_cookie_iff [OF assms(1)])
qed

theorem ui_access_exactly_witness:
  "require_ui_auth sample_web_crypto (Some []) 50 \<lparr> ur_credentials = None, ur_cookie = Some ''7.ab'' \<rparr> sample_db = Inr () \<and>
   require_ui_auth sample_web_crypto (Some []) 86408 \<lparr> ur_credentials = None, ur_cookie = Some ''7.ab'' \<rparr> sample_db \<noteq> Inr ()"
proof -
  have d: "digest_ok sample_db"
    using sample_settings_ok by (simp add: digest_ok_def) (simp add: setting_value_def sample_db_def empty_db_def)
  have seven: "py_int_text ''7'' = Some 7" by code_simp
  have split: "t = ''7''" if "''7.ab'' = t @ ''.ab''" for t :: string using that by (simp add: append_eq_Cons_conv Cons_eq_append_conv)
  show ?thesis
    using ui_access_exactly [OF sample_web_crypto_hex d, where key = "[]"] seven
    by (auto simp: sample_web_crypto_def dest!: split intro!: exI [of _ "''7''"] exI [of _ 7])
qed

text \<open>
  C28. A login lasts a day. An application that starts on a database without a signing key gets one.
  From then on the right token answers the login form with a redirect and a session cookie, and a
  token with another digest gets the form again with an error and no cookie. The cookie opens the UI
  until 86400 seconds after the login and leads to the login page later.
\<close>

theorem login_session_lasts_a_day:
  assumes "hex_digests cr" and "digest_ok d" and "py_strip token \<noteq> []"
    and "stored_digest d = Inr (Some (wc_sha256 cr (py_strip token)))" and "length (int_text now) \<le> 4300"
    and "setting_value d COOKIE_KEY_SETTING = None"
  shows "\<exists>key d1 cookie.
     resolve_persistent_cookie_signing_key repr_of None random app_key d = (Inr (Some key), d1) \<and>
     login_submit cr (Some key) now (PStr token) d1 =
       Inr (Redirect ''/ui'' (Some (SetCookie ''tca_session'' cookie ''/ui'' 86400))) \<and>
     (\<forall>other. py_strip other \<noteq> [] \<and> wc_sha256 cr (py_strip other) \<noteq> wc_sha256 cr (py_strip token) \<longrightarrow>
       login_submit cr (Some key) now (PStr other) d1 = Inr (LoginForm (Some ''Invalid token.''))) \<and>
     require_ui_auth cr (Some key) later \<lparr> ur_credentials = None, ur_cookie = Some cookie \<rparr> d1 =
       (if later - now \<le> 86400 then Inr () else Inl UIAuthRedirectError)"
proof -
  let ?d1 = "append_setting COOKIE_KEY_SETTING (PStr (bytes_hex random)) d"
  let ?c = "create_signed_cookie_value cr random now"
  have ok: "settings_ok d" using assms(2) by (simp add: digest_ok_def)
  have d1: "settings_ok ?d1" "setting_value ?d1 = (setting_value d)(COOKIE_KEY_SETTING \<mapsto> PStr (bytes_hex random))"
    using append_setting_value [OF ok _ assms(6)] by simp_all
  have "COOKIE_KEY_SETTING \<noteq> BOOTSTRAP_BEARER_TOKEN_DIGEST_KEY"
    by (simp add: COOKIE_KEY_SETTING_def BOOTSTRAP_BEARER_TOKEN_DIGEST_KEY_def)
  then have stored: "stored_digest ?d1 = stored_digest d"
    unfolding stored_digest_value [OF ok] stored_digest_value [OF d1(1)] by (simp add: d1(2))
  have "login_submit cr (Some random) now (PStr other) ?d1 = Inr (LoginForm (Some ''Invalid token.''))"
    if "py_strip other \<noteq> [] \<and> wc_sha256 cr (py_strip other) \<noteq> wc_sha256 cr (py_strip token)" for other
    using that assms(4) stored by (simp add: login_submit_def compute_token_sha256_digest_def)
  moreover have "login_submit cr (Some random) now (PStr token) ?d1 =
      Inr (Redirect ''/ui'' (Some (SetCookie ''tca_session'' ?c ''/ui'' 86400)))"
    using assms(3,4) stored by (simp add: login_submit_def compute_token_sha256_digest_def SESSION_COOKIE_NAME_def
        SESSION_COOKIE_MAX_AGE_SECONDS_def)
  moreover have "require_ui_auth cr (Some random) later \<lparr> ur_credentials = None, ur_cookie = Some ?c \<rparr> ?d1 =
      (if later - now \<le> 86400 then Inr () else Inl UIAuthRedirectError)"
    by (simp add: require_ui_auth_def require_bearer_auth_def is_http_exception_def verify_created_cookie [OF assms(1,5)]
        SESSION_COOKIE_MAX_AGE_SECONDS_def)
  ultimately show ?thesis
    using cookie_key_created [OF ok assms(6), of repr_of random app_key]
    by (intro exI [of _ random] exI [of _ ?d1] exI [of _ ?c]) simp
qed

definition sample_token_db :: db where
  "sample_token_db = append_setting BOOTSTRAP_BEARER_TOKEN_DIGEST_KEY (PStr ''3'') sample_db"

theorem login_session_lasts_a_day_witness:
  "\<exists>key d1 cookie.
     login_submit sample_web_crypto (Some key) 7 (PStr '' tok '') d1 =
       Inr (Redirect ''/ui'' (Some (SetCookie ''tca_session'' cookie ''/ui'' 86400))) \<and>
     login_submit sample_web_crypto (Some key) 7 (PStr ''wrong'') d1 = Inr (LoginForm (Some ''Invalid token.'')) \<and>
     require_ui_auth sample_web_crypto (Some key) 50 \<lparr> ur_credentials = None, ur_cookie = Some cookie \<rparr> d1 = Inr ()"
proof -
  have none: "setting_value sample_db k = None" for k by (simp add: setting_value_def sample_db_def empty_db_def)
  have v: "setting_value sample_token_db = [BOOTSTRAP_BEARER_TOKEN_DIGEST_KEY \<mapsto> PStr ''3'']" "settings_ok sample_token_db"
    using append_setting_value [OF sample_settings_ok _ none, of "PStr ''3''" BOOTSTRAP_BEARER_TOKEN_DIGEST_KEY] none
    by (simp_all add: sample_token_db_def fun_eq_iff)
  have strip: "py_strip '' tok '' = ''tok''" by code_simp
  have three: "int_text 3 = ''3''" "length (int_text 7) \<le> 4300" by code_simp+
  have "digest_ok sample_token_db" using v by (simp add: digest_ok_def ascii_text_def)
  moreover have "stored_digest sample_token_db = Inr (Some (wc_sha256 sample_web_crypto (py_strip '' tok '')))"
    unfolding stored_digest_value [OF v(2)] strip by (simp add: v(1) sample_web_crypto_def three)
  moreover have "setting_value sample_token_db COOKIE_KEY_SETTING = None"
    by (simp add: v(1) COOKIE_KEY_SETTING_def BOOTSTRAP_BEARER_TOKEN_DIGEST_KEY_def)
  moreover have "py_strip '' tok '' \<noteq> []" by (simp add: strip)
  ultimately obtain key d1 cookie where
    login: "login_submit sample_web_crypto (Some key) 7 (PStr '' tok '') d1 =
       Inr (Redirect ''/ui'' (Some (SetCookie ''tca_session'' cookie ''/ui'' 86400)))"
    and wrong: "\<And>other. py_strip other \<noteq> [] \<and> wc_sha256 sample_web_crypto (py_strip other) \<noteq>
        wc_sha256 sample_web_crypto (py_strip '' tok '') \<Longrightarrow>
      login_submit sample_web_crypto (Some key) 7 (PStr other) d1 = Inr (LoginForm (Some ''Invalid token.''))"
    and page: "require_ui_auth sample_web_crypto (Some key) 50 \<lparr> ur_credentials = None, ur_cookie = Some cookie \<rparr> d1 = Inr ()"
    using login_session_lasts_a_day [OF sample_web_crypto_hex, where d = sample_token_db and token = "'' tok ''" and now = 7
        and later = 50 and random = "[]" and app_key = None and repr_of = "\<lambda>_. []"]
      three(2) by auto
  have "py_strip ''wrong'' = ''wrong''" "int_text 3 \<noteq> int_text 5" by code_simp+
  with login page wrong [of "''wrong''"] show ?thesis by (auto simp: strip sample_web_crypto_def)
qed

end
