(* ===== verification/App_Lifecycle.thy ===== *)
theory App_Lifecycle
  imports App_Auth Accounts
begin

text \<open>
  \<open>tca/config/settings.py\<close>, the lifespan of \<open>tca/api/app.py\<close> and \<open>tca/telegram/client_manager.py\<close>. The hooks of the six dependencies are components of their own;
  here each is an outcome that the environment chooses, and the log of the calls is the state.
  Lemmas: the dependencies are stopped in the reverse order in which they were started, exactly those
  that started; a manager that came up has a connected client per account.
\<close>

section \<open>Static settings\<close>

text \<open>
  \<open>str.upper\<close> for the letters whose capital is in Latin-1; the result is only compared with names in
  ASCII.
\<close>

definition upper_char :: "char \<Rightarrow> char" where
  "upper_char c =
     (let n = of_char c :: nat in
      if 97 \<le> n \<and> n \<le> 122 \<or> 224 \<le> n \<and> n \<le> 254 \<and> n \<noteq> 247 then char_of (n - 32) else c)"

record app_settings =
  as_db_path :: string
  as_bind :: string
  as_mode :: string
  as_log_level :: string
  as_secret_file :: "string option"
  as_cors_allow_origins :: "string list"

abbreviation SettingsValidationError :: "string \<Rightarrow> exn" where
  "SettingsValidationError \<equiv> Exn ''SettingsValidationError''"

definition VALID_MODES :: "string list" where
  "VALID_MODES = [''secure-interactive'', ''auto-unlock'']"

definition VALID_LOG_LEVELS :: "string list" where
  "VALID_LOG_LEVELS = [''DEBUG'', ''INFO'', ''WARNING'', ''ERROR'', ''CRITICAL'']"

definition read_nonempty :: "string \<Rightarrow> string \<Rightarrow> (string \<Rightarrow> string) \<Rightarrow> string option \<Rightarrow> string res" where
  "read_nonempty env_var fallback finish raw =
     (case raw of
        None \<Rightarrow> Inr fallback
      | Some r \<Rightarrow> if py_strip r = [] then Inl (SettingsValidationError (''Invalid '' @ env_var @ '': value cannot be empty.''))
                  else Inr (finish (py_strip r)))"

definition read_choice :: "string \<Rightarrow> string \<Rightarrow> string list \<Rightarrow> (string \<Rightarrow> string) \<Rightarrow> string option \<Rightarrow> string res" where
  "read_choice env_var fallback allowed finish raw =
     (case raw of
        None \<Rightarrow> Inr fallback
      | Some r \<Rightarrow> if finish (py_strip r) \<in> set allowed then Inr (finish (py_strip r))
                  else Inl (SettingsValidationError (''Invalid '' @ env_var)))"

definition read_secret_file :: "(string \<Rightarrow> string) \<Rightarrow> string option \<Rightarrow> string option" where
  "read_secret_file expanduser raw =
     (case raw of None \<Rightarrow> None | Some r \<Rightarrow> if py_strip r = [] then None else Some (expanduser (py_strip r)))"

fun split_commas :: "string \<Rightarrow> string \<Rightarrow> string list" where
  "split_commas acc [] = [acc]"
| "split_commas acc (c # cs) = (if c = CHR '','' then acc # split_commas [] cs else split_commas (acc @ [c]) cs)"

definition read_cors_allow_origins :: "string option \<Rightarrow> string list" where
  "read_cors_allow_origins raw =
     (case raw of None \<Rightarrow> [] | Some r \<Rightarrow> filter (\<lambda>v. v \<noteq> []) (map py_strip (split_commas [] r)))"

definition load_settings :: "(string \<Rightarrow> string) \<Rightarrow> (string \<Rightarrow> string option) \<Rightarrow> app_settings res" where
  "load_settings expanduser env =
     res_bind (read_nonempty ''TCA_DB_PATH'' ''/data/tca.db'' expanduser (env ''TCA_DB_PATH'')) (\<lambda>db_path.
     res_bind (read_nonempty ''TCA_BIND'' ''127.0.0.1'' id (env ''TCA_BIND'')) (\<lambda>bind.
     res_bind (read_choice ''TCA_MODE'' ''secure-interactive'' VALID_MODES id (env ''TCA_MODE'')) (\<lambda>mode.
     res_bind (read_choice ''TCA_LOG_LEVEL'' ''INFO'' VALID_LOG_LEVELS (map upper_char) (env ''TCA_LOG_LEVEL'')) (\<lambda>log_level.
       Inr \<lparr> as_db_path = db_path, as_bind = bind, as_mode = mode, as_log_level = log_level,
             as_secret_file = read_secret_file expanduser (env ''TCA_SECRET_FILE''),
             as_cors_allow_origins = read_cors_allow_origins (env ''TCA_CORS_ALLOW_ORIGINS'') \<rparr>))))"

section \<open>Dependencies\<close>

datatype dependency = DepDb | DepSettings | DepAuth | DepTelethon | DepScheduler | DepBotDelivery

datatype slot = SlotFilled | SlotMissing | SlotInvalid

datatype hook_outcome = HookReturns | HookRaises exn | HookTimesOut

datatype life_event =
    RuntimeCreated
  | QueueBuilt
  | StartupCalled dependency
  | ServingRequests
  | ShutdownCalled dependency
  | QueueCloseCalled
  | DisposeCalled
  | StateCleared

text \<open>The outcomes of what the lifespan calls; \<open>le_container\<close> is absent when \<open>app.state\<close> has no dependencies.\<close>

record life_env =
  le_container :: "(dependency \<Rightarrow> slot) option"
  le_environ :: "string \<Rightarrow> string option"
  le_expanduser :: "string \<Rightarrow> string"
  le_repr :: "pyobj \<Rightarrow> string"
  le_random :: bytes
  le_runtime :: "exn option"
  le_queue :: "exn option"
  le_startup :: "dependency \<Rightarrow> exn option"
  le_serve :: "exn option"
  le_shutdown :: "dependency \<Rightarrow> hook_outcome"
  le_close :: "exn option"
  le_dispose :: "exn option"

record life_state =
  lf_log :: "life_event list"
  lf_started :: "dependency list"
  lf_runtime :: bool
  lf_queue :: bool
  lf_errors :: "exn list"
  lf_db :: db
  lf_key :: "bytes option"

definition startup_order :: "dependency list" where
  "startup_order = [DepDb, DepSettings, DepAuth, DepTelethon, DepScheduler, DepBotDelivery]"

definition check_slot :: "dependency \<Rightarrow> slot \<Rightarrow> unit res" where
  "check_slot d slot =
     (case slot of
        SlotFilled \<Rightarrow> Inr ()
      | SlotMissing \<Rightarrow> Inl (Exn ''StartupDependencyError'' ''Missing startup dependency'')
      | SlotInvalid \<Rightarrow> Inl (Exn ''StartupDependencyTypeError'' ''Invalid startup dependency: expected startup/shutdown hooks.''))"

definition resolve_startup_dependencies :: "(dependency \<Rightarrow> slot) option \<Rightarrow> unit res" where
  "resolve_startup_dependencies container =
     (case container of
        None \<Rightarrow> Inl (Exn ''StartupDependencyError'' ''Missing startup dependency container: app.state.dependencies.'')
      | Some slots \<Rightarrow> res_bind (res_map (\<lambda>d. check_slot d (slots d)) startup_order) (\<lambda>_. Inr ()))"

definition life_log :: "life_event \<Rightarrow> (life_state, unit) act" where
  "life_log e = act_modify (\<lambda>s. s\<lparr> lf_log := lf_log s @ [e] \<rparr>)"

definition start_dependency :: "life_env \<Rightarrow> dependency \<Rightarrow> (life_state, unit) act" where
  "start_dependency env d =
     act_bind (life_log (StartupCalled d)) (\<lambda>_.
     act_bind (raise_opt (le_startup env d)) (\<lambda>_.
       act_modify (\<lambda>s. s\<lparr> lf_started := lf_started s @ [d] \<rparr>)))"

definition on_life_db :: "(db, 'a) act \<Rightarrow> (life_state, 'a) act" where
  "on_life_db m s = (case m (lf_db s) of (r, d) \<Rightarrow> (r, s\<lparr> lf_db := d \<rparr>))"

definition resolve_cookie_key :: "life_env \<Rightarrow> (life_state, unit) act" where
  "resolve_cookie_key env s =
     act_bind (on_life_db (resolve_persistent_cookie_signing_key (le_repr env) (le_environ env ''TCA_COOKIE_SIGNING_KEY'')
         (le_random env) (lf_key s)))
       (\<lambda>key. act_modify (\<lambda>s. s\<lparr> lf_key := key \<rparr>)) s"

text \<open>The body of the lifespan: \<open>yield\<close> is the time in which requests are served.\<close>

definition lifespan_body :: "life_env \<Rightarrow> (life_state, unit) act" where
  "lifespan_body env =
     act_bind (raise_opt (le_runtime env)) (\<lambda>_.
     act_bind (act_modify (\<lambda>s. s\<lparr> lf_runtime := True, lf_log := lf_log s @ [RuntimeCreated] \<rparr>)) (\<lambda>_.
     act_bind (raise_opt (le_queue env)) (\<lambda>_.
     act_bind (act_modify (\<lambda>s. s\<lparr> lf_queue := True, lf_log := lf_log s @ [QueueBuilt] \<rparr>)) (\<lambda>_.
     act_bind (act_foreach (start_dependency env) startup_order) (\<lambda>_.
     act_bind (resolve_cookie_key env) (\<lambda>_.
     act_bind (life_log ServingRequests) (\<lambda>_.
       raise_opt (le_serve env))))))))"

section \<open>Shutdown\<close>

definition note_error :: "exn \<Rightarrow> (life_state, unit) act" where
  "note_error e = act_modify (\<lambda>s. s\<lparr> lf_errors := lf_errors s @ [e] \<rparr>)"

text \<open>\<open>except Exception\<close>: the error is kept for the end, a cancellation passes.\<close>

definition keep_error :: "exn option \<Rightarrow> (life_state, unit) act" where
  "keep_error e =
     (case e of
        None \<Rightarrow> act_return ()
      | Some x \<Rightarrow> if exn_class x = ''CancelledError'' then act_raise x else note_error x)"

text \<open>
  A hook that exceeds the bound is cancelled and given up. A \<open>TimeoutError\<close> that the hook itself raises
  takes the same branch, and awaiting the finished task raises it again, out of the function.
\<close>

definition shutdown_scheduler_with_timeout :: "life_env \<Rightarrow> dependency \<Rightarrow> (life_state, unit) act" where
  "shutdown_scheduler_with_timeout env d =
     act_bind (life_log (ShutdownCalled d)) (\<lambda>_.
       case le_shutdown env d of
         HookReturns \<Rightarrow> act_return ()
       | HookTimesOut \<Rightarrow> act_return ()
       | HookRaises e \<Rightarrow> if exn_class e = ''TimeoutError'' then act_raise e else keep_error (Some e))"

definition if_started :: "dependency \<Rightarrow> (life_state, unit) act \<Rightarrow> (life_state, unit) act" where
  "if_started d m s = (if d \<in> set (lf_started s) then m s else (Inr (), s))"

definition close_writer_queue :: "life_env \<Rightarrow> (life_state, unit) act" where
  "close_writer_queue env s =
     (if \<not> lf_queue s then (Inr (), s)
      else act_bind (life_log QueueCloseCalled) (\<lambda>_. keep_error (le_close env)) s)"

text \<open>Here nothing bounds the wait; a hook that never returns is left out.\<close>

definition hook_error :: "hook_outcome \<Rightarrow> exn option" where
  "hook_error h = (case h of HookRaises e \<Rightarrow> Some e | _ \<Rightarrow> None)"

definition shutdown_dependency :: "life_env \<Rightarrow> dependency \<Rightarrow> (life_state, unit) act" where
  "shutdown_dependency env d =
     if_started d (act_bind (life_log (ShutdownCalled d)) (\<lambda>_. keep_error (hook_error (le_shutdown env d))))"

definition dispose_runtime :: "life_env \<Rightarrow> (life_state, unit) act" where
  "dispose_runtime env s =
     (if \<not> lf_runtime s then (Inr (), s)
      else act_bind (life_log DisposeCalled) (\<lambda>_. keep_error (le_dispose env)) s)"

definition raise_first_error :: "(life_state, unit) act" where
  "raise_first_error s = (case lf_errors s of [] \<Rightarrow> (Inr (), s) | e # _ \<Rightarrow> (Inl e, s))"

definition shutdown_in_order :: "life_env \<Rightarrow> (life_state, unit) act" where
  "shutdown_in_order env =
     act_bind (act_modify (\<lambda>s. s\<lparr> lf_errors := [] \<rparr>)) (\<lambda>_.
     act_bind (if_started DepBotDelivery (shutdown_scheduler_with_timeout env DepBotDelivery)) (\<lambda>_.
     act_bind (if_started DepScheduler (shutdown_scheduler_with_timeout env DepScheduler)) (\<lambda>_.
     act_bind (close_writer_queue env) (\<lambda>_.
     act_bind (act_foreach (shutdown_dependency env) [DepTelethon, DepAuth, DepSettings, DepDb]) (\<lambda>_.
     act_bind (dispose_runtime env) (\<lambda>_.
       raise_first_error))))))"

definition clear_runtime_state :: "(life_state, unit) act" where
  "clear_runtime_state =
     act_modify (\<lambda>s. s\<lparr> lf_runtime := False, lf_queue := False, lf_key := None, lf_log := lf_log s @ [StateCleared] \<rparr>)"

text \<open>\<open>try: m finally: f\<close>.\<close>

definition act_finally :: "('s, 'a) act \<Rightarrow> ('s, unit) act \<Rightarrow> ('s, 'a) act" where
  "act_finally m f s =
     (case m s of (r, s') \<Rightarrow> (case f s' of (Inl e, t) \<Rightarrow> (Inl e, t) | (Inr _, t) \<Rightarrow> (r, t)))"

definition lifespan :: "life_env \<Rightarrow> (life_state, unit) act" where
  "lifespan env =
     act_bind (act_lift (resolve_startup_dependencies (le_container env))) (\<lambda>_.
     act_bind (act_lift (load_settings (le_expanduser env) (le_environ env))) (\<lambda>_.
       act_finally (lifespan_body env)
         (act_bind (shutdown_in_order env) (\<lambda>_. clear_runtime_state))))"

section \<open>Cross-origin requests\<close>

text \<open>The middleware of Starlette is a parameter: its test of an origin and its preflight answer.\<close>

datatype 'r preflight = PlainText string int | Standard 'r

definition preflight_response ::
  "(string \<Rightarrow> bool) \<Rightarrow> ('h \<Rightarrow> 'r) \<Rightarrow> ('h \<Rightarrow> string option) \<Rightarrow> 'h \<Rightarrow> 'r preflight" where
  "preflight_response is_allowed_origin standard origin headers =
     (case origin headers of
        Some origin' \<Rightarrow> if \<not> is_allowed_origin origin' then PlainText ''Disallowed CORS origin'' 400 else Standard (standard headers)
      | None \<Rightarrow> Standard (standard headers))"

section \<open>Telegram clients\<close>

record telegram_account =
  tg_account_id :: int
  tg_api_id :: int
  tg_api_hash :: string
  tg_string_session :: "string option"

text \<open>The payload that the loader builds from a stored account and its session.\<close>

definition telegram_account_of :: "telegram_account_record \<times> string option \<Rightarrow> telegram_account" where
  "telegram_account_of x =
     (case x of (a, session) \<Rightarrow>
       \<lparr> tg_account_id = ta_account_id a, tg_api_id = ta_api_id a, tg_api_hash = ta_api_hash a, tg_string_session = session \<rparr>)"

text \<open>
  The dictionary of clients in its order, by account id; a client is what the factory made of the
  account, and whether it is connected.
\<close>

record 'c managed_client =
  mc_client :: 'c
  mc_connected :: bool

type_synonym 'c client_map = "(int \<times> 'c managed_client) list"

definition register_account :: "(telegram_account \<Rightarrow> 'c res) \<Rightarrow> telegram_account \<Rightarrow> ('c client_map, 'c managed_client) act" where
  "register_account client_factory account clients =
     (case map_of clients (tg_account_id account) of
        Some c \<Rightarrow> (Inr c, clients)
      | None \<Rightarrow>
         (case client_factory account of
            Inl e \<Rightarrow> (Inl e, clients)
          | Inr c \<Rightarrow>
              let m = \<lparr> mc_client = c, mc_connected = False \<rparr> in (Inr m, clients @ [(tg_account_id account, m)])))"

text \<open>The loops over \<open>clients.values()\<close>: connecting stops at the first failure, as does disconnecting.\<close>

fun connect_all :: "('c \<Rightarrow> exn option) \<Rightarrow> 'c client_map \<Rightarrow> unit res \<times> 'c client_map" where
  "connect_all connect [] = (Inr (), [])"
| "connect_all connect ((i, m) # rest) =
     (if mc_connected m then (case connect_all connect rest of (r, ms) \<Rightarrow> (r, (i, m) # ms))
      else
        case connect (mc_client m) of
          Some e \<Rightarrow> (Inl e, (i, m) # rest)
        | None \<Rightarrow> (case connect_all connect rest of (r, ms) \<Rightarrow> (r, (i, m\<lparr> mc_connected := True \<rparr>) # ms)))"

definition manager_startup ::
  "telegram_account list res \<Rightarrow> (telegram_account \<Rightarrow> 'c res) \<Rightarrow> ('c \<Rightarrow> exn option) \<Rightarrow> ('c client_map, unit) act" where
  "manager_startup loaded client_factory connect =
     act_bind (act_lift loaded) (\<lambda>accs.
     act_bind (act_foreach (register_account client_factory) accs) (\<lambda>_.
       connect_all connect))"

fun manager_shutdown :: "('c \<Rightarrow> exn option) \<Rightarrow> 'c client_map \<Rightarrow> unit res \<times> 'c client_map" where
  "manager_shutdown disconnect [] = (Inr (), [])"
| "manager_shutdown disconnect ((i, m) # rest) =
     (case disconnect (mc_client m) of
        Some e \<Rightarrow> (Inl e, (i, m) # rest)
      | None \<Rightarrow> (case manager_shutdown disconnect rest of (r, ms) \<Rightarrow> (r, (i, m\<lparr> mc_connected := False \<rparr>) # ms)))"

definition get_client :: "int \<Rightarrow> 'c client_map \<Rightarrow> 'c managed_client res" where
  "get_client account_id clients =
     (case map_of clients account_id of
        None \<Rightarrow> Inl (Exn ''MissingTelethonClientError'' ''No Telethon client is registered for account id'')
      | Some c \<Rightarrow> Inr c)"

section \<open>The order of the hooks\<close>

text \<open>The dependencies that come up: all before the first whose startup raises.\<close>

definition comes_up :: "life_env \<Rightarrow> dependency list \<Rightarrow> dependency list" where
  "comes_up env ds = takeWhile (\<lambda>d. le_startup env d = None) ds"

lemma start_all:
  "\<exists>r. act_foreach (start_dependency env) ds s =
     (r, s\<lparr> lf_log := lf_log s @ map StartupCalled (take (Suc (length (comes_up env ds))) ds),
            lf_started := lf_started s @ comes_up env ds \<rparr>) \<and>
     ((\<exists>x. r = Inr x) \<longleftrightarrow> comes_up env ds = ds)"
proof (induction ds arbitrary: s)
  case Nil
  show ?case by (simp add: act_return_def comes_up_def)
next
  case (Cons d ds)
  show ?case
  proof (cases "le_startup env d")
    case None
    let ?s = "s\<lparr> lf_log := lf_log s @ [StartupCalled d], lf_started := lf_started s @ [d] \<rparr>"
    have one: "start_dependency env d s = (Inr (), ?s)"
      using None by (simp add: start_dependency_def life_log_def act_simps raise_opt_def)
    obtain r where r: "act_foreach (start_dependency env) ds ?s =
        (r, ?s\<lparr> lf_log := lf_log ?s @ map StartupCalled (take (Suc (length (comes_up env ds))) ds),
                lf_started := lf_started ?s @ comes_up env ds \<rparr>)"
      "(\<exists>x. r = Inr x) \<longleftrightarrow> comes_up env ds = ds"
      using Cons by blast
    then show ?thesis using None one by (cases r) (simp_all add: act_bind_def act_return_def comes_up_def)
  next
    case (Some e)
    then show ?thesis
      by (simp add: act_bind_def start_dependency_def life_log_def act_modify_def raise_opt_def act_raise_def comes_up_def)
  qed
qed

definition opt_list :: "'a option \<Rightarrow> 'a list" where
  "opt_list x = (case x of None \<Rightarrow> [] | Some v \<Rightarrow> [v])"

text \<open>No hook of the shutdown is cancelled, and none of the two bounded ones raises a timeout of its own.\<close>

definition graceful :: "life_env \<Rightarrow> bool" where
  "graceful env \<longleftrightarrow>
     (\<forall>d e. le_shutdown env d = HookRaises e \<longrightarrow> exn_class e \<noteq> ''CancelledError'') \<and>
     (\<forall>d \<in> {DepScheduler, DepBotDelivery}. \<forall>e. le_shutdown env d = HookRaises e \<longrightarrow> exn_class e \<noteq> ''TimeoutError'') \<and>
     (\<forall>e. le_close env = Some e \<longrightarrow> exn_class e \<noteq> ''CancelledError'') \<and>
     (\<forall>e. le_dispose env = Some e \<longrightarrow> exn_class e \<noteq> ''CancelledError'')"

definition stopped :: "life_env \<Rightarrow> dependency \<Rightarrow> life_state \<Rightarrow> life_state" where
  "stopped env d s =
     (if d \<in> set (lf_started s)
      then s\<lparr> lf_log := lf_log s @ [ShutdownCalled d],
              lf_errors := lf_errors s @ opt_list (hook_error (le_shutdown env d)) \<rparr>
      else s)"

lemma keep_error_eq:
  "(\<forall>e. x = Some e \<longrightarrow> exn_class e \<noteq> ''CancelledError'') \<Longrightarrow>
   keep_error x s = (Inr (), s\<lparr> lf_errors := lf_errors s @ opt_list x \<rparr>)"
  by (cases x) (simp_all add: keep_error_def note_error_def act_simps opt_list_def)

lemma hook_error_graceful: "graceful env \<Longrightarrow> \<forall>e. hook_error (le_shutdown env d) = Some e \<longrightarrow> exn_class e \<noteq> ''CancelledError''"
  by (auto simp: graceful_def hook_error_def split: hook_outcome.splits)

lemma shutdown_dependency_eq: "graceful env \<Longrightarrow> shutdown_dependency env d s = (Inr (), stopped env d s)"
  using keep_error_eq [OF hook_error_graceful]
  by (simp add: shutdown_dependency_def if_started_def stopped_def act_bind_def life_log_def act_modify_def)

lemma shutdown_bounded_eq:
  assumes "graceful env" and "d \<in> {DepScheduler, DepBotDelivery}"
  shows "if_started d (shutdown_scheduler_with_timeout env d) s = (Inr (), stopped env d s)"
proof (cases "le_shutdown env d")
  case (HookRaises e)
  then have "exn_class e \<noteq> ''TimeoutError''" "exn_class e \<noteq> ''CancelledError''" using assms by (auto simp: graceful_def)
  with HookRaises show ?thesis
    by (simp add: if_started_def shutdown_scheduler_with_timeout_def stopped_def act_bind_def life_log_def act_modify_def
        keep_error_eq hook_error_def)
qed (simp_all add: if_started_def shutdown_scheduler_with_timeout_def stopped_def act_bind_def life_log_def act_modify_def
    act_return_def hook_error_def opt_list_def)

lemma stopped_fields [simp]:
  "lf_started (stopped env d s) = lf_started s" "lf_queue (stopped env d s) = lf_queue s"
  "lf_runtime (stopped env d s) = lf_runtime s"
  by (simp_all add: stopped_def)

lemma foreach_stopped:
  "graceful env \<Longrightarrow> act_foreach (shutdown_dependency env) ds s = (Inr (map (\<lambda>_. ()) ds), fold (stopped env) ds s)"
  by (induction ds arbitrary: s) (simp_all add: act_return_def act_bind_def shutdown_dependency_eq)

lemma fold_stopped:
  "fold (stopped env) ds s =
     s\<lparr> lf_log := lf_log s @ map ShutdownCalled (filter (\<lambda>d. d \<in> set (lf_started s)) ds),
        lf_errors := lf_errors s @ concat (map (\<lambda>d. opt_list (hook_error (le_shutdown env d))) (filter (\<lambda>d. d \<in> set (lf_started s)) ds)) \<rparr>"
  by (induction ds arbitrary: s) (simp_all add: stopped_def)

text \<open>The errors of a shutdown in the order in which they are met.\<close>

definition shutdown_errors :: "life_env \<Rightarrow> dependency list \<Rightarrow> dependency list \<Rightarrow> exn list" where
  "shutdown_errors env services rest =
     concat (map (\<lambda>d. opt_list (hook_error (le_shutdown env d))) services) @ opt_list (le_close env) @
     concat (map (\<lambda>d. opt_list (hook_error (le_shutdown env d))) rest) @ opt_list (le_dispose env)"

lemma shutdown_in_order_eq:
  assumes "graceful env" and "lf_queue s" and "lf_runtime s"
  defines "services \<equiv> filter (\<lambda>d. d \<in> set (lf_started s)) [DepBotDelivery, DepScheduler]"
    and "rest \<equiv> filter (\<lambda>d. d \<in> set (lf_started s)) [DepTelethon, DepAuth, DepSettings, DepDb]"
  shows "shutdown_in_order env s =
    ((case shutdown_errors env services rest of [] \<Rightarrow> Inr () | e # _ \<Rightarrow> Inl e),
     s\<lparr> lf_log := lf_log s @ map ShutdownCalled services @ [QueueCloseCalled] @ map ShutdownCalled rest @ [DisposeCalled],
        lf_errors := shutdown_errors env services rest \<rparr>)"
proof -
  define s1 where "s1 = fold (stopped env) [DepBotDelivery, DepScheduler] (s\<lparr> lf_errors := [] \<rparr>)"
  define s2 where "s2 = s1\<lparr> lf_log := lf_log s1 @ [QueueCloseCalled], lf_errors := lf_errors s1 @ opt_list (le_close env) \<rparr>"
  define s3 where "s3 = fold (stopped env) [DepTelethon, DepAuth, DepSettings, DepDb] s2"
  define s4 where "s4 = s3\<lparr> lf_log := lf_log s3 @ [DisposeCalled], lf_errors := lf_errors s3 @ opt_list (le_dispose env) \<rparr>"
  have q: "lf_queue s1" "lf_runtime s3" using assms(2,3) by (simp_all add: s1_def s2_def s3_def)
  have close: "close_writer_queue env s1 = (Inr (), s2)"
    using assms(1) q(1) keep_error_eq [of "le_close env"]
    by (simp add: close_writer_queue_def act_bind_def life_log_def act_modify_def graceful_def s2_def)
  have dispose: "dispose_runtime env s3 = (Inr (), s4)"
    using assms(1) q(2) keep_error_eq [of "le_dispose env"]
    by (simp add: dispose_runtime_def act_bind_def life_log_def act_modify_def graceful_def s4_def)
  have rest_run: "act_foreach (shutdown_dependency env) [DepTelethon, DepAuth, DepSettings, DepDb] s2 = (Inr [(), (), (), ()], s3)"
    unfolding foreach_stopped [OF assms(1)] s3_def by simp
  have bot: "if_started DepBotDelivery (shutdown_scheduler_with_timeout env DepBotDelivery) (s\<lparr> lf_errors := [] \<rparr>) =
      (Inr (), stopped env DepBotDelivery (s\<lparr> lf_errors := [] \<rparr>))"
    by (rule shutdown_bounded_eq [OF assms(1)]) simp
  have sched: "if_started DepScheduler (shutdown_scheduler_with_timeout env DepScheduler)
      (stopped env DepBotDelivery (s\<lparr> lf_errors := [] \<rparr>)) = (Inr (), s1)"
    unfolding s1_def by (subst shutdown_bounded_eq [OF assms(1)]) simp_all
  have run: "shutdown_in_order env s = raise_first_error s4"
    by (simp only: shutdown_in_order_def act_bind_def act_modify_def prod.case sum.case bot sched close rest_run dispose)
  have s4: "s4 = s\<lparr> lf_log := lf_log s @ map ShutdownCalled services @ [QueueCloseCalled] @ map ShutdownCalled rest @ [DisposeCalled],
        lf_errors := shutdown_errors env services rest \<rparr>"
    unfolding s4_def s3_def s2_def s1_def fold_stopped by (simp add: services_def rest_def shutdown_errors_def del: filter.simps)
  show ?thesis unfolding run s4 by (simp add: raise_first_error_def split: list.split)
qed

lemma reverse_of_startup:
  "filter (\<lambda>d. d \<in> set (comes_up env startup_order)) [DepBotDelivery, DepScheduler] =
     filter (\<lambda>d. d \<in> {DepScheduler, DepBotDelivery}) (rev (comes_up env startup_order))"
  "filter (\<lambda>d. d \<in> set (comes_up env startup_order)) [DepTelethon, DepAuth, DepSettings, DepDb] =
     filter (\<lambda>d. d \<notin> {DepScheduler, DepBotDelivery}) (rev (comes_up env startup_order))"
  by (simp_all add: comes_up_def startup_order_def)

text \<open>Requests are served when every startup and the signing key succeed.\<close>

definition serves :: "life_env \<Rightarrow> life_state \<Rightarrow> bool" where
  "serves env s \<longleftrightarrow> comes_up env startup_order = startup_order \<and>
     (case fst (resolve_persistent_cookie_signing_key (le_repr env) (le_environ env ''TCA_COOKIE_SIGNING_KEY'')
         (le_random env) (lf_key s) (lf_db s)) of Inl _ \<Rightarrow> False | Inr _ \<Rightarrow> True)"

lemma lifespan_body_eq:
  assumes "le_runtime env = None" and "le_queue env = None" and "lf_started s = []"
  shows "\<exists>r t. lifespan_body env s = (r, t) \<and> lf_queue t \<and> lf_runtime t \<and> lf_started t = comes_up env startup_order \<and>
    lf_log t = lf_log s @ [RuntimeCreated, QueueBuilt] @
      map StartupCalled (take (Suc (length (comes_up env startup_order))) startup_order) @
      (if serves env s then [ServingRequests] else []) \<and>
    (r = Inr () \<longleftrightarrow> serves env s \<and> le_serve env = None)"
proof -
  let ?s2 = "s\<lparr> lf_runtime := True, lf_queue := True, lf_log := lf_log s @ [RuntimeCreated, QueueBuilt] \<rparr>"
  let ?up = "comes_up env startup_order"
  define s3 where "s3 = ?s2\<lparr> lf_log := lf_log ?s2 @ map StartupCalled (take (Suc (length ?up)) startup_order), lf_started := ?up \<rparr>"
  obtain r0 where start: "act_foreach (start_dependency env) startup_order ?s2 = (r0, s3)"
    and r0: "(\<exists>x. r0 = Inr x) \<longleftrightarrow> ?up = startup_order"
    using start_all [of env startup_order ?s2] assms(3) by (auto simp: s3_def)
  have body: "lifespan_body env s = (case r0 of Inl e \<Rightarrow> (Inl e, s3) | Inr _ \<Rightarrow>
      act_bind (resolve_cookie_key env) (\<lambda>_. act_bind (life_log ServingRequests) (\<lambda>_. raise_opt (le_serve env))) s3)"
    using assms(1,2) start by (simp add: lifespan_body_def act_bind_def raise_opt_def act_return_def act_modify_def split: sum.split)
  obtain k d where key: "resolve_persistent_cookie_signing_key (le_repr env) (le_environ env ''TCA_COOKIE_SIGNING_KEY'')
      (le_random env) (lf_key s) (lf_db s) = (k, d)" by fastforce
  then have cookie: "resolve_cookie_key env s3 =
      (case k of Inl e \<Rightarrow> (Inl e, s3\<lparr> lf_db := d \<rparr>) | Inr v \<Rightarrow> (Inr (), s3\<lparr> lf_db := d, lf_key := v \<rparr>))"
    by (simp add: resolve_cookie_key_def on_life_db_def act_bind_def act_modify_def s3_def split: sum.split)
  show ?thesis
  proof (cases r0)
    case (Inl e)
    then have "\<not> serves env s" using r0 by (simp add: serves_def)
    with Inl body show ?thesis by (simp add: s3_def)
  next
    case (Inr x)
    then have "serves env s \<longleftrightarrow> (\<exists>v. k = Inr v)" using r0 key by (auto simp: serves_def split: sum.split)
    with Inr body cookie show ?thesis
      by (cases k; cases "le_serve env")
        (simp_all add: s3_def act_bind_def life_log_def act_modify_def raise_opt_def act_return_def act_raise_def)
  qed
qed

section \<open>Properties\<close>

text \<open>
  C36. The lifespan of an application whose container is complete, whose settings load and whose storage
  runtime and writer queue were built. The dependencies are started in the fixed order up to the
  first that fails, and requests are served only when all of them and the signing key came up.
  Then, whether the startup, the signing key or the serving failed or not, exactly the dependencies that
  came up are shut down, each once and in the reverse order; the two background services stop before
  the writer queue is closed, the queue is closed before the others stop, and the storage is
  disposed last. The hooks of the shutdown are assumed to return, to raise, or, for the two services,
  to exceed their time; they may raise any exception but a cancellation, and the two services
  but a \<open>TimeoutError\<close> of their own, which the code takes for the expiry of the bound. Such an exception
  does not keep the later hooks from running; the first one is what the lifespan raises.
\<close>

theorem lifespan_stops_in_reverse:
  assumes "graceful env" and "resolve_startup_dependencies (le_container env) = Inr ()"
    and "load_settings (le_expanduser env) (le_environ env) = Inr cfg"
    and "le_runtime env = None" and "le_queue env = None" and "lf_started s = []" and "lf_log s = []"
  defines "up \<equiv> comes_up env startup_order"
  defines "services \<equiv> filter (\<lambda>d. d \<in> {DepScheduler, DepBotDelivery}) (rev up)"
    and "rest \<equiv> filter (\<lambda>d. d \<notin> {DepScheduler, DepBotDelivery}) (rev up)"
  shows "case lifespan env s of (r, t) \<Rightarrow>
     lf_log t = [RuntimeCreated, QueueBuilt] @ map StartupCalled (take (Suc (length up)) startup_order) @
       (if serves env s then [ServingRequests] else []) @
       map ShutdownCalled services @ [QueueCloseCalled] @ map ShutdownCalled rest @ [DisposeCalled] @
       (if shutdown_errors env services rest = [] then [StateCleared] else []) \<and>
     rev up = services @ rest \<and>
     (case shutdown_errors env services rest of
        e # _ \<Rightarrow> r = Inl e
      | [] \<Rightarrow> r = Inr () \<longleftrightarrow> serves env s \<and> le_serve env = None)"
proof -
  obtain r t where body: "lifespan_body env s = (r, t)" and t: "lf_queue t" "lf_runtime t" "lf_started t = up"
    "lf_log t = [RuntimeCreated, QueueBuilt] @ map StartupCalled (take (Suc (length up)) startup_order) @
      (if serves env s then [ServingRequests] else [])"
    and r: "r = Inr () \<longleftrightarrow> serves env s \<and> le_serve env = None"
    using lifespan_body_eq [OF assms(4-6)] assms(7) unfolding up_def by auto
  have order: "filter (\<lambda>d. d \<in> set up) [DepBotDelivery, DepScheduler] = services"
    "filter (\<lambda>d. d \<in> set up) [DepTelethon, DepAuth, DepSettings, DepDb] = rest"
    unfolding up_def services_def rest_def by (rule reverse_of_startup)+
  have stop: "shutdown_in_order env t =
      ((case shutdown_errors env services rest of [] \<Rightarrow> Inr () | e # _ \<Rightarrow> Inl e),
       t\<lparr> lf_log := lf_log t @ map ShutdownCalled services @ [QueueCloseCalled] @ map ShutdownCalled rest @ [DisposeCalled],
          lf_errors := shutdown_errors env services rest \<rparr>)"
    using shutdown_in_order_eq [OF assms(1) t(1,2)] unfolding t(3) order .
  have "rev up = services @ rest" unfolding services_def rest_def up_def by (simp add: comes_up_def startup_order_def)
  moreover have "lifespan env s = act_finally (lifespan_body env)
      (act_bind (shutdown_in_order env) (\<lambda>_. clear_runtime_state)) s"
    using assms(2,3) by (simp add: lifespan_def act_bind_def act_lift_def)
  ultimately show ?thesis
    using body stop r t(4)
    by (cases "shutdown_errors env services rest")
      (simp_all add: act_finally_def act_bind_def clear_runtime_state_def act_modify_def)
qed

definition sample_life_env :: life_env where
  "sample_life_env =
     \<lparr> le_container = Some (\<lambda>_. SlotFilled), le_environ = (\<lambda>_. None), le_expanduser = id, le_repr = (\<lambda>_. []), le_random = [],
       le_runtime = None, le_queue = None, le_startup = (\<lambda>d. if d = DepTelethon then Some (Exn ''OSError'' []) else None),
       le_serve = None, le_shutdown = (\<lambda>d. if d = DepAuth then HookRaises (ValueError []) else HookReturns), le_close = None,
       le_dispose = None \<rparr>"

definition sample_life_state :: life_state where
  "sample_life_state = \<lparr> lf_log = [], lf_started = [], lf_runtime = False, lf_queue = False, lf_errors = [], lf_db = sample_db,
     lf_key = None \<rparr>"

theorem lifespan_stops_in_reverse_witness:
  "lf_log (snd (lifespan sample_life_env sample_life_state)) =
     [RuntimeCreated, QueueBuilt, StartupCalled DepDb, StartupCalled DepSettings, StartupCalled DepAuth, StartupCalled DepTelethon,
      QueueCloseCalled, ShutdownCalled DepAuth, ShutdownCalled DepSettings, ShutdownCalled DepDb, DisposeCalled] \<and>
   fst (lifespan sample_life_env sample_life_state) = Inl (ValueError [])"
proof -
  have grace: "graceful sample_life_env" by (simp add: graceful_def sample_life_env_def)
  have deps: "resolve_startup_dependencies (le_container sample_life_env) = Inr ()" by code_simp
  obtain cfg where cfg: "load_settings (le_expanduser sample_life_env) (le_environ sample_life_env) = Inr cfg"
    by (simp add: sample_life_env_def load_settings_def read_nonempty_def read_choice_def)
  have up: "comes_up sample_life_env startup_order = [DepDb, DepSettings, DepAuth]"
    by (simp add: comes_up_def startup_order_def sample_life_env_def)
  then have "\<not> serves sample_life_env sample_life_state" by (simp add: serves_def startup_order_def)
  moreover have "shutdown_errors sample_life_env [] [DepAuth, DepSettings, DepDb] = [ValueError []]"
    by (simp add: shutdown_errors_def sample_life_env_def hook_error_def opt_list_def)
  moreover have none: "le_runtime sample_life_env = None" "le_queue sample_life_env = None"
    "lf_started sample_life_state = []" "lf_log sample_life_state = []"
    by (simp_all add: sample_life_env_def sample_life_state_def)
  moreover have "take (Suc (Suc (Suc (Suc 0)))) startup_order = [DepDb, DepSettings, DepAuth, DepTelethon]"
    by (simp add: startup_order_def)
  ultimately show ?thesis
    using lifespan_stops_in_reverse [OF grace deps cfg none] unfolding up by (simp split: prod.splits)
qed

section \<open>Clients\<close>

lemma register_keeps:
  assumes "register_account f a cs = (r, cs')"
  shows "\<forall>i c. map_of cs i = Some c \<longrightarrow> map_of cs' i = Some c" "map fst cs' = map fst cs \<or> map fst cs' = map fst cs @ [tg_account_id a]"
    "(\<exists>c. r = Inr c) \<longrightarrow> map_of cs' (tg_account_id a) \<noteq> None" "distinct (map fst cs) \<longrightarrow> distinct (map fst cs')"
  using assms
  by (auto simp: register_account_def Let_def map_add_def map_of_eq_None_iff [symmetric] split: option.splits sum.splits)

lemma register_all_keeps:
  "act_foreach (register_account f) accs cs = (r, cs') \<Longrightarrow>
   (\<forall>i c. map_of cs i = Some c \<longrightarrow> map_of cs' i = Some c) \<and> (distinct (map fst cs) \<longrightarrow> distinct (map fst cs')) \<and>
   ((\<exists>xs. r = Inr xs) \<longrightarrow> (\<forall>a \<in> set accs. map_of cs' (tg_account_id a) \<noteq> None))"
proof (induction accs arbitrary: cs r cs')
  case (Cons a accs)
  obtain x cs1 where one: "register_account f a cs = (x, cs1)" by fastforce
  show ?case
  proof (cases x)
    case (Inl e)
    then show ?thesis using Cons.prems register_keeps [OF one] one by (auto simp: act_bind_def)
  next
    case (Inr c)
    obtain y cs2 where rest: "act_foreach (register_account f) accs cs1 = (y, cs2)" by fastforce
    then have "cs' = cs2" "(\<exists>xs. r = Inr xs) \<longrightarrow> (\<exists>ys. y = Inr ys)"
      using Cons.prems one Inr by (auto simp: act_bind_def act_return_def split: sum.splits)
    moreover obtain m where "map_of cs1 (tg_account_id a) = Some m" using register_keeps(3) [OF one] Inr by blast
    then have "map_of cs2 (tg_account_id a) = Some m" using Cons.IH [OF rest] by blast
    ultimately show ?thesis using Cons.IH [OF rest] register_keeps(1,4) [OF one] by (simp del: map_of_eq_Some_iff)
  qed
qed (simp add: act_return_def)

lemma connect_all_keys: "connect_all f cs = (r, cs') \<Longrightarrow> map fst cs' = map fst cs \<and> map (\<lambda>x. mc_client (snd x)) cs' = map (\<lambda>x. mc_client (snd x)) cs"
  by (induction f cs arbitrary: r cs' rule: connect_all.induct) (auto split: if_splits option.splits prod.splits)

lemma connect_all_connected: "connect_all f cs = (Inr (), cs') \<Longrightarrow> \<forall>x \<in> set cs'. mc_connected (snd x)"
  by (induction f cs arbitrary: cs' rule: connect_all.induct) (auto split: if_splits option.splits prod.splits)

text \<open>
  A startup of the manager that succeeds leaves a connected client for every account that was
  loaded, one per account id.
\<close>

lemma manager_startup_connects:
  assumes "manager_startup (Inr accs) f connect cs = (Inr (), cs')" and "distinct (map fst cs)" and "a \<in> set accs"
  shows "\<exists>m. get_client (tg_account_id a) cs' = Inr m \<and> mc_connected m" and "distinct (map fst cs')"
proof -
  obtain xs cs1 where reg: "act_foreach (register_account f) accs cs = (Inr xs, cs1)" and con: "connect_all connect cs1 = (Inr (), cs')"
    using assms(1) by (auto simp: manager_startup_def act_bind_def act_lift_def split: prod.splits sum.splits)
  have keys: "map fst cs' = map fst cs1" using connect_all_keys [OF con] by simp
  have r: "distinct (map fst cs1)" "map_of cs1 (tg_account_id a) \<noteq> None" using register_all_keeps [OF reg] assms(2,3) by auto
  then show "distinct (map fst cs')" by (simp add: keys)
  have "tg_account_id a \<in> set (map fst cs')" unfolding keys using r(2) by (metis map_of_eq_None_iff list.set_map)
  then obtain m where m: "map_of cs' (tg_account_id a) = Some m" by (metis map_of_eq_None_iff list.set_map not_None_eq)
  then have "mc_connected m" using connect_all_connected [OF con] by (fastforce dest: map_of_SomeD)
  with m show "\<exists>m. get_client (tg_account_id a) cs' = Inr m \<and> mc_connected m" by (simp add: get_client_def)
qed

end
