(* ===== verification/Ui_Views.thy ===== *)
theory Ui_Views
  imports Thread_Query Notifications Decisions Channel_Groups
begin

text \<open>
  The read side of \<open>tca/ui/routes.py\<close>: the rows that the pages of the user interface show, their
  decoders, the queries that load them and the handlers of the four pages. A rendered template is
  the value of its context: its status, its error message and the rows. Lemmas: every page of the
  thread view shows the clusters that the thread route of the API lists, and its source names are
  the channels of the members.
\<close>

section \<open>Rows of the pages\<close>

record ui_channel_row =
  uc_id :: int
  uc_account_id :: int
  uc_telegram_channel_id :: int
  uc_name :: string
  uc_username :: "string option"
  uc_is_enabled :: bool
  uc_group_id :: "int option"

record ui_group_row =
  ug_id :: int
  ug_name :: string
  ug_description :: "string option"
  ug_horizon_override :: "int option"
  ug_channel_id :: "int option"

record ui_thread_entry =
  ue_cluster_id :: int
  ue_cluster_key :: string
  ue_item_id :: int
  ue_published_at :: "string option"
  ue_title :: "string option"
  ue_body :: "string option"
  ue_canonical_url :: "string option"
  ue_channel_id :: int
  ue_channel_name :: string
  ue_duplicate_count :: int
  ue_source_channel_names :: "string list"

record ui_decision_row =
  ud_decision_id :: int
  ud_item_id :: int
  ud_cluster_id :: "int option"
  ud_candidate_item_id :: "int option"
  ud_strategy_name :: string
  ud_outcome :: string
  ud_reason_code :: "string option"
  ud_score :: "pyfloat option"
  ud_metadata_json :: "jtext option"
  ud_created_at :: string

type_synonym ui_filter_channel = "int \<times> string"

record ui_thread_state =
  uv_page :: int
  uv_size :: int
  uv_selected_channel_id :: "int option"
  uv_selected_item_id :: "int option"

record ui_notification_row =
  un_id :: int
  un_type :: string
  un_severity :: string
  un_message :: string
  un_is_acknowledged :: bool
  un_acknowledged_at :: "string option"
  un_created_at :: string
  un_is_high_severity :: bool

text \<open>The responses: a template with its context, or a redirect.\<close>

datatype ui_answer =
    ShellPage
  | RedirectTo string int
  | ChannelsGroupsPage (page_status: int) "string option" "ui_channel_row list" "ui_group_row list" "int option"
  | NotificationsPage (page_status: int) "string option" "ui_notification_row list"
  | ThreadPage (page_status: int) "string option" ui_thread_state "ui_thread_entry list" bool
      "ui_filter_channel list" "ui_decision_row list"

section \<open>Field checks and small parsers\<close>

definition require_int_field :: "row_map \<Rightarrow> string \<Rightarrow> int res" where
  "require_int_field row field_name =
     exact_int (TypeError (''Expected integer `'' @ field_name @ ''` field.'')) (row_get row field_name)"

definition require_text_field :: "row_map \<Rightarrow> string \<Rightarrow> string res" where
  "require_text_field row field_name =
     coerce_str_with (TypeError (''Expected text `'' @ field_name @ ''` field.'')) (row_get row field_name)"

text \<open>The tests \<open>value is not None and not isinstance(value, ...)\<close> that the decoders write out.\<close>

definition ui_opt_text :: "row_map \<Rightarrow> string \<Rightarrow> string option res" where
  "ui_opt_text row f =
     coerce_opt_with (coerce_str_with (TypeError (''Expected `'' @ f @ ''` to be text or null.''))) (row_get row f)"

definition ui_opt_int :: "row_map \<Rightarrow> string \<Rightarrow> int option res" where
  "ui_opt_int row f =
     coerce_opt_with (exact_int (TypeError (''Expected `'' @ f @ ''` to be integer or null.''))) (row_get row f)"

definition parse_int :: "string \<Rightarrow> int option" where
  "parse_int value = py_int_text value"

text \<open>\<open>Inl ()\<close> is the answer \<open>"invalid"\<close>.\<close>

definition parse_optional_int :: "string \<Rightarrow> unit + int option" where
  "parse_optional_int raw_value =
     (let value = py_strip raw_value in
      if value = [] then Inr None
      else case parse_int value of None \<Rightarrow> Inl () | Some n \<Rightarrow> Inr (Some n))"

fun py_split :: "char \<Rightarrow> string \<Rightarrow> string list" where
  "py_split sep [] = [[]]"
| "py_split sep (c # cs) =
     (if c = sep then [] # py_split sep cs
      else case py_split sep cs of [] \<Rightarrow> [[c]] | part # rest \<Rightarrow> (c # part) # rest)"

fun parse_source_channel_names :: "pyobj \<Rightarrow> string list res" where
  "parse_source_channel_names PNone = Inr []"
| "parse_source_channel_names (PStr s) =
     Inr (sort (remdups (filter (\<lambda>p. p \<noteq> []) (map py_strip (py_split (CHR '','') s)))))"
| "parse_source_channel_names (PIso d s) =
     Inr (sort (remdups (filter (\<lambda>p. p \<noteq> []) (map py_strip (py_split (CHR '','') s)))))"
| "parse_source_channel_names v = Inl (TypeError ''Expected `source_channel_names` to be text or null.'')"

text \<open>\<open>value.isoformat(sep=" ", timespec="seconds")\<close>.\<close>

definition format_datetime :: "datetime option \<Rightarrow> string option" where
  "format_datetime v = map_option (\<lambda>t. dt_text (DT (wall_us t div 1000000 * 1000000) (utc_offset t))) v"

section \<open>Notifications page\<close>

definition to_ui_notification_row :: "notification_list_record \<Rightarrow> ui_notification_row" where
  "to_ui_notification_row r =
     \<lparr> un_id = nr_notification_id r, un_type = nr_type r, un_severity = nr_severity r,
       un_message = nr_message r, un_is_acknowledged = nr_is_acknowledged r,
       un_acknowledged_at = format_datetime (nr_acknowledged_at r),
       un_created_at = (case format_datetime (Some (nr_created_at r)) of None \<Rightarrow> [] | Some t \<Rightarrow> t),
       un_is_high_severity = (py_lower (py_strip (nr_severity r)) = ''high'') \<rparr>"

definition load_notifications :: "db \<Rightarrow> ui_notification_row list res" where
  "load_notifications d =
     res_bind (list_notifications [] [] d) (\<lambda>records. Inr (map to_ui_notification_row records))"

definition render_notifications_view :: "int \<Rightarrow> string option \<Rightarrow> (db, ui_answer) act" where
  "render_notifications_view status_code error_message =
     act_bind (act_read load_notifications) (\<lambda>rows. act_return (NotificationsPage status_code error_message rows))"

definition get_notifications_view :: "(db, ui_answer) act" where
  "get_notifications_view = render_notifications_view 200 None"

definition get_ui_shell :: "(db, ui_answer) act" where
  "get_ui_shell = act_return ShellPage"

section \<open>Channels and groups page\<close>

fun ui_is_enabled :: "pyobj \<Rightarrow> bool res" where
  "ui_is_enabled (PBool b) = Inr b"
| "ui_is_enabled (PInt i) = Inr (i \<noteq> 0)"
| "ui_is_enabled v = Inl (TypeError ''Expected `is_enabled` to be boolean.'')"

definition decode_ui_channel_row :: "row_map \<Rightarrow> ui_channel_row res" where
  "decode_ui_channel_row row =
     res_bind (require_int_field row ''id'') (\<lambda>i.
     res_bind (require_int_field row ''account_id'') (\<lambda>a.
     res_bind (require_int_field row ''telegram_channel_id'') (\<lambda>t.
     res_bind (require_text_field row ''name'') (\<lambda>n.
     res_bind (ui_opt_text row ''username'') (\<lambda>u.
     res_bind (ui_is_enabled (row_get row ''is_enabled'')) (\<lambda>e.
     res_bind (ui_opt_int row ''group_id'') (\<lambda>g.
       Inr \<lparr> uc_id = i, uc_account_id = a, uc_telegram_channel_id = t, uc_name = n, uc_username = u,
             uc_is_enabled = e, uc_group_id = g \<rparr>)))))))"

definition decode_ui_group_row :: "row_map \<Rightarrow> ui_group_row res" where
  "decode_ui_group_row row =
     res_bind (require_int_field row ''id'') (\<lambda>i.
     res_bind (require_text_field row ''name'') (\<lambda>n.
     res_bind (ui_opt_text row ''description'') (\<lambda>ds.
     res_bind (ui_opt_int row ''dedupe_horizon_minutes_override'') (\<lambda>h.
     res_bind (ui_opt_int row ''channel_id'') (\<lambda>c.
       Inr \<lparr> ug_id = i, ug_name = n, ug_description = ds, ug_horizon_override = h, ug_channel_id = c \<rparr>)))))"

text \<open>The two outer joins, ordered by the id of the left table.\<close>

definition ui_channel_rows :: "db \<Rightarrow> row_map list" where
  "ui_channel_rows d =
     concat (map (\<lambda>c. map (\<lambda>m. channel_columns c @ [(''group_id'', opt_obj (\<lambda>m. PInt (gm_group_id m)) m)])
         (outer (filter (\<lambda>m. gm_channel_id m = ch_id c) (group_members d))))
       (sort_key ch_id (channels d)))"

definition ui_group_rows :: "db \<Rightarrow> row_map list" where
  "ui_group_rows d =
     concat (map (\<lambda>g. map (\<lambda>m. group_columns g @ [(''channel_id'', opt_obj (\<lambda>m. PInt (gm_channel_id m)) m)])
         (outer (filter (\<lambda>m. gm_group_id m = gr_id g) (group_members d))))
       (sort_key gr_id (channel_groups d)))"

definition load_channels_groups_data ::
  "db \<Rightarrow> (ui_channel_row list \<times> ui_group_row list \<times> int option) res" where
  "load_channels_groups_data d =
     res_bind (one_or_none (take 1 (sort (map acc_id (accounts d))))) (\<lambda>default_account.
     res_bind (res_map decode_ui_channel_row (ui_channel_rows d)) (\<lambda>cs.
     res_bind (res_map decode_ui_group_row (ui_group_rows d)) (\<lambda>gs.
       Inr (cs, gs, default_account))))"

definition render_channels_groups_view :: "int \<Rightarrow> string option \<Rightarrow> (db, ui_answer) act" where
  "render_channels_groups_view status_code error_message =
     act_bind (act_read load_channels_groups_data) (\<lambda>(cs, gs, a).
       act_return (ChannelsGroupsPage status_code error_message cs gs a))"

definition get_channels_groups_view :: "(db, ui_answer) act" where
  "get_channels_groups_view = render_channels_groups_view 200 None"

section \<open>Thread page\<close>

text \<open>The joined rows of one cluster: the member and the channel of its item, where there are any.\<close>

definition joined_sources :: "cluster_row \<Rightarrow> db \<Rightarrow> (member_row option \<times> channel_row option) list" where
  "joined_sources c d =
     concat (map (\<lambda>m.
       concat (map (\<lambda>i.
         map (\<lambda>ch. (m, ch))
           (outer (case i of None \<Rightarrow> []
              | Some i' \<Rightarrow> filter (\<lambda>ch. ch_id ch = it_channel_id i') (channels d))))
         (outer (case m of None \<Rightarrow> []
            | Some m' \<Rightarrow> filter (\<lambda>i. it_id i = mb_item_id m') (items d)))))
       (outer (filter (\<lambda>m. mb_cluster_id m = cl_id c) (members d))))"

text \<open>\<open>COUNT(DISTINCT members.item_id)\<close>; nulls do not count.\<close>

definition distinct_member_count :: "cluster_row \<Rightarrow> db \<Rightarrow> nat" where
  "distinct_member_count c d =
     length (remdups (List.map_filter (\<lambda>x. map_option mb_item_id (fst x)) (joined_sources c d)))"

text \<open>\<open>GROUP_CONCAT(DISTINCT member_channels.name)\<close> is null when no name is; \<open>COALESCE\<close>.\<close>

fun py_join :: "string \<Rightarrow> string list \<Rightarrow> string" where
  "py_join sep [] = []"
| "py_join sep [s] = s"
| "py_join sep (s # t # ts) = s @ sep @ py_join sep (t # ts)"

definition source_names_column :: "cluster_row \<Rightarrow> channel_row \<Rightarrow> db \<Rightarrow> string" where
  "source_names_column c ch d =
     (let names = remdups (List.map_filter (\<lambda>x. map_option ch_name (snd x)) (joined_sources c d)) in
      if names = [] then ch_name ch else py_join '','' names)"

definition ui_thread_rows :: "int option \<Rightarrow> db \<Rightarrow> (cluster_row \<times> item_row \<times> channel_row) list" where
  "ui_thread_rows selected_channel_id d =
     rev (sort_key thread_key
       (filter (\<lambda>(c, i, ch). case selected_channel_id of None \<Rightarrow> True | Some k \<Rightarrow> it_channel_id i = k)
         (thread_groups d)))"

definition ui_thread_columns :: "db \<Rightarrow> cluster_row \<times> item_row \<times> channel_row \<Rightarrow> row_map" where
  "ui_thread_columns d g =
     (case g of (c, i, ch) \<Rightarrow>
       [(''cluster_id'', PInt (cl_id c)), (''cluster_key'', PStr (cl_key c)),
        (''representative_item_id'', PInt (it_id i)),
        (''representative_published_at'', opt_obj dt_obj (it_published_at i)),
        (''representative_title'', opt_obj PStr (it_title i)),
        (''representative_body'', opt_obj PStr (it_body i)),
        (''representative_canonical_url'', opt_obj PStr (it_canonical_url i)),
        (''representative_channel_id'', PInt (ch_id ch)),
        (''representative_channel_name'', PStr (ch_name ch)),
        (''duplicate_count'', PInt (int (distinct_member_count c d))),
        (''source_channel_names'', PStr (source_names_column c ch d))])"

text \<open>An integer, or a text of digits; \<open>coerce_int_with\<close> rejects a \<open>bool\<close> here.\<close>

definition decode_ui_thread_entry_row :: "row_map \<Rightarrow> ui_thread_entry res" where
  "decode_ui_thread_entry_row row =
     res_bind (ui_opt_text row ''representative_published_at'') (\<lambda>p.
     res_bind (ui_opt_text row ''representative_title'') (\<lambda>t.
     res_bind (ui_opt_text row ''representative_body'') (\<lambda>b.
     res_bind (ui_opt_text row ''representative_canonical_url'') (\<lambda>u.
     res_bind (coerce_int_with True (TypeError ''Expected `duplicate_count` to be an integer.'')
         (row_get row ''duplicate_count'')) (\<lambda>dup.
     res_bind (parse_source_channel_names (row_get row ''source_channel_names'')) (\<lambda>names.
     res_bind (require_int_field row ''cluster_id'') (\<lambda>c.
     res_bind (require_text_field row ''cluster_key'') (\<lambda>k.
     res_bind (require_int_field row ''representative_item_id'') (\<lambda>i.
     res_bind (require_int_field row ''representative_channel_id'') (\<lambda>ch.
     res_bind (require_text_field row ''representative_channel_name'') (\<lambda>n.
       Inr \<lparr> ue_cluster_id = c, ue_cluster_key = k, ue_item_id = i, ue_published_at = p, ue_title = t,
             ue_body = b, ue_canonical_url = u, ue_channel_id = ch, ue_channel_name = n,
             ue_duplicate_count = dup, ue_source_channel_names = names \<rparr>)))))))))))"

text \<open>One row more than the page holds is fetched, to see whether there is a next page.\<close>

definition load_thread_entries ::
  "int \<Rightarrow> int \<Rightarrow> int option \<Rightarrow> db \<Rightarrow> (ui_thread_entry list \<times> bool) res" where
  "load_thread_entries page size' selected_channel_id d =
     (let offset = (page - 1) * size'; limit = size' + 1;
          rows = take (nat limit) (drop (nat offset) (ui_thread_rows selected_channel_id d));
          has_next = int (length rows) > size' in
      res_bind (res_map (\<lambda>g. decode_ui_thread_entry_row (ui_thread_columns d g)) (take (nat size') rows))
        (\<lambda>entries. Inr (entries, has_next)))"

definition load_thread_filter_channels :: "db \<Rightarrow> ui_filter_channel list res" where
  "load_thread_filter_channels d =
     res_map (\<lambda>r. let row = [(''id'', PInt (ch_id r)), (''name'', PStr (ch_name r))] in
         res_bind (require_int_field row ''id'') (\<lambda>i.
         res_bind (require_text_field row ''name'') (\<lambda>n. Inr (i, n))))
       (sort_key (\<lambda>r. (ch_name r, ch_id r)) (channels d))"

fun ui_score :: "pyobj \<Rightarrow> pyfloat option res" where
  "ui_score PNone = Inr None"
| "ui_score (PInt i) = Inr (Some (Finite (of_int i)))"
| "ui_score (PFloat f) = Inr (Some f)"
| "ui_score v = Inl (TypeError ''Expected `score` to be number or null.'')"

text \<open>The text of the metadata is passed beside the other columns, as for the trace route.\<close>

definition decode_ui_thread_decision_row :: "row_map \<Rightarrow> jtext option \<Rightarrow> ui_decision_row res" where
  "decode_ui_thread_decision_row row metadata_json =
     res_bind (ui_opt_int row ''cluster_id'') (\<lambda>c.
     res_bind (ui_opt_int row ''candidate_item_id'') (\<lambda>k.
     res_bind (ui_score (row_get row ''score'')) (\<lambda>s.
     res_bind (ui_opt_text row ''reason_code'') (\<lambda>r.
     res_bind (coerce_str_with (TypeError ''Expected `created_at` to be text.'') (row_get row ''created_at'')) (\<lambda>t.
     res_bind (require_int_field row ''id'') (\<lambda>i.
     res_bind (require_int_field row ''item_id'') (\<lambda>item.
     res_bind (require_text_field row ''strategy_name'') (\<lambda>n.
     res_bind (require_text_field row ''outcome'') (\<lambda>out.
       Inr \<lparr> ud_decision_id = i, ud_item_id = item, ud_cluster_id = c, ud_candidate_item_id = k,
             ud_strategy_name = n, ud_outcome = out, ud_reason_code = r, ud_score = s,
             ud_metadata_json = metadata_json, ud_created_at = t \<rparr>)))))))))"

definition load_thread_decisions_for_item :: "int option \<Rightarrow> db \<Rightarrow> ui_decision_row list res" where
  "load_thread_decisions_for_item selected_item_id d =
     (case selected_item_id of
        None \<Rightarrow> Inr []
      | Some item \<Rightarrow>
          res_map (\<lambda>r. decode_ui_thread_decision_row (decision_columns r) (dec_metadata_json r))
            (sort_key dec_id (filter (\<lambda>r. dec_item_id r = item) (decisions d))))"

definition render_thread_view :: "ui_thread_state \<Rightarrow> int \<Rightarrow> string option \<Rightarrow> (db, ui_answer) act" where
  "render_thread_view state status_code error_message =
     act_read (\<lambda>d.
       res_bind (load_thread_entries (uv_page state) (uv_size state) (uv_selected_channel_id state) d)
         (\<lambda>(entries, has_next_page).
       res_bind (load_thread_filter_channels d) (\<lambda>filter_channels.
       res_bind (load_thread_decisions_for_item (uv_selected_item_id state) d) (\<lambda>selected_decisions.
         Inr (ThreadPage status_code error_message state entries has_next_page filter_channels selected_decisions)))))"

definition DEFAULT_THREAD_PAGE :: int where "DEFAULT_THREAD_PAGE = 1"
definition DEFAULT_THREAD_PAGE_SIZE :: int where "DEFAULT_THREAD_PAGE_SIZE = 20"
definition MAX_THREAD_PAGE_SIZE :: int where "MAX_THREAD_PAGE_SIZE = 100"

text \<open>\<open>request.query_params.get(key, default)\<close>.\<close>

definition param_get :: "(string \<Rightarrow> string option) \<Rightarrow> string \<Rightarrow> string \<Rightarrow> string" where
  "param_get params k default_value = (case params k of None \<Rightarrow> default_value | Some v \<Rightarrow> v)"

definition get_thread_view :: "(string \<Rightarrow> string option) \<Rightarrow> (db, ui_answer) act" where
  "get_thread_view params =
     (let page_raw = py_strip (param_get params ''page'' (int_text DEFAULT_THREAD_PAGE));
          size_raw = py_strip (param_get params ''size'' (int_text DEFAULT_THREAD_PAGE_SIZE));
          channel_id_raw = py_strip (param_get params ''channel_id'' []);
          selected_item_raw = py_strip (param_get params ''selected_item_id'' []) in
      case parse_int page_raw of
        None \<Rightarrow> render_thread_view \<lparr> uv_page = DEFAULT_THREAD_PAGE, uv_size = DEFAULT_THREAD_PAGE_SIZE,
                  uv_selected_channel_id = None, uv_selected_item_id = None \<rparr> 400
                  (Some ''Thread page must be an integer greater than zero.'')
      | Some page \<Rightarrow>
      if page < 1
      then render_thread_view \<lparr> uv_page = DEFAULT_THREAD_PAGE, uv_size = DEFAULT_THREAD_PAGE_SIZE,
             uv_selected_channel_id = None, uv_selected_item_id = None \<rparr> 400
             (Some ''Thread page must be an integer greater than zero.'')
      else
      let bad_size = render_thread_view \<lparr> uv_page = page, uv_size = DEFAULT_THREAD_PAGE_SIZE,
             uv_selected_channel_id = None, uv_selected_item_id = None \<rparr> 400
             (Some ''Thread page size must be between 1 and 100.'') in
      case parse_int size_raw of
        None \<Rightarrow> bad_size
      | Some size' \<Rightarrow>
      if size' < 1 \<or> size' > MAX_THREAD_PAGE_SIZE then bad_size
      else
      case parse_optional_int channel_id_raw of
        Inl _ \<Rightarrow> render_thread_view \<lparr> uv_page = page, uv_size = size', uv_selected_channel_id = None,
                   uv_selected_item_id = None \<rparr> 400 (Some ''Thread filter channel id must be an integer.'')
      | Inr channel_id \<Rightarrow>
      case parse_optional_int selected_item_raw of
        Inl _ \<Rightarrow> render_thread_view \<lparr> uv_page = page, uv_size = size', uv_selected_channel_id = channel_id,
                   uv_selected_item_id = None \<rparr> 400 (Some ''Selected thread item id must be an integer.'')
      | Inr selected_item_id \<Rightarrow>
          render_thread_view \<lparr> uv_page = page, uv_size = size', uv_selected_channel_id = channel_id,
            uv_selected_item_id = selected_item_id \<rparr> 200 None)"

section \<open>Names and counts of the members\<close>

lemma set_outer: "set (outer xs) = (if xs = [] then {None} else Some ` set xs)"
  by (simp add: outer_def)

lemma outer_nonempty [simp]: "outer xs \<noteq> []"
  by (simp add: outer_def)

lemma outer_member: "\<exists>x. x \<in> set (outer xs)"
  by (meson last_in_set outer_nonempty)

lemma in_joined_pairs:
  "(m, ch) \<in> set (concat (map (\<lambda>m. concat (map (\<lambda>i. map (\<lambda>ch. (m, ch)) (C i)) (I m))) M)) \<longleftrightarrow>
   m \<in> set M \<and> (\<exists>i \<in> set (I m). ch \<in> set (C i))"
  by (auto simp: image_iff)

lemma in_joined_sources:
  "(m, ch) \<in> set (joined_sources c d) \<longleftrightarrow>
   m \<in> set (outer (filter (\<lambda>m. mb_cluster_id m = cl_id c) (members d))) \<and>
   (\<exists>i \<in> set (outer (case m of None \<Rightarrow> [] | Some m' \<Rightarrow> filter (\<lambda>i. it_id i = mb_item_id m') (items d))).
     ch \<in> set (outer (case i of None \<Rightarrow> []
       | Some i' \<Rightarrow> filter (\<lambda>ch. ch_id ch = it_channel_id i') (channels d))))"
  unfolding joined_sources_def by (rule in_joined_pairs)

lemma Some_in_outer [simp]: "Some x \<in> set (outer xs) \<longleftrightarrow> x \<in> set xs"
  by (auto simp: set_outer)

lemma joined_sources_members:
  "{m. \<exists>ch. (Some m, ch) \<in> set (joined_sources c d)} = {m \<in> set (members d). mb_cluster_id m = cl_id c}"
proof -
  have "\<exists>ch. (Some m, ch) \<in> set (joined_sources c d) \<longleftrightarrow> m \<in> set (members d) \<and> mb_cluster_id m = cl_id c" for m
  proof -
    obtain i where "i \<in> set (outer (filter (\<lambda>i. it_id i = mb_item_id m) (items d)))" using outer_member by blast
    moreover obtain ch where "ch \<in> set (outer (case i of None \<Rightarrow> []
       | Some i' \<Rightarrow> filter (\<lambda>ch. ch_id ch = it_channel_id i') (channels d)))" using outer_member by blast
    ultimately have "(Some m, ch) \<in> set (joined_sources c d) \<longleftrightarrow> m \<in> set (members d) \<and> mb_cluster_id m = cl_id c"
      by (auto simp only: in_joined_sources Some_in_outer option.case set_filter)
    then show ?thesis ..
  qed
  moreover have "m \<in> set (members d) \<and> mb_cluster_id m = cl_id c" if "(Some m, ch) \<in> set (joined_sources c d)" for m ch
    using that by (simp add: in_joined_sources)
  ultimately show ?thesis by blast
qed

lemma set_map_filter: "set (List.map_filter f xs) = {y. \<exists>x \<in> set xs. f x = Some y}"
  by (auto simp: List.map_filter_def image_iff) (metis option.sel)

lemma distinct_member_count_eq: "distinct_member_count c d = card (member_items (cl_id c) d)"
proof -
  have "set (List.map_filter (\<lambda>x. map_option mb_item_id (fst x)) (joined_sources c d)) =
      mb_item_id ` {m. \<exists>ch. (Some m, ch) \<in> set (joined_sources c d)}"
    by (force simp: set_map_filter)
  then show ?thesis
    unfolding distinct_member_count_def joined_sources_members
    by (simp add: length_remdups_card_conv member_items_def)
qed

text \<open>The channels of the members of a cluster.\<close>

definition source_channels :: "int \<Rightarrow> db \<Rightarrow> channel_row set" where
  "source_channels cluster d =
     {ch \<in> set (channels d). \<exists>i \<in> set (items d). it_id i \<in> member_items cluster d \<and> it_channel_id i = ch_id ch}"

lemma joined_source_iff:
  "(m, Some ch) \<in> set (joined_sources c d) \<longleftrightarrow>
   (\<exists>m' i. m = Some m' \<and> m' \<in> set (members d) \<and> mb_cluster_id m' = cl_id c \<and> i \<in> set (items d) \<and>
     it_id i = mb_item_id m' \<and> ch \<in> set (channels d) \<and> ch_id ch = it_channel_id i)"
proof (cases m)
  case None
  then show ?thesis by (simp add: in_joined_sources)
next
  case (Some m')
  let ?I = "filter (\<lambda>i. it_id i = mb_item_id m') (items d)"
  have "Some ch \<in> set (outer (case i of None \<Rightarrow> [] | Some i' \<Rightarrow> filter (\<lambda>ch. ch_id ch = it_channel_id i') (channels d)))
      \<longleftrightarrow> (\<exists>i'. i = Some i' \<and> ch \<in> set (channels d) \<and> ch_id ch = it_channel_id i')" for i
    by (cases i) auto
  then have "(m, Some ch) \<in> set (joined_sources c d) \<longleftrightarrow> m' \<in> set (members d) \<and> mb_cluster_id m' = cl_id c \<and>
      (\<exists>i \<in> set (outer ?I). \<exists>i'. i = Some i' \<and> ch \<in> set (channels d) \<and> ch_id ch = it_channel_id i')"
    unfolding in_joined_sources Some option.case Some_in_outer by (simp add: conj_assoc eq_commute)
  also have "(\<exists>i \<in> set (outer ?I). \<exists>i'. i = Some i' \<and> ch \<in> set (channels d) \<and> ch_id ch = it_channel_id i') \<longleftrightarrow>
      (\<exists>i \<in> set ?I. ch \<in> set (channels d) \<and> ch_id ch = it_channel_id i)"
    using Some_in_outer [of _ ?I] by blast
  finally show ?thesis using Some by auto
qed

lemma joined_sources_channels:
  "{ch. \<exists>m. (m, Some ch) \<in> set (joined_sources c d)} = source_channels (cl_id c) d"
  unfolding joined_source_iff source_channels_def member_items_def by force

lemma source_names_set:
  "set (List.map_filter (\<lambda>x. map_option ch_name (snd x)) (joined_sources c d)) =
   ch_name ` source_channels (cl_id c) d"
  unfolding joined_sources_channels [symmetric] by (force simp: set_map_filter)

lemma py_split_nonempty [simp]: "py_split sep s \<noteq> []"
  by (cases s) (auto split: list.split)

lemma py_split_append:
  "py_split sep (s @ sep # t) = py_split sep s @ py_split sep t"
proof (induction s)
  case (Cons c s)
  then show ?case by (cases "py_split sep s") auto
qed simp

lemma py_split_join: "names \<noteq> [] \<Longrightarrow> py_split sep (py_join [sep] names) = concat (map (py_split sep) names)"
  by (induction "[sep]" names rule: py_join.induct) (simp_all add: py_split_append)

text \<open>The trimmed parts, between commas, of the names of some channels.\<close>

definition name_parts :: "channel_row set \<Rightarrow> string set" where
  "name_parts chs = {p. p \<noteq> [] \<and> (\<exists>ch \<in> chs. p \<in> py_strip ` set (py_split (CHR '','') (ch_name ch)))}"

lemma source_names_parsed:
  assumes "source_channels (cl_id c) d \<noteq> {}"
  shows "parse_source_channel_names (PStr (source_names_column c ch d)) =
    Inr (sorted_list_of_set (name_parts (source_channels (cl_id c) d)))"
proof -
  define names where
    "names = remdups (List.map_filter (\<lambda>x. map_option ch_name (snd x)) (joined_sources c d))"
  have set_names: "set names = ch_name ` source_channels (cl_id c) d"
    by (simp only: names_def set_remdups source_names_set)
  with assms have "names \<noteq> []" by auto
  then have column: "source_names_column c ch d = py_join '','' names"
    by (simp add: source_names_column_def Let_def flip: names_def)
  let ?parts = "filter (\<lambda>p. p \<noteq> []) (map py_strip (py_split (CHR '','') (py_join '','' names)))"
  have "set ?parts = name_parts (source_channels (cl_id c) d)"
    by (auto simp: py_split_join [OF \<open>names \<noteq> []\<close>] set_names name_parts_def)
  then have "sort (remdups ?parts) = sorted_list_of_set (name_parts (source_channels (cl_id c) d))"
    by (metis sorted_list_of_set_sort_remdups)
  then show ?thesis by (simp add: column)
qed

section \<open>The page\<close>

text \<open>An entry of the page shows an entry of the API: the same columns, and the sources of the members.\<close>

definition shows_entry :: "db \<Rightarrow> ui_thread_entry \<Rightarrow> thread_entry \<Rightarrow> bool" where
  "shows_entry d e t \<longleftrightarrow>
     ue_cluster_id e = te_cluster_id t \<and> ue_cluster_key e = te_cluster_key t \<and> ue_item_id e = te_item_id t \<and>
     ue_title e = te_title t \<and> ue_body e = te_body t \<and> ue_canonical_url e = te_canonical_url t \<and>
     ue_channel_id e = te_channel_id t \<and> ue_channel_name e = te_channel_name t \<and>
     ue_duplicate_count e = te_duplicate_count t \<and>
     (ue_published_at e = None \<longleftrightarrow> te_published_at t = None) \<and>
     ue_source_channel_names e = sorted_list_of_set (name_parts (source_channels (te_cluster_id t) d))"

lemma ui_field_columns [simp]:
  "exact_int e (PInt i) = Inr i"
  "coerce_opt_with (coerce_str_with e) (opt_obj PStr t) = Inr t"
  "coerce_opt_with (exact_int e) (opt_obj PInt n) = Inr n"
  "coerce_opt_with (coerce_str_with e) (opt_obj dt_obj p) = Inr (map_option dt_text p)"
  by (cases t; cases n; cases p; simp add: dt_obj_def)+

lemma decode_ui_thread_columns:
  assumes "store_ok d" and g: "(c, i, ch) \<in> set (thread_groups d)"
  shows "\<exists>e. decode_ui_thread_entry_row (ui_thread_columns d (c, i, ch)) = Inr e \<and>
    shows_entry d e (thread_entry_of d (c, i, ch))"
proof -
  note facts = thread_groups_member [OF g]
  have ok: "db_ok d" using assms(1) by (simp add: store_ok_def)
  have "represented d c" using facts(1) assms(1) by (simp add: store_ok_def reps_ok_def)
  then have "it_id i \<in> member_items (cl_id c) d" using facts(2) by (auto simp: represented_iff)
  then have "ch \<in> source_channels (cl_id c) d" using facts by (auto simp: source_channels_def)
  then have "source_channels (cl_id c) d \<noteq> {}" by auto
  note names = source_names_parsed [OF this]
  show ?thesis
    by (simp add: decode_ui_thread_entry_row_def ui_thread_columns_def row_get_def ui_opt_text_def
        require_int_field_def require_text_field_def names shows_entry_def thread_entry_of_def
        distinct_member_count_eq duplicate_count_members [OF ok] del: parse_source_channel_names.simps)
qed

lemma ui_thread_rows_eq:
  "ui_thread_rows sel d =
   filter (\<lambda>(c, i, ch). case sel of None \<Rightarrow> True | Some k \<Rightarrow> it_channel_id i = k) (thread_rows d)"
  unfolding ui_thread_rows_def thread_rows_def rev_filter [symmetric] filter_sort ..

text \<open>The entries of the timeline whose representative is from the selected channel.\<close>

definition selected_timeline :: "int option \<Rightarrow> db \<Rightarrow> thread_entry list" where
  "selected_timeline sel d =
     filter (\<lambda>t. case sel of None \<Rightarrow> True | Some k \<Rightarrow> te_channel_id t = k) (map (thread_entry_of d) (thread_rows d))"

lemma selected_timeline_eq: "selected_timeline sel d = map (thread_entry_of d) (ui_thread_rows sel d)"
proof -
  have "te_channel_id (thread_entry_of d g) = it_channel_id (fst (snd g))" if "g \<in> set (thread_rows d)" for g
  proof -
    obtain c i ch where g: "g = (c, i, ch)" by (cases g)
    with that have "(c, i, ch) \<in> set (thread_groups d)" by (simp add: thread_rows_def)
    from thread_groups_member(5) [OF this] show ?thesis by (simp add: g thread_entry_of_def)
  qed
  then show ?thesis
    by (auto simp: selected_timeline_def ui_thread_rows_eq filter_map comp_def split: option.split
        intro!: arg_cong [where f = "map (thread_entry_of d)"] filter_cong)
qed

lemma res_map_all2:
  "(\<And>x. x \<in> set xs \<Longrightarrow> \<exists>y. f x = Inr y \<and> R y (g x)) \<Longrightarrow> \<exists>ys. res_map f xs = Inr ys \<and> list_all2 R ys (map g xs)"
proof (induction xs)
  case (Cons x xs)
  then obtain y ys where "f x = Inr y" "R y (g x)" "res_map f xs = Inr ys" "list_all2 R ys (map g xs)"
    by (metis list.set_intros(1) list.set_intros(2))
  then show ?case by (intro exI [of _ "y # ys"]) simp
qed simp

lemma load_thread_entries_page:
  assumes "store_ok d" and "1 \<le> p" and "1 \<le> s"
  shows "\<exists>entries. load_thread_entries p s sel d =
      Inr (entries, p * s < int (length (selected_timeline sel d))) \<and>
    list_all2 (shows_entry d) entries (take (nat s) (drop (nat ((p - 1) * s)) (selected_timeline sel d)))"
proof -
  let ?rows = "drop (nat ((p - 1) * s)) (ui_thread_rows sel d)"
  have "set (take (nat s) ?rows) \<subseteq> set (thread_groups d)"
    using set_take_subset [of "nat s" ?rows] set_drop_subset [of "nat ((p - 1) * s)" "ui_thread_rows sel d"]
    by (auto simp: ui_thread_rows_def)
  then have "\<exists>entries. res_map (\<lambda>g. decode_ui_thread_entry_row (ui_thread_columns d g)) (take (nat s) ?rows) = Inr entries \<and>
      list_all2 (shows_entry d) entries (map (thread_entry_of d) (take (nat s) ?rows))"
    using decode_ui_thread_columns [OF assms(1)] by (intro res_map_all2) (auto dest!: subsetD)
  moreover have "take (nat s) (take (nat (s + 1)) ?rows) = take (nat s) ?rows"
    using assms(3) by (simp add: min_def)
  moreover have "int (length (take (nat (s + 1)) ?rows)) > s \<longleftrightarrow> p * s < int (length (selected_timeline sel d))"
  proof -
    define k where "k = nat ((p - 1) * s)"
    have "int k = p * s - s" using assms by (simp add: k_def algebra_simps)
    moreover have "int (length (take (nat (s + 1)) ?rows)) > s \<longleftrightarrow> int (length (ui_thread_rows sel d) - k) > s"
      using assms(3) by (simp add: min_def flip: k_def) linarith
    ultimately show ?thesis using assms(3) by (simp add: selected_timeline_eq) linarith
  qed
  ultimately show ?thesis
    by (auto simp: load_thread_entries_def Let_def selected_timeline_eq take_map drop_map)
qed

lemma res_map_answers: "(\<And>x. x \<in> set xs \<Longrightarrow> \<exists>y. f x = Inr y) \<Longrightarrow> \<exists>ys. res_map f xs = Inr ys"
proof (induction xs)
  case (Cons x xs)
  then obtain y ys where "f x = Inr y" "res_map f xs = Inr ys" by (metis list.set_intros)
  then show ?case by simp
qed simp

lemma load_channels_groups_data_ok: "\<exists>v. load_channels_groups_data d = Inr v"
proof -
  have opt: "coerce_opt_with (exact_int e) (opt_obj (\<lambda>m. PInt (f m)) x) = Inr (map_option f x)" for e f x
    by (cases x) simp_all
  have "\<exists>cs. res_map decode_ui_channel_row (ui_channel_rows d) = Inr cs"
    by (rule res_map_answers) (auto simp: ui_channel_rows_def decode_ui_channel_row_def row_get_def channel_columns_def
        require_int_field_def require_text_field_def ui_opt_text_def ui_opt_int_def opt)
  moreover have "\<exists>gs. res_map decode_ui_group_row (ui_group_rows d) = Inr gs"
    by (rule res_map_answers) (auto simp: ui_group_rows_def decode_ui_group_row_def row_get_def group_columns_def
        require_int_field_def require_text_field_def ui_opt_text_def ui_opt_int_def opt)
  moreover have "\<exists>a. one_or_none (take 1 (sort (map acc_id (accounts d)))) = Inr a"
    by (cases "sort (map acc_id (accounts d))") auto
  ultimately show ?thesis by (auto simp: load_channels_groups_data_def)
qed

lemma render_channels_groups_ok:
  "\<exists>cs gs a. render_channels_groups_view code message d = (Inr (ChannelsGroupsPage code message cs gs a), d)"
  using load_channels_groups_data_ok [of d]
  by (auto simp: render_channels_groups_view_def act_bind_def act_read_def act_return_def)

lemma load_thread_decisions_ok: "\<exists>rows. load_thread_decisions_for_item sel d = Inr rows"
proof (cases sel)
  case (Some item)
  have "\<exists>y. decode_ui_thread_decision_row (decision_columns r) (dec_metadata_json r) = Inr y" for r
    by (cases "dec_score r") (simp_all add: decode_ui_thread_decision_row_def decision_columns_def row_get_def
        ui_opt_int_def ui_opt_text_def require_int_field_def require_text_field_def dt_obj_def)
  with Some show ?thesis by (simp add: load_thread_decisions_for_item_def res_map_answers)
qed (simp add: load_thread_decisions_for_item_def)

lemma load_thread_filter_channels_eq:
  "load_thread_filter_channels d = Inr (map (\<lambda>r. (ch_id r, ch_name r)) (sort_key (\<lambda>r. (ch_name r, ch_id r)) (channels d)))"
  unfolding load_thread_filter_channels_def
  by (rule res_map_total) (simp add: require_int_field_def require_text_field_def row_get_def)

text \<open>
  C29. The thread page of the user interface agrees with the thread route of the API. On a store that
  satisfies its invariant, a request whose page, size (at most 100), channel and item parameters
  parse is answered 200 and changes nothing. Its entries show, one for one, the requested cut of
  the timeline, restricted to the selected channel where one is given: the same cluster,
  representative and duplicate count, and as sources the trimmed comma-separated parts of the names
  of the members' channels, sorted and without repetition. A next page is announced exactly when the
  timeline goes on. Without a channel filter the cut is what the API answers for that page.
\<close>

theorem ui_thread_page_agrees_with_api:
  assumes "store_ok d" and "positive_ids d"
    and "parse_int (py_strip (param_get params ''page'' ''1'')) = Some p" and "1 \<le> p"
    and "parse_int (py_strip (param_get params ''size'' ''20'')) = Some s" and "1 \<le> s" and "s \<le> 100"
    and "parse_optional_int (py_strip (param_get params ''channel_id'' [])) = Inr sel"
    and "parse_optional_int (py_strip (param_get params ''selected_item_id'' [])) = Inr item"
  defines "page_cut \<equiv> take (nat s) (drop (nat ((p - 1) * s)) (selected_timeline sel d))"
  shows "\<exists>entries chans decs.
    get_thread_view params d =
      (Inr (ThreadPage 200 None
         \<lparr> uv_page = p, uv_size = s, uv_selected_channel_id = sel, uv_selected_item_id = item \<rparr>
         entries (p * s < int (length (selected_timeline sel d))) chans decs), d) \<and>
    list_all2 (shows_entry d) entries page_cut \<and> (sel = None \<longrightarrow> list_thread_entries p s d = Inr page_cut)"
proof -
  obtain entries where entries: "load_thread_entries p s sel d = Inr (entries, p * s < int (length (selected_timeline sel d)))"
      "list_all2 (shows_entry d) entries page_cut"
    using load_thread_entries_page [OF assms(1,4,6)] unfolding page_cut_def by blast
  obtain decs where decs: "load_thread_decisions_for_item item d = Inr decs"
    using load_thread_decisions_ok by blast
  have texts: "int_text DEFAULT_THREAD_PAGE = ''1''" "int_text DEFAULT_THREAD_PAGE_SIZE = ''20''" by code_simp+
  have "get_thread_view params d =
      (Inr (ThreadPage 200 None
         \<lparr> uv_page = p, uv_size = s, uv_selected_channel_id = sel, uv_selected_item_id = item \<rparr> entries
         (p * s < int (length (selected_timeline sel d)))
         (map (\<lambda>r. (ch_id r, ch_name r)) (sort_key (\<lambda>r. (ch_name r, ch_id r)) (channels d))) decs), d)"
    using assms(3-9)
    by (simp add: get_thread_view_def texts MAX_THREAD_PAGE_SIZE_def render_thread_view_def act_read_def
        entries(1) decs load_thread_filter_channels_eq)
  moreover have "list_thread_entries p s d = Inr page_cut" if "sel = None"
    using list_thread_entries_page [OF assms(1,2) _ assms(4)] assms(6)
    by (simp add: page_cut_def selected_timeline_def that)
  ultimately show ?thesis using entries(2) by blast
qed

theorem ui_thread_page_agrees_with_api_witness:
  "\<exists>entries chans decs.
    get_thread_view Map.empty sample_db =
      (Inr (ThreadPage 200 None
         \<lparr> uv_page = 1, uv_size = 20, uv_selected_channel_id = None, uv_selected_item_id = None \<rparr>
         entries False chans decs), sample_db) \<and>
    map ue_cluster_id entries = [2, 1] \<and> map ue_duplicate_count entries = [2, 1]"
proof -
  have "positive_ids sample_db" by code_simp
  moreover have "parse_int (py_strip (param_get Map.empty ''page'' ''1'')) = Some 1"
    "parse_int (py_strip (param_get Map.empty ''size'' ''20'')) = Some 20"
    "parse_optional_int (py_strip (param_get Map.empty ''channel_id'' [])) = Inr None"
    "parse_optional_int (py_strip (param_get Map.empty ''selected_item_id'' [])) = Inr None" by code_simp+
  ultimately obtain entries chans decs where
    page: "get_thread_view Map.empty sample_db =
      (Inr (ThreadPage 200 None
         \<lparr> uv_page = 1, uv_size = 20, uv_selected_channel_id = None, uv_selected_item_id = None \<rparr>
         entries (1 * 20 < int (length (selected_timeline None sample_db))) chans decs), sample_db)"
    and rel: "list_all2 (shows_entry sample_db) entries (take (nat 20) (drop (nat ((1 - 1) * 20)) (selected_timeline None sample_db)))"
    using ui_thread_page_agrees_with_api [of sample_db Map.empty 1 20 None None] sample_db_ok by auto
  have "\<not> 1 * 20 < int (length (selected_timeline None sample_db))"
    "map te_cluster_id (take (nat 20) (drop (nat ((1 - 1) * 20)) (selected_timeline None sample_db))) = [2, 1]"
    "map te_duplicate_count (take (nat 20) (drop (nat ((1 - 1) * 20)) (selected_timeline None sample_db))) = [2, 1]"
    by code_simp+
  moreover have "map ue_cluster_id entries = map te_cluster_id (take (nat 20) (drop (nat ((1 - 1) * 20)) (selected_timeline None sample_db)))"
    "map ue_duplicate_count entries = map te_duplicate_count (take (nat 20) (drop (nat ((1 - 1) * 20)) (selected_timeline None sample_db)))"
    using rel by (auto simp: list_all2_conv_all_nth shows_entry_def intro!: nth_equalityI)
  ultimately show ?thesis using page by auto
qed

end
