(* ===== verification/Ui_Forms.thy ===== *)
theory Ui_Forms
  imports Ui_Views
begin

text \<open>
  The write side of \<open>tca/ui/routes.py\<close>: the form handlers for notifications, channels and groups.
  A form is its parsed dictionary (\<open>parse_qs\<close> of the body, the last value of each key). Lemmas:
  what each handler answers and what it changes; creating a group and assigning a channel to a
  group are all or nothing; a group that holds several channels cannot be assigned through a form.
\<close>

section \<open>Forms\<close>

type_synonym form = "string \<Rightarrow> string option"

definition form_text :: "form \<Rightarrow> string \<Rightarrow> string" where
  "form_text form k = py_strip (case form k of None \<Rightarrow> [] | Some v \<Rightarrow> v)"

definition text_or_none :: "string \<Rightarrow> string option" where
  "text_or_none s = (if s = [] then None else Some s)"

abbreviation quoted :: "int \<Rightarrow> string" where
  "quoted i \<equiv> CHR 0x27 # int_text i @ [CHR 0x27]"

record ui_group_form =
  gf_name :: string
  gf_description :: "string option"
  gf_horizon :: "int option"
  gf_channel_id :: "int option"

definition parse_channel_assignment :: "form \<Rightarrow> unit + int option" where
  "parse_channel_assignment form = parse_optional_int (form_text form ''channel_id'')"

text \<open>\<open>Inl\<close> is the error message.\<close>

definition parse_group_form_values :: "form \<Rightarrow> bool \<Rightarrow> string + ui_group_form" where
  "parse_group_form_values form include_channel =
     (let name = form_text form ''name'' in
      if name = [] then Inl ''Group name cannot be empty.''
      else
        case parse_optional_int (form_text form ''dedupe_horizon_minutes_override'') of
          Inl _ \<Rightarrow> Inl ''Group horizon override must be an integer.''
        | Inr horizon \<Rightarrow>
            (case (if include_channel then parse_channel_assignment form else Inr None) of
               Inl _ \<Rightarrow> Inl ''Group channel assignment must be an integer.''
             | Inr channel_id \<Rightarrow>
                 Inr \<lparr> gf_name = name, gf_description = text_or_none (form_text form ''description''),
                       gf_horizon = horizon, gf_channel_id = channel_id \<rparr>))"

section \<open>Constraint failures\<close>

text \<open>\<open>pattern in text\<close>.\<close>

fun has_text :: "string \<Rightarrow> string \<Rightarrow> bool" where
  "has_text pat [] = (pat = [])"
| "has_text pat (c # cs) = (take (length pat) (c # cs) = pat \<or> has_text pat cs)"

definition normalized_integrity_message :: "exn \<Rightarrow> string" where
  "normalized_integrity_message e = py_lower (exn_message e)"

definition is_duplicate_channel_integrity_error :: "exn \<Rightarrow> bool" where
  "is_duplicate_channel_integrity_error e =
     (let message = normalized_integrity_message e in
      has_text ''uq_telegram_channels_telegram_channel_id'' message \<or>
      (has_text ''unique constraint failed'' message \<and> has_text ''telegram_channels.telegram_channel_id'' message))"

definition is_channel_account_fk_integrity_error :: "exn \<Rightarrow> bool" where
  "is_channel_account_fk_integrity_error e =
     (let message = normalized_integrity_message e in
      has_text ''fk_telegram_channels_account_id'' message \<or> has_text ''foreign key constraint failed'' message)"

definition is_membership_channel_fk_integrity_error :: "exn \<Rightarrow> bool" where
  "is_membership_channel_fk_integrity_error e =
     (let message = normalized_integrity_message e in
      has_text ''fk_channel_group_members_channel_id'' message \<or> has_text ''foreign key constraint failed'' message)"

abbreviation is_integrity_error :: "exn \<Rightarrow> bool" where
  "is_integrity_error e \<equiv> exn_class e = ''IntegrityError''"

abbreviation is_assigned_error :: "exn \<Rightarrow> bool" where
  "is_assigned_error e \<equiv> exn_class e = ''ChannelAlreadyAssignedToGroupError''"

section \<open>Notifications and channels\<close>

definition post_acknowledge_notification :: "int \<Rightarrow> (db, ui_answer) act" where
  "post_acknowledge_notification notification_id =
     act_bind (acknowledge notification_id) (\<lambda>acknowledged.
       case acknowledged of
         None \<Rightarrow> render_notifications_view 404
           (Some (''Notification '' @ quoted notification_id @ '' was not found.''))
       | Some _ \<Rightarrow> act_return (RedirectTo ''/ui/notifications'' 303))"

abbreviation back_to_channels :: ui_answer where
  "back_to_channels \<equiv> RedirectTo ''/ui/channels-groups'' 303"

definition post_create_channel :: "form \<Rightarrow> (db, ui_answer) act" where
  "post_create_channel form =
     (let name = form_text form ''name''; username_raw = form_text form ''username'' in
      case (parse_int (form_text form ''account_id''), parse_int (form_text form ''telegram_channel_id'')) of
        (Some account_id, Some telegram_channel_id) \<Rightarrow>
          if name = []
          then render_channels_groups_view 400 (Some ''Channel create requires account, channel id, and name.'')
          else
            act_catch
              (act_bind (create_channel account_id telegram_channel_id name (text_or_none username_raw)) (\<lambda>_.
                 act_return back_to_channels))
              (\<lambda>e.
                 if is_integrity_error e \<and> is_duplicate_channel_integrity_error e
                 then render_channels_groups_view 409 (Some ''Channel create conflict: duplicate telegram channel id.'')
                 else if is_integrity_error e \<and> is_channel_account_fk_integrity_error e
                 then render_channels_groups_view 404 (Some (''Account '' @ quoted account_id @ '' was not found.''))
                 else act_raise e)
      | _ \<Rightarrow> render_channels_groups_view 400 (Some ''Channel create requires account, channel id, and name.''))"

definition channel_missing_page :: "int \<Rightarrow> (db, ui_answer) act" where
  "channel_missing_page channel_id =
     render_channels_groups_view 404 (Some (''Channel '' @ quoted channel_id @ '' was not found.''))"

definition post_edit_channel :: "int \<Rightarrow> form \<Rightarrow> (db, ui_answer) act" where
  "post_edit_channel channel_id form =
     (let name = form_text form ''name''; username_raw = form_text form ''username'' in
      if name = [] then render_channels_groups_view 400 (Some ''Channel name cannot be empty.'')
      else
        act_bind
          (act_bind (act_read (get_channel_by_id channel_id)) (\<lambda>current.
             case current of
               None \<Rightarrow> act_return False
             | Some c \<Rightarrow>
                 act_bind (update_channel channel_id name (text_or_none username_raw) (cr_is_enabled c))
                   (\<lambda>updated. act_return (updated \<noteq> None))))
          (\<lambda>updated. if updated then act_return back_to_channels else channel_missing_page channel_id))"

definition post_disable_channel :: "int \<Rightarrow> (db, ui_answer) act" where
  "post_disable_channel channel_id =
     act_bind (disable_channel channel_id) (\<lambda>disabled.
       if disabled = None then channel_missing_page channel_id else act_return back_to_channels)"

section \<open>Groups\<close>

definition create_group_from_form_values :: "ui_group_form \<Rightarrow> (db, bool) act" where
  "create_group_from_form_values values =
     (case gf_channel_id values of
        None \<Rightarrow> act_bind (create_group (gf_name values) (gf_description values) (gf_horizon values)) (\<lambda>_. act_return True)
      | Some channel_id \<Rightarrow>
          act_bind (act_read (get_channel_by_id channel_id)) (\<lambda>channel.
          if channel = None then act_return False else
          act_bind (act_read (get_membership_by_channel_id channel_id)) (\<lambda>membership.
          if membership \<noteq> None then act_raise ChannelAlreadyAssignedToGroupError else
          act_bind (create_group (gf_name values) (gf_description values) (gf_horizon values)) (\<lambda>created.
            act_catch
              (act_bind (add_channel_membership (gd_id created) channel_id) (\<lambda>_. act_return True))
              (\<lambda>e.
                 if is_integrity_error e
                 then act_bind (delete_group (gd_id created)) (\<lambda>_.
                   if is_membership_channel_fk_integrity_error e then act_return False else act_raise e)
                 else if is_assigned_error e
                 then act_bind (delete_group (gd_id created)) (\<lambda>_. act_raise e)
                 else act_raise e)))))"

text \<open>The \<open>except\<close> clause for a channel that is in another group, in both group handlers.\<close>

definition assigned_to_409 :: "exn \<Rightarrow> (db, ui_answer) act" where
  "assigned_to_409 e =
     (if is_assigned_error e then render_channels_groups_view 409 (Some (exn_message e)) else act_raise e)"

definition post_create_group :: "form \<Rightarrow> (db, ui_answer) act" where
  "post_create_group form =
     (case parse_group_form_values form True of
        Inl message \<Rightarrow> render_channels_groups_view 400 (Some message)
      | Inr values \<Rightarrow>
          (\<lambda>d. case create_group_from_form_values values d of
             (Inl e, d') \<Rightarrow> assigned_to_409 e d'
           | (Inr created, d') \<Rightarrow>
               (if created then act_return back_to_channels
                else render_channels_groups_view 404 (Some ''Assigned channel was not found.'')) d'))"

definition post_edit_group :: "int \<Rightarrow> form \<Rightarrow> (db, ui_answer) act" where
  "post_edit_group group_id form =
     (case parse_group_form_values form False of
        Inl message \<Rightarrow> render_channels_groups_view 400 (Some message)
      | Inr values \<Rightarrow>
          act_bind (update_group group_id (gf_name values) (gf_description values) (gf_horizon values)) (\<lambda>updated.
            if updated = None
            then render_channels_groups_view 404 (Some (''Channel group '' @ quoted group_id @ '' was not found.''))
            else act_return back_to_channels))"

text \<open>\<open>scalar_one_or_none\<close> raises when the group has more than one member.\<close>

definition get_group_channel_assignment :: "int \<Rightarrow> db \<Rightarrow> int option res" where
  "get_group_channel_assignment group_id d =
     one_or_none (map gm_channel_id (filter (\<lambda>m. gm_group_id m = group_id) (group_members d)))"

definition assign_group_channel_membership :: "int \<Rightarrow> int option \<Rightarrow> (db, bool) act" where
  "assign_group_channel_membership group_id desired_channel_id =
     act_bind (act_read (get_group_by_id group_id)) (\<lambda>group.
     if group = None then act_return False else
     act_bind (act_read (get_group_channel_assignment group_id)) (\<lambda>current_channel_id.
     case desired_channel_id of
       None \<Rightarrow>
         (case current_channel_id of
            None \<Rightarrow> act_return True
          | Some current \<Rightarrow> act_bind (remove_channel_membership group_id current) (\<lambda>_. act_return True))
     | Some desired \<Rightarrow>
         act_bind (act_read (get_channel_by_id desired)) (\<lambda>channel.
         if channel = None then act_return False else
         act_bind (act_read (get_membership_by_channel_id desired)) (\<lambda>membership.
         if (case membership of None \<Rightarrow> False | Some m \<Rightarrow> ms_group_id m \<noteq> group_id)
         then act_raise ChannelAlreadyAssignedToGroupError
         else if current_channel_id = Some desired then act_return True
         else
           act_bind
             (case current_channel_id of
                None \<Rightarrow> act_return ()
              | Some current \<Rightarrow> act_bind (remove_channel_membership group_id current) (\<lambda>_. act_return ())) (\<lambda>_.
           act_catch
             (act_bind (add_channel_membership group_id desired) (\<lambda>_. act_return True))
             (\<lambda>e.
                if is_assigned_error e \<or> is_integrity_error e
                then
                  act_bind
                    (case current_channel_id of
                       None \<Rightarrow> act_return ()
                     | Some current \<Rightarrow> act_bind (add_channel_membership group_id current) (\<lambda>_. act_return ()))
                    (\<lambda>_. act_raise e)
                else act_raise e))))))"

definition post_assign_group_channel :: "int \<Rightarrow> form \<Rightarrow> (db, ui_answer) act" where
  "post_assign_group_channel group_id form =
     (case parse_channel_assignment form of
        Inl _ \<Rightarrow> render_channels_groups_view 400 (Some ''Group channel assignment must be an integer.'')
      | Inr channel_id \<Rightarrow>
          (\<lambda>d. case assign_group_channel_membership group_id channel_id d of
             (Inl e, d') \<Rightarrow> assigned_to_409 e d'
           | (Inr assigned, d') \<Rightarrow>
               (if assigned then act_return back_to_channels
                else render_channels_groups_view 404 (Some ''Requested group or channel was not found.'')) d'))"

section \<open>Assigning a channel to a group\<close>

text \<open>The channels of a group.\<close>

definition channels_of_group :: "db \<Rightarrow> int \<Rightarrow> int set" where
  "channels_of_group d g = {c. group_of d c = Some g}"

lemma group_channels:
  assumes "db_ok d"
  shows "set (map gm_channel_id (filter (\<lambda>m. gm_group_id m = g) (group_members d))) = channels_of_group d g"
    and "length (filter (\<lambda>m. gm_group_id m = g) (group_members d)) = card (channels_of_group d g)"
proof -
  have dist: "distinct (map gm_channel_id (group_members d))" using assms by (simp add: db_ok_defs pk_def)
  show eq: "set (map gm_channel_id (filter (\<lambda>m. gm_group_id m = g) (group_members d))) = channels_of_group d g"
    using find_key_in [OF dist] find_key_Some
    by (fastforce simp: channels_of_group_def group_of_def)
  have "distinct (map gm_channel_id (filter (\<lambda>m. gm_group_id m = g) (group_members d)))"
    using dist by (simp add: distinct_map_filter)
  from distinct_card [OF this] show
    "length (filter (\<lambda>m. gm_group_id m = g) (group_members d)) = card (channels_of_group d g)"
    unfolding eq by simp
qed

lemma group_assignment_cases:
  assumes "db_ok d"
  obtains (several) "get_group_channel_assignment g d = Inl (Exn ''MultipleResultsFound'' [])" "card (channels_of_group d g) > 1"
  | (none) "get_group_channel_assignment g d = Inr None" "channels_of_group d g = {}" "card (channels_of_group d g) = 0"
  | (one) c where "get_group_channel_assignment g d = Inr (Some c)" "channels_of_group d g = {c}" "card (channels_of_group d g) = 1"
proof -
  let ?ms = "map gm_channel_id (filter (\<lambda>m. gm_group_id m = g) (group_members d))"
  have facts: "set ?ms = channels_of_group d g" "length ?ms = card (channels_of_group d g)"
    using group_channels [OF assms, of g] by simp_all
  show thesis
  proof (cases ?ms rule: one_or_none.cases)
    case 1
    then show thesis using none facts by (simp add: get_group_channel_assignment_def)
  next
    case (2 c)
    then show thesis using one [of c] facts by (simp add: get_group_channel_assignment_def)
  next
    case (3 c c' cs)
    then show thesis using several facts by (simp add: get_group_channel_assignment_def)
  qed
qed

lemma membership_kept_ids [simp]:
  "group_ids (without_membership g c d) = group_ids d" "channel_ids (without_membership g c d) = channel_ids d"
  "group_ids (with_membership g c d) = group_ids d" "channel_ids (with_membership g c d) = channel_ids d"
  by (simp_all add: without_membership_def with_membership_def)

text \<open>The database without the channel that the group had.\<close>

definition cleared :: "int \<Rightarrow> int option \<Rightarrow> db \<Rightarrow> db" where
  "cleared g current d = (case current of None \<Rightarrow> d | Some c \<Rightarrow> without_membership g c d)"

lemma cleared_facts:
  assumes "db_ok d" and "channels_of_group d g = set_option current"
  shows "db_ok (cleared g current d)"
    and "group_of (cleared g current d) = (\<lambda>c. if group_of d c = Some g then None else group_of d c)"
    and "group_ids (cleared g current d) = group_ids d" and "channel_ids (cleared g current d) = channel_ids d"
proof -
  have "db_ok (cleared g current d) \<and>
      group_of (cleared g current d) = (\<lambda>c. if group_of d c = Some g then None else group_of d c)"
  proof (cases current)
    case None
    then have "group_of d c \<noteq> Some g" for c using assms(2) by (auto simp: channels_of_group_def)
    with None assms(1) show ?thesis by (auto simp: cleared_def)
  next
    case (Some x)
    then have "group_of d c = Some g \<longleftrightarrow> c = x" for c using assms(2) by (auto simp: channels_of_group_def)
    with Some without_membership_facts [OF assms(1), of x g] show ?thesis by (auto simp: cleared_def fun_eq_iff)
  qed
  then show "db_ok (cleared g current d)"
    "group_of (cleared g current d) = (\<lambda>c. if group_of d c = Some g then None else group_of d c)" by simp_all
  show "group_ids (cleared g current d) = group_ids d" "channel_ids (cleared g current d) = channel_ids d"
    by (simp_all add: cleared_def split: option.split)
qed

lemma clear_step:
  assumes "db_ok d"
  shows "(case current of None \<Rightarrow> act_return ()
      | Some c \<Rightarrow> act_bind (remove_channel_membership g c) (\<lambda>_. act_return ())) d = (Inr (), cleared g current d)"
  using remove_membership_eq [OF assms, of g "the current"]
  by (auto simp: cleared_def act_return_def act_bind_def split: option.split)

lemma found_reads:
  assumes "db_ok d"
  shows "g \<in> group_ids d \<Longrightarrow> \<exists>r. get_group_by_id g d = Inr (Some r)"
    and "g \<notin> group_ids d \<Longrightarrow> get_group_by_id g d = Inr None"
    and "c \<in> channel_ids d \<Longrightarrow> \<exists>r. get_channel_by_id c d = Inr (Some r)"
    and "c \<notin> channel_ids d \<Longrightarrow> get_channel_by_id c d = Inr None"
  by (simp_all add: get_group_by_id_eq [OF assms] get_channel_by_id_eq [OF assms] find_key_None
      not_None_eq [symmetric] del: not_None_eq)

lemma assign_outcomes:
  assumes ok: "db_ok d" and g: "g \<in> group_ids d" and current: "get_group_channel_assignment g d = Inr current"
    and chs: "channels_of_group d g = set_option current"
  shows "assign_group_channel_membership g None d = (Inr True, cleared g current d)"
    and "c \<notin> channel_ids d \<Longrightarrow> assign_group_channel_membership g (Some c) d = (Inr False, d)"
    and "c \<in> channel_ids d \<Longrightarrow> group_of d c = Some g' \<Longrightarrow> g' \<noteq> g \<Longrightarrow>
      assign_group_channel_membership g (Some c) d = (Inl ChannelAlreadyAssignedToGroupError, d)"
    and "c \<in> channel_ids d \<Longrightarrow> group_of d c = Some g \<Longrightarrow> assign_group_channel_membership g (Some c) d = (Inr True, d)"
    and "c \<in> channel_ids d \<Longrightarrow> group_of d c = None \<Longrightarrow>
      assign_group_channel_membership g (Some c) d = (Inr True, with_membership g c (cleared g current d))"
proof -
  obtain group where "get_group_by_id g d = Inr (Some group)" using found_reads(1) [OF ok g] by blast
  note start = assign_group_channel_membership_def act_bind_def act_read_def act_return_def act_raise_def this current
  show "assign_group_channel_membership g None d = (Inr True, cleared g current d)"
    using remove_membership_eq [OF ok, of g "the current"] by (auto simp: start cleared_def split: option.split)
  show "c \<notin> channel_ids d \<Longrightarrow> assign_group_channel_membership g (Some c) d = (Inr False, d)"
    by (simp add: start found_reads(4) [OF ok])
  assume "c \<in> channel_ids d"
  then obtain ch where ch: "get_channel_by_id c d = Inr (Some ch)" using found_reads(3) [OF ok] by blast
  show "group_of d c = Some g' \<Longrightarrow> g' \<noteq> g \<Longrightarrow>
      assign_group_channel_membership g (Some c) d = (Inl ChannelAlreadyAssignedToGroupError, d)"
    by (simp add: start ch get_membership_eq [OF ok])
  show "assign_group_channel_membership g (Some c) d = (Inr True, d)" if "group_of d c = Some g"
  proof -
    have "c \<in> set_option current" using that by (simp add: channels_of_group_def flip: chs)
    then have "current = Some c" by simp
    with that show ?thesis by (simp add: start ch get_membership_eq [OF ok])
  qed
  show "assign_group_channel_membership g (Some c) d = (Inr True, with_membership g c (cleared g current d))"
    if "group_of d c = None"
  proof -
    have "c \<notin> channels_of_group d g" using that by (simp add: channels_of_group_def)
    then have "current \<noteq> Some c" unfolding chs by auto
    moreover have "add_channel_membership g c (cleared g current d) =
        (Inr \<lparr> ms_group_id = g, ms_channel_id = c \<rparr>, with_membership g c (cleared g current d))"
      using that g \<open>c \<in> channel_ids d\<close> by (intro add_membership_eq) (simp_all add: cleared_facts [OF ok chs])
    ultimately show ?thesis
      using that clear_step [OF ok, where current = current and g = g]
      by (simp add: start act_catch_def ch get_membership_eq [OF ok])
  qed
qed

text \<open>The groups of the channels when the group is to have exactly the wanted channel.\<close>

definition chosen_groups :: "db \<Rightarrow> int \<Rightarrow> int option \<Rightarrow> int \<Rightarrow> int option" where
  "chosen_groups d g want c =
     (if want = Some c then Some g else if group_of d c = Some g then None else group_of d c)"

definition reassigned :: "db \<Rightarrow> int \<Rightarrow> int option \<Rightarrow> db \<Rightarrow> bool" where
  "reassigned d g want t \<longleftrightarrow>
     db_ok t \<and> t = d\<lparr> group_members := group_members t \<rparr> \<and> group_of t = chosen_groups d g want"

lemma reassigned_by_membership:
  assumes ok: "db_ok d" and chs: "channels_of_group d g = set_option current"
  shows "reassigned d g None (cleared g current d)"
    and "g \<in> group_ids d \<Longrightarrow> c \<in> channel_ids d \<Longrightarrow> group_of d c = None \<Longrightarrow>
      reassigned d g (Some c) (with_membership g c (cleared g current d))"
    and "group_of d c = Some g \<Longrightarrow> reassigned d g (Some c) d"
proof -
  note facts = cleared_facts [OF ok chs]
  have frame: "cleared g current d = d\<lparr> group_members := group_members (cleared g current d) \<rparr>"
    by (simp add: cleared_def without_membership_def split: option.split)
  show "reassigned d g None (cleared g current d)"
    using facts frame by (simp add: reassigned_def chosen_groups_def fun_eq_iff)
  show "reassigned d g (Some c) (with_membership g c (cleared g current d))"
    if "g \<in> group_ids d" "c \<in> channel_ids d" "group_of d c = None"
  proof -
    have "db_ok (with_membership g c (cleared g current d))"
      "group_of (with_membership g c (cleared g current d)) = (group_of (cleared g current d))(c \<mapsto> g)"
      using with_membership_facts [OF facts(1), of g c] facts that by simp_all
    moreover have "with_membership g c (cleared g current d) =
        d\<lparr> group_members := group_members (with_membership g c (cleared g current d)) \<rparr>"
      by (subst (1) frame) (simp add: with_membership_def cleared_def without_membership_def split: option.split)
    ultimately show ?thesis by (auto simp: reassigned_def chosen_groups_def facts(2) fun_eq_iff)
  qed
  assume c: "group_of d c = Some g"
  then have "c \<in> set_option current" by (simp add: channels_of_group_def flip: chs)
  then have "channels_of_group d g = {c}" using chs by simp
  then have "group_of d x = Some g \<longleftrightarrow> x = c" for x by (auto simp: channels_of_group_def)
  with c ok show "reassigned d g (Some c) d" by (auto simp: reassigned_def chosen_groups_def fun_eq_iff)
qed

lemma assign_run:
  fixes want :: "int option"
  assumes ok: "db_ok d" and g: "g \<in> group_ids d" and few: "card (channels_of_group d g) \<le> 1"
  defines "run \<equiv> assign_group_channel_membership g want d"
  shows "case want of
      None \<Rightarrow> \<exists>t. run = (Inr True, t) \<and> reassigned d g want t
    | Some c \<Rightarrow>
        if c \<notin> channel_ids d then run = (Inr False, d)
        else if group_of d c \<notin> {None, Some g} then run = (Inl ChannelAlreadyAssignedToGroupError, d)
        else \<exists>t. run = (Inr True, t) \<and> reassigned d g want t"
proof -
  obtain current where current: "get_group_channel_assignment g d = Inr current" "channels_of_group d g = set_option current"
    using few by (cases rule: group_assignment_cases [OF ok, of g]) auto
  note outcomes = assign_outcomes [OF ok g current] and states = reassigned_by_membership [OF ok current(2)]
  show ?thesis
  proof (cases want)
    case None
    then show ?thesis using outcomes(1) states(1) by (simp add: run_def)
  next
    case (Some c)
    consider "c \<notin> channel_ids d" | g' where "c \<in> channel_ids d" "group_of d c = Some g'" "g' \<noteq> g"
      | "c \<in> channel_ids d" "group_of d c = Some g" | "c \<in> channel_ids d" "group_of d c = None"
      by (cases "group_of d c") auto
    then show ?thesis
      using outcomes(2-5) states(2,3) g by cases (simp_all add: run_def Some)
  qed
qed

section \<open>Creating a group\<close>

definition with_group :: "string \<Rightarrow> string option \<Rightarrow> int option \<Rightarrow> db \<Rightarrow> db" where
  "with_group name description horizon d =
     d\<lparr> channel_groups := channel_groups d @
          [\<lparr> gr_id = sql_next_id (map gr_id (channel_groups d)), gr_name = name, gr_description = description,
             gr_horizon_override = horizon, gr_created_at = current_timestamp d,
             gr_updated_at = current_timestamp d \<rparr>] \<rparr>"

lemma create_group_eq:
  "create_group name description horizon d =
   (Inr \<lparr> gd_id = sql_next_id (map gr_id (channel_groups d)), gd_name = name, gd_description = description,
          gd_horizon_override = horizon \<rparr>, with_group name description horizon d)"
  by (simp add: create_group_def act_bind_def transaction_def act_lift_def Let_def with_group_def group_record_of_def)

lemma with_group_facts:
  assumes "db_ok d"
  defines "new \<equiv> sql_next_id (map gr_id (channel_groups d))"
  shows "db_ok (with_group name description horizon d)" and "new \<notin> group_ids d"
    and "group_ids (with_group name description horizon d) = insert new (group_ids d)"
    and "group_of (with_group name description horizon d) = group_of d"
    and "channel_ids (with_group name description horizon d) = channel_ids d"
proof -
  show fresh: "new \<notin> group_ids d"
    using sql_next_id_greater [of _ "map gr_id (channel_groups d)"] by (auto simp: new_def)
  show ids: "group_ids (with_group name description horizon d) = insert new (group_ids d)"
    by (simp add: with_group_def new_def)
  show "db_ok (with_group name description horizon d)"
    using assms(1) fresh by (auto simp: with_group_def db_ok_defs table_simps fk_def simp flip: new_def)
  show "group_of (with_group name description horizon d) = group_of d"
    "channel_ids (with_group name description horizon d) = channel_ids d"
    by (simp_all add: with_group_def group_of_def fun_eq_iff)
qed

text \<open>Creating a group with a channel is all or nothing: the clean-up paths are never needed.\<close>

lemma create_group_form_outcome:
  fixes v :: ui_group_form
  assumes ok: "db_ok d"
  defines "new \<equiv> sql_next_id (map gr_id (channel_groups d))"
  defines "created \<equiv> with_group (gf_name v) (gf_description v) (gf_horizon v) d"
  shows "create_group_from_form_values v d =
    (case gf_channel_id v of
       None \<Rightarrow> (Inr True, created)
     | Some c \<Rightarrow>
         if c \<notin> channel_ids d then (Inr False, d)
         else if group_of d c \<noteq> None then (Inl ChannelAlreadyAssignedToGroupError, d)
         else (Inr True, with_membership new c created))"
proof (cases "gf_channel_id v")
  case None
  then show ?thesis
    by (simp add: create_group_from_form_values_def act_bind_def act_return_def create_group_eq created_def)
next
  case (Some c)
  note facts = with_group_facts(1,3-5) [OF ok, of "gf_name v" "gf_description v" "gf_horizon v", folded new_def created_def]
  note start = create_group_from_form_values_def act_bind_def act_read_def act_return_def act_raise_def Some
  show ?thesis
  proof (cases "c \<in> channel_ids d")
    case False
    then show ?thesis by (simp add: start found_reads(4) [OF ok])
  next
    case True
    then obtain ch where ch: "get_channel_by_id c d = Inr (Some ch)" using found_reads(3) [OF ok] by blast
    have "add_channel_membership new c created =
        (Inr \<lparr> ms_group_id = new, ms_channel_id = c \<rparr>, with_membership new c created)" if "group_of d c = None"
      using that True facts by (intro add_membership_eq) simp_all
    then show ?thesis
      using True by (simp add: start ch get_membership_eq [OF ok] create_group_eq act_catch_def flip: new_def created_def)
  qed
qed

section \<open>Properties\<close>

fun is_channels_page :: "int \<Rightarrow> ui_answer res \<Rightarrow> bool" where
  "is_channels_page code (Inr (ChannelsGroupsPage status_code (Some m) cs gs a)) = (status_code = code)"
| "is_channels_page code r = False"

lemma render_error_page:
  "\<exists>r. render_channels_groups_view code (Some m) d = (r, d) \<and> is_channels_page code r"
  using render_channels_groups_ok [of code "Some m" d] by fastforce

lemma post_assign_run:
  assumes "parse_channel_assignment form = Inr want" and "post_assign_group_channel g form d = (r, t)"
  shows "assign_group_channel_membership g want d = (Inr False, d) \<Longrightarrow> t = d \<and> is_channels_page 404 r"
    and "assign_group_channel_membership g want d = (Inl ChannelAlreadyAssignedToGroupError, d) \<Longrightarrow>
      t = d \<and> is_channels_page 409 r"
    and "assign_group_channel_membership g want d = (Inr True, d') \<Longrightarrow> r = Inr back_to_channels \<and> t = d'"
    and "assign_group_channel_membership g want d = (Inl (Exn ''MultipleResultsFound'' []), d) \<Longrightarrow>
      r = Inl (Exn ''MultipleResultsFound'' []) \<and> t = d"
  using assms render_error_page [of 404 "''Requested group or channel was not found.''" d]
    render_error_page [of 409 "exn_message ChannelAlreadyAssignedToGroupError" d]
  by (auto simp: post_assign_group_channel_def assigned_to_409_def act_return_def act_raise_def)

text \<open>
  C30. Assigning a channel to a group from the user interface, on every branch. A group that does not
  exist, or a channel that does not exist, is answered 404, a channel of another group 409, and
  nothing changes. Otherwise the browser is sent back to the page, the group has exactly the
  chosen channel (none, when the field was left empty), every other channel is in the group it was
  in, and no other table changes. The exception is a group that has two or more channels, which the
  API allows: then the request ends in an unhandled exception, and nothing changes.
\<close>

theorem assign_group_channel_outcome:
  assumes "db_ok d" and "parse_channel_assignment form = Inr want"
    and "post_assign_group_channel g form d = (r, t)"
  shows "if g \<notin> group_ids d then t = d \<and> is_channels_page 404 r
     else if card (channels_of_group d g) > 1 then t = d \<and> r = Inl (Exn ''MultipleResultsFound'' [])
     else
       case want of
         None \<Rightarrow> r = Inr back_to_channels \<and> reassigned d g None t
       | Some c \<Rightarrow>
           if c \<notin> channel_ids d then t = d \<and> is_channels_page 404 r
           else if group_of d c \<notin> {None, Some g} then t = d \<and> is_channels_page 409 r
           else r = Inr back_to_channels \<and> reassigned d g (Some c) t"
proof -
  note post = post_assign_run [OF assms(2,3)]
  note start = assign_group_channel_membership_def act_bind_def act_read_def act_return_def
  consider (missing) "g \<notin> group_ids d" | (several) "g \<in> group_ids d" "card (channels_of_group d g) > 1"
    | (few) "g \<in> group_ids d" "card (channels_of_group d g) \<le> 1" by linarith
  then show ?thesis
  proof cases
    case missing
    then show ?thesis using post(1) by (simp add: start found_reads(2) [OF assms(1)])
  next
    case several
    obtain group where "get_group_by_id g d = Inr (Some group)" using found_reads(1) [OF assms(1)] several(1) by blast
    moreover have "get_group_channel_assignment g d = Inl (Exn ''MultipleResultsFound'' [])"
      using several(2) by (cases rule: group_assignment_cases [OF assms(1), of g]) auto
    ultimately show ?thesis using post(4) several by (simp add: start)
  next
    case few
    show ?thesis
      using assign_run [OF assms(1) few, of want] post few
      by (cases want) (auto split: if_splits)
  qed
qed

text \<open>Group 1 holds channel 1, group 2 both channels of a second sample.\<close>

theorem assign_group_channel_outcome_witness:
  "(\<exists>t. post_assign_group_channel 2 [''channel_id'' \<mapsto> '' 1 ''] group_sample = (Inr back_to_channels, t) \<and>
      group_of t 1 = Some 2) \<and>
   post_assign_group_channel 2 [''channel_id'' \<mapsto> ''1''] (with_membership 2 2 (with_membership 2 1 group_sample)) =
     (Inl (Exn ''MultipleResultsFound'' []), with_membership 2 2 (with_membership 2 1 group_sample))"
proof -
  let ?two = "with_membership 2 2 (with_membership 2 1 group_sample)"
  have ok: "db_ok group_sample" "db_ok ?two" by code_simp+
  have parsed: "parse_channel_assignment [''channel_id'' \<mapsto> '' 1 ''] = Inr (Some 1)"
    "parse_channel_assignment [''channel_id'' \<mapsto> ''1''] = Inr (Some 1)" by code_simp+
  have ids: "2 \<in> group_ids group_sample" "1 \<in> channel_ids group_sample" "group_of group_sample 1 = None"
    "2 \<in> group_ids ?two" by code_simp+
  have none: "filter (\<lambda>m. gm_group_id m = 2) (group_members group_sample) = []" by code_simp
  have card: "card (channels_of_group group_sample 2) = 0"
    using group_channels(2) [OF ok(1), of 2] unfolding none by simp
  have "length (filter (\<lambda>m. gm_group_id m = 2) (group_members ?two)) = 2" by code_simp
  then have two: "card (channels_of_group ?two 2) = 2" using group_channels(2) [OF ok(2), of 2] by simp
  obtain r t where rt: "post_assign_group_channel 2 [''channel_id'' \<mapsto> '' 1 ''] group_sample = (r, t)"
    by (cases "post_assign_group_channel 2 [''channel_id'' \<mapsto> '' 1 ''] group_sample")
  obtain r' t' where rt': "post_assign_group_channel 2 [''channel_id'' \<mapsto> ''1''] ?two = (r', t')"
    by (cases "post_assign_group_channel 2 [''channel_id'' \<mapsto> ''1''] ?two")
  have "r = Inr back_to_channels \<and> reassigned group_sample 2 (Some 1) t"
    using assign_group_channel_outcome [OF ok(1) parsed(1) rt] ids card by simp
  moreover have "r' = Inl (Exn ''MultipleResultsFound'' []) \<and> t' = ?two"
    using assign_group_channel_outcome [OF ok(2) parsed(2) rt'] ids two by simp
  ultimately show ?thesis using rt rt' by (simp add: reassigned_def chosen_groups_def)
qed

end
