(* ===== verification/Ui_Setup.thy ===== *)
theory Ui_Setup
  imports Auth_Flow Ui_Forms
begin

text \<open>
  The first-run setup wizard of \<open>tca/ui/routes.py\<close>: the five handlers under \<open>/ui/setup\<close>, over the
  database and the unlock state of the process. The login calls are the handlers of \<open>Auth_Flow\<close>.
  Lemmas: once an account is stored the wizard is closed, a login cannot start while the process is
  locked, a passphrase in force is never replaced, and the steps in order end with a stored login.
\<close>

section \<open>Pages and state\<close>

record setup_state =
  ss_db :: db
  ss_unlock :: unlock_state

text \<open>The context of a step: the session id, the API id and the API hash, where they are known.\<close>

datatype setup_answer =
    SetupRedirect string int
  | SetupPage (setup_step: string) (setup_code: int) (setup_error: "string option")
      (setup_context: "(string \<times> int \<times> string) option")

definition in_db :: "(db, 'a) act \<Rightarrow> (setup_state, 'a) act" where
  "in_db m s = (case m (ss_db s) of (r, d) \<Rightarrow> (r, s\<lparr> ss_db := d \<rparr>))"

definition in_unlock :: "(unlock_state, 'a) act \<Rightarrow> (setup_state, 'a) act" where
  "in_unlock m s = (case m (ss_unlock s) of (r, u) \<Rightarrow> (r, s\<lparr> ss_unlock := u \<rparr>))"

definition has_persisted_account :: "setup_state \<Rightarrow> bool" where
  "has_persisted_account s \<longleftrightarrow> accounts (ss_db s) \<noteq> []"

definition render_setup_step ::
  "string \<Rightarrow> int \<Rightarrow> string option \<Rightarrow> (string \<times> int \<times> string) option \<Rightarrow> (setup_state, setup_answer) act" where
  "render_setup_step step status_code error_message step_context =
     act_return (SetupPage step status_code error_message step_context)"

text \<open>Every handler begins with this test.\<close>

definition unless_configured :: "(setup_state, setup_answer) act \<Rightarrow> (setup_state, setup_answer) act" where
  "unless_configured m =
     act_bind (act_get has_persisted_account) (\<lambda>configured.
       if configured then act_return (SetupRedirect ''/ui'' 302) else m)"

text \<open>\<open>except HTTPException as exc\<close>: the status code and the detail of an HTTP error.\<close>

definition is_http_exception :: "exn \<Rightarrow> bool" where
  "is_http_exception e \<longleftrightarrow> take 14 (exn_class e) = ''HTTPException:''"

definition http_status_code :: "exn \<Rightarrow> int" where
  "http_status_code e = decimal_value (drop 14 (exn_class e))"

text \<open>
  The request models refuse an API id that is not positive and an empty text; built inside a handler,
  they raise \<open>ValidationError\<close>, which is not an HTTP error.
\<close>

definition validated_request :: "int \<Rightarrow> string list \<Rightarrow> (setup_state, unit) act" where
  "validated_request api_id texts =
     (if 0 < api_id \<and> list_all (\<lambda>t. t \<noteq> []) texts then act_return () else act_raise (Exn ''ValidationError'' []))"

text \<open>
  The \<open>try\<close> block of the three login steps: build the request, call the login handler, show the page for
  its answer; an HTTP error is shown on the page of \<open>step\<close>.
\<close>

definition login_step ::
  "int \<Rightarrow> string list \<Rightarrow> (db, 'a) act \<Rightarrow> ('a \<Rightarrow> setup_answer) \<Rightarrow> string \<Rightarrow> (string \<times> int \<times> string) option \<Rightarrow>
   (setup_state, setup_answer) act" where
  "login_step api_id texts call page step step_context =
     act_catch
       (act_bind (validated_request api_id texts) (\<lambda>_. act_bind (in_db call) (\<lambda>x. act_return (page x))))
       (\<lambda>e. if is_http_exception e
            then render_setup_step step (http_status_code e) (Some (exn_message e)) step_context
            else act_raise e)"

text \<open>The environment of the login handlers reads the unlock state of the process.\<close>

definition env_at :: "auth_env \<Rightarrow> setup_state \<Rightarrow> auth_env" where
  "env_at env s = env\<lparr> en_unlock := ss_unlock s \<rparr>"

section \<open>The handlers\<close>

definition get_setup_wizard :: "(setup_state, setup_answer) act" where
  "get_setup_wizard = unless_configured (render_setup_step ''unlock'' 200 None None)"

definition post_setup_unlock :: "form \<Rightarrow> (setup_state, setup_answer) act" where
  "post_setup_unlock form =
     unless_configured
       (let candidate = form_text form ''passphrase'' in
        if candidate = []
        then render_setup_step ''unlock'' 400 (Some ''Unlock passphrase cannot be empty.'') None
        else
          act_bind
            (act_catch (in_unlock (act_read require_unlocked))
              (\<lambda>e. if exn_class e = ''SensitiveOperationLockedError''
                   then in_unlock (unlock_with_passphrase candidate) else act_raise e))
            (\<lambda>_. render_setup_step ''auth-start'' 200 None None))"

definition post_setup_start_auth :: "auth_env \<Rightarrow> form \<Rightarrow> (setup_state, setup_answer) act" where
  "post_setup_start_auth env form =
     unless_configured
       (let api_id_value = form_text form ''api_id''; api_hash = form_text form ''api_hash'';
            phone_number = form_text form ''phone_number'' in
        if api_id_value = [] \<or> api_hash = [] \<or> phone_number = []
        then render_setup_step ''auth-start'' 400 (Some ''Missing required credentials fields.'') None
        else
        case py_int_text api_id_value of
          None \<Rightarrow> render_setup_step ''auth-start'' 400 (Some ''API ID must be an integer.'') None
        | Some api_id \<Rightarrow>
        (\<lambda>s. case require_unlocked (ss_unlock s) of
           Inl e \<Rightarrow> render_setup_step ''unlock'' 409 (Some ''Setup step transition is invalid.'') None s
         | Inr _ \<Rightarrow>
            login_step api_id [api_hash, phone_number]
              (start_telegram_auth (env_at env s) api_id api_hash phone_number)
              (\<lambda>session_id. SetupPage ''verify-code'' 200 None (Some (session_id, api_id, api_hash)))
              ''auth-start'' None s))"

definition post_setup_verify_code :: "auth_env \<Rightarrow> form \<Rightarrow> (setup_state, setup_answer) act" where
  "post_setup_verify_code env form =
     unless_configured
       (let session_id = form_text form ''session_id''; api_hash = form_text form ''api_hash'';
            code = form_text form ''code''; missing = render_setup_step ''verify-code'' 400 (Some ''Missing required OTP fields.'') None in
        case parse_int (form_text form ''api_id'') of
          None \<Rightarrow> missing
        | Some api_id \<Rightarrow>
        if api_hash = [] \<or> code = [] then missing
        else if session_id = [] then render_setup_step ''auth-start'' 409 (Some ''Setup step transition is invalid.'') None
        else
        (\<lambda>s. login_step api_id [session_id, api_hash, code]
           (verify_telegram_code (env_at env s) session_id api_id api_hash code)
           (\<lambda>verified.
              if snd verified = ''password_required''
              then SetupPage ''verify-password'' 200 None (Some (session_id, api_id, api_hash))
              else SetupPage ''complete'' 200 None None)
           ''verify-code'' (Some (session_id, api_id, api_hash)) s))"

definition post_setup_verify_password :: "auth_env \<Rightarrow> form \<Rightarrow> (setup_state, setup_answer) act" where
  "post_setup_verify_password env form =
     unless_configured
       (let session_id = form_text form ''session_id''; api_id_value = form_text form ''api_id'';
            api_hash = form_text form ''api_hash''; password = form_text form ''password'' in
        if api_id_value = [] \<or> api_hash = [] \<or> password = []
        then render_setup_step ''verify-password'' 400 (Some ''Missing required password fields.'') None
        else
        case py_int_text api_id_value of
          None \<Rightarrow> render_setup_step ''verify-password'' 400 (Some ''API ID must be an integer.'') None
        | Some api_id \<Rightarrow>
        if session_id = [] then render_setup_step ''auth-start'' 409 (Some ''Setup step transition is invalid.'') None
        else
        (\<lambda>s. login_step api_id [session_id, api_hash, password]
           (verify_telegram_password (env_at env s) session_id api_id api_hash password)
           (\<lambda>_. SetupPage ''complete'' 200 None None)
           ''verify-password'' (Some (session_id, api_id, api_hash)) s))"

section \<open>Guards\<close>

lemma persist_session_account: "persist_session cr dek nonce i st kek d = (Inr (), t) \<Longrightarrow> accounts t \<noteq> []"
proof (cases "filter (\<lambda>r. acc_id r = i) (accounts d)" rule: one_or_none.cases)
  case (2 r)
  then have "accounts d \<noteq> []" by auto
  then show "persist_session cr dek nonce i st kek d = (Inr (), t) \<Longrightarrow> ?thesis"
    using 2 by (auto simp: persist_session_def act_simps update_where_def split: sum.splits)
qed (auto simp: persist_session_def act_simps split: sum.splits)

lemma persist_authenticated_account:
  "persist_authenticated_session env api h phone st d = (Inr (), t) \<Longrightarrow> accounts t \<noteq> []"
  unfolding persist_authenticated_session_def act_bind_Inr by (auto dest: persist_session_account)

lemma live_or_expired_accounts: "preserves (\<lambda>d. accounts d = xs) (live_or_expired sid row)"
  unfolding live_or_expired_def delete_session_def
  by (intro preserves_intros) (auto simp: preserves_def)

lemma update_auth_session_accounts: "preserves (\<lambda>d. accounts d = xs) (update_auth_session_status sid st ts u)"
  unfolding update_auth_session_status_def update_status_def session_errors_to_http_def
  by (intro preserves_intros live_or_expired_accounts) (auto simp: preserves_def Let_def)

lemma catch_locked_Inr: "act_catch m locked_to_http d = (Inr x, t) \<longleftrightarrow> m d = (Inr x, t)"
  by (auto simp: act_catch_def locked_to_http_def act_raise_def split: prod.splits sum.splits if_splits)

lemma finish_login_account: "finish_login env client api h st clear d = (Inr x, t) \<Longrightarrow> accounts t \<noteq> []"
proof -
  assume "finish_login env client api h st clear d = (Inr x, t)"
  then obtain saved where *: "(case saved of None \<Rightarrow> act_raise password_session_capture_error
        | Some session_string \<Rightarrow> act_bind (act_catch (persist_authenticated_session env api h (as_phone_number st) session_string)
            locked_to_http) (\<lambda>_. act_bind (update_auth_session_status (as_session_id st) ''authenticated'' None clear)
              (\<lambda>updated. act_return (as_session_id updated, as_status updated)))) d = (Inr x, t)"
    unfolding finish_login_def act_bind_Inr [where m = "act_lift (extract_session_string client)"]
    by (auto simp: act_lift_def)
  then obtain session_string where "saved = Some session_string" by (cases saved) (simp_all add: act_raise_def)
  with * obtain u w where "persist_authenticated_session env api h (as_phone_number st) session_string d = (Inr (), u)"
      "update_auth_session_status (as_session_id st) ''authenticated'' None clear u = (w, t)"
    by (auto simp: act_bind_Inr catch_locked_Inr act_return_def)
  then show ?thesis
    using persist_authenticated_account preserves_result [OF update_auth_session_accounts refl] by metis
qed

lemma refuse_login_fails: "refuse_login env phone e d \<noteq> (Inr x, t)"
  by (auto simp: refuse_login_def act_bind_Inr act_raise_def)

lemma verify_code_account:
  assumes keys: "session_keys_ok d" and "verify_telegram_code env sid api h code d = (Inr (i, st), t)"
  shows "st = ''password_required'' \<or> accounts t \<noteq> []" and "us_secret (en_unlock env) \<noteq> None"
proof -
  from assms(2) obtain r client where r: "auth_session_of d sid = Some r" "\<not> is_expired (au_expires_at r) d"
      "us_secret (en_unlock env) \<noteq> None" "after_code env api h code client (state_of_session r) d = (Inr (i, st), t)"
    by (auto simp: verify_code_gate login_gate_eq [OF keys] split: option.splits if_splits sum.splits)
  then show "us_secret (en_unlock env) \<noteq> None" by simp
  have moved: "y = ''password_required''"
    if "act_bind (update_auth_session_status (as_session_id (state_of_session r)) ''password_required'' (Some x) True)
      (\<lambda>updated. act_return (as_session_id updated, as_status updated)) d = (Inr (j, y), t)" for x j y t
    using that update_auth_session_status_eq [OF keys r(1,2), of "''password_required''" "Some x" True] auth_session_key [OF r(1)]
    by (auto simp: act_bind_Inr act_return_def)
  have refused: "refuse_login env (au_phone_number r) e d \<noteq> (Inr (i, st), t)" for e by (rule refuse_login_fails)
  show "st = ''password_required'' \<or> accounts t \<noteq> []"
  proof (cases "sign_in_with_code client (au_phone_number r) code")
    case (Inl e)
    then show ?thesis
      using r(4) moved refused
      by (auto simp: after_code_def bind_lift act_bind_Inr [where m = "delete_auth_session _"]
          act_raise_def split: if_splits option.splits sum.splits)
  next
    case (Inr x)
    then show ?thesis using r(4) finish_login_account by (simp add: after_code_def)
  qed
qed

lemma verify_password_account:
  assumes keys: "session_keys_ok d" and "verify_telegram_password env sid api h password d = (Inr x, t)"
  shows "accounts t \<noteq> []" and "us_secret (en_unlock env) \<noteq> None"
proof -
  from assms(2) obtain r client where r: "us_secret (en_unlock env) \<noteq> None"
      "after_password env api h password client (state_of_session r) d = (Inr x, t)"
    by (auto simp: verify_password_gate login_gate_eq [OF keys] split: option.splits if_splits sum.splits)
  then show "accounts t \<noteq> []" "us_secret (en_unlock env) \<noteq> None"
    by (auto simp: after_password_def act_raise_def refuse_login_fails
        dest: finish_login_account split: sum.splits if_splits)
qed

lemma locked_login_accounts:
  assumes "session_keys_ok d" and "us_secret (en_unlock env) = None"
  shows "accounts (snd (verify_telegram_code env sid api h code d)) = accounts d"
    and "accounts (snd (verify_telegram_password env sid api h password d)) = accounts d"
  using assms(2)
  by (simp_all add: verify_code_gate verify_password_gate login_gate_eq [OF assms(1)] without_session_def split: option.splits)

text \<open>What no step of the wizard may do, for a run of a handler from \<open>s\<close> to \<open>t\<close> that answers \<open>r\<close>.\<close>

definition setup_guarded :: "setup_state \<Rightarrow> setup_answer res \<Rightarrow> setup_state \<Rightarrow> bool" where
  "setup_guarded s r t \<longleftrightarrow>
     (has_persisted_account s \<longrightarrow> r = Inr (SetupRedirect ''/ui'' 302) \<and> t = s) \<and>
     (us_secret (ss_unlock s) \<noteq> None \<longrightarrow> ss_unlock t = ss_unlock s) \<and>
     (us_secret (ss_unlock s) = None \<longrightarrow> accounts (ss_db t) = accounts (ss_db s)) \<and>
     (\<forall>code err ctx. r = Inr (SetupPage ''complete'' code err ctx) \<longrightarrow> has_persisted_account t)"

lemma unless_configured_guarded:
  assumes "\<not> has_persisted_account s \<Longrightarrow> setup_guarded s (fst (m s)) (snd (m s))"
  shows "setup_guarded s (fst (unless_configured m s)) (snd (unless_configured m s))"
  using assms
  by (cases "has_persisted_account s")
    (simp_all add: unless_configured_def act_bind_def act_get_def act_return_def setup_guarded_def)

lemma page_guarded:
  "\<not> has_persisted_account s \<Longrightarrow> step \<noteq> ''complete'' \<Longrightarrow>
   setup_guarded s (fst (render_setup_step step code err ctx s)) (snd (render_setup_step step code err ctx s))"
  by (simp add: setup_guarded_def render_setup_step_def act_return_def)

lemma login_step_guarded:
  fixes m :: "(db, 'a) act"
  assumes new: "\<not> has_persisted_account s" and other: "step \<noteq> ''complete''"
    and locked: "us_secret (ss_unlock s) = None \<Longrightarrow> accounts (snd (m (ss_db s))) = accounts (ss_db s)"
    and stored: "\<And>x d code err ctx. m (ss_db s) = (Inr x, d) \<Longrightarrow> page x = SetupPage ''complete'' code err ctx \<Longrightarrow> accounts d \<noteq> []"
  shows "setup_guarded s (fst (login_step api texts m page step ctx s)) (snd (login_step api texts m page step ctx s))"
proof (cases "0 < api \<and> list_all (\<lambda>t. t \<noteq> []) texts")
  case False
  then show ?thesis
    using new other
    by (simp add: login_step_def validated_request_def if_not_P [OF False] act_simps is_http_exception_def setup_guarded_def)
next
  case True
  obtain r d where m: "m (ss_db s) = (r, d)" by (cases "m (ss_db s)")
  show ?thesis
    using new other locked stored [of _ d] True
    by (cases r) (auto simp: login_step_def validated_request_def act_simps in_db_def m setup_guarded_def
        has_persisted_account_def render_setup_step_def)
qed

lemma unlock_guarded: "setup_guarded s (fst (post_setup_unlock form s)) (snd (post_setup_unlock form s))"
  unfolding post_setup_unlock_def
  by (rule unless_configured_guarded)
    (auto simp: page_guarded Let_def in_unlock_def require_unlocked_def unlock_with_passphrase_def act_simps
      setup_guarded_def render_setup_step_def)

lemma start_auth_guarded:
  "setup_guarded s (fst (post_setup_start_auth env form s)) (snd (post_setup_start_auth env form s))"
  unfolding post_setup_start_auth_def
  by (rule unless_configured_guarded)
    (auto simp: page_guarded Let_def require_unlocked_def split: option.split sum.split intro!: login_step_guarded)

lemma verify_code_guarded:
  assumes "session_keys_ok (ss_db s)"
  shows "setup_guarded s (fst (post_setup_verify_code env form s)) (snd (post_setup_verify_code env form s))"
  unfolding post_setup_verify_code_def
  by (rule unless_configured_guarded)
    (use assms in \<open>auto simp: page_guarded Let_def env_at_def locked_login_accounts
      dest: verify_code_account split: option.split if_splits intro!: login_step_guarded\<close>)

lemma verify_password_guarded:
  assumes "session_keys_ok (ss_db s)"
  shows "setup_guarded s (fst (post_setup_verify_password env form s)) (snd (post_setup_verify_password env form s))"
  unfolding post_setup_verify_password_def
  by (rule unless_configured_guarded)
    (use assms in \<open>auto simp: page_guarded Let_def env_at_def locked_login_accounts
      dest: verify_password_account split: option.split intro!: login_step_guarded\<close>)

section \<open>The steps in order\<close>

definition with_session :: "string \<Rightarrow> string \<Rightarrow> db \<Rightarrow> db" where
  "with_session sid phone d =
     d\<lparr> auth_sessions := auth_sessions d @
          [\<lparr> au_session_id = sid, au_phone_number = phone, au_status = ''code_sent'',
             au_expires_at = now_epoch d + AUTH_SESSION_TTL_SECONDS, au_telegram_session = None,
             au_created_at = current_timestamp d, au_updated_at = current_timestamp d \<rparr>] \<rparr>"

lemma start_login_opens:
  assumes "en_factory env api h None = Inr client" and "send_login_code client phone = Inr True"
    and "en_session_id env \<notin> au_session_id ` set (auth_sessions d)"
  shows "start_telegram_auth env api h phone d = (Inr (en_session_id env), with_session (en_session_id env) phone d)"
  using assms
  by (simp add: start_telegram_auth_def create_session_def act_simps Let_def with_session_def state_of_session_def)

lemma with_session_facts:
  assumes "phones_ok d" and "sid \<notin> au_session_id ` set (auth_sessions d)"
  shows "phones_ok (with_session sid phone d)" and "settings (with_session sid phone d) = settings d"
    and "\<exists>r. live_in ''code_sent'' (with_session sid phone d) sid = Some r \<and> au_phone_number r = phone"
proof -
  show "phones_ok (with_session sid phone d)"
    using assms by (simp add: phones_ok_def with_session_def db_ok_defs pk_insert)
  show "settings (with_session sid phone d) = settings d" by (simp add: with_session_def)
  have "find (\<lambda>r. au_session_id r = sid) (auth_sessions d) = None" using assms(2) by (simp add: find_key_None)
  then show "\<exists>r. live_in ''code_sent'' (with_session sid phone d) sid = Some r \<and> au_phone_number r = phone"
    by (simp add: live_in_def auth_session_of_def with_session_def find_append is_expired_def now_epoch_def
        AUTH_SESSION_TTL_SECONDS_def)
qed

lemma login_stored_env: "login_stored (env_at env s) p api h phone st d = login_stored env p api h phone st d"
  by (simp add: login_stored_def env_at_def)

lemma login_stored_account: "login_stored env p api h phone st d \<Longrightarrow> accounts d \<noteq> []"
  by (auto simp: login_stored_def account_of_def)

lemma unlock_step:
  assumes "\<not> has_persisted_account s" and "us_secret (ss_unlock s) = None" and "form_text form ''passphrase'' \<noteq> []"
  shows "post_setup_unlock form s = (Inr (SetupPage ''auth-start'' 200 None None),
     s\<lparr> ss_unlock := (ss_unlock s)\<lparr> us_secret := Some (form_text form ''passphrase'') \<rparr> \<rparr>)"
  using assms
  by (simp add: post_setup_unlock_def unless_configured_def act_simps in_unlock_def require_unlocked_def
      unlock_with_passphrase_def render_setup_step_def Let_def)

lemma login_step_answers:
  assumes "0 < api" and "list_all (\<lambda>t. t \<noteq> []) texts" and "m (ss_db s) = (Inr x, d)"
  shows "login_step api texts m page step ctx s = (Inr (page x), s\<lparr> ss_db := d \<rparr>)"
  using assms by (simp add: login_step_def validated_request_def act_simps in_db_def)

section \<open>Properties\<close>

text \<open>
  C31. What no request to the setup wizard does, whatever the form says and Telegram answers: once an
  account is stored, every step only redirects to the main page and changes nothing; a passphrase
  that is in force is not replaced by another one; while the process is locked no account is added
  or changed; and the page that says that the setup is complete is shown only when an account is stored.
\<close>

theorem setup_wizard_guards:
  assumes "session_keys_ok (ss_db s)"
    and "handler \<in> {get_setup_wizard, post_setup_unlock form, post_setup_start_auth env form,
      post_setup_verify_code env form, post_setup_verify_password env form}"
    and "handler s = (r, t)"
  shows "(has_persisted_account s \<longrightarrow> r = Inr (SetupRedirect ''/ui'' 302) \<and> t = s) \<and>
    (us_secret (ss_unlock s) \<noteq> None \<longrightarrow> ss_unlock t = ss_unlock s) \<and>
    (us_secret (ss_unlock s) = None \<longrightarrow> accounts (ss_db t) = accounts (ss_db s)) \<and>
    (\<forall>code err ctx. r = Inr (SetupPage ''complete'' code err ctx) \<longrightarrow> has_persisted_account t)"
proof -
  have "setup_guarded s (fst (get_setup_wizard s)) (snd (get_setup_wizard s))"
    unfolding get_setup_wizard_def by (rule unless_configured_guarded) (simp add: page_guarded)
  then have "setup_guarded s (fst (handler s)) (snd (handler s))"
    using assms(2) unlock_guarded start_auth_guarded verify_code_guarded [OF assms(1)] verify_password_guarded [OF assms(1)]
    by (elim insertE) simp_all
  then show ?thesis using assms(3) by (simp add: setup_guarded_def)
qed

theorem setup_wizard_guards_witness:
  "post_setup_unlock [''passphrase'' \<mapsto> ''other''] \<lparr> ss_db = empty_db 0, ss_unlock = \<lparr> us_mode = [], us_secret = Some ''pw'' \<rparr> \<rparr> =
     (Inr (SetupPage ''auth-start'' 200 None None),
      \<lparr> ss_db = empty_db 0, ss_unlock = \<lparr> us_mode = [], us_secret = Some ''pw'' \<rparr> \<rparr>) \<and>
   post_setup_unlock [''passphrase'' \<mapsto> ''other''] \<lparr> ss_db = sample_db, ss_unlock = \<lparr> us_mode = [], us_secret = None \<rparr> \<rparr> =
     (Inr (SetupRedirect ''/ui'' 302), \<lparr> ss_db = sample_db, ss_unlock = \<lparr> us_mode = [], us_secret = None \<rparr> \<rparr>)"
proof -
  let ?s = "\<lparr> ss_db = empty_db 0, ss_unlock = \<lparr> us_mode = [], us_secret = Some ''pw'' \<rparr> \<rparr>"
  let ?f = "post_setup_unlock [''passphrase'' \<mapsto> ''other'']"
  let ?t = "\<lparr> ss_db = sample_db, ss_unlock = \<lparr> us_mode = [], us_secret = None \<rparr> \<rparr>"
  have keys: "session_keys_ok (ss_db ?s)" "session_keys_ok (ss_db ?t)" by code_simp+
  have run: "fst (?f ?s) = Inr (SetupPage ''auth-start'' 200 None None)" "ss_db (snd (?f ?s)) = empty_db 0"
    and stored: "has_persisted_account ?t" by code_simp+
  have "ss_unlock (snd (?f ?s)) = ss_unlock ?s"
    using setup_wizard_guards [OF keys(1), of ?f "[''passphrase'' \<mapsto> ''other'']" undefined "fst (?f ?s)" "snd (?f ?s)"] by simp
  then have "?f ?s = (Inr (SetupPage ''auth-start'' 200 None None), ?s)" using run by (simp add: prod_eq_iff)
  moreover have "fst (?f ?t) = Inr (SetupRedirect ''/ui'' 302) \<and> snd (?f ?t) = ?t"
    using setup_wizard_guards [OF keys(2), of ?f "[''passphrase'' \<mapsto> ''other'']" undefined "fst (?f ?t)" "snd (?f ?t)"] stored by simp
  ultimately show ?thesis by (simp add: prod_eq_iff)
qed

text \<open>
  C32. The setup wizard works end to end: on a fresh installation (no account, locked), with a passphrase,
  credentials and a code that Telegram accepts, the three steps lead to the page that says that the
  setup is complete. Then the process is unlocked with that passphrase, the account is stored under the
  phone number, and whoever unlocks with the same passphrase reads back the session, the API id and the
  API hash; the wizard is closed from then on.
\<close>

theorem setup_wizard_completes:
  assumes "phones_ok (ss_db s)" and "settings_ok (ss_db s)" and "salt_ok (ss_db s)" and "accounts (ss_db s) = []"
    and "us_secret (ss_unlock s) = None" and "form_text f1 ''passphrase'' = p" and "p \<noteq> []"
    and "py_int_text (form_text f2 ''api_id'') = Some api" and "form_text f2 ''api_id'' \<noteq> []" and "0 < api"
    and "form_text f2 ''api_hash'' = h" and "h \<noteq> []" and "form_text f2 ''phone_number'' = phone" and "phone \<noteq> []"
    and "py_int_text (form_text f3 ''api_id'') = Some api" and "form_text f3 ''api_hash'' = h"
    and "form_text f3 ''session_id'' = en_session_id env" and "form_text f3 ''code'' = code" and "code \<noteq> []"
    and "env_ok env" and "en_session_id env \<noteq> []" and "en_session_id env \<notin> au_session_id ` set (auth_sessions (ss_db s))"
    and "en_factory env api h None = Inr client" and "send_login_code client phone = Inr True"
    and "sign_in_with_code client phone code = Inr ()" and "extract_session_string client = Inr (Some session)"
  shows "\<exists>s1 s2 s3.
    post_setup_unlock f1 s = (Inr (SetupPage ''auth-start'' 200 None None), s1) \<and>
    post_setup_start_auth env f2 s1 =
      (Inr (SetupPage ''verify-code'' 200 None (Some (en_session_id env, api, h))), s2) \<and>
    post_setup_verify_code env f3 s2 = (Inr (SetupPage ''complete'' 200 None None), s3) \<and>
    us_secret (ss_unlock s3) = Some p \<and> login_stored env p api h phone session (ss_db s3) \<and>
    get_setup_wizard s3 = (Inr (SetupRedirect ''/ui'' 302), s3)"
proof -
  define s1 where "s1 = s\<lparr> ss_unlock := (ss_unlock s)\<lparr> us_secret := Some p \<rparr> \<rparr>"
  define s2 where "s2 = s1\<lparr> ss_db := with_session (en_session_id env) phone (ss_db s1) \<rparr>"
  have s1: "us_secret (ss_unlock s1) = Some p" "ss_db s1 = ss_db s" by (simp_all add: s1_def)
  have s2: "us_secret (ss_unlock s2) = Some p" "ss_db s2 = with_session (en_session_id env) phone (ss_db s)"
    by (simp_all add: s2_def s1)
  have new: "\<not> has_persisted_account s" "\<not> has_persisted_account s1" "\<not> has_persisted_account s2"
    using assms(4) by (simp_all add: has_persisted_account_def s1 s2 with_session_def)
  have first: "post_setup_unlock f1 s = (Inr (SetupPage ''auth-start'' 200 None None), s1)"
    using unlock_step [OF new(1) assms(5), of f1] assms(6,7) by (simp add: s1_def)
  have "start_telegram_auth (env_at env s1) api h phone (ss_db s1) =
      (Inr (en_session_id env), with_session (en_session_id env) phone (ss_db s1))"
    using start_login_opens [of "env_at env s1" api h client phone "ss_db s1"] assms(22-24) by (simp add: env_at_def s1)
  from login_step_answers [where m = "start_telegram_auth (env_at env s1) api h phone", OF assms(10) _ this]
  have second: "post_setup_start_auth env f2 s1 =
      (Inr (SetupPage ''verify-code'' 200 None (Some (en_session_id env, api, h))), s2)"
    using new(2) assms(8,9,11-14)
    by (simp add: post_setup_start_auth_def unless_configured_def act_simps require_unlocked_def s1 Let_def s2_def)
  note session = with_session_facts [OF assms(1,22), of phone]
  obtain r where r: "live_in ''code_sent'' (ss_db s2) (en_session_id env) = Some r" "au_phone_number r = phone"
    using session(3) by (auto simp: s2)
  have "settings_ok (ss_db s2)" "salt_ok (ss_db s2)"
    using assms(2,3) session(2) by (simp_all add: s2 settings_ok_def salt_ok_def setting_value_def)
  then obtain d where d: "verify_telegram_code (env_at env s2) (en_session_id env) api h code (ss_db s2) =
      (Inr (en_session_id env, ''authenticated''), d)" "login_stored env p api h phone session d"
    using verify_code_stores [of "ss_db s2" "env_at env s2" p client session "en_session_id env" r api h code]
      session(1) r assms(20,23,25,26) s2
    by (auto simp: env_at_def env_ok_def login_stored_env [unfolded env_at_def])
  from login_step_answers [where m = "verify_telegram_code (env_at env s2) (en_session_id env) api h code", OF assms(10) _ d(1)]
  have third: "post_setup_verify_code env f3 s2 = (Inr (SetupPage ''complete'' 200 None None), s2\<lparr> ss_db := d \<rparr>)"
    using new(3) assms(12,15-19,21)
    by (simp add: post_setup_verify_code_def parse_int_def unless_configured_def act_simps Let_def)
  have "get_setup_wizard (s2\<lparr> ss_db := d \<rparr>) = (Inr (SetupRedirect ''/ui'' 302), s2\<lparr> ss_db := d \<rparr>)"
    using login_stored_account [OF d(2)]
    by (simp add: get_setup_wizard_def unless_configured_def act_simps has_persisted_account_def)
  with first second third d(2) s2(1) show ?thesis
    by (intro exI [of _ s1] exI [of _ s2] exI [of _ "s2\<lparr> ss_db := d \<rparr>"]) simp
qed

definition fresh_install :: setup_state where
  "fresh_install = \<lparr> ss_db = empty_db 5000000, ss_unlock = initial_unlock_state \<rparr>"

definition credentials_form :: form where
  "credentials_form = [''api_id'' \<mapsto> ''8'', ''api_hash'' \<mapsto> ''h'', ''phone_number'' \<mapsto> ''+49'']"

definition code_form :: form where
  "code_form = [''session_id'' \<mapsto> ''s1'', ''api_id'' \<mapsto> ''8'', ''api_hash'' \<mapsto> ''h'', ''code'' \<mapsto> ''1'']"

theorem setup_wizard_completes_witness:
  "\<exists>s1 s2 s3.
    post_setup_unlock [''passphrase'' \<mapsto> '' pw ''] fresh_install = (Inr (SetupPage ''auth-start'' 200 None None), s1) \<and>
    post_setup_start_auth (sample_env (sample_client (Inr True) (Inr ()))) credentials_form s1 =
      (Inr (SetupPage ''verify-code'' 200 None (Some (''s1'', 8, ''h''))), s2) \<and>
    post_setup_verify_code (sample_env (sample_client (Inr True) (Inr ()))) code_form s2 =
      (Inr (SetupPage ''complete'' 200 None None), s3) \<and>
    us_secret (ss_unlock s3) = Some ''pw''"
proof -
  let ?c = "sample_client (Inr True) (Inr ())"
  have "phones_ok (ss_db fresh_install)" "settings_ok (ss_db fresh_install)" "salt_ok (ss_db fresh_install)"
    "accounts (ss_db fresh_install) = []" "us_secret (ss_unlock fresh_install) = None" "auth_sessions (ss_db fresh_install) = []"
    by code_simp+
  moreover have "form_text [''passphrase'' \<mapsto> '' pw ''] ''passphrase'' = ''pw''"
    "py_int_text (form_text credentials_form ''api_id'') = Some 8" "form_text credentials_form ''api_id'' \<noteq> []"
    "form_text credentials_form ''api_hash'' = ''h''" "form_text credentials_form ''phone_number'' = ''+49''"
    "py_int_text (form_text code_form ''api_id'') = Some 8" "form_text code_form ''api_hash'' = ''h''"
    "form_text code_form ''session_id'' = ''s1''" "form_text code_form ''code'' = ''1''" by code_simp+
  moreover have "en_session_id (sample_env ?c) = ''s1''" "en_factory (sample_env ?c) 8 ''h'' None = Inr ?c"
    "send_login_code ?c ''+49'' = Inr True" "sign_in_with_code ?c ''+49'' ''1'' = Inr ()"
    "extract_session_string ?c = Inr (Some ''session'')"
    by (simp_all add: sample_env_def sample_client_def extract_session_string_def sign_in_with_code_def
        send_login_code_def with_connection_def)
  moreover note sample_login_ok(5) [of ?c]
  ultimately show ?thesis
    using setup_wizard_completes [of fresh_install "[''passphrase'' \<mapsto> '' pw '']" "''pw''" credentials_form 8 "''h''" "''+49''"
        code_form "sample_env ?c" "''1''" ?c "''session''"] by fastforce
qed

end
