(* ===== verification/Store_Invariant.thy ===== *)
theory Store_Invariant
  imports Clusters Prune Key_Rotation Channel_Groups Ingest_Guards Content Channel_Routes Decisions Auth_Flow
    Bot_Delivery Backup App_Lifecycle Ui_Setup
begin

text \<open>
  The invariant of the database over all its writers: the constraints of the schema and the
  representatives of the clusters. Most writers touch neither clusters nor members, so they are
  shown to keep the constraints inside a frame that fixes those two tables; the dedupe, content,
  purge and prune operations have their own lemmas.
\<close>

section \<open>Writers that leave clusters and members alone\<close>

definition frame :: "member_row list \<Rightarrow> cluster_row list \<Rightarrow> db \<Rightarrow> bool" where
  "frame ms cs d \<longleftrightarrow> db_ok d \<and> members d = ms \<and> clusters d = cs"

lemma framed_store_ok:
  assumes "\<And>ms cs. preserves (frame ms cs) m"
  shows "preserves store_ok m"
proof (rule preservesI)
  fix d assume "store_ok d"
  then have "frame (members d) (clusters d) d" by (simp add: frame_def store_ok_def)
  from preservesD [OF assms this] \<open>store_ok d\<close> show "store_ok (snd (m d))"
    using reps_ok_cong [of "snd (m d)" d] by (simp add: frame_def store_ok_def)
qed

lemma frameI:
  "(\<And>d. db_ok d \<Longrightarrow> db_ok (snd (m d)) \<and> members (snd (m d)) = members d \<and> clusters (snd (m d)) = clusters d) \<Longrightarrow>
   preserves (frame ms cs) m"
  by (auto simp: preserves_def frame_def)

lemma fk_grow: "fk f rows S \<Longrightarrow> fk f rows (insert x S)"
  by (auto simp: fk_def)

lemma fk_opt_grow: "fk_opt f rows S \<Longrightarrow> fk_opt f rows (insert x S)"
  by (auto simp: fk_opt_def split: option.splits)

named_theorems framed \<open>writers inside the frame\<close>

lemmas frame_simps = db_ok_defs table_simps fk_grow fk_opt_grow Let_def

lemma create_group_framed [framed]: "preserves (frame ms cs) (create_group n x h)"
  unfolding create_group_def
  by (intro preserves_intros) (rule frameI, simp add: frame_simps)

lemma update_group_framed [framed]: "preserves (frame ms cs) (update_group i n x h)"
  unfolding update_group_def
  by (intro preserves_intros) (rule frameI, simp add: frame_simps image_update_where)

lemma delete_group_framed [framed]: "preserves (frame ms cs) (delete_group i)"
  unfolding delete_group_def
  by (intro preserves_intros)
    (rule frameI, simp add: delete_groups_where_ok, simp add: delete_groups_where_def Let_def)

lemma add_channel_membership_framed [framed]: "preserves (frame ms cs) (add_channel_membership g c)"
  unfolding add_channel_membership_def
  by (intro preserves_intros) (rule frameI, simp add: insert_membership_def frame_simps)

lemma remove_channel_membership_framed [framed]: "preserves (frame ms cs) (remove_channel_membership g c)"
  unfolding remove_channel_membership_def
  by (intro preserves_intros) (rule frameI, simp add: frame_simps del: set_delete_where)

lemma setting_create_framed [framed]: "preserves (frame ms cs) (setting_create k v)"
  unfolding setting_create_def
  by (intro preserves_intros) (rule frameI, simp add: insert_setting_def frame_simps)

lemma set_value_json_keys [simp]: "st_id (set_value_json e d r) = st_id r" "st_key (set_value_json e d r) = st_key r"
  by (simp_all add: set_value_json_def)

lemma setting_update_framed [framed]: "preserves (frame ms cs) (setting_update k v)"
  unfolding setting_update_def
  by (intro preserves_intros) (rule frameI, simp add: frame_simps)

lemma setting_upsert_framed [framed]: "preserves (frame ms cs) (setting_upsert k v)"
  unfolding setting_upsert_def
  by (intro preserves_intros) (rule frameI, simp add: insert_setting_def frame_simps split: option.split)

lemma put_setting_framed [framed]: "preserves (frame ms cs) (put_setting k v)"
  unfolding put_setting_def by (intro preserves_intros framed)

lemma seed_framed [framed]: "preserves (frame ms cs) seed_default_dynamic_settings"
  unfolding seed_default_dynamic_settings_def seed_one_def by (intro preserves_intros framed)

lemma require_state_framed [framed]: "preserves (frame ms cs) require_state"
  unfolding require_state_def by (intro preserves_intros)

lemma begin_rotation_framed [framed]: "preserves (frame ms cs) (begin_rotation t)"
proof -
  have [framed]: "preserves (frame ms cs) (act_modify (reset_rotation t))" for t
    by (rule frameI) (simp add: act_modify_def reset_rotation_def update_rotation_def frame_simps)
  have [framed]: "preserves (frame ms cs) (insert_rotation t)" for t
    by (rule frameI) (simp add: insert_rotation_def frame_simps)
  show ?thesis unfolding begin_rotation_def by (intro preserves_intros framed)
qed

lemma mark_account_rotated_framed [framed]: "preserves (frame ms cs) (mark_account_rotated a)"
  unfolding mark_account_rotated_def
  by (intro preserves_intros framed)
    (rule frameI, simp add: set_key_version_def set_last_rotated_def update_rotation_def frame_simps image_update_where
      split: option.split)

lemma complete_if_finished_framed [framed]: "preserves (frame ms cs) complete_if_finished"
  unfolding complete_if_finished_def
  by (intro preserves_intros framed) (rule frameI, simp add: frame_simps)

lemma create_channel_framed [framed]: "preserves (frame ms cs) (create_channel a t n u)"
  unfolding create_channel_def
  by (intro preserves_intros) (rule frameI, simp add: frame_simps)

lemma update_channel_row_framed: "(\<And>d. keeps_channel_keys (f d)) \<Longrightarrow> preserves (frame ms cs) (update_channel_row c f)"
  unfolding update_channel_row_def
  by (intro preserves_intros) (rule frameI, simp add: channels_update_ok Let_def)

lemma update_channel_framed [framed]: "preserves (frame ms cs) (update_channel c n u e)"
  unfolding update_channel_def by (rule update_channel_row_framed) (simp add: keeps_channel_keys_def)

lemma disable_channel_framed [framed]: "preserves (frame ms cs) (disable_channel c)"
  unfolding disable_channel_def set_enabled_state_def by (rule update_channel_row_framed) (simp add: keeps_channel_keys_def)

lemma upsert_state_row_framed:
  assumes "\<And>r. cs_channel_id (f r) = cs_channel_id r"
  shows "preserves (frame ms cs) (upsert_state_row c f)"
  using assms
  by (intro frameI) (auto simp: upsert_state_row_def frame_simps find_key_None split: option.split)

lemma upsert_state_framed [framed]: "preserves (frame ms cs) (upsert_state c p l)"
  unfolding upsert_state_def by (intro preserves_intros upsert_state_row_framed) simp

lemma update_pause_framed [framed]: "preserves (frame ms cs) (update_pause c p)"
  unfolding update_pause_def by (intro preserves_intros upsert_state_row_framed) simp

lemma update_cursor_framed [framed]: "preserves (frame ms cs) (update_cursor c k)"
  unfolding update_cursor_def by (intro preserves_intros upsert_state_row_framed) simp

lemma enqueue_poll_job_framed [framed]: "preserves (frame ms cs) (enqueue_poll_job c k)"
  unfolding enqueue_poll_job_def
  by (intro preserves_intros) (rule frameI, simp add: frame_simps)

lemma notification_create_framed [framed]: "preserves (frame ms cs) (notification_create t s m p)"
  unfolding notification_create_def
  by (intro preserves_intros) (rule frameI, simp add: insert_notification_def notification_of_def frame_simps)

lemma acknowledge_framed [framed]: "preserves (frame ms cs) (acknowledge n)"
  unfolding acknowledge_def
  by (intro preserves_intros) (rule frameI, simp add: acknowledge_row_def frame_simps)

lemma set_pause_columns_framed [framed]: "preserves (frame ms cs) (set_pause_columns a p r)"
  unfolding set_pause_columns_def
  by (intro preserves_intros) (rule frameI, simp add: frame_simps image_update_where)

lemma pause_account_framed [framed]: "preserves (frame ms cs) (pause_account a r t)"
  using set_pause_columns_framed by (simp add: preserves_def pause_account_def)

lemma ingest_error_create_framed [framed]: "preserves (frame ms cs) (ingest_error_create c s e m p)"
  unfolding ingest_error_create_def
  by (intro preserves_intros) (rule frameI, auto simp: frame_simps split: option.splits)

lemma persist_attempts_framed [framed]: "preserves (frame ms cs) (persist_attempts i c k as meta)"
proof -
  have "preserves (frame ms cs) (insert_decision r)" for r
    by (rule frameI) (simp add: insert_decision_ok [THEN preservesD], simp add: insert_decision_def Let_def)
  then show ?thesis unfolding persist_attempts_def by (intro preserves_intros)
qed

section \<open>The handlers\<close>

lemma record_account_risk_breach_framed [framed]: "preserves (frame ms cs) (record_account_risk_breach a r t)"
  unfolding record_account_risk_breach_def upsert_risk_state_def Let_def
  by (intro preserves_intros framed)

lemma handle_flood_wait_framed [framed]: "preserves (frame ms cs) (handle_flood_wait c s a t)"
  unfolding handle_flood_wait_def persist_flood_wait_def Let_def
  by (intro preserves_intros framed)

lemma capture_ingest_error_framed [framed]: "preserves (frame ms cs) (capture_ingest_error c s e m p)"
  unfolding capture_ingest_error_def by (intro preserves_intros framed)

lemma route_create_channel_framed [framed]: "preserves (frame ms cs) (route_create_channel a t n u)"
  unfolding route_create_channel_def by (intro preserves_intros framed)

lemma patch_state_framed [framed]: "preserves (frame ms cs) (patch_state c p)"
  unfolding patch_state_def Let_def by (intro preserves_intros framed)

lemma patch_channel_framed [framed]: "preserves (frame ms cs) (patch_channel c p)"
  unfolding patch_channel_def Let_def by (intro preserves_intros framed)

lemma poll_now_framed [framed]: "preserves (frame ms cs) (poll_now c t k)"
  unfolding poll_now_def by (intro preserves_intros framed)

lemma patch_channel_group_framed [framed]: "preserves (frame ms cs) (patch_channel_group g p)"
  unfolding patch_channel_group_def Let_def by (intro preserves_intros framed)

lemma delete_channel_group_framed [framed]: "preserves (frame ms cs) (delete_channel_group g)"
  unfolding delete_channel_group_def by (intro preserves_intros framed)

lemma put_channel_group_membership_framed [framed]: "preserves (frame ms cs) (put_channel_group_membership g c)"
  unfolding put_channel_group_membership_def by (intro preserves_intros framed)

lemma delete_channel_group_membership_framed [framed]: "preserves (frame ms cs) (delete_channel_group_membership g c)"
  unfolding delete_channel_group_membership_def by (intro preserves_intros framed)

lemma acknowledge_notification_framed [framed]: "preserves (frame ms cs) (acknowledge_notification n)"
  unfolding acknowledge_notification_def by (intro preserves_intros framed)

lemma resume_account_framed [framed]: "preserves (frame ms cs) (resume_account a)"
  unfolding resume_account_def by (rule framed)

subsection \<open>Logins\<close>

lemma delete_session_framed [framed]: "preserves (frame ms cs) (delete_session i)"
  unfolding delete_session_def
  by (intro preserves_intros) (rule frameI, simp add: frame_simps del: set_delete_where)

lemma live_or_expired_framed [framed]: "preserves (frame ms cs) (live_or_expired i r)"
  unfolding live_or_expired_def by (intro preserves_intros framed)

lemma get_session_framed [framed]: "preserves (frame ms cs) (get_session i)"
  unfolding get_session_def by (intro preserves_intros framed)

lemma update_status_framed [framed]: "preserves (frame ms cs) (update_status i st ts u)"
  unfolding update_status_def
  by (intro preserves_intros framed) (rule frameI, simp add: frame_simps)

lemma create_session_framed [framed]: "preserves (frame ms cs) (create_session i p st ts x ttl)"
  unfolding create_session_def
  by (intro preserves_intros) (rule frameI, simp add: frame_simps)

lemma session_errors_framed [framed]:
  "preserves (frame ms cs) (session_errors_to_http i e)" "preserves (frame ms cs) (locked_to_http e)"
  unfolding session_errors_to_http_def locked_to_http_def by (intro preserves_intros)+

lemma refuse_login_framed [framed]: "preserves (frame ms cs) (refuse_login env p e)"
proof -
  have "preserves (frame ms cs) (\<lambda>d. act_bind (record_account_risk_breach a r (utc_now d)) (\<lambda>_. act_return ()) d)" for a r
    by (rule preserves_on_state) (intro preserves_intros framed)
  then have "preserves (frame ms cs) (record_auth_failure_risk_breach q)" for q
    unfolding record_auth_failure_risk_breach_def by (intro preserves_intros)
  then show ?thesis
    unfolding refuse_login_def record_auth_failure_notification_def
    by (cases "map_auth_error_notification env e") (simp only: prod.case, intro preserves_intros framed)
qed

lemma upsert_account_framed [framed]: "preserves (frame ms cs) (upsert_account cr dek n api h p k)"
  unfolding upsert_account_def
  by (intro preserves_intros)
    (rule frameI, simp add: frame_simps image_update_where new_account_def split: sum.split option.split)

lemma persist_session_framed [framed]: "preserves (frame ms cs) (persist_session cr dek n i s k)"
  unfolding persist_session_def
  by (intro preserves_intros) (rule frameI, simp add: frame_simps image_update_where)

lemma persist_authenticated_session_framed [framed]: "preserves (frame ms cs) (persist_authenticated_session env api h p s)"
  unfolding persist_authenticated_session_def resolve_key_encryption_key_def get_or_create_kek_salt_def
  by (intro preserves_intros framed)

lemma start_telegram_auth_framed [framed]: "preserves (frame ms cs) (start_telegram_auth env api h p)"
  unfolding start_telegram_auth_def by (intro preserves_intros framed)

lemma finish_login_framed [framed]: "preserves (frame ms cs) (finish_login env c api h s u)"
  unfolding finish_login_def update_auth_session_status_def by (intro preserves_intros framed)

lemma preserves_case_sum [preserves_intros]:
  "(\<And>x. preserves I (f x)) \<Longrightarrow> (\<And>x. preserves I (g x)) \<Longrightarrow> preserves I (case r of Inl x \<Rightarrow> f x | Inr x \<Rightarrow> g x)"
  by (cases r) auto

lemma verify_telegram_code_framed [framed]: "preserves (frame ms cs) (verify_telegram_code env i api h c)"
  unfolding verify_telegram_code_def update_auth_session_status_def delete_auth_session_def
  by (intro preserves_intros framed)

lemma verify_telegram_password_framed [framed]: "preserves (frame ms cs) (verify_telegram_password env i api h c)"
  unfolding verify_telegram_password_def by (intro preserves_intros framed)

lemma purge_channel_store_ok: "preserves store_ok (purge_channel c)"
proof -
  have "preserves store_ok (purge_session c)"
  proof (rule preservesI)
    fix d assume d: "store_ok d"
    show "store_ok (snd (purge_session c d))"
    proof (cases "find (\<lambda>r. ch_id r = c) (channels d)")
      case None
      then show ?thesis using d by (simp add: purge_session_def)
    next
      case (Some row)
      then have c: "c \<in> channel_ids d" using find_key_Some [OF Some] by auto
      show ?thesis
        using purge_session_eq [OF Some] store_ok_add_notification [OF purged_facts(1) [OF d c]] by auto
    qed
  qed
  then show ?thesis unfolding purge_channel_def by (rule preserves_intros)
qed

lemma delete_channel_store_ok: "preserves store_ok (delete_channel c purge)"
  unfolding delete_channel_def
  by (intro preserves_intros purge_channel_store_ok framed_store_ok [OF disable_channel_framed])

lemma prune_run_once_store_ok: "preserves store_ok (prune_run_once t)"
proof -
  have "preserves store_ok (\<lambda>d. case prune_session c1 c2 c3 d of (summary, d') \<Rightarrow> (Inr summary, d'))" for c1 c2 c3
    by (rule preservesI) (simp add: case_prod_unfold prune_session_eq(1) pruned_store(1))
  then show ?thesis unfolding prune_run_once_def Let_def by (intro preserves_intros)
qed

text \<open>A scheduler tick on the database.\<close>

lemma scheduler_tick_store_ok:
  assumes "store_ok (tk_db s)"
  shows "store_ok (tk_db (snd (scheduler_run_once self t s)))"
proof -
  let ?I = "\<lambda>s :: tick_state. store_ok (tk_db s)"
  have on: "preserves store_ok m \<Longrightarrow> preserves ?I (on_db m)" for m :: "(db, 'a) act"
    by (simp add: preserves_def on_db_def case_prod_unfold)
  have job: "preserves ?I (enqueue_job self c)" for c
  proof (rule preservesI)
    fix s :: tick_state assume "store_ok (tk_db s)"
    then have "store_ok (snd (enqueue_poll_job c (new_id self (tk_ids s)) (tk_db s)))"
      using preservesD [OF framed_store_ok [OF enqueue_poll_job_framed]] by blast
    then show "store_ok (tk_db (snd (enqueue_job self c s)))"
      by (simp add: enqueue_job_def on_db_def case_prod_unfold)
  qed
  have sel: "preserves ?I (select_eligible_channels self n)" for n
    unfolding select_eligible_channels_def Let_def
    by (intro preserves_intros on) (rule preservesI, simp add: case_prod_unfold)
  have "preserves ?I (scheduler_run_once self t)"
    unfolding scheduler_run_once_def Let_def by (intro preserves_intros sel job)
  from preservesD [OF this assms] show ?thesis .
qed

subsection \<open>Bot, backups and tokens\<close>

lemma setting_delete_framed [framed]: "preserves (frame ms cs) (setting_delete k)"
  unfolding setting_delete_def
  by (intro preserves_intros) (rule frameI, simp add: act_modify_def frame_simps del: set_delete_where)

lemma setting_delete_if_value_matches_framed [framed]: "preserves (frame ms cs) (setting_delete_if_value_matches k v)"
  unfolding setting_delete_if_value_matches_def
  by (intro preserves_intros) (rule frameI, simp add: frame_simps del: set_delete_where)

lemma record_delivery_framed [framed]: "preserves (frame ms cs) (record_delivery c m)"
  unfolding record_delivery_def
  by (intro preserves_intros) (rule frameI, simp add: insert_delivery_def new_delivery_def frame_simps)

lemma delete_bot_config_framed [framed]: "preserves (frame ms cs) delete_bot_config"
  unfolding delete_bot_config_def by (intro preserves_intros framed)

lemma write_config_framed [framed]: "preserves (frame ms cs) (write_config t c)"
  unfolding write_config_def put_config_key_def by (intro preserves_intros framed)

lemma cookie_key_framed [framed]: "preserves (frame ms cs) (resolve_persistent_cookie_signing_key rp e r a)"
  unfolding resolve_persistent_cookie_signing_key_def by (intro preserves_intros framed)

text \<open>Computations whose state has the database in it, with the rule for the part that works on it.\<close>

lemma bot_store_ok:
  assumes "store_ok (bt_db s)"
  shows "store_ok (bt_db (snd (delivery_run_once env s)))" and "store_ok (bt_db (snd (configure_bot env t c s)))"
proof -
  let ?I = "\<lambda>s. store_ok (bt_db s)"
  have on: "(\<And>ms cs. preserves (frame ms cs) m) \<Longrightarrow> preserves ?I (on_bot_db m)" for m :: "(db, 'a) act"
    using framed_store_ok [of m] by (simp add: preserves_def on_bot_db_def case_prod_unfold)
  have call: "preserves ?I (http_call env q)" for q
    by (rule preservesI) (simp add: http_call_def Let_def)
  have set: "preserves ?I (set_failures k v)" for k v
    unfolding set_failures_def by (rule preserves_modify) simp
  have get: "preserves ?I (bot_setting k)" for k
    unfolding bot_setting_def by (intro on preserves_intros)
  have send: "preserves ?I (send_message env t c m)" for t c m
    unfolding send_message_def by (intro preserves_intros call)
  have count: "preserves ?I (count_failure c e)" for c e
  proof (rule preservesI)
    fix s :: bot_state assume s: "?I s"
    have "preserves ?I (act_bind (on_bot_db (log_failure c e)) (\<lambda>_. set_failures c (Some 0)))"
      unfolding log_failure_def by (intro preserves_intros on framed set)
    from preservesD [OF this s] preservesD [OF set s] show "?I (snd (count_failure c e s))"
      by (simp add: count_failure_def Let_def)
  qed
  have entry: "preserves ?I (process_entry env t c e)" for t c e
    unfolding process_entry_def handle_token_invalid_def by (intro preserves_intros on framed set send count)
  have entries: "preserves ?I (process_entries env t c es)" for t c es
  proof (induction es)
    case (Cons e es)
    have "preserves ?I (case out of Delivered rec \<Rightarrow> act_bind (process_entries env t c es) (\<lambda>recs. act_return (rec # recs))
        | TokenRejected \<Rightarrow> act_return [] | NotDelivered \<Rightarrow> process_entries env t c es)" for out
      by (cases out) (auto intro!: preserves_intros Cons)
    then show ?case by (auto intro!: preserves_intros entry)
  qed (simp add: preserves_return)
  have "preserves ?I (delivery_run_once env)"
    unfolding delivery_run_once_def Let_def by (intro preserves_intros on get entries)
  from preservesD [OF this assms] show "store_ok (bt_db (snd (delivery_run_once env s)))" .
  have "preserves ?I (configure_bot env t c)"
    unfolding configure_bot_def validate_token_def by (intro preserves_intros on framed call)
  from preservesD [OF this assms] show "store_ok (bt_db (snd (configure_bot env t c s)))" .
qed

lemma bootstrap_store_ok:
  assumes "store_ok (bo_db s)"
  shows "store_ok (bo_db (snd (ensure_bootstrap_bearer_token cr fo t p s)))"
proof -
  let ?I = "\<lambda>s. store_ok (bo_db s)"
  have on: "(\<And>ms cs. preserves (frame ms cs) m) \<Longrightarrow> preserves ?I (on_boot_db m)" for m :: "(db, 'a) act"
    using framed_store_ok [of m] by (simp add: preserves_def on_boot_db_def case_prod_unfold)
  have "preserves ?I (set_file q c)" for q c
    unfolding set_file_def by (rule preserves_modify) simp
  then have "preserves ?I (ensure_bootstrap_bearer_token cr fo t p)"
    unfolding ensure_bootstrap_bearer_token_def write_bootstrap_token_def Let_def
    by (intro preserves_intros on framed)
  from preservesD [OF this assms] show ?thesis .
qed

lemma backup_store_ok:
  assumes "store_ok (bk_db s)"
  shows "store_ok (bk_db (snd (backup_run_once io dir now s)))"
proof -
  let ?I = "\<lambda>s. store_ok (bk_db s)"
  have on: "(\<And>ms cs. preserves (frame ms cs) m) \<Longrightarrow> preserves ?I (on_backup_db m)" for m :: "(db, 'a) act"
    using framed_store_ok [of m] by (simp add: preserves_def on_backup_db_def case_prod_unfold)
  have node: "preserves ?I (set_node n v)" for n v
    unfolding set_node_def by (rule preserves_modify) simp
  have un: "preserves ?I (unlink io n)" for n
    unfolding unlink_def by (intro preserves_intros node)
  have copy: "preserves ?I (copy_database io n)" for n
  proof (rule preservesI)
    fix s :: backup_state assume s: "?I s"
    have "preserves ?I (act_bind (set_node n v) (\<lambda>_. act_raise e :: (backup_state, unit) act))" for v e
      by (intro preserves_intros node)
    from preservesD [OF this s] preservesD [OF node s] show "?I (snd (copy_database io n s))"
      by (auto simp: copy_database_def split: option.split)
  qed
  have create: "preserves ?I (create_backup_and_run_integrity_check io n)" for n
    unfolding create_backup_and_run_integrity_check_def unlink_if_exists_def run_integrity_check_def replace_file_def Let_def
    by (intro preserves_intros node un copy)
  have guard: "preserves ?I m \<Longrightarrow> preserves ?I (guarded w n t m)" for w n t and m :: "(backup_state, 'b) act"
    unfolding guarded_def create_failure_notification_def by (intro preserves_intros on framed)
  have "preserves ?I (backup_run_once io dir now)"
    unfolding backup_run_once_def cleanup_old_backups_def Let_def
    by (intro preserves_intros guard create un on)
  from preservesD [OF this assms] show ?thesis .
qed

section \<open>The forms of the user interface\<close>

lemma render_framed [framed]:
  "preserves (frame ms cs) (render_channels_groups_view code m)"
  "preserves (frame ms cs) (render_notifications_view code m)"
  "preserves (frame ms cs) (channel_missing_page c)"
  unfolding channel_missing_page_def render_channels_groups_view_def render_notifications_view_def
  by (intro preserves_intros; simp add: preserves_intros split: prod.split)+

lemma preserves_both [preserves_intros]:
  assumes "preserves I m" and "\<And>e. preserves I (h e)" and "\<And>x. preserves I (f x)"
  shows "preserves I (\<lambda>d. case m d of (Inl e, d') \<Rightarrow> h e d' | (Inr x, d') \<Rightarrow> f x d')"
  using assms unfolding preserves_def by (auto split: prod.splits sum.splits)

lemma create_group_form_framed [framed]: "preserves (frame ms cs) (create_group_from_form_values v)"
  unfolding create_group_from_form_values_def by (intro preserves_intros framed)

lemma assign_group_framed [framed]: "preserves (frame ms cs) (assign_group_channel_membership g c)"
  unfolding assign_group_channel_membership_def by (intro preserves_intros framed)

lemma assigned_to_409_framed [framed]: "preserves (frame ms cs) (assigned_to_409 e)"
  unfolding assigned_to_409_def by (intro preserves_intros framed)

lemma post_acknowledge_framed [framed]: "preserves (frame ms cs) (post_acknowledge_notification n)"
  unfolding post_acknowledge_notification_def by (intro preserves_intros framed)

lemma post_create_channel_framed [framed]: "preserves (frame ms cs) (post_create_channel form)"
  unfolding post_create_channel_def Let_def
  by (auto split: option.split prod.split intro!: preserves_intros framed)

lemma post_edit_channel_framed [framed]: "preserves (frame ms cs) (post_edit_channel c form)"
  unfolding post_edit_channel_def Let_def by (intro preserves_intros framed)

lemma post_disable_channel_framed [framed]: "preserves (frame ms cs) (post_disable_channel c)"
  unfolding post_disable_channel_def by (intro preserves_intros framed)

lemma post_create_group_framed [framed]: "preserves (frame ms cs) (post_create_group form)"
  unfolding post_create_group_def by (auto split: sum.split intro!: preserves_intros framed)

lemma post_edit_group_framed [framed]: "preserves (frame ms cs) (post_edit_group g form)"
  unfolding post_edit_group_def by (auto split: sum.split intro!: preserves_intros framed)

lemma post_assign_group_framed [framed]: "preserves (frame ms cs) (post_assign_group_channel g form)"
  unfolding post_assign_group_channel_def by (auto split: sum.split intro!: preserves_intros framed)

section \<open>Reachable databases\<close>

text \<open>
  One step of the running system as the database sees it: time passes, or one of its writers runs
  to its end, with whatever arguments, successfully or not. The writer queue runs them one after
  the other.
\<close>

inductive app_step :: "db \<Rightarrow> db \<Rightarrow> bool" where
  time_passes: "app_step d (d\<lparr> clock := t \<rparr>)"
| settings_seeded: "app_step d (snd (seed_default_dynamic_settings d))"
| setting_put: "app_step d (snd (put_setting k v d))"
| channel_created: "app_step d (snd (route_create_channel a tc n u d))"
| channel_patched: "app_step d (snd (patch_channel c cp d))"
| channel_deleted: "app_step d (snd (delete_channel c purge d))"
| group_created: "app_step d (snd (create_channel_group n x h d))"
| group_patched: "app_step d (snd (patch_channel_group g gp d))"
| group_deleted: "app_step d (snd (delete_channel_group g d))"
| membership_put: "app_step d (snd (put_channel_group_membership g c d))"
| membership_deleted: "app_step d (snd (delete_channel_group_membership g c d))"
| poll_requested: "app_step d (snd (poll_now c now k d))"
| scheduler_ticked: "app_step d (tk_db (snd (scheduler_run_once self now \<lparr> tk_db = d, tk_draws = i, tk_ids = j \<rparr>)))"
| raw_message_stored: "app_step d (snd (service_upsert_raw_message c m v d))"
| cursor_stored: "app_step d (snd (update_cursor c cu d))"
| item_stored: "app_step d (snd (service_upsert_item c m x d))"
| item_assigned: "app_step d (snd (assign_item_to_cluster key item matched d))"
| clusters_merged: "app_step d (snd (merge_clusters vs d))"
| decisions_stored: "app_step d (snd (persist_attempts iv cv kv as meta d))"
| flood_wait_handled: "app_step d (snd (handle_flood_wait c s acc now d))"
| error_captured: "app_step d (snd (capture_ingest_error co st code msg ref d))"
| notification_acknowledged: "app_step d (snd (acknowledge_notification n d))"
| account_resumed: "app_step d (snd (resume_account a d))"
| login_started: "app_step d (snd (start_telegram_auth env api ah phone d))"
| login_code_verified: "app_step d (snd (verify_telegram_code env sid api ah code d))"
| login_password_verified: "app_step d (snd (verify_telegram_password env sid api ah pass d))"
| rotation_begun: "app_step d (snd (begin_rotation tv d))"
| account_rotated: "app_step d (snd (mark_account_rotated a d))"
| rotation_completed: "app_step d (snd (complete_if_finished d))"
| pruned: "app_step d (snd (prune_run_once now d))"
| bot_configured: "app_step d (bt_db (snd (configure_bot benv token chat (bot_state.make d reqs fails))))"
| bot_config_deleted: "app_step d (snd (delete_bot_config d))"
| bot_run: "app_step d (bt_db (snd (delivery_run_once benv (bot_state.make d reqs fails))))"
| backed_up: "app_step d (bk_db (snd (backup_run_once io dir now (backup_state.make d files))))"
| token_created: "app_step d (bo_db (snd (ensure_bootstrap_bearer_token wc fo token path (boot_state.make d bfiles))))"
| cookie_key_resolved: "app_step d (snd (resolve_persistent_cookie_signing_key rp ek rnd key d))"
| ui_acknowledged: "app_step d (snd (post_acknowledge_notification n d))"
| ui_channel_created: "app_step d (snd (post_create_channel form d))"
| ui_channel_edited: "app_step d (snd (post_edit_channel c form d))"
| ui_channel_disabled: "app_step d (snd (post_disable_channel c d))"
| ui_group_created: "app_step d (snd (post_create_group form d))"
| ui_group_edited: "app_step d (snd (post_edit_group g form d))"
| ui_group_assigned: "app_step d (snd (post_assign_group_channel g form d))"

inductive db_reachable :: "db \<Rightarrow> bool" where
  fresh: "db_reachable (empty_db t)"
| step: "db_reachable d \<Longrightarrow> app_step d d' \<Longrightarrow> db_reachable d'"

lemma framed_step: "(\<And>ms cs. preserves (frame ms cs) m) \<Longrightarrow> store_ok d \<Longrightarrow> store_ok (snd (m d))"
  by (rule preservesD [OF framed_store_ok])

lemma app_step_store_ok: "app_step d d' \<Longrightarrow> store_ok d \<Longrightarrow> store_ok d'"
proof (induction rule: app_step.induct)
  case (time_passes d t)
  then show ?case
    using reps_ok_cong [of "d\<lparr> clock := t \<rparr>" d] by (simp add: store_ok_def db_ok_defs)
next
  case (group_created d n x h)
  then show ?case unfolding create_channel_group_def by - (rule framed_step, rule framed)
next
  case (raw_message_stored d c m v)
  then show ?case unfolding service_upsert_raw_message_def by (rule preservesD [OF upsert_raw_message_store_ok])
next
  case (item_stored d c m x)
  then show ?case unfolding service_upsert_item_def by (rule preservesD [OF upsert_item_store_ok])
next
  case (item_assigned d key item matched)
  then show ?case by (rule preservesD [OF assign_item_to_cluster_store_ok])
next
  case (clusters_merged d vs)
  then show ?case by (rule preservesD [OF merge_clusters_store_ok])
next
  case (channel_deleted d c purge)
  then show ?case by (rule preservesD [OF delete_channel_store_ok])
next
  case (pruned d now)
  then show ?case by (rule preservesD [OF prune_run_once_store_ok])
next
  case (scheduler_ticked d self now i j)
  then show ?case by (intro scheduler_tick_store_ok) simp
next
  case (bot_configured d benv token chat reqs fails)
  then show ?case by (intro bot_store_ok) (simp add: bot_state.make_def)
next
  case (bot_run d benv reqs fails)
  then show ?case by (intro bot_store_ok) (simp add: bot_state.make_def)
next
  case (backed_up d io dir now files)
  then show ?case by (intro backup_store_ok) (simp add: backup_state.make_def)
next
  case (token_created d wc fo token path bfiles)
  then show ?case by (intro bootstrap_store_ok) (simp add: boot_state.make_def)
qed (rule framed_step, rule framed, assumption)+

lemma db_reachable_store_ok: "db_reachable d \<Longrightarrow> store_ok d"
proof (induction rule: db_reachable.induct)
  case (fresh t)
  then show ?case by (simp add: store_ok_def db_ok_empty reps_ok_def) (simp add: empty_db_def)
qed (rule app_step_store_ok)

end
