(* ===== verification/Writer_Queue.thy ===== *)
theory Writer_Queue
  imports Prelude
begin

text \<open>
  \<open>tca/storage/writer_queue.py\<close>: the queue through which every write of the application goes. The
  state is the queue object with the futures of the submitted jobs and the state that the jobs
  write; an event is one uninterrupted stretch of a task between two suspension points (the lock
  is never held across one, since the queue is unbounded). A new worker task takes its first step in
  an event of its own; the worker takes a job in one event and finishes it in a later one, so
  submissions and cancellations come in between. \<open>accepted\<close>,
  \<open>taken\<close> and \<open>executed\<close> record the history. Lemmas: jobs run one at a time in the order of
  submission, none is forgotten, closing drains the queue, and a worker that took its first step
  always gets there.
\<close>

section \<open>State\<close>

record ('s, 'v) job =
  job_id :: nat
  job_op :: "('s, 'v) act"

datatype 'v completion = Pending | Resolved "exn + 'v" | CancelledByCaller

datatype ('s, 'v) worker = NoWorker | Unstarted | Idle | Running "('s, 'v) job" | Stopped

record ('s, 'v) wq =
  queue :: "('s, 'v) job option list"
  worker :: "('s, 'v) worker"
  closed :: bool
  completion :: "nat \<Rightarrow> 'v completion"
  store :: 's
  accepted :: "('s, 'v) job list"
  taken :: "('s, 'v) job list"
  executed :: "('s, 'v) job list"

definition WriterQueueClosedError :: exn where
  "WriterQueueClosedError =
     Exn ''WriterQueueClosedError'' ''Writer queue is closed and cannot accept new jobs.''"

definition WorkerStoppedError :: exn where
  "WorkerStoppedError = Exn ''WriterQueueClosedError'' ''Writer queue worker crashed or stopped.''"

definition wq_init :: "'s \<Rightarrow> ('s, 'v) wq" where
  "wq_init s =
     \<lparr> queue = [], worker = NoWorker, closed = False, completion = (\<lambda>_. Pending), store = s,
       accepted = [], taken = [], executed = [] \<rparr>"

section \<open>Operations\<close>

fun ensure_worker :: "('s, 'v) worker \<Rightarrow> ('s, 'v) worker" where
  "ensure_worker Idle = Idle"
| "ensure_worker (Running j) = Running j"
| "ensure_worker Unstarted = Unstarted"
| "ensure_worker NoWorker = Unstarted"
| "ensure_worker Stopped = Unstarted"

text \<open>\<open>submit\<close> up to the wait for the completion; the new future is numbered by its job.\<close>

definition submit :: "('s, 'v) act \<Rightarrow> ('s, 'v) wq \<Rightarrow> (exn + nat) \<times> ('s, 'v) wq" where
  "submit operation q =
     (if closed q then (Inl WriterQueueClosedError, q)
      else
        let j = \<lparr> job_id = length (accepted q), job_op = operation \<rparr> in
        (Inr (job_id j),
         q\<lparr> worker := ensure_worker (worker q), queue := queue q @ [Some j],
            completion := (completion q)(job_id j := Pending), accepted := accepted q @ [j] \<rparr>))"

text \<open>\<open>close\<close> up to the wait for the worker.\<close>

definition close :: "('s, 'v) wq \<Rightarrow> ('s, 'v) wq" where
  "close q =
     (if closed q then q
      else if worker q = NoWorker then q\<lparr> closed := True \<rparr>
      else q\<lparr> closed := True, queue := queue q @ [None] \<rparr>)"

definition reject :: "('s, 'v) job \<Rightarrow> (nat \<Rightarrow> 'v completion) \<Rightarrow> nat \<Rightarrow> 'v completion" where
  "reject j c =
     (if c (job_id j) = Pending then c(job_id j := Resolved (Inl WorkerStoppedError)) else c)"

definition queued_jobs :: "('s, 'v) wq \<Rightarrow> ('s, 'v) job list" where
  "queued_jobs q = List.map_filter (\<lambda>x. x) (queue q)"

text \<open>The \<open>finally\<close> block: reject what is left and empty the queue.\<close>

definition drain :: "('s, 'v) wq \<Rightarrow> ('s, 'v) wq" where
  "drain q =
     q\<lparr> completion := fold reject (queued_jobs q) (completion q), queue := [],
        taken := taken q @ queued_jobs q, worker := Stopped \<rparr>"

text \<open>The first step of a worker task enters the \<open>try\<close> of \<open>_run_worker\<close>.\<close>

definition worker_start :: "('s, 'v) wq \<Rightarrow> ('s, 'v) wq option" where
  "worker_start q = (if worker q = Unstarted then Some (q\<lparr> worker := Idle \<rparr>) else None)"

text \<open>\<open>_run_worker\<close>: one return from \<open>queue.get()\<close>.\<close>

definition worker_get :: "('s, 'v) wq \<Rightarrow> ('s, 'v) wq option" where
  "worker_get q =
     (case (worker q, queue q) of
        (Idle, Some j # rest) \<Rightarrow> Some (q\<lparr> queue := rest, worker := Running j, taken := taken q @ [j] \<rparr>)
      | (Idle, None # rest) \<Rightarrow> Some (drain (q\<lparr> queue := rest \<rparr>))
      | _ \<Rightarrow> None)"

text \<open>\<open>_execute_queued_job\<close> when the operation returns or raises an ordinary exception.\<close>

definition worker_finish :: "('s, 'v) wq \<Rightarrow> ('s, 'v) wq option" where
  "worker_finish q =
     (case worker q of
        Running j \<Rightarrow>
         (case job_op j (store q) of (r, s') \<Rightarrow>
            Some (q\<lparr> store := s', worker := Idle, executed := executed q @ [j],
                     completion :=
                       (if completion q (job_id j) = CancelledByCaller then completion q
                        else (completion q)(job_id j := Resolved r)) \<rparr>))
      | _ \<Rightarrow> None)"

text \<open>
  The operation is left by \<open>KeyboardInterrupt\<close>, \<open>SystemExit\<close> or a cancellation of the worker
  task; \<open>s'\<close> is whatever it had committed by then.
\<close>

definition worker_abort :: "'s \<Rightarrow> ('s, 'v) wq \<Rightarrow> ('s, 'v) wq option" where
  "worker_abort s' q =
     (case worker q of
        Running j \<Rightarrow> Some (drain (q\<lparr> store := s', completion := reject j (completion q) \<rparr>))
      | _ \<Rightarrow> None)"

text \<open>The worker task is cancelled while it waits for a job.\<close>

definition worker_cancel :: "('s, 'v) wq \<Rightarrow> ('s, 'v) wq option" where
  "worker_cancel q = (if worker q = Idle then Some (drain q) else None)"

text \<open>
  The worker task is cancelled before its first step: it ends without having entered its body, so
  the \<open>finally\<close> block does not run and the queue stays as it is.
\<close>

definition unstarted_cancel :: "('s, 'v) wq \<Rightarrow> ('s, 'v) wq option" where
  "unstarted_cancel q = (if worker q = Unstarted then Some (q\<lparr> worker := Stopped \<rparr>) else None)"

text \<open>A caller that waits for its job is cancelled, which cancels the future.\<close>

definition caller_cancel :: "nat \<Rightarrow> ('s, 'v) wq \<Rightarrow> ('s, 'v) wq option" where
  "caller_cancel i q =
     (if i < length (accepted q) \<and> completion q i = Pending
      then Some (q\<lparr> completion := (completion q)(i := CancelledByCaller) \<rparr>) else None)"

section \<open>Runs\<close>

datatype ('s, 'v) event =
    Submit "('s, 'v) act" | Close | StartWorker | Get | Finish | CallerCancel nat | Abort 's | WorkerCancel | CancelUnstarted

fun wq_next :: "('s, 'v) event \<Rightarrow> ('s, 'v) wq \<Rightarrow> ('s, 'v) wq option" where
  "wq_next (Submit f) q = Some (snd (submit f q))"
| "wq_next Close q = Some (close q)"
| "wq_next StartWorker q = worker_start q"
| "wq_next Get q = worker_get q"
| "wq_next Finish q = worker_finish q"
| "wq_next (CallerCancel i) q = caller_cancel i q"
| "wq_next (Abort s') q = worker_abort s' q"
| "wq_next WorkerCancel q = worker_cancel q"
| "wq_next CancelUnstarted q = unstarted_cancel q"

fun crash :: "('s, 'v) event \<Rightarrow> bool" where
  "crash (Abort s') = True"
| "crash WorkerCancel = True"
| "crash CancelUnstarted = True"
| "crash _ = False"

text \<open>The states reachable from an empty queue, with crashes of the worker or without.\<close>

inductive reachable :: "bool \<Rightarrow> 's \<Rightarrow> ('s, 'v) wq \<Rightarrow> bool" for crashes s where
  reach_init: "reachable crashes s (wq_init s)"
| reach_step: "reachable crashes s q \<Longrightarrow> wq_next e q = Some q' \<Longrightarrow> (crash e \<Longrightarrow> crashes) \<Longrightarrow>
     reachable crashes s q'"

lemma reachable_weaken: "reachable c s q \<Longrightarrow> reachable True s q"
  by (induction rule: reachable.induct) (auto intro: reachable.intros)

section \<open>Invariants\<close>

definition running_jobs :: "('s, 'v) wq \<Rightarrow> ('s, 'v) job list" where
  "running_jobs q = (case worker q of Running j \<Rightarrow> [j] | _ \<Rightarrow> [])"

definition wq_inv :: "('s, 'v) wq \<Rightarrow> bool" where
  "wq_inv q \<longleftrightarrow>
     map job_id (accepted q) = [0..<length (accepted q)] \<and>
     accepted q = taken q @ queued_jobs q \<and>
     (\<forall>j \<in> set (accepted q). completion q (job_id j) = Pending \<longrightarrow>
        j \<in> set (queued_jobs q) \<or> worker q = Running j) \<and>
     (worker q = NoWorker \<longrightarrow> queue q = []) \<and>
     (closed q \<and> worker q = Stopped \<longrightarrow> queue q = [] \<or> queue q = map Some (queued_jobs q) @ [None]) \<and>
     (\<not> closed q \<longrightarrow> queue q = map Some (queued_jobs q)) \<and>
     (closed q \<and> worker q \<noteq> NoWorker \<and> worker q \<noteq> Stopped \<longrightarrow> queue q = map Some (queued_jobs q) @ [None])"

lemma queued_jobs_simps [simp]:
  "List.map_filter (\<lambda>x. x) (xs @ [Some j]) = List.map_filter (\<lambda>x. x) xs @ [j]"
  "List.map_filter (\<lambda>x. x) (xs @ [None]) = List.map_filter (\<lambda>x. x) xs"
  "List.map_filter (\<lambda>x. x) (Some j # xs) = j # List.map_filter (\<lambda>x. x) xs"
  "List.map_filter (\<lambda>x. x) (None # xs) = List.map_filter (\<lambda>x. x) xs"
  "List.map_filter (\<lambda>x. x) [] = []"
  "List.map_filter (\<lambda>x. x) (map Some js) = js"
proof -
  show "List.map_filter (\<lambda>x. x) (map Some js) = js"
    by (induction js) (simp_all add: List.map_filter_simps)
qed (simp_all add: map_filter_def)

lemma fold_reject:
  "fold reject js c i =
   (if c i = Pending \<and> i \<in> job_id ` set js then Resolved (Inl WorkerStoppedError) else c i)"
  by (induction js arbitrary: c) (auto simp: reject_def)

lemma submit_inv:
  assumes "wq_inv q" shows "wq_inv (snd (submit f q))"
proof (cases "closed q")
  case True
  with assms show ?thesis by (simp add: submit_def)
next
  case False
  let ?n = "length (accepted q)"
  have ids: "\<forall>j \<in> set (accepted q). job_id j \<noteq> ?n"
  proof
    fix j assume "j \<in> set (accepted q)"
    then have "job_id j \<in> set (map job_id (accepted q))" by simp
    then show "job_id j \<noteq> ?n"
      using assms unfolding wq_inv_def by (metis atLeastLessThan_iff less_irrefl set_upt)
  qed
  have "ensure_worker (worker q) \<noteq> NoWorker" "ensure_worker (worker q) \<noteq> Stopped"
    "worker q = Running j \<Longrightarrow> ensure_worker (worker q) = Running j" for j
    by (cases "worker q"; simp)+
  with assms False ids show ?thesis
    by (auto simp: wq_inv_def submit_def Let_def queued_jobs_def)
qed

lemma close_inv: "wq_inv q \<Longrightarrow> wq_inv (close q)"
  by (auto simp: wq_inv_def close_def queued_jobs_def)

lemma drain_inv:
  assumes "map job_id (accepted q) = [0..<length (accepted q)]"
    and "accepted q = taken q @ queued_jobs q"
    and "\<forall>j \<in> set (accepted q). completion q (job_id j) = Pending \<longrightarrow> j \<in> set (queued_jobs q)"
  shows "wq_inv (drain q)"
  using assms by (auto simp: wq_inv_def drain_def queued_jobs_def fold_reject)

lemma worker_get_inv:
  assumes "wq_inv q" and "worker_get q = Some q'" shows "wq_inv q'"
proof -
  have idle: "worker q = Idle" using assms(2) by (auto simp: worker_get_def split: worker.splits)
  show ?thesis
  proof (cases "queue q")
    case Nil
    with assms(2) idle show ?thesis by (simp add: worker_get_def)
  next
    case (Cons x rest)
    show ?thesis
    proof (cases x)
      case None
      with assms(2) idle Cons have q': "q' = drain (q\<lparr>queue := rest\<rparr>)" by (simp add: worker_get_def)
      show ?thesis unfolding q'
        by (rule drain_inv) (use assms(1) idle Cons None in \<open>auto simp: wq_inv_def queued_jobs_def\<close>)
    next
      case (Some j)
      with assms(2) idle Cons have q': "q' = q\<lparr> queue := rest, worker := Running j, taken := taken q @ [j] \<rparr>"
        by (simp add: worker_get_def)
      show ?thesis
        using assms(1) idle Cons Some by (auto simp: q' wq_inv_def queued_jobs_def)
    qed
  qed
qed

lemma worker_finish_inv:
  assumes "wq_inv q" and "worker_finish q = Some q'" shows "wq_inv q'"
proof -
  obtain j where j: "worker q = Running j" using assms(2) by (auto simp: worker_finish_def split: worker.splits)
  obtain r s' where op: "job_op j (store q) = (r, s')" by fastforce
  have q': "q' = q\<lparr> store := s', worker := Idle, executed := executed q @ [j],
      completion := (if completion q (job_id j) = CancelledByCaller then completion q
                     else (completion q)(job_id j := Resolved r)) \<rparr>"
    using assms(2) j op by (simp add: worker_finish_def)
  show ?thesis using assms(1) j by (auto simp: q' wq_inv_def queued_jobs_def split: if_splits)
qed

lemma worker_abort_inv:
  assumes "wq_inv q" and "worker_abort s' q = Some q'" shows "wq_inv q'"
proof -
  obtain j where j: "worker q = Running j" using assms(2) by (auto simp: worker_abort_def split: worker.splits)
  have q': "q' = drain (q\<lparr> store := s', completion := reject j (completion q) \<rparr>)"
    using assms(2) j by (simp add: worker_abort_def)
  show ?thesis unfolding q'
    by (rule drain_inv) (use assms(1) j in \<open>auto simp: wq_inv_def queued_jobs_def reject_def split: if_splits\<close>)
qed

lemma worker_cancel_inv:
  assumes "wq_inv q" and "worker_cancel q = Some q'" shows "wq_inv q'"
proof -
  have idle: "worker q = Idle" and q': "q' = drain q"
    using assms(2) by (auto simp: worker_cancel_def split: if_splits)
  have "map job_id (accepted q) = [0..<length (accepted q)]" "accepted q = taken q @ queued_jobs q"
    "\<forall>j \<in> set (accepted q). completion q (job_id j) = Pending \<longrightarrow> j \<in> set (queued_jobs q)"
    using assms(1) idle unfolding wq_inv_def by auto
  then show ?thesis unfolding q' by (rule drain_inv)
qed

lemma worker_start_inv: "wq_inv q \<Longrightarrow> worker_start q = Some q' \<Longrightarrow> wq_inv q'"
  by (auto simp: worker_start_def wq_inv_def queued_jobs_def split: if_splits)

lemma unstarted_cancel_inv: "wq_inv q \<Longrightarrow> unstarted_cancel q = Some q' \<Longrightarrow> wq_inv q'"
  by (auto simp: unstarted_cancel_def wq_inv_def queued_jobs_def split: if_splits)

lemma caller_cancel_inv: "wq_inv q \<Longrightarrow> caller_cancel i q = Some q' \<Longrightarrow> wq_inv q'"
  by (auto simp: caller_cancel_def wq_inv_def queued_jobs_def split: if_splits)

lemma wq_next_inv:
  assumes "wq_inv q" and "wq_next e q = Some q'" shows "wq_inv q'"
  using assms
  by (cases e) (auto intro: submit_inv close_inv worker_get_inv worker_finish_inv worker_abort_inv
      worker_cancel_inv caller_cancel_inv worker_start_inv unstarted_cancel_inv)

lemma reachable_inv: "reachable c s q \<Longrightarrow> wq_inv q"
proof (induction rule: reachable.induct)
  case reach_init
  then show ?case by (simp add: wq_init_def wq_inv_def queued_jobs_def)
next
  case (reach_step q e q')
  then show ?case using wq_next_inv by blast
qed

text \<open>Whether somebody takes care of the queued jobs: a stopped worker has left none behind.\<close>

definition served :: "('s, 'v) wq \<Rightarrow> bool" where
  "served q \<longleftrightarrow> (worker q = Stopped \<longrightarrow> queued_jobs q = [])"

lemma wq_next_served:
  assumes "served q" and "wq_next e q = Some q'" and "e \<noteq> CancelUnstarted"
  shows "served q'"
proof (cases e)
  case (Submit f)
  have "ensure_worker (worker q) \<noteq> Stopped" by (cases "worker q") simp_all
  with assms(1,2) Submit show ?thesis by (auto simp: served_def submit_def Let_def)
next
  case Close
  with assms(1,2) show ?thesis by (auto simp: served_def close_def queued_jobs_def split: if_splits)
next
  case CancelUnstarted
  with assms(3) show ?thesis by simp
qed (use assms(1,2) in \<open>auto simp: served_def worker_start_def worker_get_def worker_finish_def worker_abort_def
    worker_cancel_def caller_cancel_def drain_def queued_jobs_def
    split: worker.splits list.splits option.splits prod.splits if_splits\<close>)

lemma submit_served: "\<not> closed q \<Longrightarrow> served (snd (submit f q))"
  by (cases "worker q") (simp_all add: served_def submit_def Let_def)

section \<open>Serial execution\<close>

definition serial :: "('s, 'v) job list \<Rightarrow> 's \<Rightarrow> 's" where
  "serial js s = fold (\<lambda>j s. snd (job_op j s)) js s"

definition answered :: "'s \<Rightarrow> ('s, 'v) wq \<Rightarrow> nat \<Rightarrow> bool" where
  "answered s q k \<longleftrightarrow>
     completion q (job_id (executed q ! k)) = CancelledByCaller \<or>
     completion q (job_id (executed q ! k)) =
       Resolved (fst (job_op (executed q ! k) (serial (take k (executed q)) s)))"

definition serial_inv :: "'s \<Rightarrow> ('s, 'v) wq \<Rightarrow> bool" where
  "serial_inv s q \<longleftrightarrow> wq_inv q \<and> served q \<and>
     taken q = executed q @ running_jobs q \<and> store q = serial (executed q) s \<and>
     (\<forall>k < length (executed q). answered s q k)"

lemma sentinel_last:
  assumes "wq_inv q" and "queue q = None # rest" and "worker q = Idle"
  shows "rest = []"
  using assms by (cases "closed q"; cases "queued_jobs q") (auto simp: wq_inv_def)

lemma executed_id_less:
  assumes "serial_inv s q" and "k < length (executed q)"
  shows "job_id (executed q ! k) < length (accepted q)"
proof -
  have "executed q ! k \<in> set (accepted q)"
    using assms by (auto simp: serial_inv_def wq_inv_def)
  then have "job_id (executed q ! k) \<in> set (map job_id (accepted q))" by simp
  then show ?thesis
    using assms(1) unfolding serial_inv_def wq_inv_def by (metis atLeastLessThan_iff set_upt)
qed

lemma running_id_new:
  assumes "serial_inv s q" and "worker q = Running j" and "k < length (executed q)"
  shows "job_id (executed q ! k) \<noteq> job_id j"
proof -
  have "accepted q = executed q @ [j] @ queued_jobs q"
    using assms(1,2) by (simp add: serial_inv_def wq_inv_def running_jobs_def)
  moreover have "distinct (map job_id (accepted q))"
    using assms(1) unfolding serial_inv_def wq_inv_def by (metis distinct_upt)
  ultimately have "distinct (map job_id (executed q) @ [job_id j] @ map job_id (queued_jobs q))" by simp
  then have "job_id j \<notin> set (map job_id (executed q))" by auto
  then show ?thesis using assms(3) by (metis in_set_conv_nth length_map nth_map)
qed

lemma answered_cong:
  assumes "executed q' = executed q"
    and "completion q' (job_id (executed q ! k)) = completion q (job_id (executed q ! k)) \<or>
      completion q' (job_id (executed q ! k)) = CancelledByCaller"
    and "answered s q k"
  shows "answered s q' k"
  using assms by (auto simp: answered_def)

lemma wq_next_serial:
  assumes inv: "serial_inv s q" and step: "wq_next e q = Some q'" and calm: "\<not> crash e"
  shows "serial_inv s q'"
proof -
  have wq: "wq_inv q" and wq': "wq_inv q'"
    using inv wq_next_inv [OF _ step] by (simp_all add: serial_inv_def)
  have "e \<noteq> CancelUnstarted" using calm by auto
  then have served: "served q'" using inv wq_next_served [OF _ step] by (simp add: serial_inv_def)
  have old: "answered s q k" if "k < length (executed q)" for k
    using inv that by (simp add: serial_inv_def)
  show ?thesis
  proof (cases e)
    case (Submit f)
    then have q': "q' = snd (submit f q)" using step by simp
    have "executed q' = executed q" "store q' = store q" "taken q' = taken q"
        "running_jobs q' = running_jobs q"
      by (cases "worker q"; simp add: q' submit_def Let_def running_jobs_def)+
    moreover have "completion q' i = completion q i" if "i < length (accepted q)" for i
      using that by (simp add: q' submit_def Let_def)
    ultimately show ?thesis
      using inv wq' served old executed_id_less [OF inv]
      by (auto simp: serial_inv_def intro: answered_cong)
  next
    case Close
    then have "executed q' = executed q" "store q' = store q" "taken q' = taken q" "worker q' = worker q"
        "completion q' = completion q"
      using step by (auto simp: close_def)
    with inv wq' served old show ?thesis
      by (auto simp: serial_inv_def running_jobs_def intro: answered_cong)
  next
    case StartWorker
    then have "executed q' = executed q" "store q' = store q" "taken q' = taken q" "running_jobs q' = running_jobs q"
        "completion q' = completion q"
      using step by (auto simp: worker_start_def running_jobs_def split: if_splits)
    with inv wq' served old show ?thesis
      by (auto simp: serial_inv_def intro: answered_cong)
  next
    case Get
    have idle: "worker q = Idle" and get: "worker_get q = Some q'"
      using step Get by (auto simp: worker_get_def split: worker.splits)
    show ?thesis
    proof (cases "queue q")
      case Nil then show ?thesis using get idle by (simp add: worker_get_def)
    next
      case (Cons x rest)
      then show ?thesis
        using get idle inv wq' served old sentinel_last [OF wq _ idle]
        by (cases x)
          (auto simp: worker_get_def serial_inv_def running_jobs_def answered_def drain_def
            queued_jobs_def)
    qed
  next
    case Finish
    obtain j where j: "worker q = Running j"
      using step Finish by (auto simp: worker_finish_def split: worker.splits)
    obtain r s' where op: "job_op j (store q) = (r, s')" by fastforce
    have q': "q' = q\<lparr> store := s', worker := Idle, executed := executed q @ [j],
        completion := (if completion q (job_id j) = CancelledByCaller then completion q
                       else (completion q)(job_id j := Resolved r)) \<rparr>"
      using step Finish j op by (simp add: worker_finish_def)
    have st: "store q = serial (executed q) s" and tk: "taken q = executed q @ [j]"
      using inv j by (simp_all add: serial_inv_def running_jobs_def)
    have "answered s q' k" if "k < length (executed q')" for k
    proof (cases "k < length (executed q)")
      case True
      then show ?thesis
        using old [OF True] running_id_new [OF inv j True]
        by (auto simp: answered_def q' nth_append split: if_splits)
    next
      case False
      with that have "k = length (executed q)" by (simp add: q')
      then show ?thesis using op st by (simp add: answered_def q')
    qed
    then show ?thesis
      using wq' served st tk op by (simp add: serial_inv_def q' running_jobs_def serial_def)
  next
    case (CallerCancel i)
    then have "executed q' = executed q" "store q' = store q" "taken q' = taken q" "worker q' = worker q"
        "\<forall>k. completion q' k = completion q k \<or> completion q' k = CancelledByCaller"
      using step by (auto simp: caller_cancel_def split: if_splits)
    with inv wq' served old show ?thesis
      by (auto simp: serial_inv_def running_jobs_def intro: answered_cong)
  qed (use calm in auto)
qed

lemma reachable_serial: "reachable False s q \<Longrightarrow> serial_inv s q"
proof (induction rule: reachable.induct)
  case reach_init
  show ?case
    using reachable_inv [OF reachable.reach_init [of False s]]
    by (simp add: serial_inv_def served_def wq_init_def running_jobs_def serial_def)
next
  case (reach_step q e q')
  then show ?case by (meson wq_next_serial)
qed

section \<open>Progress\<close>

definition work_left :: "('s, 'v) wq \<Rightarrow> nat" where
  "work_left q = 2 * length (queue q) + length (running_jobs q) + (if worker q = Unstarted then 1 else 0)"

text \<open>The worker has something to do next.\<close>

definition busy :: "('s, 'v) wq \<Rightarrow> bool" where
  "busy q \<longleftrightarrow> worker q = Unstarted \<or> (\<exists>j. worker q = Running j) \<or> worker q = Idle \<and> queue q \<noteq> []"

definition worker_events :: "('s, 'v) event set" where
  "worker_events = {StartWorker, Get, Finish}"

lemma worker_event_enabled:
  assumes "busy q"
  shows "\<exists>e q'. e \<in> worker_events \<and> wq_next e q = Some q' \<and> work_left q' < work_left q"
proof -
  consider "worker q = Unstarted" | j where "worker q = Running j" | x rest where "worker q = Idle" "queue q = x # rest"
    using assms by (auto simp: busy_def neq_Nil_conv)
  then show ?thesis
  proof cases
    case 1
    then have "\<exists>q'. wq_next StartWorker q = Some q' \<and> work_left q' < work_left q"
      by (simp add: worker_start_def work_left_def running_jobs_def)
    then show ?thesis by (auto simp: worker_events_def)
  next
    case 2
    obtain r s' where op: "job_op j (store q) = (r, s')" by fastforce
    have "\<exists>q'. wq_next Finish q = Some q' \<and> work_left q' < work_left q"
      using 2 op by (simp add: worker_finish_def work_left_def running_jobs_def)
    then show ?thesis by (auto simp: worker_events_def)
  next
    case 3
    then have "\<exists>q'. wq_next Get q = Some q' \<and> work_left q' < work_left q"
      by (cases x) (simp_all add: worker_get_def work_left_def running_jobs_def drain_def)
    then show ?thesis by (auto simp: worker_events_def)
  qed
qed

inductive worker_run :: "nat \<Rightarrow> ('s, 'v) wq \<Rightarrow> ('s, 'v) wq \<Rightarrow> bool" where
  run_none: "worker_run 0 q q"
| run_event: "e \<in> worker_events \<Longrightarrow> wq_next e q = Some q' \<Longrightarrow> worker_run n q' q'' \<Longrightarrow>
     worker_run (Suc n) q q''"

lemma worker_event_accepted: "e \<in> worker_events \<Longrightarrow> wq_next e q = Some q' \<Longrightarrow> accepted q' = accepted q"
  by (auto simp: worker_events_def worker_start_def worker_get_def worker_finish_def drain_def
      split: worker.splits list.splits option.splits prod.splits if_splits)

lemma worker_run_keeps:
  assumes "worker_run n q q'" and "wq_inv q" and "served q"
  shows "wq_inv q' \<and> served q' \<and> accepted q' = accepted q"
  using assms
proof (induction rule: worker_run.induct)
  case (run_event e q q' n q'')
  have "e \<noteq> CancelUnstarted" using run_event.hyps(1) by (auto simp: worker_events_def)
  then have "wq_inv q'" "served q'" "accepted q' = accepted q"
    using run_event.prems run_event.hyps(1,2) by (blast intro: wq_next_inv wq_next_served worker_event_accepted)+
  then show ?case using run_event.IH by simp
qed simp

lemma worker_run_drains: "\<exists>n q'. n \<le> work_left q \<and> worker_run n q q' \<and> \<not> busy q'"
proof (induction "work_left q" arbitrary: q rule: less_induct)
  case less
  show ?case
  proof (cases "busy q")
    case True
    then obtain e q1 where step: "e \<in> worker_events" "wq_next e q = Some q1" "work_left q1 < work_left q"
      using worker_event_enabled by blast
    from less.hyps [OF step(3)] obtain n q' where "n \<le> work_left q1" "worker_run n q1 q'" "\<not> busy q'" by blast
    then show ?thesis
      using step by (intro exI [of _ "Suc n"] exI [of _ q']) (auto intro: worker_run.intros)
  next
    case False
    then show ?thesis by (intro exI [of _ 0] exI [of _ q]) (auto intro: worker_run.intros)
  qed
qed

lemma no_pending_when_quiet:
  assumes "wq_inv q" and "served q" and "\<not> busy q"
  shows "\<forall>j \<in> set (accepted q). completion q (job_id j) \<noteq> Pending"
proof -
  have "queued_jobs q = []"
    using assms by (cases "worker q") (auto simp: wq_inv_def served_def busy_def queued_jobs_def)
  moreover have "\<forall>j. worker q \<noteq> Running j" using assms(3) by (auto simp: busy_def)
  ultimately show ?thesis using assms(1) unfolding wq_inv_def by (metis empty_iff empty_set)
qed

text \<open>What every job keeps, the queue keeps, however submissions and the worker interleave.\<close>

lemma queued_writes_keep:
  assumes "reachable False s q" and "I s" and "\<forall>j \<in> set (accepted q). preserves I (job_op j)"
  shows "I (store q)"
proof -
  have inv: "serial_inv s q" by (rule reachable_serial [OF assms(1)])
  have keep: "I s \<Longrightarrow> \<forall>j \<in> set js. preserves I (job_op j) \<Longrightarrow> I (serial js s)" for js s
    by (induction js arbitrary: s) (auto simp: serial_def preserves_def)
  have "accepted q = taken q @ queued_jobs q" "taken q = executed q @ running_jobs q" "store q = serial (executed q) s"
    using inv by (simp_all add: serial_inv_def wq_inv_def)
  then have "set (executed q) \<subseteq> set (accepted q)" by simp
  then have "\<forall>j \<in> set (executed q). preserves I (job_op j)" using assms(3) by blast
  with keep [OF assms(2)] show ?thesis using \<open>store q = serial (executed q) s\<close> by simp
qed

lemma one_job_runs: "\<exists>q. reachable False s q \<and> store q = snd (f s) \<and> accepted q = [\<lparr> job_id = 0, job_op = f \<rparr>]"
proof -
  obtain r t where run: "f s = (r, t)" by (cases "f s")
  let ?q1 = "snd (submit f (wq_init s))"
  have r1: "reachable False s ?q1" by (rule reach_step [OF reach_init, where e = "Submit f"]) simp_all
  obtain q1 where q1: "wq_next StartWorker ?q1 = Some q1"
    by (simp add: submit_def wq_init_def worker_start_def Let_def)
  have r1': "reachable False s q1" by (rule reach_step [OF r1 q1]) simp
  obtain q2 where q2: "wq_next Get q1 = Some q2"
    using q1 by (auto simp: submit_def wq_init_def worker_start_def worker_get_def Let_def)
  have r2: "reachable False s q2" by (rule reach_step [OF r1' q2]) simp
  obtain q3 where q3: "wq_next Finish q2 = Some q3" "store q3 = t" "accepted q3 = [\<lparr> job_id = 0, job_op = f \<rparr>]"
    using q1 q2 run by (auto simp: submit_def wq_init_def worker_start_def worker_get_def worker_finish_def Let_def)
  have "reachable False s q3" by (rule reach_step [OF r2 q3(1)]) simp
  with q3(2,3) run show ?thesis by auto
qed

section \<open>Properties\<close>

text \<open>
  C3. Writes are serial and in submission order: as long as the worker is not killed, at every
  moment the accepted jobs are the executed ones, then the one that runs, then the queued ones,
  in the order of submission; the state is what running the executed jobs one after the other
  gives, each of them has been answered with the result or the exception it has in that serial
  run unless its caller gave up waiting, and at most one job runs.
\<close>

theorem writer_queue_serial:
  assumes "reachable False s q"
  shows "accepted q = executed q @ running_jobs q @ queued_jobs q \<and>
     store q = serial (executed q) s \<and> length (running_jobs q) \<le> 1 \<and>
     (\<forall>k < length (executed q).
        completion q (job_id (executed q ! k)) = CancelledByCaller \<or>
        completion q (job_id (executed q ! k)) =
          Resolved (fst (job_op (executed q ! k) (serial (take k (executed q)) s))))"
proof -
  have inv: "serial_inv s q" by (rule reachable_serial [OF assms])
  then have acc: "accepted q = taken q @ queued_jobs q" "taken q = executed q @ running_jobs q"
    by (simp_all add: serial_inv_def wq_inv_def)
  have "length (running_jobs q) \<le> 1" by (simp add: running_jobs_def split: worker.split)
  with inv acc show ?thesis by (simp add: serial_inv_def answered_def)
qed

definition add_op :: "int \<Rightarrow> (int, int) act" where
  "add_op n = (\<lambda>s. (Inr s, s + n))"

definition writer_sample :: "(int, int) wq" where
  "writer_sample =
     the (wq_next Finish (the (wq_next Get (the (wq_next StartWorker
       (snd (submit (add_op 5) (snd (submit (add_op 2) (wq_init 0))))))))))"

lemma writer_sample_reachable: "reachable False 0 writer_sample"
proof -
  let ?q1 = "snd (submit (add_op 2) (wq_init 0))" and ?q2 = "snd (submit (add_op 5) (snd (submit (add_op 2) (wq_init 0))))"
  have "reachable False 0 ?q1"
    by (rule reach_step [OF reach_init, where e = "Submit (add_op 2)"]) simp_all
  then have "reachable False 0 ?q2"
    by (rule reach_step [where e = "Submit (add_op 5)"]) simp_all
  moreover obtain q2 where q2: "wq_next StartWorker ?q2 = Some q2"
    by (simp add: submit_def wq_init_def worker_start_def Let_def)
  ultimately have "reachable False 0 q2" by (rule reach_step) simp
  moreover obtain q3 where q3: "wq_next Get q2 = Some q3"
    using q2 by (auto simp: submit_def wq_init_def worker_start_def worker_get_def Let_def)
  ultimately have "reachable False 0 q3" by (rule reach_step) simp
  moreover have "wq_next Finish q3 = Some writer_sample"
    using q2 q3
    by (auto simp: writer_sample_def submit_def wq_init_def worker_start_def worker_get_def worker_finish_def Let_def add_op_def)
  ultimately show ?thesis by (rule reach_step) simp
qed

theorem writer_queue_serial_witness:
  "reachable False 0 writer_sample \<and> length (executed writer_sample) = 1 \<and>
   length (queued_jobs writer_sample) = 1 \<and> store writer_sample = 2 \<and>
   store writer_sample = serial (executed writer_sample) 0"
  using writer_queue_serial [OF writer_sample_reachable] writer_sample_reachable
  by (simp add: writer_sample_def submit_def wq_init_def worker_start_def worker_get_def worker_finish_def Let_def
      add_op_def queued_jobs_def)

text \<open>
  C7. Submissions are not forgotten. In every reachable state, also after kills of the worker, a job
  whose caller still waits is in the queue or running. As long as the queue is served, that is no
  worker was cancelled before its first step and left jobs behind, the worker's own events, at
  most twice the queue length and one more, lead to a state in which every accepted job has been
  answered. No event but such an early cancellation ends the service, kills of a worker that has
  started included, and the next accepted submission restores it.
\<close>

theorem writer_queue_answers_all:
  assumes "reachable c s q"
  shows "(\<forall>j \<in> set (accepted q). completion q (job_id j) = Pending \<longrightarrow>
       j \<in> set (queued_jobs q) \<or> worker q = Running j) \<and>
     (served q \<longrightarrow> (\<exists>n q'. n \<le> 2 * length (queue q) + 1 \<and> worker_run n q q' \<and> accepted q' = accepted q \<and>
       (\<forall>j \<in> set (accepted q). completion q' (job_id j) \<noteq> Pending))) \<and>
     (\<forall>e q'. served q \<longrightarrow> wq_next e q = Some q' \<longrightarrow> e \<noteq> CancelUnstarted \<longrightarrow> served q') \<and>
     (\<not> closed q \<longrightarrow> served (snd (submit f q)))"
proof -
  have inv: "wq_inv q" by (rule reachable_inv [OF assms])
  obtain n q' where run: "n \<le> work_left q" "worker_run n q q'" "\<not> busy q'" using worker_run_drains by blast
  have "work_left q \<le> 2 * length (queue q) + 1"
    by (simp add: work_left_def running_jobs_def split: worker.split)
  then have "n \<le> 2 * length (queue q) + 1" using run(1) by simp
  moreover have "accepted q' = accepted q \<and> (\<forall>j \<in> set (accepted q). completion q' (job_id j) \<noteq> Pending)" if "served q"
    using worker_run_keeps [OF run(2) inv that] no_pending_when_quiet [OF _ _ run(3)] by auto
  moreover have "\<forall>j \<in> set (accepted q). completion q (job_id j) = Pending \<longrightarrow>
       j \<in> set (queued_jobs q) \<or> worker q = Running j"
    using inv by (simp add: wq_inv_def)
  ultimately show ?thesis using run(2) wq_next_served submit_served by blast
qed

text \<open>The sample has one job done and one queued; its worker answers the second within three events.\<close>

theorem writer_queue_answers_all_witness:
  "\<exists>n q'. n \<le> 3 \<and> worker_run n writer_sample q' \<and> completion writer_sample 1 = Pending \<and>
     completion q' 0 \<noteq> Pending \<and> completion q' 1 \<noteq> Pending"
proof -
  have sample: "served writer_sample" "length (queue writer_sample) = 1" "map job_id (accepted writer_sample) = [0, 1]"
    "completion writer_sample 1 = Pending"
    by (simp_all add: writer_sample_def submit_def wq_init_def worker_start_def worker_get_def worker_finish_def Let_def
        add_op_def served_def)
  then obtain n q' where run: "n \<le> 3" "worker_run n writer_sample q'"
      "\<forall>j \<in> set (accepted writer_sample). completion q' (job_id j) \<noteq> Pending"
    using writer_queue_answers_all [OF writer_sample_reachable] by fastforce
  then have "\<forall>i \<in> set (map job_id (accepted writer_sample)). completion q' i \<noteq> Pending" by simp
  then show ?thesis using run(1,2) sample unfolding sample(3) by auto
qed

text \<open>
  An early cancellation of the worker followed by a close: the job stays pending, and no event of
  the worker is left that could answer it.
\<close>

lemma early_cancel_strands_job:
  "\<exists>q. reachable True 0 q \<and> completion q 0 = Pending \<and> closed q \<and> \<not> busy q \<and> submit (add_op 1) q = (Inl WriterQueueClosedError, q)"
proof -
  let ?q1 = "snd (submit (add_op 5) (wq_init 0))"
  have "reachable True 0 ?q1" by (rule reach_step [OF reach_init, where e = "Submit (add_op 5)"]) simp_all
  moreover obtain q2 where q2: "wq_next CancelUnstarted ?q1 = Some q2"
    by (simp add: submit_def wq_init_def unstarted_cancel_def Let_def)
  ultimately have "reachable True 0 q2" by (rule reach_step) simp
  then have "reachable True 0 (close q2)" by (rule reach_step [where e = Close]) simp_all
  with q2 show ?thesis
    by (intro exI [of _ "close q2"]) (auto simp: submit_def wq_init_def unstarted_cancel_def close_def Let_def busy_def)
qed

text \<open>
  C8. Closing: a closed queue refuses every submission with the closed error and is unchanged by
  it; and when the worker of a closed queue has ended without having been killed, every job that
  was ever accepted has been executed, in order, and answered.
\<close>

theorem writer_queue_close_drains:
  assumes "reachable False s q" and "closed q"
  shows "submit f q = (Inl WriterQueueClosedError, q) \<and>
     (worker q = Stopped \<longrightarrow> executed q = accepted q \<and> store q = serial (accepted q) s \<and>
        (\<forall>j \<in> set (accepted q). completion q (job_id j) \<noteq> Pending))"
proof -
  have inv: "serial_inv s q" by (rule reachable_serial [OF assms(1)])
  then have wq: "wq_inv q" by (simp add: serial_inv_def)
  have "executed q = accepted q \<and> store q = serial (accepted q) s \<and>
      (\<forall>j \<in> set (accepted q). completion q (job_id j) \<noteq> Pending)" if "worker q = Stopped"
  proof -
    have "queued_jobs q = []" "running_jobs q = []" and quiet: "served q" "\<not> busy q"
      using inv that by (auto simp: serial_inv_def served_def running_jobs_def busy_def)
    then have "executed q = accepted q" using inv by (simp add: serial_inv_def wq_inv_def)
    then show ?thesis
      using inv that no_pending_when_quiet [OF wq quiet] by (simp add: serial_inv_def)
  qed
  then show ?thesis using assms(2) by (simp add: submit_def)
qed

theorem writer_queue_close_drains_witness:
  "submit (add_op 1) (close writer_sample) = (Inl WriterQueueClosedError, close writer_sample)"
proof -
  have r: "reachable False 0 (close writer_sample)"
    by (rule reach_step [OF writer_sample_reachable, where e = Close]) simp_all
  have c: "closed (close writer_sample)" by (auto simp: close_def)
  from writer_queue_close_drains [OF r c, of "add_op 1"] show ?thesis by simp
qed

end
