(* ===== verification/Ingest_Fetch.thy ===== *)
theory Ingest_Fetch
  imports Channel_State
begin

text \<open>
  \<open>tca/ingest/service.py\<close>: reading messages from Telegram in bounded pages. The client is a
  parameter, the answer of its \<open>n\<close>-th call; messages are any objects, with the value of their
  \<open>id\<close> attribute. Lemmas: the limits on pages and messages hold for every client that respects
  \<open>limit\<close>, and against a client that serves a fixed history newest first, consecutive polls read it
  without gaps or repetitions.
\<close>

section \<open>The fetch loop\<close>

type_synonym 'm client = "nat \<Rightarrow> int \<Rightarrow> int option \<Rightarrow> 'm list res"

record 'm pagination_result =
  bp_messages :: "'m list"
  bp_cursor :: channel_cursor

definition extract_message_id :: "('m \<Rightarrow> pyobj) \<Rightarrow> 'm \<Rightarrow> int res" where
  "extract_message_id attr m = int_or_raise (ValueError ''message missing integer id'') (attr m)"

text \<open>\<open>[message async for message in client.iter_messages(channel, limit=limit)]\<close>.\<close>

definition fetch_recent_messages :: "(int option \<Rightarrow> 'm list res) \<Rightarrow> int option \<Rightarrow> 'm list res" where
  "fetch_recent_messages iter_messages limit = iter_messages limit"

definition newest :: "int option \<Rightarrow> int list \<Rightarrow> int option" where
  "newest most_recent ids =
     (let batch_max = Max (set ids) in
      case most_recent of
        None \<Rightarrow> Some batch_max
      | Some n \<Rightarrow> if batch_max > n then Some batch_max else Some n)"

text \<open>
  The loop returns the messages, the newest id, the offset for the next poll (none when the history
  is exhausted) and the number of pages fetched.
\<close>

function fetch_loop ::
  "'m client \<Rightarrow> ('m \<Rightarrow> pyobj) \<Rightarrow> int \<Rightarrow> int \<Rightarrow> int \<Rightarrow> nat \<Rightarrow> 'm list \<Rightarrow> int option \<Rightarrow> int option \<Rightarrow>
   ('m list \<times> int option \<times> int option \<times> nat) res" where
  "fetch_loop get_messages attr page_size max_pages max_messages pages messages most_recent offset_id =
     (if int pages < max_pages \<and> int (length messages) < max_messages
      then
        let page_limit = min page_size (max_messages - int (length messages)) in
        res_bind (get_messages pages page_limit offset_id) (\<lambda>batch.
          if batch = [] then Inr (messages, most_recent, None, Suc pages)
          else
            res_bind (res_map (extract_message_id attr) batch) (\<lambda>ids.
              let most_recent' = newest most_recent ids in
              if int (length batch) < page_limit
              then Inr (messages @ batch, most_recent', None, Suc pages)
              else fetch_loop get_messages attr page_size max_pages max_messages (Suc pages) (messages @ batch)
                     most_recent' (Some (Min (set ids)))))
      else Inr (messages, most_recent, offset_id, pages))"
  by pat_completeness auto
termination
  by (relation "measure (\<lambda>(_, _, _, max_pages, _, pages, _). nat (max_pages - int pages))") auto

declare fetch_loop.simps [simp del]

lemma fetch_loop_stop:
  "\<not> (int pages < max_pages \<and> int (length ms) < max_messages) \<Longrightarrow>
   fetch_loop get_messages attr page_size max_pages max_messages pages ms most offset = Inr (ms, most, offset, pages)"
  by (subst fetch_loop.simps) (rule if_not_P)

lemma fetch_loop_page:
  assumes "int pages < max_pages \<and> int (length ms) < max_messages"
    and "limit = min page_size (max_messages - int (length ms))"
  shows "fetch_loop get_messages attr page_size max_pages max_messages pages ms most offset =
    res_bind (get_messages pages limit offset) (\<lambda>batch.
      if batch = [] then Inr (ms, most, None, Suc pages)
      else res_bind (res_map (extract_message_id attr) batch) (\<lambda>ids.
          if int (length batch) < limit then Inr (ms @ batch, newest most ids, None, Suc pages)
          else fetch_loop get_messages attr page_size max_pages max_messages (Suc pages) (ms @ batch)
                 (newest most ids) (Some (Min (set ids)))))"
  unfolding assms(2) by (subst fetch_loop.simps) (simp only: if_P [OF assms(1)] Let_def)

definition fetch_bounded_messages ::
  "'m client \<Rightarrow> ('m \<Rightarrow> pyobj) \<Rightarrow> channel_cursor option \<Rightarrow> int \<Rightarrow> int \<Rightarrow> int \<Rightarrow> datetime \<Rightarrow>
   'm pagination_result res" where
  "fetch_bounded_messages get_messages attr cursor max_pages max_messages page_size polled_at =
     (let start_last = Option.bind cursor cu_last_message_id;
          start_offset = Option.bind cursor cu_next_offset_id in
      if max_pages \<le> 0 \<or> max_messages \<le> 0
      then Inr \<lparr> bp_messages = [],
                 bp_cursor = \<lparr> cu_last_message_id = start_last, cu_next_offset_id = start_offset,
                               cu_last_polled_at = polled_at \<rparr> \<rparr>
      else
        res_bind (fetch_loop get_messages attr page_size max_pages max_messages 0 [] start_last start_offset)
          (\<lambda>(messages, most_recent, next_offset_id, pages).
            Inr \<lparr> bp_messages = messages,
                  bp_cursor = \<lparr> cu_last_message_id = most_recent, cu_next_offset_id = next_offset_id,
                                cu_last_polled_at = polled_at \<rparr> \<rparr>))"

section \<open>Limits\<close>

text \<open>A client that never answers more than it was asked for.\<close>

definition respects_limit :: "'m client \<Rightarrow> bool" where
  "respects_limit get_messages \<longleftrightarrow>
     (\<forall>n limit offset batch. get_messages n limit offset = Inr batch \<longrightarrow> 0 < limit \<longrightarrow> int (length batch) \<le> limit)"

definition id_of :: "('m \<Rightarrow> pyobj) \<Rightarrow> 'm \<Rightarrow> int" where
  "id_of attr m = (case is_int_obj (attr m) of None \<Rightarrow> 0 | Some i \<Rightarrow> i)"

lemma res_map_ids: "res_map (extract_message_id attr) ms = Inr ids \<Longrightarrow> ids = map (id_of attr) ms"
  by (induction ms arbitrary: ids)
    (auto simp: res_bind_Inr extract_message_id_def int_or_raise_def id_of_def split: option.splits)

definition max_opt :: "int option \<Rightarrow> int set \<Rightarrow> int option" where
  "max_opt a S =
     (case a of
        None \<Rightarrow> if S = {} then None else Some (Max S)
      | Some n \<Rightarrow> Some (Max (insert n S)))"

lemma newest_max: "ids \<noteq> [] \<Longrightarrow> newest a ids = max_opt a (set ids)"
  by (cases a) (auto simp: newest_def max_opt_def Let_def max_def)

lemma max_opt_union: "finite S \<Longrightarrow> finite T \<Longrightarrow> max_opt (max_opt a S) T = max_opt a (S \<union> T)"
proof -
  assume fin: "finite S" "finite T"
  have step: "Max (insert (Max A) T) = Max (A \<union> T)" if "finite A" "A \<noteq> {}" for A
    using that fin(2) by (cases "T = {}") (simp_all add: Max_Un Max_insert)
  show ?thesis
  proof (cases a)
    case None
    then show ?thesis using step [of S] fin(1) by (auto simp: max_opt_def)
  next
    case (Some n)
    then show ?thesis using step [of "insert n S"] fin(1) by (simp add: max_opt_def)
  qed
qed

lemma fetch_loop_limits:
  assumes "respects_limit get_messages" and "0 < page_size"
    and "fetch_loop get_messages attr page_size max_pages max_messages pages ms most offset = Inr (out, most', offset', pages')"
    and "int pages \<le> max_pages" and "int (length ms) \<le> max_messages"
  shows "int pages' \<le> max_pages \<and> int (length out) \<le> max_messages \<and>
    (\<exists>rest. out = ms @ rest \<and> most' = max_opt most (set (map (id_of attr) rest)) \<and>
      int (length rest) \<le> int (pages' - pages) * page_size \<and> pages \<le> pages')"
  using assms
proof (induction get_messages attr page_size max_pages max_messages pages ms most offset rule: fetch_loop.induct)
  case (1 get_messages attr page_size max_pages max_messages pages ms most offset)
  let ?limit = "min page_size (max_messages - int (length ms))"
  show ?case
  proof (cases "int pages < max_pages \<and> int (length ms) < max_messages")
    case False
    then show ?thesis using "1.prems" by (auto simp: fetch_loop_stop max_opt_def split: option.split)
  next
    case True
    have run: "res_bind (get_messages pages ?limit offset) (\<lambda>batch.
          if batch = [] then Inr (ms, most, None, Suc pages)
          else res_bind (res_map (extract_message_id attr) batch) (\<lambda>ids.
              if int (length batch) < ?limit then Inr (ms @ batch, newest most ids, None, Suc pages)
              else fetch_loop get_messages attr page_size max_pages max_messages (Suc pages) (ms @ batch)
                     (newest most ids) (Some (Min (set ids))))) = Inr (out, most', offset', pages')"
      using "1.prems"(3) unfolding fetch_loop_page [OF True refl] .
    then obtain batch where batch: "get_messages pages ?limit offset = Inr batch" by (auto simp: res_bind_Inr)
    have len: "int (length batch) \<le> ?limit"
    proof -
      have "0 < ?limit" using "1.prems"(2) True by simp
      then show ?thesis using "1.prems"(1) batch unfolding respects_limit_def by blast
    qed
    show ?thesis
    proof (cases "batch = []")
      case True
      then show ?thesis using run batch "1.prems"(2) \<open>int pages < max_pages \<and> _\<close>
        by (auto simp: max_opt_def split: option.split)
    next
      case False
      then obtain ids where mapped: "res_map (extract_message_id attr) batch = Inr ids"
        using run batch by (auto simp: res_bind_Inr)
      have ids: "ids = map (id_of attr) batch" by (rule res_map_ids [OF mapped])
      have most: "newest most ids = max_opt most (set (map (id_of attr) batch))"
        using False by (simp add: newest_max ids)
      show ?thesis
      proof (cases "int (length batch) < ?limit")
        case True
        then show ?thesis using run batch False mapped most len \<open>int pages < max_pages \<and> _\<close> by (auto simp: ids)
      next
        case no: False
        have "fetch_loop get_messages attr page_size max_pages max_messages (Suc pages) (ms @ batch)
            (newest most ids) (Some (Min (set ids))) = Inr (out, most', offset', pages')"
          using run by (simp only: batch mapped res_bind_simps if_not_P [OF False] if_not_P [OF no])
        moreover have "int (Suc pages) \<le> max_pages" "int (length (ms @ batch)) \<le> max_messages" using True len by auto
        ultimately have IH: "int pages' \<le> max_pages \<and> int (length out) \<le> max_messages \<and>
            (\<exists>rest. out = (ms @ batch) @ rest \<and> most' = max_opt (newest most ids) (set (map (id_of attr) rest)) \<and>
              int (length rest) \<le> int (pages' - Suc pages) * page_size \<and> Suc pages \<le> pages')"
          using "1.IH" [OF True refl False refl no "1.prems"(1,2)] by blast
        then obtain rest where rest: "out = ms @ (batch @ rest)"
            "most' = max_opt (max_opt most (set (map (id_of attr) batch))) (set (map (id_of attr) rest))"
            "int (length rest) \<le> int (pages' - Suc pages) * page_size" "Suc pages \<le> pages'"
          by (auto simp: most)
        have "int (length (batch @ rest)) \<le> int (pages' - pages) * page_size"
        proof -
          have "int (pages' - pages) = 1 + int (pages' - Suc pages)" using rest(4) by simp
          then show ?thesis using len rest(3) by (simp add: algebra_simps)
        qed
        with IH rest show ?thesis
          by (intro conjI exI [of _ "batch @ rest"]) (auto simp: max_opt_union)
      qed
    qed
  qed
qed

section \<open>A fixed history\<close>

text \<open>
  The history newest first, with pairwise different ids, and the client that serves it: the
  messages older than the offset, at most \<open>limit\<close> of them (the documented meaning of
  \<open>offset_id\<close> and \<open>limit\<close>).
\<close>

definition history_ok :: "('m \<Rightarrow> pyobj) \<Rightarrow> 'm list \<Rightarrow> bool" where
  "history_ok attr h \<longleftrightarrow> list_all (\<lambda>m. is_int_obj (attr m) \<noteq> None) h \<and> sorted_wrt (\<lambda>m m'. id_of attr m > id_of attr m') h"

definition older :: "('m \<Rightarrow> pyobj) \<Rightarrow> int option \<Rightarrow> 'm list \<Rightarrow> 'm list" where
  "older attr offset h = (case offset of None \<Rightarrow> h | Some i \<Rightarrow> filter (\<lambda>m. id_of attr m < i) h)"

definition serves :: "('m \<Rightarrow> pyobj) \<Rightarrow> 'm list \<Rightarrow> 'm client" where
  "serves attr h n limit offset = Inr (take (nat limit) (older attr offset h))"

lemma older_decreasing: "history_ok attr h \<Longrightarrow> sorted_wrt (\<lambda>m m'. id_of attr m > id_of attr m') (older attr offset h)"
  by (auto simp: history_ok_def older_def sorted_wrt_filter split: option.split)

lemma filter_below_drop:
  assumes "sorted_wrt (\<lambda>x y. f x > (f y :: int)) xs" and "0 < k" and "k \<le> length xs"
  shows "filter (\<lambda>x. f x < f (xs ! (k - 1))) xs = drop k xs"
  using assms
proof (induction xs arbitrary: k)
  case (Cons x xs)
  show ?case
  proof (cases "k = 1")
    case True
    then show ?thesis using Cons.prems(1) by (auto simp: filter_id_conv)
  next
    case False
    then have k: "0 < k - 1" "k - 1 \<le> length xs" using Cons.prems by auto
    then have "xs ! (k - 1 - 1) \<in> set xs" by (intro nth_mem) simp
    then have "\<not> f x < f (xs ! (k - 1 - 1))" using Cons.prems(1) by auto
    moreover have "(x # xs) ! (k - 1) = xs ! (k - 1 - 1)" "drop k (x # xs) = drop (k - 1) xs"
      using k by (simp_all add: nth_Cons' drop_Cons')
    ultimately show ?thesis using Cons.IH [of "k - 1"] Cons.prems(1) k by simp
  qed
qed simp

lemma older_after_page:
  assumes "history_ok attr h" and "0 < k" and "k \<le> length (older attr offset h)"
  shows "older attr (Some (id_of attr (older attr offset h ! (k - 1)))) h = drop k (older attr offset h)"
proof -
  let ?R = "older attr offset h" and ?i = "id_of attr (older attr offset h ! (k - 1))"
  have "?R ! (k - 1) \<in> set ?R" using assms(2,3) by (intro nth_mem) simp
  then have "filter (\<lambda>m. id_of attr m < ?i) h = filter (\<lambda>m. id_of attr m < ?i) ?R"
    by (auto simp: older_def intro!: filter_cong split: option.splits)
  then show ?thesis
    using filter_below_drop [OF older_decreasing [OF assms(1)] assms(2,3)] by (simp add: older_def)
qed

lemma page_ids:
  assumes "history_ok attr h" and "0 < k" and "k \<le> length (older attr offset h)"
  shows "res_map (extract_message_id attr) (take k (older attr offset h)) = Inr (map (id_of attr) (take k (older attr offset h)))"
    and "Min (set (map (id_of attr) (take k (older attr offset h)))) = id_of attr (older attr offset h ! (k - 1))"
proof -
  let ?R = "older attr offset h"
  have "is_int_obj (attr m) \<noteq> None" if "m \<in> set (take k ?R)" for m
    using that assms(1) in_set_takeD [of m k ?R] by (auto simp: history_ok_def older_def list_all_iff split: option.splits)
  then show "res_map (extract_message_id attr) (take k ?R) = Inr (map (id_of attr) (take k ?R))"
    by (intro res_map_total) (force simp: extract_message_id_def int_or_raise_def id_of_def split: option.splits)
  show "Min (set (map (id_of attr) (take k ?R))) = id_of attr (?R ! (k - 1))"
  proof (rule Min_eqI)
    fix y assume "y \<in> set (map (id_of attr) (take k ?R))"
    then obtain j where j: "j < k" "y = id_of attr (?R ! j)" using assms(3) by (auto simp: in_set_conv_nth)
    show "id_of attr (?R ! (k - 1)) \<le> y"
    proof (cases "j = k - 1")
      case False
      then have "j < k - 1" "k - 1 < length ?R" using j(1) assms(2,3) by simp_all
      then show ?thesis
        using older_decreasing [OF assms(1)] by (simp add: j(2) sorted_wrt_iff_nth_less order_less_imp_le)
    qed (simp add: j(2))
  next
    have "?R ! (k - 1) \<in> set (take k ?R)" using assms(2,3) by (auto simp: in_set_conv_nth intro!: exI [of _ "k - 1"])
    then show "id_of attr (?R ! (k - 1)) \<in> set (map (id_of attr) (take k ?R))" by simp
  qed simp
qed

text \<open>The number of messages still allowed, and the offset after reading that many.\<close>

definition quota :: "int \<Rightarrow> int \<Rightarrow> int \<Rightarrow> nat \<Rightarrow> nat \<Rightarrow> nat" where
  "quota max_pages max_messages page_size pages len =
     nat (min (max_messages - int len) ((max_pages - int pages) * page_size))"

definition next_offset :: "('m \<Rightarrow> pyobj) \<Rightarrow> int option \<Rightarrow> 'm list \<Rightarrow> nat \<Rightarrow> int option" where
  "next_offset attr offset R k =
     (if length R < k then None else if k = 0 then offset else Some (id_of attr (R ! (k - 1))))"

lemma quota_page:
  assumes "int pages < max_pages \<and> int len < max_messages" and "0 < page_size"
    and "limit = nat (min page_size (max_messages - int len))"
  shows "0 < limit" and "quota max_pages max_messages page_size pages len =
    limit + quota max_pages max_messages page_size (Suc pages) (len + limit)"
proof -
  show pos: "0 < limit" using assms by simp
  define P where "P = (max_pages - int pages) * page_size"
  have ge: "page_size \<le> P" using assms(1,2) by (simp add: P_def)
  have "(max_pages - int (Suc pages)) * page_size = P - page_size" by (simp add: P_def algebra_simps)
  then show "quota max_pages max_messages page_size pages len =
      limit + quota max_pages max_messages page_size (Suc pages) (len + limit)"
    using assms ge by (auto simp: quota_def min_def nat_diff_distrib simp flip: P_def)
qed

lemma fetch_loop_history:
  assumes "history_ok attr h" and "0 < page_size"
  shows "\<exists>most' pages'. fetch_loop (serves attr h) attr page_size max_pages max_messages pages ms most offset =
    Inr (ms @ take (quota max_pages max_messages page_size pages (length ms)) (older attr offset h), most',
         next_offset attr offset (older attr offset h) (quota max_pages max_messages page_size pages (length ms)), pages')"
  using assms(2)
proof (induction "nat (max_pages - int pages)" arbitrary: pages ms most offset)
  case (0 pages)
  then have "\<not> int pages < max_pages" by simp
  moreover from this "0.prems" have "quota max_pages max_messages page_size pages len = 0" for len
  proof -
    have "(max_pages - int pages) * page_size \<le> 0"
      using \<open>\<not> int pages < max_pages\<close> "0.prems" by (simp add: mult_le_0_iff)
    then show ?thesis by (simp add: quota_def min_le_iff_disj)
  qed
  ultimately show ?case by (simp add: fetch_loop_stop next_offset_def)
next
  case (Suc n pages)
  let ?R = "older attr offset h" and ?K = "quota max_pages max_messages page_size pages (length ms)"
  show ?case
  proof (cases "int pages < max_pages \<and> int (length ms) < max_messages")
    case False
    then have "?K = 0" using Suc.hyps(2) by (auto simp: quota_def)
    with False show ?thesis by (simp add: fetch_loop_stop next_offset_def)
  next
    case True
    define limit where "limit = nat (min page_size (max_messages - int (length ms)))"
    note K = quota_page [OF True Suc.prems limit_def]
    have il: "int limit = min page_size (max_messages - int (length ms))" using True Suc.prems by (simp add: limit_def)
    have page: "serves attr h pages (min page_size (max_messages - int (length ms))) offset = Inr (take limit ?R)"
      by (simp add: serves_def limit_def)
    note run = fetch_loop_page [OF True refl, where get_messages = "serves attr h" and attr = attr and most = most
        and offset = offset and page_size = page_size, unfolded page res_bind_simps, folded il]
    show ?thesis
    proof (cases "length ?R < limit")
      case True
      then have short: "length ?R < ?K" "take ?K ?R = ?R" "take limit ?R = ?R" using K by simp_all
      show ?thesis
      proof (cases "?R = []")
        case True
        then show ?thesis using run short by (simp add: next_offset_def)
      next
        case False
        then have "0 < length ?R" by simp
        from page_ids(1) [OF assms(1) this order_refl] False \<open>length ?R < limit\<close> run short show ?thesis
          by (simp add: next_offset_def)
      qed
    next
      case False
      then have full: "limit \<le> length ?R" by simp
      let ?ids = "map (id_of attr) (take limit ?R)" and ?o = "Some (id_of attr (?R ! (limit - 1)))"
      have ne: "take limit ?R \<noteq> []" "\<not> int (length (take limit ?R)) < int limit" using K(1) full by auto
      have go: "fetch_loop (serves attr h) attr page_size max_pages max_messages pages ms most offset =
          fetch_loop (serves attr h) attr page_size max_pages max_messages (Suc pages) (ms @ take limit ?R) (newest most ?ids) ?o"
        using run by (simp only: if_not_P [OF ne(1)] if_not_P [OF ne(2)] page_ids [OF assms(1) K(1) full] res_bind_simps)
      have R': "older attr ?o h = drop limit ?R" by (rule older_after_page [OF assms(1) K(1) full])
      define K' where "K' = quota max_pages max_messages page_size (Suc pages) (length (ms @ take limit ?R))"
      have K': "?K = limit + K'" using K(2) full by (simp add: K'_def)
      have "n = nat (max_pages - int (Suc pages))" using Suc.hyps(2) by simp
      from Suc.hyps(1) [OF this Suc.prems, of "ms @ take limit ?R" "newest most ?ids" ?o]
      obtain most' pages' where rec: "fetch_loop (serves attr h) attr page_size max_pages max_messages (Suc pages)
            (ms @ take limit ?R) (newest most ?ids) ?o =
          Inr ((ms @ take limit ?R) @ take K' (drop limit ?R), most', next_offset attr ?o (drop limit ?R) K', pages')"
        unfolding R' K'_def by blast
      moreover have "take ?K ?R = take limit ?R @ take K' (drop limit ?R)" by (simp add: K' take_add)
      moreover have "next_offset attr offset ?R ?K = next_offset attr ?o (drop limit ?R) K'"
        using K(1) full by (auto simp: next_offset_def K' add.commute)
      ultimately show ?thesis unfolding go by simp
    qed
  qed
qed

section \<open>Properties\<close>

text \<open>
  Limits of one poll, for every client that never answers more than it was asked for: a poll
  that returns has read at most \<open>max_messages\<close> messages, and at most \<open>max_pages\<close> pages of
  \<open>page_size\<close> messages; the cursor keeps the largest id ever seen, so the last message id never
  decreases. With a limit of zero or less nothing is requested and the position is unchanged.
\<close>

lemma fetch_bounded_messages_limits:
  assumes "respects_limit get_messages" and "0 < page_size"
    and "fetch_bounded_messages get_messages attr cursor max_pages max_messages page_size t = Inr res"
  shows "int (length (bp_messages res)) \<le> max 0 max_messages \<and>
    int (length (bp_messages res)) \<le> max 0 max_pages * page_size \<and>
    cu_last_message_id (bp_cursor res) =
      max_opt (Option.bind cursor cu_last_message_id) (set (map (id_of attr) (bp_messages res))) \<and>
    cu_last_polled_at (bp_cursor res) = t \<and>
    (max_pages \<le> 0 \<or> max_messages \<le> 0 \<longrightarrow> bp_messages res = [] \<and>
       cu_next_offset_id (bp_cursor res) = Option.bind cursor cu_next_offset_id)"
proof (cases "max_pages \<le> 0 \<or> max_messages \<le> 0")
  case True
  then show ?thesis using assms by (auto simp: fetch_bounded_messages_def Let_def max_opt_def split: option.splits)
next
  case False
  then obtain ms most offset pages where loop: "fetch_loop get_messages attr page_size max_pages max_messages 0 []
        (Option.bind cursor cu_last_message_id) (Option.bind cursor cu_next_offset_id) = Inr (ms, most, offset, pages)"
      and res: "res = \<lparr> bp_messages = ms, bp_cursor = \<lparr> cu_last_message_id = most, cu_next_offset_id = offset,
        cu_last_polled_at = t \<rparr> \<rparr>"
    using assms(3) by (auto simp: fetch_bounded_messages_def Let_def res_bind_Inr)
  from fetch_loop_limits [OF assms(1,2) loop] False have lim: "int pages \<le> max_pages" "int (length ms) \<le> max_messages"
      "most = max_opt (Option.bind cursor cu_last_message_id) (set (map (id_of attr) ms))"
      "int (length ms) \<le> int pages * page_size"
    by auto
  have "int pages * page_size \<le> max_pages * page_size" using lim(1) assms(2) by simp
  then show ?thesis using False lim res by auto
qed

lemma fetch_bounded_messages_limits_witness:
  "\<exists>res. fetch_bounded_messages (serves PInt [9, 7, 5, 3]) PInt None 2 3 2 (DT 0 None) = Inr res \<and>
     length (bp_messages res) \<le> 3 \<and> cu_last_message_id (bp_cursor res) = Some 9"
proof -
  have lim: "respects_limit (serves PInt [9, 7, 5, 3])" by (auto simp: respects_limit_def serves_def)
  have run: "fetch_bounded_messages (serves PInt [9, 7, 5, 3]) PInt None 2 3 2 (DT 0 None) =
      Inr \<lparr> bp_messages = [9, 7, 5], bp_cursor = \<lparr> cu_last_message_id = Some 9, cu_next_offset_id = Some 5,
        cu_last_polled_at = DT 0 None \<rparr> \<rparr>" by code_simp
  from fetch_bounded_messages_limits [OF lim _ run] run show ?thesis by simp
qed

text \<open>
  C19. Polling a channel whose history does not change meanwhile, from the position of the stored
  cursor: the poll returns, and reads exactly the next messages in order, newest first, as many as
  the limits allow or as are left. The next position is none when fewer messages were left than the
  limits allow, and otherwise the messages older than it are exactly those not yet read. So
  consecutive polls read the history without a gap and without reading a message twice.
\<close>

theorem fetch_bounded_messages_covers_history:
  fixes cursor :: "channel_cursor option"
  assumes "history_ok attr h" and "0 < page_size" and "0 < max_pages" and "0 < max_messages"
  defines "left \<equiv> older attr (Option.bind cursor cu_next_offset_id) h"
    and "k \<equiv> nat (min max_messages (max_pages * page_size))"
  shows "\<exists>res. fetch_bounded_messages (serves attr h) attr cursor max_pages max_messages page_size t = Inr res \<and>
    bp_messages res = take k left \<and>
    (if length left < k then cu_next_offset_id (bp_cursor res) = None
     else older attr (cu_next_offset_id (bp_cursor res)) h = drop k left)"
proof -
  have k: "k = quota max_pages max_messages page_size 0 0" "0 < k" using assms(2-4) by (simp_all add: k_def quota_def)
  obtain most pages where "fetch_loop (serves attr h) attr page_size max_pages max_messages 0 []
      (Option.bind cursor cu_last_message_id) (Option.bind cursor cu_next_offset_id) =
      Inr (take k left, most, next_offset attr (Option.bind cursor cu_next_offset_id) left k, pages)"
    using fetch_loop_history [OF assms(1,2), of max_pages max_messages 0 "[]" "Option.bind cursor cu_last_message_id"
        "Option.bind cursor cu_next_offset_id"] by (auto simp: k(1) left_def)
  then have "fetch_bounded_messages (serves attr h) attr cursor max_pages max_messages page_size t =
      Inr \<lparr> bp_messages = take k left, bp_cursor = \<lparr> cu_last_message_id = most,
        cu_next_offset_id = next_offset attr (Option.bind cursor cu_next_offset_id) left k, cu_last_polled_at = t \<rparr> \<rparr>"
    using assms(3,4) by (simp add: fetch_bounded_messages_def Let_def)
  moreover have "older attr (next_offset attr (Option.bind cursor cu_next_offset_id) left k) h = drop k left"
    if "\<not> length left < k"
    using that k(2) older_after_page [OF assms(1) k(2), of "Option.bind cursor cu_next_offset_id"]
    by (simp add: next_offset_def left_def)
  ultimately show ?thesis by (simp add: next_offset_def)
qed

theorem fetch_bounded_messages_covers_history_witness:
  "\<exists>res. fetch_bounded_messages (serves PInt [9, 7, 5, 3]) PInt None 2 3 2 (DT 0 None) = Inr res \<and>
     bp_messages res = [9, 7, 5] \<and> older PInt (cu_next_offset_id (bp_cursor res)) [9, 7, 5, 3] = [3]"
proof -
  have "history_ok PInt [9, 7, 5, 3]" by code_simp
  from fetch_bounded_messages_covers_history [OF this, of 2 2 3 None "DT 0 None"] show ?thesis
    by (simp add: older_def)
qed

end
