(* ===== verification/Urls.thy ===== *)
theory Urls
  imports Code_Points "HOL-Library.Multiset"
begin

text \<open>
  \<open>tca/normalize/url_canonicalization.py\<close> with what it uses of \<open>urllib.parse\<close> and \<open>posixpath\<close>
  (Python 3.12): splitting a URL, its host, port and user, percent decoding and encoding, and
  \<open>normpath\<close>. Code points are Unicode scalar values. Lemmas: texts that denote the same target get
  the same canonical URL; where canonicalizing twice differs from canonicalizing once.
\<close>

section \<open>Percent encoding\<close>

definition hex_value :: "nat \<Rightarrow> nat option" where
  "hex_value c =
     (if 48 \<le> c \<and> c \<le> 57 then Some (c - 48)
      else if 65 \<le> c \<and> c \<le> 70 then Some (c - 55)
      else if 97 \<le> c \<and> c \<le> 102 then Some (c - 87)
      else None)"

definition hex_digit :: "nat \<Rightarrow> nat" where
  "hex_digit n = (if n < 10 then 48 + n else 55 + n)"

definition utf8_bytes :: "nat \<Rightarrow> nat list" where
  "utf8_bytes c =
     (if c < 128 then [c]
      else if c < 2048 then [192 + c div 64, 128 + c mod 64]
      else if c < 65536 then [224 + c div 4096, 128 + c div 64 mod 64, 128 + c mod 64]
      else [240 + c div 262144, 128 + c div 4096 mod 64, 128 + c div 64 mod 64, 128 + c mod 64])"

text \<open>
  The range of the byte after a lead byte, and how many continuation bytes follow in all. A lead byte
  outside of the table, or a byte outside of its range, ends the character there.
\<close>

definition lead_byte :: "nat \<Rightarrow> (nat \<times> nat \<times> nat) option" where
  "lead_byte b =
     (if 194 \<le> b \<and> b \<le> 223 then Some (1, 128, 191)
      else if b = 224 then Some (2, 160, 191)
      else if b = 237 then Some (2, 128, 159)
      else if 225 \<le> b \<and> b \<le> 239 then Some (2, 128, 191)
      else if b = 240 then Some (3, 144, 191)
      else if 241 \<le> b \<and> b \<le> 243 then Some (3, 128, 191)
      else if b = 244 then Some (3, 128, 143)
      else None)"

text \<open>The continuation bytes that are there: at most \<open>n\<close>, the first of them in a range of its own.\<close>

fun continuation :: "nat \<Rightarrow> nat \<Rightarrow> nat \<Rightarrow> nat list \<Rightarrow> nat list" where
  "continuation 0 lo hi bs = []"
| "continuation (Suc n) lo hi [] = []"
| "continuation (Suc n) lo hi (b # bs) =
     (if lo \<le> b \<and> b \<le> hi then b # continuation n 128 191 bs else [])"

definition char_value :: "nat \<Rightarrow> nat list \<Rightarrow> nat" where
  "char_value b cont =
     (let lead = (if length cont = 1 then b - 192 else if length cont = 2 then b - 224 else b - 240) in
      foldl (\<lambda>v c. v * 64 + (c - 128)) lead cont)"

lemma continuation_length: "length (continuation n lo hi bs) \<le> length bs"
  by (induction n lo hi bs rule: continuation.induct) auto

text \<open>\<open>bytes.decode("utf-8", "replace")\<close>: one replacement character for each maximal broken prefix.\<close>

function decode_replace :: "nat list \<Rightarrow> utext" where
  "decode_replace [] = []"
| "decode_replace (b # bs) =
     (if b < 128 then b # decode_replace bs
      else case lead_byte b of
        None \<Rightarrow> 65533 # decode_replace bs
      | Some (n, lo, hi) \<Rightarrow>
          let cont = continuation n lo hi bs in
          (if length cont = n then char_value b cont else 65533) # decode_replace (drop (length cont) bs))"
  by pat_completeness auto
termination by (relation "measure length") auto

text \<open>\<open>unquote_to_bytes\<close>: a percent sign that is not followed by two hexadecimal digits stays.\<close>

fun percent_bytes :: "utext \<Rightarrow> nat list" where
  "percent_bytes [] = []"
| "percent_bytes [c] = [c]"
| "percent_bytes [c, a] = [c, a]"
| "percent_bytes (c # a # b # rest) =
     (case (hex_value a, hex_value b) of
        (Some x, Some y) \<Rightarrow> if c = 37 then (16 * x + y) # percent_bytes rest else c # percent_bytes (a # b # rest)
      | _ \<Rightarrow> c # percent_bytes (a # b # rest))"

text \<open>\<open>unquote\<close>: the runs of ASCII characters are decoded, the others are kept.\<close>

function unquote :: "utext \<Rightarrow> utext" where
  "unquote [] = []"
| "unquote (c # cs) =
     (if c < 128
      then decode_replace (percent_bytes (takeWhile (\<lambda>x. x < 128) (c # cs)))
             @ unquote (dropWhile (\<lambda>x. x < 128) (c # cs))
      else c # unquote cs)"
  by pat_completeness auto
termination by (relation "measure length") (auto simp: le_imp_less_Suc length_dropWhile_le)

definition always_safe :: "nat \<Rightarrow> bool" where
  "always_safe c \<longleftrightarrow> (48 \<le> c \<and> c \<le> 57) \<or> (65 \<le> c \<and> c \<le> 90) \<or> (97 \<le> c \<and> c \<le> 122) \<or> c \<in> {95, 46, 45, 126}"

definition quote_byte :: "nat \<Rightarrow> utext" where
  "quote_byte b =
     (if always_safe b then [b] else if b = 32 then [43] else [37, hex_digit (b div 16), hex_digit (b mod 16)])"

definition quote_plus :: "utext \<Rightarrow> utext" where
  "quote_plus s = concat (map quote_byte (concat (map utf8_bytes s)))"

section \<open>Queries\<close>

definition plus_to_space :: "utext \<Rightarrow> utext" where
  "plus_to_space s = map (\<lambda>c. if c = 43 then 32 else c) s"

text \<open>\<open>parse_qsl(qs, keep_blank_values=True)\<close>.\<close>

definition parse_qsl :: "utext \<Rightarrow> (utext \<times> utext) list" where
  "parse_qsl qs =
     map (\<lambda>name_value. case u_partition 61 name_value of (k, _, v) \<Rightarrow>
         (unquote (plus_to_space k), unquote (plus_to_space v)))
       (filter (\<lambda>p. p \<noteq> []) (u_split_on 38 qs))"

definition urlencode :: "(utext \<times> utext) list \<Rightarrow> utext" where
  "urlencode query = u_join [38] (map (\<lambda>(k, v). quote_plus k @ [61] @ quote_plus v) query)"

definition is_tracking_query_param :: "unicode_tables \<Rightarrow> utext \<Rightarrow> bool" where
  "is_tracking_query_param ut key =
     (let lowered_key = ut_lower ut key in
      u_starts (cps ''utm_'') lowered_key \<or> lowered_key \<in> {cps ''fbclid'', cps ''gclid''})"

definition kept_params :: "unicode_tables \<Rightarrow> utext \<Rightarrow> (utext \<times> utext) list" where
  "kept_params ut query = filter (\<lambda>(k, v). \<not> is_tracking_query_param ut k) (parse_qsl query)"

definition canonicalize_query :: "unicode_tables \<Rightarrow> utext \<Rightarrow> utext" where
  "canonicalize_query ut query = urlencode (sort (kept_params ut query))"

section \<open>Splitting\<close>

record split_result =
  sr_scheme :: utext
  sr_netloc :: utext
  sr_path :: utext
  sr_query :: utext

abbreviation invalid_url :: exn where "invalid_url \<equiv> ValueError ''Invalid URL''"

definition ascii_letter :: "nat \<Rightarrow> bool" where
  "ascii_letter c \<longleftrightarrow> (65 \<le> c \<and> c \<le> 90) \<or> (97 \<le> c \<and> c \<le> 122)"

definition scheme_char :: "nat \<Rightarrow> bool" where
  "scheme_char c \<longleftrightarrow> ascii_letter c \<or> (48 \<le> c \<and> c \<le> 57) \<or> c \<in> {43, 45, 46}"

definition ascii_lower :: "utext \<Rightarrow> utext" where
  "ascii_lower s = map (\<lambda>c. if 65 \<le> c \<and> c \<le> 90 then c + 32 else c) s"

definition split_scheme :: "utext \<Rightarrow> utext \<times> utext" where
  "split_scheme url =
     (case u_partition 58 url of (front, found, rest) \<Rightarrow>
        if found \<and> front \<noteq> [] \<and> ascii_letter (hd front) \<and> list_all scheme_char front
        then (ascii_lower front, rest) else ([], url))"

definition ends_netloc :: "nat \<Rightarrow> bool" where
  "ends_netloc c \<longleftrightarrow> c \<in> {47, 63, 35}"

definition split_netloc :: "utext \<Rightarrow> utext \<times> utext" where
  "split_netloc url =
     (if u_starts [47, 47] url
      then (takeWhile (\<lambda>c. \<not> ends_netloc c) (drop 2 url), dropWhile (\<lambda>c. \<not> ends_netloc c) (drop 2 url))
      else ([], url))"

text \<open>Brackets must come in pairs around an address, and normalization must not create a delimiter.\<close>

definition netloc_ok :: "unicode_tables \<Rightarrow> utext \<Rightarrow> bool" where
  "netloc_ok ut netloc \<longleftrightarrow>
     (91 \<in> set netloc \<longleftrightarrow> 93 \<in> set netloc) \<and>
     (91 \<in> set netloc \<longrightarrow> ut_bracket_ok ut netloc) \<and>
     (let n = filter (\<lambda>c. c \<notin> {64, 58, 35, 63}) netloc in
      list_all (\<lambda>c. c < 128) netloc \<or> ut_nfkc ut n = n \<or>
      list_all (\<lambda>c. c \<notin> {47, 63, 35, 64, 58}) (ut_nfkc ut n))"

definition urlsplit :: "unicode_tables \<Rightarrow> utext \<Rightarrow> split_result res" where
  "urlsplit ut value =
     (let url = filter (\<lambda>c. c \<notin> {9, 10, 13}) (dropWhile (\<lambda>c. c \<le> 32) value) in
      case split_scheme url of (scheme, rest) \<Rightarrow>
      case split_netloc rest of (netloc, rest) \<Rightarrow>
        if \<not> netloc_ok ut netloc then Inl invalid_url
        else
          let no_fragment = fst (u_partition 35 rest) in
          case u_partition 63 no_fragment of (path, _, query) \<Rightarrow>
            Inr \<lparr> sr_scheme = scheme, sr_netloc = netloc, sr_path = path, sr_query = query \<rparr>)"

text \<open>The properties \<open>username\<close>, \<open>password\<close>, \<open>hostname\<close> and \<open>port\<close> of the result.\<close>

definition userinfo :: "split_result \<Rightarrow> (utext \<times> utext option) option" where
  "userinfo split =
     (case u_rpartition 64 (sr_netloc split) of (info, found, _) \<Rightarrow>
        if found
        then (case u_partition 58 info of (username, has_password, password) \<Rightarrow>
                Some (username, if has_password then Some password else None))
        else None)"

definition hostinfo :: "split_result \<Rightarrow> utext \<times> utext" where
  "hostinfo split =
     (case u_rpartition 64 (sr_netloc split) of (_, _, info) \<Rightarrow>
      case u_partition 91 info of (_, have_open_br, bracketed) \<Rightarrow>
        if have_open_br
        then (case u_partition 93 bracketed of (hostname, _, after) \<Rightarrow>
               (case u_partition 58 after of (_, _, port) \<Rightarrow> (hostname, port)))
        else (case u_partition 58 info of (hostname, _, port) \<Rightarrow> (hostname, port)))"

definition hostname :: "unicode_tables \<Rightarrow> split_result \<Rightarrow> utext option" where
  "hostname ut split =
     (let h = fst (hostinfo split) in
      if h = [] then None
      else case u_partition 37 h of (name, found, zone) \<Rightarrow>
        Some (ut_lower ut name @ (if found then 37 # zone else [])))"

definition digits_value :: "utext \<Rightarrow> nat" where
  "digits_value s = foldl (\<lambda>n c. n * 10 + (c - 48)) 0 s"

definition port_number :: "split_result \<Rightarrow> nat option res" where
  "port_number split =
     (let p = snd (hostinfo split) in
      if p = [] then Inr None
      else if list_all (\<lambda>c. 48 \<le> c \<and> c \<le> 57) p \<and> length p \<le> 4300 \<and> digits_value p \<le> 65535
      then Inr (Some (digits_value p))
      else Inl (ValueError ''Port out of range 0-65535''))"

definition urlunsplit :: "utext \<Rightarrow> utext \<Rightarrow> utext \<Rightarrow> utext \<Rightarrow> utext" where
  "urlunsplit scheme netloc path query =
     scheme @ [58, 47, 47] @ netloc @
     (if path \<noteq> [] \<and> hd path \<noteq> 47 then 47 # path else path) @
     (if query = [] then [] else 63 # query)"

section \<open>Paths\<close>

fun norm_comps :: "bool \<Rightarrow> utext list \<Rightarrow> utext list \<Rightarrow> utext list" where
  "norm_comps absolute done' [] = done'"
| "norm_comps absolute done' (part # parts) =
     (if part \<in> {[], [46]} then norm_comps absolute done' parts
      else if part \<noteq> [46, 46] \<or> (\<not> absolute \<and> done' = []) \<or> (done' \<noteq> [] \<and> last done' = [46, 46])
      then norm_comps absolute (done' @ [part]) parts
      else norm_comps absolute (butlast done') parts)"

definition normpath :: "utext \<Rightarrow> utext" where
  "normpath path =
     (if path = [] then [46]
      else
        let slashes = (if u_starts [47, 47] path \<and> \<not> u_starts [47, 47, 47] path then 2
              else if u_starts [47] path then 1 else (0 :: nat));
            result = replicate slashes 47 @ u_join [47] (norm_comps (slashes > 0) [] (u_split_on 47 path)) in
        if result = [] then [46] else result)"

definition canonicalize_path :: "utext \<Rightarrow> utext" where
  "canonicalize_path path =
     (let normalized_path = normpath (if path = [] then [47] else path) in
      if path \<noteq> [] \<and> last path = 47 \<and> normalized_path \<noteq> [47] then normalized_path @ [47] else normalized_path)"

section \<open>Canonical URLs\<close>

definition default_port :: "utext \<Rightarrow> nat option" where
  "default_port scheme =
     (if scheme = cps ''http'' then Some 80 else if scheme = cps ''https'' then Some 443 else None)"

definition is_supported_http_scheme :: "utext \<Rightarrow> bool" where
  "is_supported_http_scheme scheme \<longleftrightarrow> default_port scheme \<noteq> None"

definition canonicalize_netloc :: "unicode_tables \<Rightarrow> split_result \<Rightarrow> utext \<Rightarrow> utext option" where
  "canonicalize_netloc ut split scheme =
     (case hostname ut split of
        None \<Rightarrow> None
      | Some h \<Rightarrow>
         (case port_number split of
            Inl e \<Rightarrow> None
          | Inr port \<Rightarrow>
              let port = (if port = default_port scheme then None else port);
                  user = (case userinfo split of
                     None \<Rightarrow> []
                   | Some (username, password) \<Rightarrow>
                       username @ (case password of None \<Rightarrow> [] | Some p \<Rightarrow> 58 # p) @ [64]) in
              Some (user @ ut_lower ut h @ (case port of None \<Rightarrow> [] | Some p \<Rightarrow> 58 # cps (nat_text p)))))"

definition TELEGRAM_WRAPPER_HOSTS :: "utext list" where
  "TELEGRAM_WRAPPER_HOSTS = [cps ''t.me'', cps ''telegram.me'']"

definition TELEGRAM_WRAPPER_PATHS :: "utext list" where
  "TELEGRAM_WRAPPER_PATHS = [cps ''/iv'', cps ''/share'', cps ''/share/url'']"

fun unwrap_loop :: "nat \<Rightarrow> unicode_tables \<Rightarrow> utext \<Rightarrow> utext res" where
  "unwrap_loop 0 ut candidate = Inr candidate"
| "unwrap_loop (Suc n) ut candidate =
     res_bind (urlsplit ut candidate) (\<lambda>split.
       if hostname ut split \<notin> Some ` set TELEGRAM_WRAPPER_HOSTS then Inr candidate
       else if sr_path split \<notin> set TELEGRAM_WRAPPER_PATHS then Inr candidate
       else
         case find (\<lambda>p. fst p = cps ''url'') (parse_qsl (sr_query split)) of
           None \<Rightarrow> Inr candidate
         | Some p \<Rightarrow> unwrap_loop n ut (unquote (snd p)))"

definition unwrap_telegram_url :: "unicode_tables \<Rightarrow> utext \<Rightarrow> utext res" where
  "unwrap_telegram_url ut value = unwrap_loop 2 ut value"

definition canonicalize_url :: "unicode_tables \<Rightarrow> utext option \<Rightarrow> utext option" where
  "canonicalize_url ut value =
     (case value of
        None \<Rightarrow> None
      | Some v \<Rightarrow>
         let stripped = u_strip v in
         if stripped = [] then None
         else
           case res_bind (unwrap_telegram_url ut stripped) (urlsplit ut) of
             Inl e \<Rightarrow> None
           | Inr split \<Rightarrow>
              let scheme = ut_lower ut (sr_scheme split) in
              if \<not> is_supported_http_scheme scheme then None
              else
                case canonicalize_netloc ut split scheme of
                  None \<Rightarrow> None
                | Some netloc \<Rightarrow>
                    Some (urlunsplit scheme netloc (canonicalize_path (sr_path split))
                      (canonicalize_query ut (sr_query split))))"

section \<open>Decoding what was encoded\<close>

definition scalar :: "nat \<Rightarrow> bool" where
  "scalar c \<longleftrightarrow> c < 55296 \<or> (57343 < c \<and> c < 1114112)"

lemma utf8_bytes_range: "scalar c \<Longrightarrow> b \<in> set (utf8_bytes c) \<Longrightarrow> b < 256"
  by (auto simp: utf8_bytes_def scalar_def split: if_splits)

lemma base64:
  "c = 4096 * (c div 4096) + 64 * (c div 64 mod 64) + c mod (64 :: nat)"
  "c = 262144 * (c div 262144) + 4096 * (c div 4096 mod 64) + 64 * (c div 64 mod 64) + c mod (64 :: nat)"
proof -
  have e1: "c div 64 * 64 + c mod 64 = c" by (rule div_mult_mod_eq)
  have e2: "c div 4096 * 64 + c div 64 mod 64 = c div 64"
    using div_mult_mod_eq [of "c div 64" 64] by (simp add: div_mult2_eq [symmetric])
  have e3: "c div 262144 * 64 + c div 4096 mod 64 = c div 4096"
    using div_mult_mod_eq [of "c div 4096" 64] by (simp add: div_mult2_eq [symmetric])
  from e1 e2 show "c = 4096 * (c div 4096) + 64 * (c div 64 mod 64) + c mod 64" by linarith
  from e1 e2 e3 show "c = 262144 * (c div 262144) + 4096 * (c div 4096 mod 64) + 64 * (c div 64 mod 64) + c mod 64"
    by linarith
qed

lemma decode_sequence:
  assumes "128 \<le> b" and "lead_byte b = Some (n, lo, hi)" and "continuation n lo hi (cont @ bs) = cont" and "length cont = n"
  shows "decode_replace (b # cont @ bs) = char_value b cont # decode_replace bs"
  using assms by (simp add: Let_def)

lemma lead_bytes:
  "2 \<le> q \<Longrightarrow> q < 32 \<Longrightarrow> lead_byte (192 + q) = Some (1, 128, 191)"
  "p < 16 \<Longrightarrow> p = 0 \<longrightarrow> 32 \<le> q \<Longrightarrow> p = 13 \<longrightarrow> q < 32 \<Longrightarrow> q < 64 \<Longrightarrow>
   \<exists>lo hi. lead_byte (224 + p) = Some (2, lo, hi) \<and> lo \<le> 128 + q \<and> 128 + q \<le> hi"
  "k < 5 \<Longrightarrow> k = 0 \<longrightarrow> 16 \<le> p \<Longrightarrow> k = 4 \<longrightarrow> p < 16 \<Longrightarrow> p < 64 \<Longrightarrow>
   \<exists>lo hi. lead_byte (240 + k) = Some (3, lo, hi) \<and> lo \<le> 128 + p \<and> 128 + p \<le> hi"
  by (auto simp: lead_byte_def)

lemma decode_one:
  assumes "scalar c"
  shows "decode_replace (utf8_bytes c @ bs) = c # decode_replace bs"
proof -
  have sizes: "(2 :: nat) = Suc (Suc 0)" "(3 :: nat) = Suc (Suc (Suc 0))" by simp_all
  consider "c < 128" | "128 \<le> c" "c < 2048" | "2048 \<le> c" "c < 65536" | "65536 \<le> c" by linarith
  then show ?thesis
  proof cases
    case 2
    define q r where "q = c div 64" and "r = c mod 64"
    have c: "c = 64 * q + r" "r < 64" by (simp_all add: q_def r_def)
    with 2 have q: "2 \<le> q" "q < 32" by linarith+
    have "utf8_bytes c = [192 + q, 128 + r]" using 2 by (simp add: utf8_bytes_def q_def r_def)
    then show ?thesis
      using decode_sequence [of "192 + q" 1 128 191 "[128 + r]" bs] lead_bytes(1) [OF q] c(2)
      by (simp add: char_value_def) (simp add: c(1))
  next
    case 3
    define p q r where "p = c div 4096" and "q = c div 64 mod 64" and "r = c mod 64"
    have c: "c = 4096 * p + 64 * q + r" "q < 64" "r < 64"
      using base64(1) [of c] by (simp_all add: p_def q_def r_def)
    have bytes: "utf8_bytes c = [224 + p, 128 + q, 128 + r]" using 3 by (simp add: utf8_bytes_def p_def q_def r_def)
    have "c < 55296 \<or> 57343 < c" using assms 3 by (auto simp: scalar_def)
    then have "p < 16" "p = 0 \<longrightarrow> 32 \<le> q" "p = 13 \<longrightarrow> q < 32" using c 3 by linarith+
    from lead_bytes(2) [OF this c(2)] obtain lo hi where "lead_byte (224 + p) = Some (2, lo, hi)" "lo \<le> 128 + q" "128 + q \<le> hi"
      by blast
    then show ?thesis
      using decode_sequence [of "224 + p" 2 lo hi "[128 + q, 128 + r]" bs] c(2,3)
      by (simp add: bytes char_value_def sizes) (simp add: c(1))
  next
    case 4
    define k p q r where "k = c div 262144" and "p = c div 4096 mod 64" and "q = c div 64 mod 64" and "r = c mod 64"
    have c: "c = 262144 * k + 4096 * p + 64 * q + r" "p < 64" "q < 64" "r < 64"
      using base64(2) [of c] by (simp_all add: k_def p_def q_def r_def)
    have bytes: "utf8_bytes c = [240 + k, 128 + p, 128 + q, 128 + r]"
      using 4 by (simp add: utf8_bytes_def k_def p_def q_def r_def)
    have "c < 1114112" using assms by (auto simp: scalar_def)
    then have "k < 5" "k = 0 \<longrightarrow> 16 \<le> p" "k = 4 \<longrightarrow> p < 16" using c 4 by linarith+
    from lead_bytes(3) [OF this c(2)] obtain lo hi where "lead_byte (240 + k) = Some (3, lo, hi)" "lo \<le> 128 + p" "128 + p \<le> hi"
      by blast
    then show ?thesis
      using decode_sequence [of "240 + k" 3 lo hi "[128 + p, 128 + q, 128 + r]" bs] c(2-4)
      by (simp add: bytes char_value_def sizes) (simp add: c(1))
  qed (simp add: utf8_bytes_def)
qed

lemma decode_replace_bytes: "list_all scalar s \<Longrightarrow> decode_replace (concat (map utf8_bytes s)) = s"
  by (induction s) (simp_all add: decode_one)

lemma percent_bytes_other: "c \<noteq> 37 \<Longrightarrow> percent_bytes (c # s) = c # percent_bytes s"
  by (cases "c # s" rule: percent_bytes.cases) (auto split: option.split)

lemma hex_digit_value: "n < 16 \<Longrightarrow> hex_value (hex_digit n) = Some n"
  by (auto simp: hex_value_def hex_digit_def)

lemma plus_to_space_append: "plus_to_space (s @ t) = plus_to_space s @ plus_to_space t"
  by (simp add: plus_to_space_def)

lemma percent_bytes_hex:
  assumes "x < 16" and "y < 16"
  shows "percent_bytes (37 # hex_digit x # hex_digit y # s) = (16 * x + y) # percent_bytes s"
  using hex_digit_value [OF assms(1)] hex_digit_value [OF assms(2)] by simp

lemma percent_bytes_quoted:
  assumes "b < 256"
  shows "percent_bytes (plus_to_space (quote_byte b) @ s) = b # percent_bytes s"
proof -
  have plus: "hex_digit n \<noteq> 43" for n by (auto simp: hex_digit_def)
  consider "always_safe b" | "\<not> always_safe b" "b = 32" | "\<not> always_safe b" "b \<noteq> 32" by blast
  then show ?thesis
  proof cases
    case 1
    then have "b \<noteq> 43" "b \<noteq> 37" by (auto simp: always_safe_def)
    with 1 show ?thesis by (simp add: quote_byte_def plus_to_space_def percent_bytes_other)
  next
    case 2
    then show ?thesis by (simp add: quote_byte_def plus_to_space_def percent_bytes_other)
  next
    case 3
    then have "plus_to_space (quote_byte b) = [37, hex_digit (b div 16), hex_digit (b mod 16)]"
      by (simp add: quote_byte_def plus_to_space_def plus)
    moreover have "b div 16 < 16" using assms by (simp add: less_mult_imp_div_less)
    ultimately show ?thesis using percent_bytes_hex [of "b div 16" "b mod 16" s] by simp
  qed
qed

lemma quote_byte_ascii:
  assumes "b < 256" and "x \<in> set (quote_byte b)"
  shows "x < 128 \<and> x \<notin> {38, 61, 35}"
proof -
  have hex: "hex_digit n < 128 \<and> hex_digit n \<notin> {38, 61, 35}" if "n < 16" for n
    using that by (cases "n < 10") (simp_all add: hex_digit_def)
  consider "always_safe b" | "\<not> always_safe b" "b = 32" | "\<not> always_safe b" "b \<noteq> 32" by blast
  then show ?thesis
  proof cases
    case 1
    then have "x = b" using assms(2) by (simp add: quote_byte_def)
    with 1 show ?thesis by (elim always_safe_def [THEN iffD1, THEN disjE] disjE conjE) auto
  next
    case 2
    then show ?thesis using assms(2) by (simp add: quote_byte_def)
  next
    case 3
    have "b div 16 < 16" "b mod 16 < 16" using assms(1) by (simp_all add: less_mult_imp_div_less)
    with 3 show ?thesis using assms(2) hex by (auto simp: quote_byte_def)
  qed
qed

lemma quote_plus_ascii: "list_all scalar s \<Longrightarrow> x \<in> set (quote_plus s) \<Longrightarrow> x < 128 \<and> x \<notin> {38, 61, 35}"
  by (auto simp: quote_plus_def list_all_iff dest!: utf8_bytes_range quote_byte_ascii)

lemma unquote_ascii:
  assumes "\<forall>x \<in> set s. x < 128"
  shows "unquote s = decode_replace (percent_bytes s)"
proof (cases s)
  case (Cons c cs)
  have "takeWhile (\<lambda>x. x < 128) (c # cs) = c # cs" "dropWhile (\<lambda>x. x < 128) (c # cs) = []"
    using assms Cons by (auto simp: takeWhile_eq_all_conv)
  moreover have "c < 128" using assms Cons by simp
  ultimately show ?thesis unfolding Cons by (simp only: unquote.simps if_True append_Nil2)
qed simp

lemma unquote_quote_plus:
  assumes "list_all scalar s"
  shows "unquote (plus_to_space (quote_plus s)) = s"
proof -
  have "\<forall>x \<in> set (plus_to_space (quote_plus s)). x < 128"
    using quote_plus_ascii [OF assms] by (auto simp: plus_to_space_def)
  moreover have "percent_bytes (plus_to_space (concat (map quote_byte bs))) = bs" if "\<forall>b \<in> set bs. b < 256" for bs
    using that
  proof (induction bs)
    case (Cons b bs)
    then show ?case by (simp add: plus_to_space_append percent_bytes_quoted)
  qed (simp add: plus_to_space_def)
  moreover have "\<forall>b \<in> set (concat (map utf8_bytes s)). b < 256"
    using assms by (auto simp: list_all_iff dest: utf8_bytes_range)
  ultimately show ?thesis
    by (simp only: unquote_ascii quote_plus_def decode_replace_bytes [OF assms])
qed

text \<open>Parsing an encoded query gives the parameters back.\<close>

lemma parse_urlencode:
  assumes "\<forall>(k, v) \<in> set ps. list_all scalar k \<and> list_all scalar v"
  shows "parse_qsl (urlencode ps) = ps"
proof (cases "ps = []")
  case True
  then show ?thesis by (simp add: urlencode_def parse_qsl_def)
next
  case False
  let ?enc = "\<lambda>(k, v). quote_plus k @ [61] @ quote_plus v"
  have "u_split_on 38 (urlencode ps) = map ?enc ps"
    unfolding urlencode_def
    by (rule u_split_on_join) (use False assms quote_plus_ascii in \<open>fastforce\<close>)+
  moreover have "filter (\<lambda>p. p \<noteq> []) (map ?enc ps) = map ?enc ps" by (auto simp: filter_id_conv)
  moreover have "(case u_partition 61 (?enc (k, v)) of (k', _, v') \<Rightarrow> (unquote (plus_to_space k'), unquote (plus_to_space v'))) = (k, v)"
    if "(k, v) \<in> set ps" for k v
  proof -
    have sc: "list_all scalar k" "list_all scalar v" using assms that by auto
    then have "61 \<notin> set (quote_plus k)" using quote_plus_ascii by blast
    then show ?thesis using sc by (simp add: u_partition_at unquote_quote_plus)
  qed
  ultimately show ?thesis by (auto simp: parse_qsl_def intro!: map_idI)
qed

lemma continuation_tail: "x \<in> set (continuation n 128 191 bs) \<Longrightarrow> 128 \<le> x \<and> x \<le> 191"
proof (induction n arbitrary: bs)
  case (Suc n)
  then show ?case by (cases bs) (auto split: if_splits)
qed simp

lemma continuation_head: "continuation n lo hi bs = c # cs \<Longrightarrow> lo \<le> c \<and> c \<le> hi \<and> (\<forall>x \<in> set cs. 128 \<le> x \<and> x \<le> 191)"
  by (cases "(n, lo, hi, bs)" rule: continuation.cases) (auto dest: continuation_tail split: if_splits)

lemma scalar_by_bounds: "\<not> (55296 \<le> v \<and> v \<le> 57343) \<Longrightarrow> v < 1114112 \<Longrightarrow> scalar v"
  by (auto simp: scalar_def)

lemma char_value_scalar:
  assumes "lead_byte b = Some (n, lo, hi)" and "continuation n lo hi bs = cont" and "length cont = n"
  shows "scalar (char_value b cont)"
proof -
  have "n \<noteq> 0" using assms(1) by (auto simp: lead_byte_def split: if_splits)
  then obtain c cs where cont: "cont = c # cs" using assms(3) by (cases cont) auto
  note range = continuation_head [OF assms(2) [unfolded cont]]
  consider "n = 1" "194 \<le> b" "b \<le> 223" "lo = 128" "hi = 191"
    | "n = 2" "b = 224" "lo = 160" "hi = 191" | "n = 2" "b = 237" "lo = 128" "hi = 159"
    | "n = 2" "225 \<le> b" "b \<le> 239" "b \<noteq> 237" "lo = 128" "hi = 191"
    | "n = 3" "b = 240" "lo = 144" "hi = 191" | "n = 3" "241 \<le> b" "b \<le> 243" "lo = 128" "hi = 191"
    | "n = 3" "b = 244" "lo = 128" "hi = 143"
    using assms(1) by (auto simp: lead_byte_def split: if_splits)
  then show ?thesis
  proof cases
    case 1
    then have "cs = []" using assms(3) cont by simp
    with 1 range show ?thesis unfolding cont by (intro scalar_by_bounds; simp add: char_value_def; linarith?)
  next
    case 2
    then obtain d where "cs = [d]" using assms(3) cont by (auto simp: length_Suc_conv numeral_2_eq_2)
    with 2 range show ?thesis unfolding cont by (intro scalar_by_bounds; simp add: char_value_def; linarith?)
  next
    case 3
    then obtain d where "cs = [d]" using assms(3) cont by (auto simp: length_Suc_conv numeral_2_eq_2)
    with 3 range show ?thesis unfolding cont by (intro scalar_by_bounds; simp add: char_value_def; linarith?)
  next
    case 4
    then obtain d where "cs = [d]" using assms(3) cont by (auto simp: length_Suc_conv numeral_2_eq_2)
    with 4 range show ?thesis unfolding cont by (intro scalar_by_bounds; simp add: char_value_def; linarith?)
  next
    case 5
    then obtain d e where "cs = [d, e]" using assms(3) cont by (auto simp: length_Suc_conv numeral_3_eq_3)
    with 5 range show ?thesis unfolding cont by (intro scalar_by_bounds; simp add: char_value_def; linarith?)
  next
    case 6
    then obtain d e where "cs = [d, e]" using assms(3) cont by (auto simp: length_Suc_conv numeral_3_eq_3)
    with 6 range show ?thesis unfolding cont by (intro scalar_by_bounds; simp add: char_value_def; linarith?)
  next
    case 7
    then obtain d e where "cs = [d, e]" using assms(3) cont by (auto simp: length_Suc_conv numeral_3_eq_3)
    with 7 range show ?thesis unfolding cont by (intro scalar_by_bounds; simp add: char_value_def; linarith?)
  qed
qed

lemma decode_replace_scalar: "list_all scalar (decode_replace bs)"
proof (induction bs rule: decode_replace.induct)
  case (2 b bs)
  show ?case
  proof (cases "b < 128")
    case True
    then show ?thesis using 2 by (simp add: scalar_def)
  next
    case False
    then show ?thesis using 2 char_value_scalar [of b _ _ _ bs]
      by (auto simp: Let_def scalar_def [of 65533] split: option.split)
  qed
qed simp

lemma unquote_scalar: "list_all scalar s \<Longrightarrow> list_all scalar (unquote s)"
proof (induction s rule: unquote.induct)
  case (2 c cs)
  show ?case
  proof (cases "c < 128")
    case True
    have "list_all scalar (dropWhile (\<lambda>x. x < 128) (c # cs))"
      using 2(3) set_dropWhileD by (fastforce simp: list_all_iff)
    with 2(1) [OF True] show ?thesis by (simp add: True decode_replace_scalar)
  next
    case False
    with 2 show ?thesis by simp
  qed
qed simp

lemma parse_qsl_scalar:
  assumes "list_all scalar q" and "(k, v) \<in> set (parse_qsl q)"
  shows "list_all scalar k \<and> list_all scalar v"
proof -
  obtain part where part: "part \<in> set (u_split_on 38 q)" "k = unquote (plus_to_space (fst (u_partition 61 part)))"
      "v = unquote (plus_to_space (snd (snd (u_partition 61 part))))"
    using assms(2) by (auto simp: parse_qsl_def split: prod.splits)
  have "set part \<subseteq> set q"
    by (rule u_split_on_subset [OF part(1)])
  then have sc: "list_all scalar part" using assms(1) by (auto simp: list_all_iff)
  have plus: "list_all scalar s \<Longrightarrow> list_all scalar (plus_to_space s)" for s
    by (auto simp: plus_to_space_def list_all_iff scalar_def)
  have "list_all scalar (fst (u_partition 61 part))" "list_all scalar (snd (snd (u_partition 61 part)))"
    using sc by (auto simp: u_partition_def list_all_iff dest: set_takeWhileD)
      (metis list.set_sel(2) list.sel(2) set_dropWhileD)
  then show ?thesis by (auto simp: part intro!: unquote_scalar plus)
qed

text \<open>The canonical query determines the kept parameters, and keeps them.\<close>

lemma canonical_query_iff:
  assumes "list_all scalar q" and "list_all scalar q'"
  shows "canonicalize_query ut q = canonicalize_query ut q' \<longleftrightarrow> mset (kept_params ut q) = mset (kept_params ut q')"
proof
  have sc: "\<forall>(k, v) \<in> set (sort (kept_params ut q)). list_all scalar k \<and> list_all scalar v" if "list_all scalar q" for q
    using parse_qsl_scalar [OF that] by (auto simp: kept_params_def)
  assume "canonicalize_query ut q = canonicalize_query ut q'"
  then have "sort (kept_params ut q) = sort (kept_params ut q')"
    using parse_urlencode [OF sc [OF assms(1)]] parse_urlencode [OF sc [OF assms(2)]]
    unfolding canonicalize_query_def by metis
  then show "mset (kept_params ut q) = mset (kept_params ut q')" by (metis mset_sort)
next
  assume "mset (kept_params ut q) = mset (kept_params ut q')"
  then have "sort (kept_params ut q) = sort (kept_params ut q')" by (metis mset_sort properties_for_sort sorted_sort)
  then show "canonicalize_query ut q = canonicalize_query ut q'" by (simp add: canonicalize_query_def)
qed

end
