(* ===== verification/Url_Targets.thy ===== *)
theory Url_Targets
  imports Urls
begin

text \<open>
  Web addresses by their parts. The canonical URL of \<open>tca/normalize/url_canonicalization.py\<close> is
  computed for addresses without a user, and determines where they lead: two of them have the same
  canonical URL exactly when their scheme, host, effective port, normalized path and kept
  parameters are the same.
\<close>

section \<open>URLs by their parts\<close>

record url_parts =
  up_scheme :: utext
  up_host :: utext
  up_port :: "utext option"
  up_path :: utext
  up_query :: "utext option"
  up_fragment :: "utext option"

abbreviation part_after :: "nat \<Rightarrow> utext option \<Rightarrow> utext" where
  "part_after c part \<equiv> (case part of None \<Rightarrow> [] | Some t \<Rightarrow> c # t)"

definition url_text :: "url_parts \<Rightarrow> utext" where
  "url_text p =
     up_scheme p @ 58 # 47 # 47 # (up_host p @ part_after 58 (up_port p)) @
     up_path p @ part_after 63 (up_query p) @ part_after 35 (up_fragment p)"

abbreviation query_of :: "url_parts \<Rightarrow> utext" where
  "query_of p \<equiv> (case up_query p of None \<Rightarrow> [] | Some q \<Rightarrow> q)"

text \<open>
  A web address without a user: an ASCII host without delimiters, a port that is a number if there is
  one, a path that is empty or begins with a slash, and no white space.
\<close>

definition host_char :: "nat \<Rightarrow> bool" where
  "host_char c \<longleftrightarrow> c < 128 \<and> \<not> space_cp c \<and> c \<notin> {35, 37, 47, 58, 63, 64, 91, 93}"

definition plain_url :: "url_parts \<Rightarrow> bool" where
  "plain_url p \<longleftrightarrow>
     ascii_lower (up_scheme p) \<in> {cps ''http'', cps ''https''} \<and> list_all ascii_letter (up_scheme p) \<and>
     up_host p \<noteq> [] \<and> list_all host_char (up_host p) \<and> ascii_lower (up_host p) \<notin> set TELEGRAM_WRAPPER_HOSTS \<and>
     (case up_port p of None \<Rightarrow> True
      | Some t \<Rightarrow> t \<noteq> [] \<and> list_all (\<lambda>c. 48 \<le> c \<and> c \<le> 57) t \<and> length t \<le> 4300 \<and> digits_value t \<le> 65535) \<and>
     (up_path p = [] \<or> hd (up_path p) = 47) \<and> list_all (\<lambda>c. \<not> space_cp c \<and> c \<notin> {35, 63}) (up_path p) \<and>
     list_all (\<lambda>c. scalar c \<and> \<not> space_cp c \<and> c \<noteq> 35) (query_of p) \<and>
     list_all (\<lambda>c. \<not> space_cp c) (case up_fragment p of None \<Rightarrow> [] | Some f \<Rightarrow> f)"

text \<open>The documented behaviour of \<open>str.lower\<close> on ASCII texts.\<close>

definition lowers_ascii :: "unicode_tables \<Rightarrow> bool" where
  "lowers_ascii ut \<longleftrightarrow> (\<forall>s. list_all (\<lambda>c. c < 128) s \<longrightarrow> ut_lower ut s = ascii_lower s)"

text \<open>What an address denotes: where, and which parameters, regardless of how it is spelled.\<close>

definition port_of :: "url_parts \<Rightarrow> nat option" where
  "port_of p =
     (case up_port p of
        None \<Rightarrow> None
      | Some t \<Rightarrow> if Some (digits_value t) = default_port (ascii_lower (up_scheme p)) then None else Some (digits_value t))"

definition same_target :: "unicode_tables \<Rightarrow> url_parts \<Rightarrow> url_parts \<Rightarrow> bool" where
  "same_target ut p q \<longleftrightarrow>
     ascii_lower (up_scheme p) = ascii_lower (up_scheme q) \<and> ascii_lower (up_host p) = ascii_lower (up_host q) \<and>
     port_of p = port_of q \<and> canonicalize_path (up_path p) = canonicalize_path (up_path q) \<and>
     mset (kept_params ut (query_of p)) = mset (kept_params ut (query_of q))"

lemma no_space_strip: "\<forall>c \<in> set s. \<not> space_cp c \<Longrightarrow> u_strip s = s"
proof -
  assume "\<forall>c \<in> set s. \<not> space_cp c"
  then have "dropWhile space_cp t = t" if "set t \<subseteq> set s" for t
    using that by (cases t) auto
  then show ?thesis by (simp add: u_strip_def)
qed

lemma ascii_letter_facts: "ascii_letter c \<Longrightarrow> 32 < c \<and> c < 128 \<and> c \<noteq> 58 \<and> \<not> space_cp c \<and> scheme_char c"
  by (auto simp: ascii_letter_def space_cp_def scheme_char_def)

lemma space_controls: "\<not> space_cp c \<Longrightarrow> c \<notin> {9, 10, 13}"
  by (auto simp: space_cp_def)

lemma split_scheme_plain:
  assumes "list_all ascii_letter s" and "s \<noteq> []"
  shows "split_scheme (s @ 58 # rest) = (ascii_lower s, rest)"
proof -
  have "58 \<notin> set s" using assms(1) by (auto simp: list_all_iff dest: ascii_letter_facts)
  moreover have "list_all scheme_char s" "ascii_letter (hd s)" using assms by (auto simp: list_all_iff dest: ascii_letter_facts)
  ultimately show ?thesis using assms(2) by (simp add: split_scheme_def u_partition_at)
qed

lemma split_netloc_plain:
  assumes "\<forall>c \<in> set netloc. \<not> ends_netloc c" and "rest = [] \<or> ends_netloc (hd rest)"
  shows "split_netloc (47 # 47 # netloc @ rest) = (netloc, rest)"
proof -
  have "takeWhile (\<lambda>c. \<not> ends_netloc c) rest = []" "dropWhile (\<lambda>c. \<not> ends_netloc c) rest = rest"
    using assms(2) by (cases rest; simp)+
  then show ?thesis using assms(1) by (simp add: split_netloc_def u_starts_def)
qed

lemma plain_chars:
  assumes "plain_url p"
  shows "\<forall>c \<in> set (url_text p). \<not> space_cp c" and "up_scheme p \<noteq> []"
    and "\<forall>c \<in> set (up_host p @ part_after 58 (up_port p)). c < 128 \<and> \<not> ends_netloc c \<and> c \<notin> {64, 91, 93}"
proof -
  have port: "48 \<le> c \<and> c \<le> 57" if "up_port p = Some t" "c \<in> set t" for c t
    using assms that by (auto simp: plain_url_def list_all_iff)
  show "up_scheme p \<noteq> []" using assms by (auto simp: plain_url_def ascii_lower_def cps_def)
  have "\<forall>c \<in> set (part_after 58 (up_port p)). 48 \<le> c \<and> c \<le> 58"
    using port by (cases "up_port p") force+
  moreover have "\<forall>c \<in> set (up_host p). host_char c" using assms by (simp add: plain_url_def list_all_iff)
  ultimately have ends: "c < 128 \<and> \<not> ends_netloc c \<and> c \<notin> {64, 91, 93}" if "c \<in> set (up_host p @ part_after 58 (up_port p))" for c
    using that by (cases "c \<in> set (up_host p)") (force simp: host_char_def ends_netloc_def)+
  then show "\<forall>c \<in> set (up_host p @ part_after 58 (up_port p)). c < 128 \<and> \<not> ends_netloc c \<and> c \<notin> {64, 91, 93}"
    by blast
  have "\<forall>c \<in> set (up_scheme p). \<not> space_cp c"
    using assms ascii_letter_facts unfolding plain_url_def list_all_iff by blast
  moreover have "\<forall>c \<in> set (up_host p). \<not> space_cp c" "\<forall>c \<in> set (up_path p). \<not> space_cp c"
    "\<forall>c \<in> set (query_of p). \<not> space_cp c" "\<forall>c \<in> set (case up_fragment p of None \<Rightarrow> [] | Some f \<Rightarrow> f). \<not> space_cp c"
    using assms unfolding plain_url_def list_all_iff host_char_def by blast+
  moreover have "\<forall>c \<in> set (part_after 58 (up_port p)). \<not> space_cp c"
    using port by (cases "up_port p") (force simp: space_cp_def)+
  moreover have "\<not> space_cp 58" "\<not> space_cp 47" "\<not> space_cp 63" "\<not> space_cp 35" by (simp_all add: space_cp_def)
  ultimately show "\<forall>c \<in> set (url_text p). \<not> space_cp c"
    unfolding url_text_def by (cases "up_query p"; cases "up_fragment p"; simp add: ball_Un)
qed

lemma urlsplit_plain:
  assumes "plain_url p"
  shows "urlsplit ut (url_text p) =
    Inr \<lparr> sr_scheme = ascii_lower (up_scheme p), sr_netloc = up_host p @ part_after 58 (up_port p),
          sr_path = up_path p, sr_query = query_of p \<rparr>"
proof -
  note chars = plain_chars [OF assms]
  let ?netloc = "up_host p @ part_after 58 (up_port p)" and ?rest = "up_path p @ part_after 63 (up_query p) @ part_after 35 (up_fragment p)"
  have letters: "list_all ascii_letter (up_scheme p)" using assms by (simp add: plain_url_def)
  have "dropWhile (\<lambda>c. c \<le> 32) (url_text p) = url_text p"
    using letters chars(2) by (cases "up_scheme p") (auto simp: url_text_def dest: ascii_letter_facts)
  then have clean: "filter (\<lambda>c. c \<notin> {9, 10, 13}) (dropWhile (\<lambda>c. c \<le> 32) (url_text p)) = url_text p"
    using chars(1) space_controls by (auto simp: filter_id_conv)
  have scheme: "split_scheme (url_text p) = (ascii_lower (up_scheme p), 47 # 47 # ?netloc @ ?rest)"
    using split_scheme_plain [OF letters chars(2)] by (simp add: url_text_def)
  have path: "up_path p = [] \<or> hd (up_path p) = 47" "35 \<notin> set (up_path p)" "63 \<notin> set (up_path p)" "35 \<notin> set (query_of p)"
    using assms by (auto simp: plain_url_def list_all_iff)
  have "?rest = [] \<or> ends_netloc (hd ?rest)"
    using path(1) by (cases "up_path p") (auto simp: ends_netloc_def split: option.split)
  then have netloc: "split_netloc (47 # 47 # ?netloc @ ?rest) = (?netloc, ?rest)"
    using chars(3) by (intro split_netloc_plain) auto
  have ok: "netloc_ok ut ?netloc"
    using chars(3) by (auto simp: netloc_ok_def list_all_iff Let_def)
  have "35 \<notin> set (up_path p @ part_after 63 (up_query p))" using path by (auto split: option.splits)
  then have "fst (u_partition 35 ?rest) = up_path p @ part_after 63 (up_query p)"
    using u_partition_at [of 35 "up_path p @ part_after 63 (up_query p)"] u_partition_none
    by (cases "up_fragment p") auto
  moreover have "\<exists>b. u_partition 63 (up_path p @ part_after 63 (up_query p)) = (up_path p, b, query_of p)"
    using path(3) u_partition_at u_partition_none by (cases "up_query p") auto
  ultimately show ?thesis
    unfolding urlsplit_def Let_def clean scheme prod.case netloc using ok by auto
qed

lemma ascii_lower_idem [simp]: "ascii_lower (ascii_lower s) = ascii_lower s"
  by (auto simp: ascii_lower_def)

lemma ascii_lower_ascii: "list_all (\<lambda>c. c < 128) s \<Longrightarrow> list_all (\<lambda>c. c < 128) (ascii_lower s)"
  by (auto simp: ascii_lower_def list_all_iff)

abbreviation plain_split :: "url_parts \<Rightarrow> split_result" where
  "plain_split p \<equiv>
     \<lparr> sr_scheme = ascii_lower (up_scheme p), sr_netloc = up_host p @ part_after 58 (up_port p),
       sr_path = up_path p, sr_query = query_of p \<rparr>"

lemma hostinfo_plain:
  assumes "plain_url p"
  shows "hostinfo (plain_split p) = (up_host p, case up_port p of None \<Rightarrow> [] | Some t \<Rightarrow> t)"
    and "userinfo (plain_split p) = None"
proof -
  let ?netloc = "up_host p @ part_after 58 (up_port p)"
  have no: "64 \<notin> set ?netloc" "91 \<notin> set ?netloc" using plain_chars(3) [OF assms] by blast+
  have "58 \<notin> set (up_host p)" using assms by (auto simp: plain_url_def list_all_iff host_char_def)
  then have "u_partition 58 ?netloc = (up_host p, up_port p \<noteq> None, case up_port p of None \<Rightarrow> [] | Some t \<Rightarrow> t)"
    by (cases "up_port p") (simp_all add: u_partition_at u_partition_none)
  then show "hostinfo (plain_split p) = (up_host p, case up_port p of None \<Rightarrow> [] | Some t \<Rightarrow> t)"
    using no u_partition_none [OF no(2)] by (auto simp: hostinfo_def u_rpartition_def)
  show "userinfo (plain_split p) = None"
    unfolding userinfo_def split_result.simps u_rpartition_none [OF no(1)] by simp
qed

lemma hostname_plain:
  assumes "plain_url p" and "lowers_ascii ut"
  shows "hostname ut (plain_split p) = Some (ascii_lower (up_host p))"
    and "ut_lower ut (ascii_lower (up_host p)) = ascii_lower (up_host p)"
proof -
  have host: "up_host p \<noteq> []" "37 \<notin> set (up_host p)" "list_all (\<lambda>c. c < 128) (up_host p)"
    using assms(1) by (auto simp: plain_url_def list_all_iff host_char_def)
  show "hostname ut (plain_split p) = Some (ascii_lower (up_host p))"
    using host assms(2) by (simp add: hostname_def hostinfo_plain [OF assms(1)] u_partition_none lowers_ascii_def)
  show "ut_lower ut (ascii_lower (up_host p)) = ascii_lower (up_host p)"
    using ascii_lower_ascii [OF host(3)] assms(2) by (simp add: lowers_ascii_def)
qed

lemma port_plain:
  assumes "plain_url p"
  shows "port_number (plain_split p) = Inr (map_option digits_value (up_port p))"
  unfolding port_number_def hostinfo_plain [OF assms] using assms
  by (cases "up_port p") (simp_all add: plain_url_def)

text \<open>The canonical network location and the whole canonical URL.\<close>

definition netloc_of :: "url_parts \<Rightarrow> utext" where
  "netloc_of p = ascii_lower (up_host p) @ part_after 58 (map_option (\<lambda>n. cps (nat_text n)) (port_of p))"

lemma canonicalize_netloc_plain:
  assumes "plain_url p" and "lowers_ascii ut"
  shows "canonicalize_netloc ut (plain_split p) (ascii_lower (up_scheme p)) = Some (netloc_of p)"
proof -
  have "default_port (ascii_lower (up_scheme p)) \<noteq> None"
    using assms(1) by (auto simp: plain_url_def default_port_def)
  then show ?thesis
    unfolding canonicalize_netloc_def hostname_plain [OF assms] option.case hostname_plain(2) [OF assms]
      port_plain [OF assms(1)] hostinfo_plain(2) [OF assms(1)] sum.case Let_def
    by (cases "up_port p") (auto simp: netloc_of_def port_of_def)
qed

lemma unwrap_plain:
  assumes "plain_url p" and "lowers_ascii ut"
  shows "unwrap_telegram_url ut (url_text p) = Inr (url_text p)"
proof -
  have "ascii_lower (up_host p) \<notin> set TELEGRAM_WRAPPER_HOSTS" using assms(1) by (simp add: plain_url_def)
  then show ?thesis
    by (simp add: unwrap_telegram_url_def numeral_2_eq_2 urlsplit_plain [OF assms(1)] hostname_plain [OF assms] image_iff)
qed

lemma canonical_url_plain:
  assumes "plain_url p" and "lowers_ascii ut"
  shows "canonicalize_url ut (Some (url_text p)) =
    Some (urlunsplit (ascii_lower (up_scheme p)) (netloc_of p) (canonicalize_path (up_path p)) (canonicalize_query ut (query_of p)))"
proof -
  have "list_all (\<lambda>c. c < 128) (up_scheme p)"
    using assms(1) ascii_letter_facts unfolding plain_url_def list_all_iff by blast
  then have "ut_lower ut (ascii_lower (up_scheme p)) = ascii_lower (up_scheme p)"
    using ascii_lower_ascii assms(2) by (simp add: lowers_ascii_def)
  moreover have "is_supported_http_scheme (ascii_lower (up_scheme p))"
    using assms(1) by (auto simp: plain_url_def is_supported_http_scheme_def default_port_def)
  moreover have "url_text p \<noteq> []" by (simp add: url_text_def)
  ultimately show ?thesis
    using no_space_strip [OF plain_chars(1) [OF assms(1)]]
    by (simp add: canonicalize_url_def unwrap_plain [OF assms] urlsplit_plain [OF assms(1)]
        canonicalize_netloc_plain [OF assms])
qed

section \<open>Reading a canonical URL back\<close>

lemma norm_comps_from: "part \<in> set (norm_comps absolute acc parts) \<Longrightarrow> part \<in> set acc \<union> set parts"
proof (induction absolute acc parts rule: norm_comps.induct)
  case (2 absolute acc part' parts)
  then show ?case by (auto split: if_splits dest: in_set_butlastD)
qed simp

lemma u_join_set: "c \<in> set (u_join [sep] parts) \<Longrightarrow> c = sep \<or> (\<exists>part \<in> set parts. c \<in> set part)"
  by (induction "[sep]" parts rule: u_join.induct) auto

lemma canonical_path_shape:
  assumes "path = [] \<or> hd path = 47"
  shows "\<exists>rest. canonicalize_path path = 47 # rest" and "set (canonicalize_path path) \<subseteq> insert 47 (set path)"
proof -
  define full where "full = (if path = [] then [47] else path)"
  have full: "full \<noteq> []" "hd full = 47" using assms by (auto simp: full_def)
  then obtain rest where slash: "u_starts [47] full" "full = 47 # rest" by (cases full) (auto simp: u_starts_def)
  define n where "n = (if u_starts [47, 47] full \<and> \<not> u_starts [47, 47, 47] full then 2 else (1 :: nat))"
  let ?comps = "norm_comps True [] (u_split_on 47 full)"
  have n: "n > 0" by (simp add: n_def)
  then have norm: "normpath full = replicate n 47 @ u_join [47] ?comps"
    using slash by (auto simp: normpath_def n_def Let_def)
  have "set part \<subseteq> set full" if "part \<in> set ?comps" for part
    using norm_comps_from [OF that] u_split_on_subset by fastforce
  then have sub: "set (u_join [47] ?comps) \<subseteq> insert 47 (set full)" by (auto dest!: u_join_set)
  have canon: "canonicalize_path path \<in> {normpath full, normpath full @ [47]}"
    unfolding canonicalize_path_def full_def by (simp only: Let_def split: if_split) blast
  moreover have "\<exists>rest. normpath full = 47 # rest" using n by (cases n) (simp_all add: norm)
  ultimately show "\<exists>rest. canonicalize_path path = 47 # rest" by auto
  have "set full \<subseteq> insert 47 (set path)" by (auto simp: full_def split: if_splits)
  moreover have "set (normpath full) \<subseteq> insert 47 (set full)" using sub by (auto simp: norm)
  ultimately show "set (canonicalize_path path) \<subseteq> insert 47 (set path)" using canon by auto
qed

lemma u_partition_inj:
  fixes s s' :: utext
  assumes "c \<notin> set s" and "c \<notin> set s'" and "s @ c # t = s' @ c # t'"
  shows "s = s' \<and> t = t'"
  using u_partition_at [OF assms(1), of t] u_partition_at [OF assms(2), of t'] unfolding assms(3) by auto

lemma part_after_inj:
  fixes s s' :: utext
  assumes "c \<notin> set s" and "c \<notin> set s'" and "s @ part_after c t = s' @ part_after c t'"
  shows "s = s' \<and> t = t'"
proof (cases t; cases t')
  fix a b assume some: "t = Some a" "t' = Some b"
  then show ?thesis using u_partition_inj [OF assms(1,2), of a b] assms(3) by simp
next
  fix a assume "t = None" "t' = Some a"
  then have "c \<in> set s" unfolding assms(3) [simplified \<open>t = None\<close> option.case append_Nil2] by simp
  with assms(1) show ?thesis by blast
next
  fix a assume "t = Some a" "t' = None"
  then have "c \<in> set s'" unfolding assms(3) [simplified \<open>t' = None\<close> option.case append_Nil2, symmetric] by simp
  with assms(2) show ?thesis by blast
qed (use assms(3) in simp)

lemma host_lower_char: "host_char c \<Longrightarrow> (if 65 \<le> c \<and> c \<le> 90 then c + 32 else c) \<notin> {47, 58}"
  by (cases "65 \<le> c \<and> c \<le> 90") (simp_all add: host_char_def)

lemma host_lower_chars:
  assumes "plain_url p"
  shows "58 \<notin> set (ascii_lower (up_host p))" and "47 \<notin> set (ascii_lower (up_host p))"
proof -
  have "list_all host_char (up_host p)" using assms by (simp add: plain_url_def)
  then have "x \<notin> {47, 58}" if "x \<in> set (ascii_lower (up_host p))" for x
  proof -
    obtain c where "c \<in> set (up_host p)" "x = (if 65 \<le> c \<and> c \<le> 90 then c + 32 else c)"
      using \<open>x \<in> set (ascii_lower (up_host p))\<close> unfolding ascii_lower_def set_map by (rule imageE)
    then show ?thesis using \<open>list_all host_char (up_host p)\<close> host_lower_char [of c] by (simp add: list_all_iff)
  qed
  then show "58 \<notin> set (ascii_lower (up_host p))" "47 \<notin> set (ascii_lower (up_host p))" by blast+
qed

lemma port_text_chars: "c \<in> set (cps (nat_text n)) \<Longrightarrow> 48 \<le> c \<and> c \<le> 57"
  by (auto simp: cps_def decimal_char_def dest: nat_text_digits)

lemma netloc_of_chars:
  assumes "plain_url p"
  shows "47 \<notin> set (netloc_of p)"
  using host_lower_chars [OF assms] port_text_chars by (cases "port_of p") (force simp: netloc_of_def)+

lemma cps_inj: "cps s = cps t \<Longrightarrow> s = t"
  unfolding cps_def by (rule map_injective) (auto intro: injI)

lemma netloc_of_inj:
  assumes "plain_url p" and "plain_url q" and "netloc_of p = netloc_of q"
  shows "ascii_lower (up_host p) = ascii_lower (up_host q) \<and> port_of p = port_of q"
proof -
  have "map_option (\<lambda>n. cps (nat_text n)) (port_of p) = map_option (\<lambda>n. cps (nat_text n)) (port_of q)"
    "ascii_lower (up_host p) = ascii_lower (up_host q)"
    using part_after_inj [OF host_lower_chars(1) [OF assms(1)] host_lower_chars(1) [OF assms(2)]] assms(3)
    unfolding netloc_of_def by blast+
  moreover have "inj (\<lambda>n. cps (nat_text n))" by (rule injI) (blast dest: cps_inj nat_text_inj)
  ultimately show ?thesis using option.inj_map inj_eq by metis
qed

lemma urlunsplit_inj:
  assumes "58 \<notin> set s" "58 \<notin> set s'" "47 \<notin> set n" "47 \<notin> set n'" "63 \<notin> set path" "63 \<notin> set path'"
    and "path = 47 # r" "path' = 47 # r'" and eq: "urlunsplit s n path q = urlunsplit s' n' path' q'"
  shows "s = s' \<and> n = n' \<and> path = path' \<and> q = q'"
proof -
  let ?opt = "\<lambda>q. if q = [] then None else Some q"
  have query: "(if q = [] then [] else 63 # q) = part_after 63 (?opt q)" for q :: utext by simp
  have "s @ 58 # (47 # 47 # n @ path @ part_after 63 (?opt q)) = s' @ 58 # (47 # 47 # n' @ path' @ part_after 63 (?opt q'))"
    using eq assms(7,8) by (simp add: urlunsplit_def query)
  from u_partition_inj [OF assms(1,2) this]
  have s: "s = s'" and "n @ 47 # (r @ part_after 63 (?opt q)) = n' @ 47 # (r' @ part_after 63 (?opt q'))"
    using assms(7,8) by auto
  from u_partition_inj [OF assms(3,4) this(2)]
  have n: "n = n'" and rest: "r @ part_after 63 (?opt q) = r' @ part_after 63 (?opt q')" by auto
  have "63 \<notin> set r" "63 \<notin> set r'" using assms(5-8) by auto
  from part_after_inj [OF this rest] show ?thesis using s n assms(7,8) by (auto split: if_splits)
qed

text \<open>
  C33. Two web addresses without a user, whose host is not a Telegram wrapper, have the same canonical
  URL exactly when they denote the same target: the same scheme and host up to case, the same port
  once the default one is left out, the same normalized path, and the same parameters, in any order
  and any encoding, once tracking parameters and the fragment are left out. The lower-casing of the
  interpreter is assumed to be the usual one on ASCII texts.
\<close>

theorem canonical_urls_equal_iff_same_target:
  assumes "lowers_ascii ut" and "plain_url p" and "plain_url q"
  shows "canonicalize_url ut (Some (url_text p)) = canonicalize_url ut (Some (url_text q)) \<longleftrightarrow> same_target ut p q"
proof -
  have scalars: "list_all scalar (query_of p)" "list_all scalar (query_of q)"
    using assms(2,3) by (auto simp: plain_url_def list_all_iff)
  have parts: "58 \<notin> set (ascii_lower (up_scheme p))" "up_path p = [] \<or> hd (up_path p) = 47" "63 \<notin> set (up_path p)"
    if "plain_url p" for p
    using that by (auto simp: plain_url_def cps_def list_all_iff)
  have no_query: "63 \<notin> set (canonicalize_path (up_path p))" if "plain_url p" for p
    using canonical_path_shape(2) [OF parts(2) [OF that]] parts(3) [OF that] by auto
  obtain r r' where r: "canonicalize_path (up_path p) = 47 # r" "canonicalize_path (up_path q) = 47 # r'"
    using canonical_path_shape(1) [OF parts(2)] assms(2,3) by metis
  note inj = urlunsplit_inj [OF parts(1) [OF assms(2)] parts(1) [OF assms(3)] netloc_of_chars [OF assms(2)]
      netloc_of_chars [OF assms(3)] no_query [OF assms(2)] no_query [OF assms(3)] r]
  have "netloc_of p = netloc_of q \<longleftrightarrow> ascii_lower (up_host p) = ascii_lower (up_host q) \<and> port_of p = port_of q"
    using netloc_of_inj [OF assms(2,3)] unfolding netloc_of_def by (metis (no_types))
  then show ?thesis
    unfolding canonical_url_plain [OF assms(2,1)] canonical_url_plain [OF assms(3,1)] option.inject same_target_def
      canonical_query_iff [OF scalars, symmetric]
    using inj by (metis (no_types))
qed

definition ascii_tables :: unicode_tables where
  "ascii_tables =
     \<lparr> ut_lower = ascii_lower, ut_nfkc = (\<lambda>s. s),
       ut_isalnum = (\<lambda>c. ascii_letter c \<or> (48 \<le> c \<and> c \<le> 57)), ut_bracket_ok = (\<lambda>_. True) \<rparr>"

lemma lowers_ascii_tables: "lowers_ascii ascii_tables"
  by (simp add: lowers_ascii_def ascii_tables_def)

definition sample_url :: url_parts where
  "sample_url =
     \<lparr> up_scheme = cps ''HTTPS'', up_host = cps ''Example.com'', up_port = Some (cps ''443''),
       up_path = cps ''/a/../b/'', up_query = Some (cps ''z=1&utm_source=x&a=%20''), up_fragment = Some (cps ''top'') \<rparr>"

definition sample_url_respelled :: url_parts where
  "sample_url_respelled =
     \<lparr> up_scheme = cps ''https'', up_host = cps ''example.COM'', up_port = None,
       up_path = cps ''/b//./'', up_query = Some (cps ''a=+&z=%31''), up_fragment = None \<rparr>"

lemma replicate_two: "replicate 2 x = [x, x]"
  by (simp add: numeral_2_eq_2)

lemmas url_eval = cps_def u_partition_def u_rpartition_def u_starts_def Let_def ascii_lower_def ascii_letter_def
  ends_netloc_def plus_to_space_def hex_value_def

lemma samples_plain: "plain_url sample_url" "plain_url sample_url_respelled"
  unfolding plain_url_def
  by (simp_all add: sample_url_def sample_url_respelled_def url_eval host_char_def space_cp_def scalar_def digits_value_def
      TELEGRAM_WRAPPER_HOSTS_def)

lemma samples_query:
  "query_of sample_url = cps ''z=1&utm_source=x&a=%20''" "query_of sample_url_respelled = cps ''a=+&z=%31''"
  by (simp_all only: sample_url_def sample_url_respelled_def url_parts.simps option.case)

lemma samples_split:
  "u_split_on 38 (query_of sample_url) = map cps [''z=1'', ''utm_source=x'', ''a=%20'']"
  "u_split_on 38 (query_of sample_url_respelled) = map cps [''a=+'', ''z=%31'']"
  unfolding samples_query by (simp_all add: cps_def)

lemma samples_parsed:
  "parse_qsl (query_of sample_url) = map (map_prod cps cps) [(''z'', ''1''), (''utm_source'', ''x''), (''a'', '' '')]"
  "parse_qsl (query_of sample_url_respelled) = map (map_prod cps cps) [(''a'', '' ''), (''z'', ''1'')]"
  unfolding parse_qsl_def samples_split by (simp_all add: url_eval)

lemma samples_kept:
  "kept_params ascii_tables (query_of sample_url) = map (map_prod cps cps) [(''z'', ''1''), (''a'', '' '')]"
  "kept_params ascii_tables (query_of sample_url_respelled) = map (map_prod cps cps) [(''a'', '' ''), (''z'', ''1'')]"
  unfolding kept_params_def samples_parsed by (simp_all add: url_eval ascii_tables_def is_tracking_query_param_def)

lemma samples_paths: "canonicalize_path (up_path sample_url) = canonicalize_path (up_path sample_url_respelled)"
  by (simp add: url_eval sample_url_def sample_url_respelled_def canonicalize_path_def normpath_def)

lemma samples_same_target: "same_target ascii_tables sample_url sample_url_respelled"
  unfolding same_target_def samples_kept samples_paths
  by (simp add: url_eval sample_url_def sample_url_respelled_def port_of_def default_port_def digits_value_def add_mset_commute)

theorem canonical_urls_equal_iff_same_target_witness:
  "canonicalize_url ascii_tables (Some (url_text sample_url)) =
     canonicalize_url ascii_tables (Some (url_text sample_url_respelled)) \<and>
   same_target ascii_tables sample_url sample_url_respelled"
  using canonical_urls_equal_iff_same_target [OF lowers_ascii_tables samples_plain] samples_same_target by simp

text \<open>
  Canonical URLs are not always canonical. The canonical URL of an address whose path is two
  slashes has three, and its own canonical URL has one, so that an item stored with the first and one
  posted with it as its link get different canonical URLs; an IPv6 host loses its brackets, and the
  result is not an acceptable URL any more.
\<close>

lemma canonicalize_url_not_idempotent:
  "canonicalize_url ascii_tables (Some (cps ''http://h//'')) = Some (cps ''http://h///'') \<and>
   canonicalize_url ascii_tables (Some (cps ''http://h///'')) = Some (cps ''http://h/'') \<and>
   canonicalize_url ascii_tables (Some (cps ''http://[::1]/x'')) = Some (cps ''http://::1/x'') \<and>
   canonicalize_url ascii_tables (Some (cps ''http://::1/x'')) = None"
  unfolding canonicalize_url_def unwrap_telegram_url_def numeral_2_eq_2
  by (intro conjI; simp add: url_eval ascii_tables_def no_space_strip urlsplit_def split_scheme_def split_netloc_def
      netloc_ok_def hostname_def hostinfo_def port_number_def userinfo_def default_port_def is_supported_http_scheme_def
      canonicalize_netloc_def canonicalize_path_def normpath_def canonicalize_query_def kept_params_def urlencode_def
      urlunsplit_def parse_qsl_def u_strip_def space_cp_def scheme_char_def replicate_two TELEGRAM_WRAPPER_HOSTS_def)

end
