(* ===== verification/Normalize.thy ===== *)
theory Normalize
  imports Url_Targets Strategy
begin

text \<open>
  The texts that the dedupe strategies compare: \<open>tca/normalize/hash_normalization.py\<close> and
  \<open>similarity_normalization.py\<close>, the content-hash and title strategies of \<open>tca/dedupe\<close> and the
  text for an embedding. SHA-256 and RapidFuzz's \<open>token_set_ratio\<close> are parameters; the division of
  its result by 100 is exact. Lemmas: the content hash depends on the words of the text alone, and
  the token count of a title is its number of words.
\<close>

section \<open>Embedded URLs\<close>

text \<open>
  The pattern \<open>https?://[^\s]+\<close> with \<open>re.IGNORECASE\<close>, for which the long s (383) is an s. A
  letter is given in lower case.
\<close>

definition letter_matches :: "nat \<Rightarrow> nat \<Rightarrow> bool" where
  "letter_matches letter c \<longleftrightarrow> c = letter \<or> c = letter - 32 \<or> (letter = 115 \<and> c = 383)"

definition letters_match :: "utext \<Rightarrow> utext \<Rightarrow> bool" where
  "letters_match letters s \<longleftrightarrow> length letters \<le> length s \<and> list_all2 letter_matches letters (take (length letters) s)"

text \<open>The length of the scheme with its slashes at the beginning of a text.\<close>

definition url_head :: "utext \<Rightarrow> nat option" where
  "url_head s =
     (if letters_match (cps ''https'') s \<and> u_starts [58, 47, 47] (drop 5 s) then Some 8
      else if letters_match (cps ''http'') s \<and> u_starts [58, 47, 47] (drop 4 s) then Some 7
      else None)"

definition url_match :: "utext \<Rightarrow> utext option" where
  "url_match s =
     (case url_head s of
        None \<Rightarrow> None
      | Some n \<Rightarrow>
          let run = takeWhile (\<lambda>c. \<not> space_cp c) (drop n s) in
          if run = [] then None else Some (take n s @ run))"

lemma url_match_nonempty: "url_match s = Some m \<Longrightarrow> m \<noteq> []"
  by (auto simp: url_match_def Let_def split: option.splits if_splits)

function sub_urls :: "(utext \<Rightarrow> utext) \<Rightarrow> utext \<Rightarrow> utext" where
  "sub_urls replace [] = []"
| "sub_urls replace (c # cs) =
     (case url_match (c # cs) of
        None \<Rightarrow> c # sub_urls replace cs
      | Some m \<Rightarrow> replace m @ sub_urls replace (drop (length m) (c # cs)))"
  by pat_completeness auto
termination
  by (relation "measure (length \<circ> snd)") (auto dest!: url_match_nonempty)

definition canonicalize_match :: "unicode_tables \<Rightarrow> utext \<Rightarrow> utext" where
  "canonicalize_match ut candidate =
     (case canonicalize_url ut (Some candidate) of None \<Rightarrow> candidate | Some normalized \<Rightarrow> normalized)"

definition normalize_embedded_urls :: "unicode_tables \<Rightarrow> utext \<Rightarrow> utext" where
  "normalize_embedded_urls ut value = sub_urls (canonicalize_match ut) value"

section \<open>Hash input\<close>

definition collapse_non_alphanumeric :: "unicode_tables \<Rightarrow> utext \<Rightarrow> utext" where
  "collapse_non_alphanumeric ut value = u_join [32] (u_words (map (\<lambda>c. if ut_isalnum ut c then c else 32) value))"

definition fold_text :: "unicode_tables \<Rightarrow> utext \<Rightarrow> utext" where
  "fold_text ut value = normalize_embedded_urls ut (ut_lower ut (ut_nfkc ut value))"

definition normalize_hash_text :: "unicode_tables \<Rightarrow> utext option \<Rightarrow> utext" where
  "normalize_hash_text ut value =
     (case value of
        None \<Rightarrow> []
      | Some v \<Rightarrow> if v = [] then [] else collapse_non_alphanumeric ut (fold_text ut v))"

definition title_and_body :: "utext option \<Rightarrow> utext option \<Rightarrow> utext" where
  "title_and_body title body =
     (case title of None \<Rightarrow> [] | Some t \<Rightarrow> t) @ [10] @ (case body of None \<Rightarrow> [] | Some b \<Rightarrow> b)"

definition build_hash_normalized_input :: "unicode_tables \<Rightarrow> utext option \<Rightarrow> utext option \<Rightarrow> utext" where
  "build_hash_normalized_input ut title body = normalize_hash_text ut (Some (title_and_body title body))"

section \<open>Similarity input\<close>

text \<open>\<open>re.sub(r"\s+", " ", value)\<close>.\<close>

function sub_whitespace :: "utext \<Rightarrow> utext" where
  "sub_whitespace [] = []"
| "sub_whitespace (c # cs) =
     (if space_cp c then 32 # sub_whitespace (dropWhile space_cp cs) else c # sub_whitespace cs)"
  by pat_completeness auto
termination by (relation "measure length") (auto simp: le_imp_less_Suc length_dropWhile_le)

definition collapse_repeated_whitespace :: "utext \<Rightarrow> utext" where
  "collapse_repeated_whitespace value = u_strip (sub_whitespace value)"

definition normalize_similarity_text :: "unicode_tables \<Rightarrow> utext option \<Rightarrow> utext" where
  "normalize_similarity_text ut value =
     (case value of
        None \<Rightarrow> []
      | Some v \<Rightarrow> if v = [] then [] else collapse_repeated_whitespace (fold_text ut v))"

definition build_similarity_normalized_input :: "unicode_tables \<Rightarrow> utext option \<Rightarrow> utext option \<Rightarrow> utext" where
  "build_similarity_normalized_input ut title body = normalize_similarity_text ut (Some (title_and_body title body))"

definition prepare_text_for_embedding :: "unicode_tables \<Rightarrow> utext option \<Rightarrow> utext option \<Rightarrow> utext" where
  "prepare_text_for_embedding ut title body = cps ''query: '' @ build_similarity_normalized_input ut title body"

section \<open>The strategies\<close>

text \<open>\<open>sha256 bytes\<close> is the hexadecimal digest.\<close>

abbreviation encode_utf8 :: "utext \<Rightarrow> nat list" where
  "encode_utf8 s \<equiv> concat (map utf8_bytes s)"

definition content_hash_of :: "(nat list \<Rightarrow> string) \<Rightarrow> utext \<Rightarrow> string option" where
  "content_hash_of sha256 value = (if value = [] then None else Some (sha256 (encode_utf8 value)))"

definition hash_obj :: "string option \<Rightarrow> pyobj" where
  "hash_obj h = (case h of None \<Rightarrow> PNone | Some s \<Rightarrow> PStr s)"

definition evaluate_content_hash ::
  "(nat list \<Rightarrow> string) \<Rightarrow> unicode_tables \<Rightarrow> utext option \<Rightarrow> utext option \<Rightarrow> utext option \<Rightarrow> utext option \<Rightarrow>
   strategy_result" where
  "evaluate_content_hash sha256 ut left_title left_body right_title right_body =
     (let left_hash = content_hash_of sha256 (build_hash_normalized_input ut left_title left_body);
          right_hash = content_hash_of sha256 (build_hash_normalized_input ut right_title right_body);
          md = Some [(''left_content_hash'', hash_obj left_hash), (''right_content_hash'', hash_obj right_hash)] in
      if left_hash = None \<or> right_hash = None then Abstain ''content_hash_missing'' md
      else if left_hash = right_hash then Duplicate (Finite 1) ''content_hash_match'' md
      else Distinct ''content_hash_mismatch'' md)"

definition TITLE_SIMILARITY_THRESHOLD_DEFAULT :: pyfloat where
  "TITLE_SIMILARITY_THRESHOLD_DEFAULT = Finite (92 / 100)"

definition TITLE_SIMILARITY_MIN_TOKEN_COUNT :: int where
  "TITLE_SIMILARITY_MIN_TOKEN_COUNT = 3"

definition token_count :: "utext \<Rightarrow> int" where
  "token_count value = (if value = [] then 0 else int (length (u_words value)))"

fun hundredth :: "pyfloat \<Rightarrow> pyfloat" where
  "hundredth (Finite q) = Finite (q / 100)"
| "hundredth f = f"

definition evaluate_title_similarity ::
  "(utext \<Rightarrow> utext \<Rightarrow> pyfloat) \<Rightarrow> unicode_tables \<Rightarrow> utext option \<Rightarrow> utext option \<Rightarrow> pyfloat \<Rightarrow> strategy_result" where
  "evaluate_title_similarity token_set_ratio ut left_title right_title threshold =
     (let left_normalized = normalize_similarity_text ut left_title;
          right_normalized = normalize_similarity_text ut right_title;
          md = [(''left_token_count'', PInt (token_count left_normalized)),
                (''right_token_count'', PInt (token_count right_normalized)), (''threshold'', PFloat threshold)] in
      if token_count left_normalized < TITLE_SIMILARITY_MIN_TOKEN_COUNT
         \<or> token_count right_normalized < TITLE_SIMILARITY_MIN_TOKEN_COUNT
      then Abstain ''title_similarity_short_title'' (Some md)
      else
        let sc = hundredth (token_set_ratio left_normalized right_normalized);
            md = md @ [(''score'', PFloat sc)] in
        if float_ge sc threshold then Duplicate sc ''title_similarity_match'' (Some md)
        else Distinct ''title_similarity_mismatch'' (Some md))"

text \<open>The content-hash strategy on pairs of title and body keeps the contract of a strategy.\<close>

interpretation content_hash: strategy_contract
  "\<lambda>l r. evaluate_content_hash sha256 ut (fst l) (snd l) (fst r) (snd r)" for sha256 ut
proof
  fix x y :: "utext option \<times> utext option"
  have "py_strip ''content_hash_match'' = ''content_hash_match''"
    "py_strip ''content_hash_mismatch'' = ''content_hash_mismatch''"
    "py_strip ''content_hash_missing'' = ''content_hash_missing''"
    by code_simp+
  then show "well_formed (evaluate_content_hash sha256 ut (fst x) (snd x) (fst y) (snd y))"
    by (simp add: evaluate_content_hash_def well_formed_def Let_def)
  show "status (evaluate_content_hash sha256 ut (fst x) (snd x) (fst y) (snd y)) =
      status (evaluate_content_hash sha256 ut (fst y) (snd y) (fst x) (snd x))"
    by (auto simp: evaluate_content_hash_def Let_def)
qed

section \<open>Words\<close>

text \<open>The maximal runs of characters with a property: the reference for every way to cut a text.\<close>

function runs :: "(nat \<Rightarrow> bool) \<Rightarrow> utext \<Rightarrow> utext list" where
  "runs P [] = []"
| "runs P (c # cs) = (if P c then takeWhile P (c # cs) # runs P (dropWhile P cs) else runs P cs)"
  by pat_completeness auto
termination by (relation "measure (length \<circ> snd)") (auto simp: le_imp_less_Suc length_dropWhile_le)

lemma u_words_runs: "u_words s = runs (\<lambda>c. \<not> space_cp c) s"
proof (induction s rule: u_words.induct)
  case (2 c cs)
  show ?case
  proof (cases "space_cp c \<or> cs = [] \<or> space_cp (hd cs)")
    case True
    then show ?thesis using 2 by (cases cs) auto
  next
    case False
    then obtain d ds where cs: "cs = d # ds" and sp: "\<not> space_cp c" "\<not> space_cp d" by (cases cs) auto
    have "u_words cs = runs (\<lambda>c. \<not> space_cp c) cs" using 2(3) [OF sp(1) cs sp(2)] cs by simp
    then show ?thesis using sp by (simp add: cs)
  qed
qed simp

lemma runs_facts: "w \<in> set (runs P s) \<Longrightarrow> w \<noteq> [] \<and> (\<forall>c \<in> set w. P c)"
proof (induction P s rule: runs.induct)
  case (2 P c cs)
  show ?case
  proof (cases "P c")
    case True
    then have "w = takeWhile P (c # cs) \<or> w \<in> set (runs P (dropWhile P cs))" using 2(3) by simp
    then show ?thesis
    proof
      assume "w = takeWhile P (c # cs)"
      then show ?thesis using True by (metis list.distinct(1) set_takeWhileD takeWhile.simps(2))
    qed (rule 2(1) [OF True])
  next
    case False
    then have "w \<in> set (runs P cs)" using 2(3) by simp
    then show ?thesis by (rule 2(2) [OF False])
  qed
qed simp

lemma runs_map:
  assumes "\<And>c. P c \<Longrightarrow> f c = c" and "\<And>c. Q (f c) \<longleftrightarrow> P c"
  shows "runs Q (map f s) = runs P s"
proof (induction "length s" arbitrary: s rule: less_induct)
  case less
  have comp: "Q \<circ> f = P" using assms(2) by auto
  show ?case
  proof (cases s)
    case (Cons c cs)
    have "length (dropWhile P cs) < length s" unfolding Cons by (simp add: le_imp_less_Suc length_dropWhile_le)
    then have "runs Q (map f (dropWhile P cs)) = runs P (dropWhile P cs)" "runs Q (map f cs) = runs P cs"
      using less Cons by auto
    moreover have "map f (takeWhile P (c # cs)) = takeWhile P (c # cs)"
      using assms(1) by (intro map_idI) (blast dest: set_takeWhileD)
    ultimately show ?thesis
      unfolding Cons using assms(1) [of c] assms(2) [of c] by (cases "P c") (simp_all add: dropWhile_map takeWhile_map comp)
  qed simp
qed

lemma join_words_inj:
  assumes "\<forall>w \<in> set ws. w \<noteq> [] \<and> sep \<notin> set w" and "\<forall>w \<in> set ws'. w \<noteq> [] \<and> sep \<notin> set w"
  shows "u_join [sep] ws = u_join [sep] ws' \<longleftrightarrow> ws = ws'"
proof
  have empty: "u_join [sep] vs = [] \<longleftrightarrow> vs = []" if "\<forall>w \<in> set vs. w \<noteq> [] \<and> sep \<notin> set w" for vs
    using that by (induction "[sep]" vs rule: u_join.induct) auto
  assume eq: "u_join [sep] ws = u_join [sep] ws'"
  show "ws = ws'"
  proof (cases "ws = []")
    case True
    then show ?thesis using eq empty [OF assms(2)] by simp
  next
    case False
    then have "ws' \<noteq> []" using eq empty [OF assms(1)] by auto
    then show ?thesis using u_split_on_join [OF False, of sep] u_split_on_join [of ws' sep] eq assms by metis
  qed
qed simp

lemma runs_none: "\<forall>c \<in> set t. \<not> P c \<Longrightarrow> runs P t = []"
  by (induction t) auto

lemma runs_dropWhile: "runs P (dropWhile (\<lambda>c. \<not> P c) s) = runs P s"
  by (induction s) auto

lemma runs_trailing:
  assumes "\<forall>c \<in> set t. \<not> P c"
  shows "runs P (s @ t) = runs P s"
proof (induction "length s" arbitrary: s rule: less_induct)
  case less
  show ?case
  proof (cases s)
    case Nil
    then show ?thesis using runs_none [of t P] assms by simp
  next
    case (Cons c cs)
    have t: "takeWhile P t = []" "dropWhile P t = t" using assms by (cases t; simp)+
    have cut: "takeWhile P (cs @ t) = takeWhile P cs" "dropWhile P (cs @ t) = dropWhile P cs @ t"
      by (induction cs) (simp_all add: t)
    have "length (dropWhile P cs) < length s" unfolding Cons by (simp add: le_imp_less_Suc length_dropWhile_le)
    then have "runs P (dropWhile P cs @ t) = runs P (dropWhile P cs)" "runs P (cs @ t) = runs P cs"
      using less Cons by auto
    then show ?thesis unfolding Cons by (simp add: cut)
  qed
qed

lemma runs_strip: "runs (\<lambda>c. \<not> space_cp c) (u_strip s) = runs (\<lambda>c. \<not> space_cp c) s"
proof -
  define t where "t = dropWhile space_cp s"
  have "t = rev (dropWhile space_cp (rev t)) @ rev (takeWhile space_cp (rev t))"
    by (metis rev_append rev_rev_ident takeWhile_dropWhile_id)
  moreover have "\<forall>c \<in> set (rev (takeWhile space_cp (rev t))). \<not> \<not> space_cp c"
    using set_takeWhileD by fastforce
  ultimately have "runs (\<lambda>c. \<not> space_cp c) t = runs (\<lambda>c. \<not> space_cp c) (rev (dropWhile space_cp (rev t)))"
    using runs_trailing by metis
  moreover have "runs (\<lambda>c. \<not> space_cp c) t = runs (\<lambda>c. \<not> space_cp c) s"
    using runs_dropWhile [of "\<lambda>c. \<not> space_cp c" s] by (simp add: t_def)
  ultimately show ?thesis by (simp add: u_strip_def t_def)
qed

lemma sub_whitespace_cut:
  "takeWhile (\<lambda>c. \<not> space_cp c) (sub_whitespace s) = takeWhile (\<lambda>c. \<not> space_cp c) s"
  "dropWhile (\<lambda>c. \<not> space_cp c) (sub_whitespace s) = sub_whitespace (dropWhile (\<lambda>c. \<not> space_cp c) s)"
proof -
  have "space_cp 32" by (simp add: space_cp_def)
  then show "takeWhile (\<lambda>c. \<not> space_cp c) (sub_whitespace s) = takeWhile (\<lambda>c. \<not> space_cp c) s"
    "dropWhile (\<lambda>c. \<not> space_cp c) (sub_whitespace s) = sub_whitespace (dropWhile (\<lambda>c. \<not> space_cp c) s)"
    by (induction s) simp_all
qed

lemma runs_sub_whitespace: "runs (\<lambda>c. \<not> space_cp c) (sub_whitespace s) = runs (\<lambda>c. \<not> space_cp c) s"
proof (induction "length s" arbitrary: s rule: less_induct)
  case less
  show ?case
  proof (cases s)
    case (Cons c cs)
    have shorter: "length (dropWhile P cs) < length s" for P
      unfolding Cons by (simp add: le_imp_less_Suc length_dropWhile_le)
    have "space_cp 32" by (simp add: space_cp_def)
    then show ?thesis
      using less [OF shorter] runs_dropWhile [of "\<lambda>c. \<not> space_cp c" cs] unfolding Cons
      by (cases "space_cp c") (simp_all add: sub_whitespace_cut)
  qed simp
qed

text \<open>The tokens that the title strategy counts are the words of the folded title.\<close>

lemma title_token_count: "token_count (normalize_similarity_text ut (Some v)) = (if v = [] then 0 else int (length (u_words (fold_text ut v))))"
proof -
  have "token_count s = int (length (u_words s))" for s by (simp add: token_count_def)
  then show ?thesis
    by (simp add: normalize_similarity_text_def collapse_repeated_whitespace_def u_words_runs runs_strip runs_sub_whitespace)
qed

text \<open>The words of a post: runs of letters and digits of the folded text.\<close>

definition content_words :: "unicode_tables \<Rightarrow> utext option \<Rightarrow> utext option \<Rightarrow> utext list" where
  "content_words ut title body = runs (ut_isalnum ut) (fold_text ut (title_and_body title body))"

text \<open>The documented behaviour of \<open>str.isalnum\<close>: no white space, and no surrogate.\<close>

definition alnum_ok :: "unicode_tables \<Rightarrow> bool" where
  "alnum_ok ut \<longleftrightarrow> (\<forall>c. ut_isalnum ut c \<longrightarrow> \<not> space_cp c \<and> scalar c)"

lemma hash_input_words:
  assumes "alnum_ok ut"
  shows "build_hash_normalized_input ut title body = u_join [32] (content_words ut title body)"
proof -
  have "space_cp 32" by (simp add: space_cp_def)
  then have "runs (\<lambda>c. \<not> space_cp c) (map (\<lambda>c. if ut_isalnum ut c then c else 32) s) = runs (ut_isalnum ut) s" for s
    using assms by (intro runs_map) (auto simp: alnum_ok_def)
  then show ?thesis
    by (simp add: build_hash_normalized_input_def normalize_hash_text_def collapse_non_alphanumeric_def content_words_def
        u_words_runs title_and_body_def)
qed

lemma content_words_chars:
  assumes "alnum_ok ut"
  shows "\<forall>w \<in> set (content_words ut title body). w \<noteq> [] \<and> 32 \<notin> set w \<and> list_all scalar w"
proof -
  have "\<not> ut_isalnum ut 32" using assms by (auto simp: alnum_ok_def space_cp_def)
  then show ?thesis
    using runs_facts assms unfolding content_words_def alnum_ok_def list_all_iff by metis
qed

lemma u_join_scalar: "\<forall>w \<in> set ws. list_all scalar w \<Longrightarrow> list_all scalar (u_join [32] ws)"
  by (induction "[32 :: nat]" ws rule: u_join.induct) (auto simp: scalar_def)

lemma u_join_empty: "\<forall>w \<in> set ws. w \<noteq> [] \<Longrightarrow> u_join [sep] ws = [] \<longleftrightarrow> ws = []"
  by (induction "[sep]" ws rule: u_join.induct) auto

lemma utf8_inj:
  assumes "list_all scalar s" and "list_all scalar t" and "encode_utf8 s = encode_utf8 t"
  shows "s = t"
  using decode_replace_bytes [OF assms(1)] decode_replace_bytes [OF assms(2)] assms(3) by metis

text \<open>
  C34. The content-hash strategy compares words: it abstains when one of the posts has no letter or
  digit, finds a duplicate exactly when both posts have the same words in the same order, and else
  finds them distinct. Words are the runs of letters and digits of title and body, after compatibility
  normalization, lower-casing and canonicalization of the embedded URLs; SHA-256 is assumed to have
  no collision on the two texts, and letters and digits to be neither white space nor surrogates.
\<close>

theorem content_hash_compares_words:
  assumes "alnum_ok ut"
    and "sha256 (encode_utf8 (build_hash_normalized_input ut lt lb)) = sha256 (encode_utf8 (build_hash_normalized_input ut rt rb))
      \<Longrightarrow> encode_utf8 (build_hash_normalized_input ut lt lb) = encode_utf8 (build_hash_normalized_input ut rt rb)"
  shows "status (evaluate_content_hash sha256 ut lt lb rt rb) =
    (if content_words ut lt lb = [] \<or> content_words ut rt rb = [] then ''ABSTAIN''
     else if content_words ut lt lb = content_words ut rt rb then ''DUPLICATE'' else ''DISTINCT'')"
proof -
  let ?l = "content_words ut lt lb" and ?r = "content_words ut rt rb"
  note chars = content_words_chars [OF assms(1), of lt lb] content_words_chars [OF assms(1), of rt rb]
  have empty: "u_join [32] ?l = [] \<longleftrightarrow> ?l = []" "u_join [32] ?r = [] \<longleftrightarrow> ?r = []"
    using chars by (intro u_join_empty; blast)+
  have same: "u_join [32] ?l = u_join [32] ?r \<longleftrightarrow> ?l = ?r" using chars by (intro join_words_inj) blast+
  have "list_all scalar (u_join [32] ?l)" "list_all scalar (u_join [32] ?r)"
    using chars by (intro u_join_scalar; blast)+
  then have "encode_utf8 (u_join [32] ?l) = encode_utf8 (u_join [32] ?r) \<Longrightarrow> ?l = ?r"
    using utf8_inj same by blast
  then have "sha256 (encode_utf8 (u_join [32] ?l)) = sha256 (encode_utf8 (u_join [32] ?r)) \<longleftrightarrow> ?l = ?r"
    using assms(2) [unfolded hash_input_words [OF assms(1)]] by metis
  then show ?thesis
    by (simp add: evaluate_content_hash_def Let_def content_hash_of_def hash_input_words [OF assms(1)] empty)
qed

lemma ascii_tables_alnum: "alnum_ok ascii_tables"
  by (auto simp: alnum_ok_def ascii_tables_def ascii_letter_def space_cp_def scalar_def)

lemma sample_folds:
  "fold_text ascii_tables (cps ''A-1!'' @ [10]) = cps ''a-1!'' @ [10]"
  "fold_text ascii_tables (10 # cps ''a 1'') = 10 # cps ''a 1''"
  by (simp_all add: fold_text_def ascii_tables_def normalize_embedded_urls_def url_match_def url_head_def
      letters_match_def letter_matches_def url_eval)

lemma sample_words:
  "content_words ascii_tables (Some (cps ''A-1!'')) None = [cps ''a'', cps ''1'']"
  "content_words ascii_tables None (Some (cps ''a 1'')) = [cps ''a'', cps ''1'']"
  by (simp_all add: content_words_def title_and_body_def sample_folds)
    (simp_all add: ascii_tables_def url_eval)

theorem content_hash_compares_words_witness:
  "status (evaluate_content_hash (map char_of) ascii_tables (Some (cps ''A-1!'')) None None (Some (cps ''a 1''))) =
   ''DUPLICATE''"
proof -
  have "build_hash_normalized_input ascii_tables (Some (cps ''A-1!'')) None =
      build_hash_normalized_input ascii_tables None (Some (cps ''a 1''))"
    by (simp only: hash_input_words [OF ascii_tables_alnum] sample_words)
  then show ?thesis
    using content_hash_compares_words [OF ascii_tables_alnum, of "map char_of" "Some (cps ''A-1!'')" None
        None "Some (cps ''a 1'')"] by (simp only: sample_words) simp
qed

end
