(* ===== verification/Candidates.thy ===== *)
theory Candidates
  imports Normalize Samples "HOL-Library.Sublist"
begin

text \<open>
  \<open>tca/dedupe/candidate_selection.py\<close>: the items that a new one is compared with. SQLite's \<open>LIKE\<close>
  is modelled; \<open>unix_s\<close> stands for \<open>strftime('%s', \<dots>)\<close> of a stored time. Lemmas: \<open>LIKE\<close> with a
  pattern that has no wildcard of its own is a search that ignores ASCII case; the query misses no
  item within the horizon that shares a blocking key of the design, up to the limit; what it
  selects beyond them.
\<close>

section \<open>LIKE\<close>

definition ascii_fold :: "char \<Rightarrow> char" where
  "ascii_fold c = (if CHR ''A'' \<le> c \<and> c \<le> CHR ''Z'' then char_of (of_char c + 32 :: nat) else c)"

function sql_like :: "string \<Rightarrow> string \<Rightarrow> bool" where
  "sql_like [] s = (s = [])"
| "sql_like (p # ps) [] = (p = CHR ''%'' \<and> sql_like ps [])"
| "sql_like (p # ps) (c # cs) =
     (if p = CHR ''%'' then sql_like ps (c # cs) \<or> sql_like (p # ps) cs
      else (p = CHR ''_'' \<or> ascii_fold p = ascii_fold c) \<and> sql_like ps cs)"
  by pat_completeness auto
termination by (relation "measure (\<lambda>(ps, s). length ps + length s)") auto

section \<open>The query\<close>

record candidate_record =
  cr_item_id :: int
  cr_published_at :: "datetime option"
  cr_canonical_url_hash :: "string option"
  cr_url_domain :: "string option"
  cr_rare_title_tokens :: "string list"

definition MAX_CANDIDATES_DEFAULT :: int where
  "MAX_CANDIDATES_DEFAULT = 50"

text \<open>\<open>int(horizon.total_seconds())\<close> of a \<open>timedelta\<close> in microseconds.\<close>

definition horizon_seconds :: "int \<Rightarrow> int" where
  "horizon_seconds us = (if us < 0 then - (- us div 1000000) else us div 1000000)"

text \<open>A comparison with a null is not true.\<close>

definition time_filter :: "(datetime \<Rightarrow> int option) \<Rightarrow> datetime option \<Rightarrow> int \<Rightarrow> item_row \<Rightarrow> bool" where
  "time_filter unix_s published_at seconds i =
     (case (it_published_at i, published_at) of
        (Some d, Some d') \<Rightarrow>
          (case (unix_s d, unix_s d') of (Some a, Some b) \<Rightarrow> \<bar>a - b\<bar> \<le> seconds | _ \<Rightarrow> False)
      | _ \<Rightarrow> True)"

definition text_like :: "string option \<Rightarrow> string \<Rightarrow> bool" where
  "text_like column pattern = (case column of None \<Rightarrow> False | Some s \<Rightarrow> sql_like pattern s)"

definition given :: "string option \<Rightarrow> bool" where
  "given s \<longleftrightarrow> s \<noteq> None \<and> s \<noteq> Some []"

definition blocking_conditions :: "candidate_record \<Rightarrow> (item_row \<Rightarrow> bool) list" where
  "blocking_conditions new_item =
     (if given (cr_canonical_url_hash new_item)
      then [\<lambda>i. it_canonical_url_hash i = cr_canonical_url_hash new_item] else []) @
     (if given (cr_url_domain new_item)
      then [\<lambda>i. text_like (it_canonical_url i) (''%//'' @ the (cr_url_domain new_item) @ ''/%'')
               \<or> text_like (it_canonical_url i) (''%//'' @ the (cr_url_domain new_item))] else []) @
     map (\<lambda>token i. text_like (it_title i) (''%'' @ token @ ''%'')) (cr_rare_title_tokens new_item)"

definition candidate_of :: "unicode_tables \<Rightarrow> candidate_record \<Rightarrow> item_row \<Rightarrow> candidate_record res" where
  "candidate_of ut new_item i =
     res_bind
       (if given (it_canonical_url i)
        then res_bind (urlsplit ut (cps (the (it_canonical_url i)))) (\<lambda>split.
          Inr (if sr_netloc split = [] then None else Some (map char_of (sr_netloc split))))
        else Inr None)
       (\<lambda>url_domain.
         Inr \<lparr> cr_item_id = it_id i, cr_published_at = map_option normalize_datetime (it_published_at i),
               cr_canonical_url_hash = it_canonical_url_hash i, cr_url_domain = url_domain,
               cr_rare_title_tokens =
                 (if given (it_title i)
                  then filter (\<lambda>t. cps t \<in> set (u_words (cps (the (it_title i))))) (cr_rare_title_tokens new_item)
                  else []) \<rparr>)"

definition matching_rows :: "(datetime \<Rightarrow> int option) \<Rightarrow> candidate_record \<Rightarrow> int \<Rightarrow> db \<Rightarrow> item_row list" where
  "matching_rows unix_s new_item horizon d =
     sort_key it_id (filter (\<lambda>i. it_id i \<noteq> cr_item_id new_item
       \<and> time_filter unix_s (cr_published_at new_item) (horizon_seconds horizon) i
       \<and> list_ex (\<lambda>condition. condition i) (blocking_conditions new_item)) (items d))"

definition select_candidates ::
  "(datetime \<Rightarrow> int option) \<Rightarrow> unicode_tables \<Rightarrow> candidate_record \<Rightarrow> int \<Rightarrow> int \<Rightarrow> db \<Rightarrow> candidate_record list res" where
  "select_candidates unix_s ut new_item horizon max_candidates d =
     (if max_candidates \<le> 0 then Inr []
      else if blocking_conditions new_item = [] then Inr []
      else res_map (candidate_of ut new_item) (take (nat max_candidates) (matching_rows unix_s new_item horizon d)))"

section \<open>Searching with LIKE\<close>

definition no_wildcard :: "string \<Rightarrow> bool" where
  "no_wildcard t \<longleftrightarrow> CHR ''%'' \<notin> set t \<and> CHR ''_'' \<notin> set t"

lemma like_literal:
  "no_wildcard t \<Longrightarrow> sql_like (t @ ps) s \<longleftrightarrow>
    map ascii_fold (take (length t) s) = map ascii_fold t \<and> sql_like ps (drop (length t) s)"
proof (induction t arbitrary: s)
  case (Cons p t)
  then have p: "p \<noteq> CHR ''%''" "p \<noteq> CHR ''_''" "no_wildcard t" by (auto simp: no_wildcard_def)
  then show ?case using Cons.IH [OF p(3)] by (cases s) (simp_all, metis)
qed simp

lemma like_any: "sql_like (CHR ''%'' # ps) s \<longleftrightarrow> (\<exists>a b. s = a @ b \<and> sql_like ps b)"
proof (induction s)
  case (Cons c cs)
  then show ?case by (auto simp: Cons_eq_append_conv)
qed auto

lemma like_rest: "sql_like ''%'' s"
  by (induction s) auto

text \<open>The searches of the query, ignoring ASCII case.\<close>

definition has_substring :: "string \<Rightarrow> string \<Rightarrow> bool" where
  "has_substring t s \<longleftrightarrow> sublist (map ascii_fold t) (map ascii_fold s)"

definition has_suffix :: "string \<Rightarrow> string \<Rightarrow> bool" where
  "has_suffix t s \<longleftrightarrow> suffix (map ascii_fold t) (map ascii_fold s)"

text \<open>A prefix of a folded text is the folded prefix.\<close>

lemma map_take_eq:
  "map f (take (length t) s) = map f t \<longleftrightarrow> (\<exists>ys. map f s = map f t @ ys)"
proof
  assume "map f (take (length t) s) = map f t"
  then show "\<exists>ys. map f s = map f t @ ys" by (metis append_take_drop_id map_append)
next
  assume "\<exists>ys. map f s = map f t @ ys"
  then have "take (length t) (map f s) = map f t" by auto
  then show "map f (take (length t) s) = map f t" by (simp add: take_map)
qed

lemma map_split_iff: "(\<exists>a b. s = a @ b \<and> R (map f b)) \<longleftrightarrow> (\<exists>xs ys. map f s = xs @ ys \<and> R ys)"
  by (metis map_append map_eq_append_conv)

lemma like_substring: "no_wildcard t \<Longrightarrow> sql_like (CHR ''%'' # t @ ''%'') s \<longleftrightarrow> has_substring t s"
proof -
  assume "no_wildcard t"
  then have "sql_like (CHR ''%'' # t @ ''%'') s \<longleftrightarrow> (\<exists>a b. s = a @ b \<and> (\<exists>ys. map ascii_fold b = map ascii_fold t @ ys))"
    unfolding like_any [of "t @ ''%''"] by (simp only: like_literal like_rest simp_thms map_take_eq)
  also have "\<dots> \<longleftrightarrow> has_substring t s"
    unfolding has_substring_def sublist_def map_split_iff [where R = "\<lambda>b. \<exists>ys. b = map ascii_fold t @ ys"] by blast
  finally show ?thesis .
qed

lemma like_suffix: "no_wildcard t \<Longrightarrow> sql_like (CHR ''%'' # t) s \<longleftrightarrow> has_suffix t s"
proof -
  assume no: "no_wildcard t"
  have exact: "sql_like t b \<longleftrightarrow> map ascii_fold b = map ascii_fold t" for b
    using like_literal [OF no, of "[]" b] by (cases "length b = length t") (auto dest: map_eq_imp_length_eq)
  show ?thesis
    unfolding like_any exact has_suffix_def suffix_def map_split_iff [where R = "\<lambda>b. b = map ascii_fold t"] by blast
qed

text \<open>A text that contains the pattern is found, also when the pattern has wildcards.\<close>

lemma like_contained:
  "map ascii_fold (take (length t) s) = map ascii_fold t \<Longrightarrow> sql_like ps (drop (length t) s) \<Longrightarrow> sql_like (t @ ps) s"
proof (induction t arbitrary: s)
  case (Cons p t)
  then obtain c cs where s: "s = c # cs" by (cases s) auto
  with Cons.prems have c: "ascii_fold c = ascii_fold p" and "sql_like (t @ ps) cs" using Cons.IH by simp_all
  then show ?case using like_any [of "t @ ps" cs] by (auto simp: s)
qed simp

lemma substring_like:
  assumes "has_substring t s"
  shows "sql_like (CHR ''%'' # t @ ''%'') s"
proof -
  obtain a b where "s = a @ b" "map ascii_fold (take (length t) b) = map ascii_fold t"
    using assms map_split_iff [where R = "\<lambda>b. \<exists>ys. b = map ascii_fold t @ ys" and s = s and f = ascii_fold] map_take_eq
    unfolding has_substring_def sublist_def by metis
  then show ?thesis unfolding like_any [of "t @ ''%''"] using like_contained like_rest by blast
qed

lemma suffix_like:
  assumes "has_suffix t s"
  shows "sql_like (CHR ''%'' # t) s"
proof -
  obtain a b where b: "s = a @ b" "map ascii_fold b = map ascii_fold t"
    using assms map_split_iff [where R = "\<lambda>b. b = map ascii_fold t" and s = s and f = ascii_fold]
    unfolding has_suffix_def suffix_def by metis
  have "length b = length t" using b(2) by (rule map_eq_imp_length_eq)
  then have "sql_like (t @ []) b" using b(2) by (intro like_contained) simp_all
  then show ?thesis unfolding like_any using b(1) by auto
qed

section \<open>The keys of the design\<close>

text \<open>The URL has the domain as its host.\<close>

definition hosted_at :: "string \<Rightarrow> string \<Rightarrow> bool" where
  "hosted_at domain url \<longleftrightarrow>
     (\<exists>scheme path. url = scheme @ ''://'' @ domain @ path \<and> (path = [] \<or> hd path = CHR ''/''))"

text \<open>The tokens of a title: its words, and the runs of letters and digits that a full-text index takes.\<close>

definition title_tokens :: "unicode_tables \<Rightarrow> string \<Rightarrow> utext set" where
  "title_tokens ut title = set (u_words (cps title)) \<union> set (runs (ut_isalnum ut) (cps title))"

definition shares_key :: "unicode_tables \<Rightarrow> candidate_record \<Rightarrow> item_row \<Rightarrow> bool" where
  "shares_key ut new_item i \<longleftrightarrow>
     (given (cr_canonical_url_hash new_item) \<and> it_canonical_url_hash i = cr_canonical_url_hash new_item) \<or>
     (\<exists>domain url. cr_url_domain new_item = Some domain \<and> domain \<noteq> [] \<and> it_canonical_url i = Some url
        \<and> hosted_at domain url) \<or>
     (\<exists>token \<in> set (cr_rare_title_tokens new_item). \<exists>title w. it_title i = Some title
        \<and> cps w \<in> title_tokens ut title \<and> map ascii_fold w = map ascii_fold token)"

text \<open>Two times are at most so many microseconds apart, or one of them is unknown.\<close>

definition published_within :: "int \<Rightarrow> datetime option \<Rightarrow> datetime option \<Rightarrow> bool" where
  "published_within limit a b \<longleftrightarrow>
     (case (a, b) of (Some a', Some b') \<Rightarrow> \<bar>instant a' - instant b'\<bar> \<le> limit | _ \<Rightarrow> True)"

text \<open>
  The documented behaviour of \<open>strftime('%s', \<dots>)\<close>: whole seconds since 1970, of the time cut or
  rounded to milliseconds (the shift).
\<close>

definition counts_seconds :: "(datetime \<Rightarrow> int option) \<Rightarrow> int \<Rightarrow> bool" where
  "counts_seconds unix_s shift \<longleftrightarrow> (\<forall>t. unix_s t = Some ((instant t + shift) div 1000000))"

lemma runs_sublist: "w \<in> set (runs P s) \<Longrightarrow> sublist w s"
proof (induction P s rule: runs.induct)
  case (2 P c cs)
  show ?case
  proof (cases "P c")
    case True
    then consider "w = takeWhile P (c # cs)" | "w \<in> set (runs P (dropWhile P cs))" using 2(3) by auto
    then show ?thesis
    proof cases
      case 1
      have "c # cs = [] @ takeWhile P (c # cs) @ dropWhile P (c # cs)" by simp
      then show ?thesis unfolding 1 sublist_def by blast
    next
      case 2
      then have "sublist w (dropWhile P cs)" using "2.IH"(1) True by blast
      moreover have "c # cs = (c # takeWhile P cs) @ dropWhile P cs" by simp
      ultimately show ?thesis unfolding sublist_def by (metis append.assoc)
    qed
  next
    case False
    then have "sublist w cs" using 2 by simp
    then show ?thesis by (simp add: sublist_Cons_right)
  qed
qed simp

lemma title_token_occurs:
  assumes "cps w \<in> title_tokens ut title"
  shows "has_substring w title"
proof -
  have "sublist (cps w) (cps title)"
    using assms runs_sublist unfolding title_tokens_def u_words_runs by blast
  then obtain xs ys where "map of_char title = xs @ map of_char w @ (ys :: nat list)"
    by (auto simp: sublist_def cps_def)
  then obtain a b c where t: "title = a @ b @ c" and "cps b = cps w"
    unfolding cps_def by (metis map_eq_append_conv)
  from cps_inj [OF this(2)] show ?thesis unfolding has_substring_def t by (simp add: sublist_appendI)
qed

lemma hosted_at_occurs:
  assumes "hosted_at domain url"
  shows "has_substring (''//'' @ domain @ ''/'') url \<or> has_suffix (''//'' @ domain) url"
proof -
  obtain scheme path where url: "url = scheme @ ''://'' @ domain @ path" "path = [] \<or> hd path = CHR ''/''"
    using assms by (auto simp: hosted_at_def)
  show ?thesis
  proof (cases path)
    case Nil
    then have "url = (scheme @ '':'') @ ''//'' @ domain" using url(1) by simp
    then show ?thesis unfolding has_suffix_def by (metis map_append suffixI)
  next
    case (Cons c rest)
    then have "url = (scheme @ '':'') @ (''//'' @ domain @ ''/'') @ rest" using url by simp
    then show ?thesis unfolding has_substring_def by (metis map_append sublist_appendI)
  qed
qed

section \<open>What is selected\<close>

definition domain_occurs :: "candidate_record \<Rightarrow> item_row \<Rightarrow> bool" where
  "domain_occurs new_item i \<longleftrightarrow>
     (\<exists>domain url. cr_url_domain new_item = Some domain \<and> domain \<noteq> [] \<and> it_canonical_url i = Some url
        \<and> (has_substring (''//'' @ domain @ ''/'') url \<or> has_suffix (''//'' @ domain) url))"

definition keys_occur :: "candidate_record \<Rightarrow> item_row \<Rightarrow> bool" where
  "keys_occur new_item i \<longleftrightarrow>
     (given (cr_canonical_url_hash new_item) \<and> it_canonical_url_hash i = cr_canonical_url_hash new_item) \<or>
     domain_occurs new_item i \<or>
     (\<exists>token \<in> set (cr_rare_title_tokens new_item). \<exists>title. it_title i = Some title \<and> has_substring token title)"

definition plain_keys :: "candidate_record \<Rightarrow> bool" where
  "plain_keys new_item \<longleftrightarrow>
     (case cr_url_domain new_item of None \<Rightarrow> True | Some domain \<Rightarrow> no_wildcard domain)
     \<and> list_all no_wildcard (cr_rare_title_tokens new_item)"

lemma blocking_keys_occur:
  assumes "plain_keys new_item"
  shows "list_ex (\<lambda>condition. condition i) (blocking_conditions new_item) \<longleftrightarrow> keys_occur new_item i"
proof -
  have domain: "text_like (it_canonical_url i) (''%//'' @ the (cr_url_domain new_item) @ ''/%'')
       \<or> text_like (it_canonical_url i) (''%//'' @ the (cr_url_domain new_item)) \<longleftrightarrow>
     domain_occurs new_item i"
    if some: "given (cr_url_domain new_item)"
  proof -
    obtain dom where dom: "cr_url_domain new_item = Some dom" "dom \<noteq> []" using some unfolding given_def by blast
    with assms have no: "no_wildcard (''//'' @ dom @ ''/'')" "no_wildcard (''//'' @ dom)"
      by (auto simp: plain_keys_def no_wildcard_def)
    then show ?thesis
      using dom like_substring [OF no(1)] like_suffix [OF no(2)]
      by (cases "it_canonical_url i") (simp_all add: text_like_def domain_occurs_def)
  qed
  have token: "text_like (it_title i) (''%'' @ t @ ''%'') \<longleftrightarrow> (\<exists>title. it_title i = Some title \<and> has_substring t title)"
    if "t \<in> set (cr_rare_title_tokens new_item)" for t
    using like_substring [of t] assms that by (cases "it_title i") (auto simp: text_like_def plain_keys_def list_all_iff)
  have no_domain: "\<not> given (cr_url_domain new_item) \<Longrightarrow>
     \<not> domain_occurs new_item i"
    by (auto simp: given_def domain_occurs_def)
  show ?thesis
    unfolding keys_occur_def blocking_conditions_def list_ex_append
    using domain no_domain token
    by (cases "given (cr_url_domain new_item)"; cases "given (cr_canonical_url_hash new_item)")
      (simp_all add: list_ex_iff Bex_def)
qed

text \<open>A shared key satisfies one of the conditions, whatever wildcards the keys hold.\<close>

lemma shared_key_blocks:
  assumes "shares_key ut new_item i"
  shows "list_ex (\<lambda>condition. condition i) (blocking_conditions new_item)"
proof -
  consider "given (cr_canonical_url_hash new_item)" "it_canonical_url_hash i = cr_canonical_url_hash new_item"
    | domain url where "cr_url_domain new_item = Some domain" "domain \<noteq> []" "it_canonical_url i = Some url" "hosted_at domain url"
    | token title w where "token \<in> set (cr_rare_title_tokens new_item)" "it_title i = Some title"
        "cps w \<in> title_tokens ut title" "map ascii_fold w = map ascii_fold token"
    using assms unfolding shares_key_def by blast
  then show ?thesis
  proof cases
    case 1
    then show ?thesis by (simp add: blocking_conditions_def)
  next
    case 2
    have "sql_like (''%//'' @ domain @ ''/%'') url \<or> sql_like (''%//'' @ domain) url"
      using hosted_at_occurs [OF 2(4)] substring_like [of "''//'' @ domain @ ''/''" url] suffix_like [of "''//'' @ domain" url] by auto
    with 2(1-3) have "given (cr_url_domain new_item)" "text_like (it_canonical_url i) (''%//'' @ the (cr_url_domain new_item) @ ''/%'')
        \<or> text_like (it_canonical_url i) (''%//'' @ the (cr_url_domain new_item))"
      by (simp_all add: given_def text_like_def)
    then show ?thesis by (simp add: blocking_conditions_def)
  next
    case 3
    have "has_substring token title" using title_token_occurs [OF 3(3)] 3(4) by (simp add: has_substring_def)
    then have "text_like (it_title i) (''%'' @ token @ ''%'')" using substring_like 3(2) by (simp add: text_like_def)
    with 3(1) have "\<exists>t \<in> set (cr_rare_title_tokens new_item). text_like (it_title i) (''%'' @ t @ ''%'')" by (rule bexI [rotated])
    then have "list_ex (\<lambda>condition. condition i)
        (map (\<lambda>token i. text_like (it_title i) (''%'' @ token @ ''%'')) (cr_rare_title_tokens new_item))"
      by (simp add: list_ex_iff)
    then show ?thesis by (simp add: blocking_conditions_def)
  qed
qed

lemma horizon_seconds_us: "horizon_seconds (seconds_us h) = h"
proof -
  have "- (h * 1000000) = (- h) * 1000000" by simp
  then show ?thesis by (simp only: horizon_seconds_def seconds_us_def nonzero_mult_div_cancel_right) simp
qed

lemma apart_by_seconds:
  fixes a b x y h u v :: int
  assumes "a = x * 1000000 + u" and "0 \<le> u" and "u < 1000000" and "b = y * 1000000 + v" and "0 \<le> v" and "v < 1000000"
  shows "\<bar>a - b\<bar> \<le> h * 1000000 \<Longrightarrow> \<bar>x - y\<bar> \<le> h" and "\<bar>x - y\<bar> \<le> h \<Longrightarrow> \<bar>a - b\<bar> \<le> (h + 1) * 1000000"
  unfolding abs_le_iff distrib_right mult_1 using assms by linarith+

lemma within_seconds:
  fixes a b h r :: int
  shows "\<bar>a - b\<bar> \<le> h * 1000000 \<Longrightarrow> \<bar>(a + r) div 1000000 - (b + r) div 1000000\<bar> \<le> h"
    and "\<bar>(a + r) div 1000000 - (b + r) div 1000000\<bar> \<le> h \<Longrightarrow> \<bar>a - b\<bar> \<le> (h + 1) * 1000000"
proof -
  have parts: "z = z div 1000000 * 1000000 + z mod 1000000" "0 \<le> z mod 1000000" "z mod 1000000 < 1000000" for z :: int
    by simp_all
  have "(a + r) - (b + r) = a - b" by simp
  then show "\<bar>a - b\<bar> \<le> h * 1000000 \<Longrightarrow> \<bar>(a + r) div 1000000 - (b + r) div 1000000\<bar> \<le> h"
    "\<bar>(a + r) div 1000000 - (b + r) div 1000000\<bar> \<le> h \<Longrightarrow> \<bar>a - b\<bar> \<le> (h + 1) * 1000000"
    using apart_by_seconds [OF parts [of "a + r"] parts [of "b + r"], of h] by (simp_all only:)
qed

lemma time_filter_within:
  assumes "counts_seconds unix_s r"
  shows "published_within (seconds_us h) (it_published_at i) t \<Longrightarrow> time_filter unix_s t h i"
    and "time_filter unix_s t h i \<Longrightarrow> published_within (seconds_us (h + 1)) (it_published_at i) t"
  using assms within_seconds [where h = h and r = r]
  by (cases "it_published_at i"; cases t; fastforce simp: published_within_def time_filter_def counts_seconds_def seconds_us_def)+

lemma candidate_of_id: "candidate_of ut new_item i = Inr c \<Longrightarrow> cr_item_id c = it_id i"
  by (auto simp: candidate_of_def res_bind_Inr)

lemma candidate_of_returns:
  assumes "given (it_canonical_url i) \<Longrightarrow> \<exists>r. urlsplit ut (cps (the (it_canonical_url i))) = Inr r"
  shows "\<exists>c. candidate_of ut new_item i = Inr c"
  using assms by (cases "given (it_canonical_url i)") (auto simp: candidate_of_def)

lemma res_map_returns:
  assumes "\<And>x. x \<in> set xs \<Longrightarrow> \<exists>y. f x = Inr y \<and> k y = g x"
  shows "\<exists>ys. res_map f xs = Inr ys \<and> map k ys = map g xs"
  using assms
proof (induction xs)
  case (Cons x xs)
  then obtain y ys where "f x = Inr y" "k y = g x" "res_map f xs = Inr ys" "map k ys = map g xs" by fastforce
  then show ?case by simp
qed simp

lemma sort_key_ids: "map f (sort_key f xs) = sort (map f xs)"
  by (rule properties_for_sort [symmetric]) simp_all

lemma select_candidates_rows:
  assumes "\<And>i. i \<in> set (items d) \<Longrightarrow> given (it_canonical_url i) \<Longrightarrow> \<exists>r. urlsplit ut (cps (the (it_canonical_url i))) = Inr r"
  shows "\<exists>cs. select_candidates unix_s ut new_item horizon n d = Inr cs \<and>
    map cr_item_id cs = take (nat n) (map it_id (matching_rows unix_s new_item horizon d))"
proof -
  let ?rows = "matching_rows unix_s new_item horizon d"
  have none: "?rows = []" if "blocking_conditions new_item = []"
    using that by (simp add: matching_rows_def)
  have "\<exists>c. candidate_of ut new_item i = Inr c \<and> cr_item_id c = it_id i" if "i \<in> set (take (nat n) ?rows)" for i
  proof -
    have "i \<in> set (items d)" using in_set_takeD [OF that] by (simp add: matching_rows_def)
    then show ?thesis using candidate_of_returns assms candidate_of_id by metis
  qed
  from res_map_returns [of _ "candidate_of ut new_item" cr_item_id it_id, OF this]
  obtain cs where "res_map (candidate_of ut new_item) (take (nat n) ?rows) = Inr cs"
    "map cr_item_id cs = take (nat n) (map it_id ?rows)" by (auto simp: take_map)
  then show ?thesis using none by (auto simp: select_candidates_def)
qed

text \<open>What a cut of a strictly sorted list leaves out comes after what it keeps.\<close>

lemma cut_out_later:
  fixes xs :: "int list"
  assumes "sorted_wrt (<) xs" and "x \<in> set xs" and "x \<notin> set (take n xs)"
  shows "length (take n xs) = n \<and> (\<forall>y \<in> set (take n xs). y < x)"
proof -
  have "x \<in> set (drop n xs)" using assms(2,3) by (metis Un_iff append_take_drop_id set_append)
  moreover have "sorted_wrt (<) (take n xs @ drop n xs)" using assms(1) by simp
  ultimately have "\<forall>y \<in> set (take n xs). y < x" unfolding sorted_wrt_append by blast
  moreover have "n < length xs" using \<open>x \<in> set (drop n xs)\<close> by (cases "n < length xs") auto
  ultimately show ?thesis by simp
qed

lemma strictly_sorted_ids:
  assumes "distinct (map it_id (items d))"
  shows "sorted_wrt (<) (map it_id (matching_rows unix_s new_item horizon d))"
  unfolding matching_rows_def sort_key_ids strict_sorted_iff by (simp add: distinct_map_filter [OF assms])

text \<open>
  C35. Candidate selection misses nothing that the design asks for. When the stored URLs can be split
  and the horizon is a number of seconds, the selection returns, in the order of their ids and at
  most as many as the limit allows. Every item other than the new one that was published within the
  horizon (or at an unknown time) and shares a blocking key with it is among them, unless the limit
  cut it off after items with smaller ids; a shared key is the URL hash, the domain as the host of
  the URL, or a rare token that is a token of the title up to ASCII case. What is returned was
  published at most a second beyond the horizon and, when the keys hold no wildcard of \<open>LIKE\<close>, has
  the hash, or the text of the domain or of a token occurs in its URL or title.
\<close>

theorem select_candidates_complete:
  assumes "\<And>i. i \<in> set (items d) \<Longrightarrow> given (it_canonical_url i) \<Longrightarrow> \<exists>r. urlsplit ut (cps (the (it_canonical_url i))) = Inr r"
    and "counts_seconds unix_s shift" and "distinct (map it_id (items d))"
  shows "\<exists>cs. select_candidates unix_s ut new_item (seconds_us h) n d = Inr cs \<and>
    length cs \<le> nat n \<and> sorted_wrt (<) (map cr_item_id cs) \<and>
    (\<forall>i \<in> set (items d). it_id i \<noteq> cr_item_id new_item \<and> shares_key ut new_item i
        \<and> published_within (seconds_us h) (it_published_at i) (cr_published_at new_item) \<longrightarrow>
      it_id i \<in> set (map cr_item_id cs) \<or> (length cs = nat n \<and> (\<forall>c \<in> set cs. cr_item_id c < it_id i))) \<and>
    (\<forall>c \<in> set cs. \<exists>i \<in> set (items d). it_id i = cr_item_id c \<and> it_id i \<noteq> cr_item_id new_item
        \<and> published_within (seconds_us (h + 1)) (it_published_at i) (cr_published_at new_item)
        \<and> (plain_keys new_item \<longrightarrow> keys_occur new_item i))"
proof -
  let ?rows = "matching_rows unix_s new_item (seconds_us h) d"
  obtain cs where cs: "select_candidates unix_s ut new_item (seconds_us h) n d = Inr cs"
    "map cr_item_id cs = take (nat n) (map it_id ?rows)"
    using select_candidates_rows [OF assms(1)] by blast
  have strict: "sorted_wrt (<) (map it_id ?rows)" by (rule strictly_sorted_ids [OF assms(3)])
  have len: "length cs = length (take (nat n) (map it_id ?rows))" using cs(2) by (metis length_map)
  have rows: "i \<in> set ?rows \<longleftrightarrow> i \<in> set (items d) \<and> it_id i \<noteq> cr_item_id new_item
      \<and> time_filter unix_s (cr_published_at new_item) h i \<and> list_ex (\<lambda>condition. condition i) (blocking_conditions new_item)" for i
    by (auto simp: matching_rows_def horizon_seconds_us)
  have complete: "it_id i \<in> set (map cr_item_id cs) \<or> (length cs = nat n \<and> (\<forall>c \<in> set cs. cr_item_id c < it_id i))"
    if "i \<in> set (items d)" "it_id i \<noteq> cr_item_id new_item" "shares_key ut new_item i"
      "published_within (seconds_us h) (it_published_at i) (cr_published_at new_item)" for i
  proof -
    have "i \<in> set ?rows"
      using that shared_key_blocks time_filter_within(1) [OF assms(2)] unfolding rows by blast
    then have "it_id i \<in> set (map it_id ?rows)" by simp
    from cut_out_later [OF strict this, of "nat n"] show ?thesis unfolding cs(2) [symmetric] len by auto
  qed
  have sound: "\<exists>i \<in> set (items d). it_id i = cr_item_id c \<and> it_id i \<noteq> cr_item_id new_item
      \<and> published_within (seconds_us (h + 1)) (it_published_at i) (cr_published_at new_item)
      \<and> (plain_keys new_item \<longrightarrow> keys_occur new_item i)" if "c \<in> set cs" for c
  proof -
    have "cr_item_id c \<in> set (take (nat n) (map it_id ?rows))" using that unfolding cs(2) [symmetric] by simp
    then obtain i where "i \<in> set ?rows" "it_id i = cr_item_id c" by (auto dest!: in_set_takeD)
    then show ?thesis
      using time_filter_within(2) [OF assms(2)] blocking_keys_occur unfolding rows by blast
  qed
  have "sorted_wrt (<) (map cr_item_id cs)" unfolding cs(2) using strict by (rule sorted_wrt_take)
  moreover have "length cs \<le> nat n" unfolding len by simp
  ultimately show ?thesis using cs(1) complete sound by blast
qed

definition sample_new :: "string \<Rightarrow> candidate_record" where
  "sample_new token =
     \<lparr> cr_item_id = 9, cr_published_at = None, cr_canonical_url_hash = None, cr_url_domain = Some ''e.x'',
       cr_rare_title_tokens = [token] \<rparr>"

lemma sample_urls_split:
  assumes "i \<in> set (items sample_db)" and "given (it_canonical_url i)"
  shows "\<exists>r. urlsplit ascii_tables (cps (the (it_canonical_url i))) = Inr r"
proof -
  have "it_canonical_url i = Some ''http://e.x''"
    using assms by (auto simp: sample_db_def sample_item_def given_def)
  then show ?thesis
    by (simp add: url_eval ascii_tables_def urlsplit_def split_scheme_def split_netloc_def netloc_ok_def scheme_char_def)
qed

text \<open>The first and second item are returned; the third has the title and the domain, but a larger id.\<close>

theorem select_candidates_complete_witness:
  "\<exists>cs. select_candidates (\<lambda>t. Some (instant t div 1000000)) ascii_tables (sample_new ''T'') (seconds_us 60) 2 sample_db = Inr cs \<and>
     (3 \<in> set (map cr_item_id cs) \<or> length cs = 2)"
proof -
  have "counts_seconds (\<lambda>t. Some (instant t div 1000000)) 0" by (simp add: counts_seconds_def)
  moreover have "distinct (map it_id (items sample_db))" by (simp add: sample_db_def sample_item_def)
  ultimately obtain cs where run: "select_candidates (\<lambda>t. Some (instant t div 1000000)) ascii_tables (sample_new ''T'') (seconds_us 60) 2 sample_db = Inr cs"
    and complete: "\<forall>i \<in> set (items sample_db). it_id i \<noteq> cr_item_id (sample_new ''T'') \<and> shares_key ascii_tables (sample_new ''T'') i
        \<and> published_within (seconds_us 60) (it_published_at i) (cr_published_at (sample_new ''T'')) \<longrightarrow>
      it_id i \<in> set (map cr_item_id cs) \<or> (length cs = nat 2 \<and> (\<forall>c \<in> set cs. cr_item_id c < it_id i))"
    using select_candidates_complete [OF sample_urls_split, where new_item = "sample_new ''T''" and h = 60 and n = 2] by blast
  have "hosted_at ''e.x'' ''http://e.x''" unfolding hosted_at_def by (intro exI [of _ "''http''"] exI [of _ "[]"]) simp
  then have "shares_key ascii_tables (sample_new ''T'') (sample_item 3 (Some ''http://e.x''))"
    by (simp add: shares_key_def sample_new_def sample_item_def)
  moreover have "sample_item 3 (Some ''http://e.x'') \<in> set (items sample_db)" by (simp add: sample_db_def)
  moreover have "it_id (sample_item 3 (Some ''http://e.x'')) = 3" "cr_item_id (sample_new ''T'') = 9"
    "published_within (seconds_us 60) (it_published_at (sample_item 3 (Some ''http://e.x''))) (cr_published_at (sample_new ''T''))"
    by (simp_all add: sample_item_def sample_new_def published_within_def)
  ultimately show ?thesis using complete run by fastforce
qed

text \<open>
  A token matches within a word and its underscores match any character: the title holds
  neither of the two tokens as a word, and the returned records say so themselves.
\<close>

definition sample_titles :: db where
  "sample_titles = (empty_db 0) \<lparr> items := [(sample_item 1 None) \<lparr> it_title := Some ''party c45'' \<rparr>] \<rparr>"

lemma candidate_without_shared_token:
  "\<exists>c. select_candidates (\<lambda>_. None) ascii_tables (sample_new ''art'') 0 5 sample_titles = Inr [c] \<and> cr_rare_title_tokens c = []"
  "\<exists>c. select_candidates (\<lambda>_. None) ascii_tables (sample_new ''c_5'') 0 5 sample_titles = Inr [c] \<and> cr_rare_title_tokens c = []"
  by (simp_all add: select_candidates_def blocking_conditions_def matching_rows_def sample_new_def sample_titles_def
      sample_item_def given_def time_filter_def text_like_def ascii_fold_def candidate_of_def cps_def space_cp_def)

end
