(* ===== verification/Spec2Isabelle.thy ===== *)
theory Spec2Isabelle
  imports Store_Invariant Writer_Queue Ingest_Fetch Candidates
begin

text \<open>
  A model of TCA, a local aggregator of Telegram channels, and the theorems that make its parts
  correct. TCA polls the channels of Telegram accounts, stores their posts as items in one SQLite
  file, groups items that tell the same story into dedupe clusters, shows one representative per
  cluster in a thread (as JSON, as HTML pages and as bot messages), and looks after its own secrets,
  backups and retention. All paths below are under \<open>src/\<close>.

  \<^bold>\<open>How the parts interact.\<close> The lifespan of the application starts the database, the settings, the
  authentication, the Telegram clients, the scheduler and the bot in order and stops what it started
  in reverse. The scheduler turns eligible channels into poll jobs; the ingest code reads bounded
  pages from Telegram and writes raw messages and items; flood waits and login refusals pause
  channels and accounts, which the scheduler then leaves alone. New items are compared with selected
  candidates by a chain of strategies, whose result is an assignment to a cluster or a merge and
  whose trace is stored. Every write of these parts goes through the writer queue, and all of them
  share the database. The prune job, the channel purge and the backup job work on the same tables.

  \<^bold>\<open>Shared ground.\<close> \<open>Prelude\<close>: exceptions as values (\<open>res\<close>), computations over a state that may raise
  (\<open>act\<close>), transactions, loops, preservation of invariants and frames. \<open>Python\<close>: dynamic objects, the
  string methods, datetimes (naive and aware) and their texts in SQLite, numbers as texts.
  \<open>Code_Points\<close>: texts beyond Latin-1. \<open>Database\<close>: one record per table of \<open>alembic/versions\<close>, the
  constraints (\<open>db_ok\<close>), identifiers and the \<open>ON DELETE\<close> actions; \<open>Samples\<close>: concrete databases for
  the witnesses.

  \<^bold>\<open>Deduplication.\<close> \<open>Representatives\<close>: the ranking of the items of a cluster (locale \<open>ranking\<close>).
  \<open>Clusters\<close>: \<open>storage/dedupe_clusters_repo.py\<close>; assignment and merge refine operations on the map from
  clusters to items. \<open>Strategy\<close>: \<open>dedupe/strategy_contract.py\<close>, \<open>strategy_chain.py\<close> and the exact-URL and
  semantic strategies (locale \<open>strategy_contract\<close>); the chain equals its reference. \<open>Urls\<close> and
  \<open>Url_Targets\<close>: \<open>normalize/url_canonicalization.py\<close>; canonical URLs are equal exactly for equal targets.
  \<open>Normalize\<close>: the hash and similarity normalizations, the content-hash and title strategies and the
  embedding text; the content hash compares words. \<open>Candidates\<close>: \<open>dedupe/candidate_selection.py\<close>;
  no item that shares a blocking key is missed within the limit.
  \<open>Decisions\<close>: the stored trace of a decision.

  \<^bold>\<open>Content and retention.\<close> \<open>Content\<close>: raw messages and items (locale \<open>keyed_upsert\<close>, interpreted for
  both). \<open>Ingest_Fetch\<close>: the paging loop. \<open>Item_Removal\<close>, \<open>Prune\<close>, \<open>Channels\<close>: what deletion of items does
  to clusters, the retention job and the purge, each refining one abstract removal. \<open>Thread_Query\<close>:
  the timeline and its pages. \<open>Backup\<close>: the nightly copy and its rotation.

  \<^bold>\<open>Scheduling and guards.\<close> \<open>Settings\<close> (locale \<open>kv_store\<close>), \<open>Channel_Groups\<close>, \<open>Channel_State\<close> (locale
  \<open>pause_store\<close>), \<open>Scheduler\<close> (ticks on the database; the background task as a step relation),
  \<open>Notifications\<close>, \<open>Ingest_Guards\<close> (account pauses, ingest errors, flood waits, account risk),
  \<open>Channel_Routes\<close>, \<open>Writer_Queue\<close> (queue, worker and futures as an event machine, the first step
  of the worker task included: one that is cancelled before it leaves the queue unserved until the
  next submission).

  \<^bold>\<open>Secrets, sessions and the application.\<close> \<open>Envelope\<close>: Base64 and the encrypted payload. \<open>Accounts\<close>: unlock
  state, key material, stored accounts and sessions. \<open>Auth_Flow\<close>: the login handlers as a state machine.
  \<open>Key_Rotation\<close>. \<open>App_Auth\<close>: bootstrap token, bearer and cookie checks, login page. \<open>App_Lifecycle\<close>:
  static settings, lifespan, Telegram client manager. \<open>Bot_Format\<close>, \<open>Bot_Delivery\<close>: the messages of the
  bot, their delivery and configuration. \<open>Ui_Views\<close>, \<open>Ui_Forms\<close>, \<open>Ui_Setup\<close>: all of \<open>ui/routes.py\<close>.

  \<^bold>\<open>The whole.\<close> \<open>Store_Invariant\<close> makes one step relation of all writers of the database and shows by
  rule induction that the constraints of the schema and the representatives survive any sequence of
  them, failed ones included; this theory states it for the database behind the writer queue, under
  any interleaving of submissions with the worker, and states what a flood wait means for the
  scheduler and the poll-now route together.

  \<^bold>\<open>Termination and fuel.\<close> No definition has fuel that could run out. Loops that follow data are
  structural; the batch loops of the prune job and the paging loop have measures (each turn removes
  a row, or moves the offset) and are total; the retries of a delivery and the two turns of the
  Telegram-wrapper loop count as the source counts them; background tasks are step relations,
  with their termination proved as a bound on the steps to the end.

  \<^bold>\<open>Parameters.\<close> What is not in the repository is an argument: Argon2id, AES key wrap and AES-GCM,
  SHA-256 and HMAC, random values, the clock, Telethon clients, httpx and the Bot API, NumPy, RapidFuzz,
  SQLite's online backup and \<open>strftime\<close>, the results of file operations, and the Unicode tables of the
  interpreter. Theorems name what they assume of them, and a witness instantiates each.

  \<^bold>\<open>Limits of the model.\<close> Datetimes have no smallest or largest year; arithmetic on floats is exact;
  stored texts are Latin-1, except in \<open>Bot_Format\<close>, \<open>Urls\<close> and \<open>Normalize\<close>, which work on code points;
  JSON in a column is the document that it denotes or a malformed text; exception texts keep their
  fixed part; integers bound to SQL parameters are unbounded; a handler runs without another one in
  between, at one reading of the clock, except where a step relation says otherwise; a rendered
  template is the value of its context.

  \<^bold>\<open>Not modelled.\<close> \<open>storage/db.py\<close>, \<open>storage/migrations.py\<close> and \<open>alembic/env.py\<close> (engine options, PRAGMAs and calls
  of Alembic); \<open>config/logging.py\<close> (setup of the logging library); \<open>api/routes/health.py\<close> (a constant
  answer); the registration of routers in \<open>create_app\<close> and \<open>main.py\<close>; loading and calling the
  sentence-transformers model in \<open>dedupe/embedding_service.py\<close>; package \<open>__init__\<close> files (re-exports);
  templates and static files; the tests; and \<open>scripts/\<close>, which holds checks and automation for the
  development of the repository and is no part of the running program.
\<close>

section \<open>Properties that span components\<close>

text \<open>
  C39. In every database that the running system can reach from an empty one, the constraints of the
  schema hold and every dedupe cluster has a representative that is one of its members: through any
  sequence of logins, settings changes, channel and group edits, polls, ingest writes, dedupe
  assignments and merges, notifications, bot deliveries, key rotations, prunes, backups, edits in the
  user interface and the passing of time, successful or failed, and then at any moment while the
  writer queue works on such writes, however callers submit, give up and close it, as long as the
  worker is not killed in the middle of a write.
\<close>

theorem reachable_database_consistent:
  assumes "db_reachable d" and "reachable False d q" and "\<forall>j \<in> set (accepted q). \<forall>e. app_step e (snd (job_op j e))"
  shows "db_ok (store q) \<and>
    (\<forall>c \<in> set (clusters (store q)). \<exists>i. cl_representative c = Some i \<and> i \<in> member_items (cl_id c) (store q))"
proof -
  have "\<forall>j \<in> set (accepted q). preserves db_reachable (job_op j)"
    using assms(3) db_reachable.step unfolding preserves_def by blast
  then have "db_reachable (store q)" by (rule queued_writes_keep [where I = db_reachable, OF assms(2,1)])
  from db_reachable_store_ok [OF this] show ?thesis by (simp add: store_ok_def reps_ok_def represented_iff)
qed

text \<open>A login, a channel, an item of it and a cluster, each written by its handler.\<close>

definition sample_login_run :: db where
  "sample_login_run =
     (let env = sample_env (sample_client (Inr True) (Inr ())) in
      snd (verify_telegram_code env ''s1'' 7 ''h'' ''1'' (snd (start_telegram_auth env 7 ''h'' ''+49'' (empty_db 0)))))"

definition sample_item_fields :: item_fields where
  "sample_item_fields =
     \<lparr> if_raw_message_id = None, if_published_at = None, if_title = Some ''t'', if_body = None,
       if_canonical_url = None, if_canonical_url_hash = None, if_content_hash = None \<rparr>"

definition sample_stored :: db where
  "sample_stored =
     snd (service_upsert_item 1 5 sample_item_fields
       (snd (route_create_channel 1 100 ''news'' None sample_login_run)))"

definition sample_run :: db where
  "sample_run = snd (assign_item_to_cluster ''k'' 1 None sample_stored)"

lemma sample_stored_reachable: "db_reachable sample_stored"
  unfolding sample_stored_def sample_login_run_def Let_def
  by (rule db_reachable.step [OF _ app_step.item_stored],
      rule db_reachable.step [OF _ app_step.channel_created], rule db_reachable.step [OF _ app_step.login_code_verified],
      rule db_reachable.step [OF _ app_step.login_started], rule db_reachable.fresh)

lemma sample_run_cluster: "length (clusters sample_run) = 1"
proof -
  define d where "d = snd (route_create_channel 1 100 ''news'' None sample_login_run)"
  define e where "e = snd (service_upsert_item 1 5 sample_item_fields d)"
  have "map acc_id (accounts sample_login_run) = [1]" by code_simp
  then have acc: "account_ids sample_login_run = {1}" by (metis list.simps(15) list.set(1) set_map)
  have empty: "channels sample_login_run = []" "items sample_login_run = []" "clusters sample_login_run = []"
    "members sample_login_run = []" by code_simp+
  have d: "channel_ids d = {1}" "items d = []" "clusters d = []" "members d = []"
    using acc empty by (simp_all add: d_def route_create_channel_def create_channel_def act_simps Let_def)
  then have e: "item_ids e = {1}" "clusters e = []" "members e = []"
    by (simp_all add: e_def service_upsert_item_def upsert_item_def item_upsert_statement_def sample_item_fields_def
        upsert_by_def new_item_row_def act_simps Let_def unique_opt_Cons fk_opt_def)
  then have "length (clusters (snd (assign_item_to_cluster ''k'' 1 None e))) = 1"
    by (simp add: assign_item_to_cluster_def create_cluster_def add_member_def has_member_def act_simps Let_def)
  then show ?thesis by (simp add: sample_run_def sample_stored_def d_def e_def)
qed

text \<open>The assignment goes through the queue.\<close>

theorem reachable_database_consistent_witness:
  "\<exists>c i. clusters sample_run = [c] \<and> cl_representative c = Some i \<and> i \<in> member_items (cl_id c) sample_run"
proof -
  let ?f = "assign_item_to_cluster ''k'' 1 None"
  from one_job_runs [of sample_stored ?f]
  obtain q where q: "reachable False sample_stored q \<and> store q = snd (?f sample_stored) \<and> accepted q = [\<lparr> job_id = 0, job_op = ?f \<rparr>]" ..
  then have "\<forall>j \<in> set (accepted q). job_op j = ?f" by simp
  then have "\<forall>j \<in> set (accepted q). \<forall>e. app_step e (snd (job_op j e))" by (metis app_step.item_assigned)
  note ok = reachable_database_consistent [OF sample_stored_reachable conjunct1 [OF q] this]
  have "store q = sample_run" using q by (simp add: sample_run_def)
  moreover obtain c where "clusters sample_run = [c]" using sample_run_cluster by (auto simp: length_Suc_conv)
  ultimately show ?thesis using ok by auto
qed

text \<open>
  C40. Flood waits reach the scheduler and the poll-now route: after a flood wait of a number of seconds was
  handled for a channel, no scheduler tick before that time has passed enqueues a job for the
  channel, though the tick itself succeeds, and a poll-now request for it is refused without a change.
\<close>

theorem flood_wait_stops_polling:
  assumes "states_ok d" and "settings_ok d" and "c \<in> channel_ids d" and "extract_wait_seconds seconds = Some wait"
    and "handle_flood_wait c seconds account t d = (res, d')"
    and "instant time < instant t + wait * 1000000"
    and "tk_db s = d'" and "fresh_ids self s" and "draws_in_unit self"
    and "0 \<le> poll_interval_seconds self" and "0 \<le> jitter_ratio self"
    and "k \<notin> pj_correlation_id ` set (poll_jobs d')"
  shows "(\<exists>rows s'. scheduler_run_once self time s = (Inr (map job_record_of rows), s') \<and>
      tk_db s' = d'\<lparr> poll_jobs := poll_jobs d' @ rows \<rparr> \<and> c \<notin> set (map pj_channel_id rows)) \<and>
    (\<exists>e. poll_now c time k d' = (Inl e, d'))"
proof -
  let ?resume = "dt_plus_us (normalize_datetime t) (seconds_us wait)"
  have after: "paused_view d' c = Some ?resume" "instant ?resume = instant t + wait * 1000000" "states_ok d'"
    using flood_wait_effect [OF assms(1,2), where seconds = seconds and c = c and account = account and t = t] assms(3-5) by (auto simp: Let_def)
  then have paused: "is_paused (Option.bind (state_view d' c) sd_paused_until) time"
      "is_paused (Option.bind (state_view d' c) sd_paused_until) (normalize_datetime time)"
    using assms(6) by (simp_all add: is_paused_def paused_view_def)
  have "\<exists>e. poll_now c time k d' = (Inl e, d')"
    using poll_now_cases [OF after(3) assms(12), of c time] paused(1) by (auto split: option.splits if_splits)
  moreover obtain rows s' where "scheduler_run_once self time s = (Inr (map job_record_of rows), s')"
      "tk_db s' = d'\<lparr> poll_jobs := poll_jobs d' @ rows \<rparr>"
      "set (map pj_channel_id rows) \<subseteq> ch_id ` set (schedulable_rows d')"
      "\<forall>c \<in> ch_id ` set (schedulable_rows d').
        must_wait self (normalize_datetime time) (state_view d' c) \<longrightarrow> c \<notin> set (map pj_channel_id rows)"
    using scheduler_tick_effect [of s self time, unfolded assms(7), OF after(3) assms(8-11)] by blast
  ultimately show ?thesis using paused(2) by (metis must_wait_def subsetD)
qed

lemma flood_wait_keeps_jobs: "preserves (\<lambda>d. poll_jobs d = js) (handle_flood_wait c seconds None t)"
proof -
  have "preserves (\<lambda>d. poll_jobs d = js) (update_pause c p)" for p
    unfolding update_pause_def upsert_state_row_def
    by (intro preserves_intros preservesI) (simp add: Let_def split: option.split)
  moreover have "preserves (\<lambda>d. poll_jobs d = js) (notification_create x y z p)" for x y z p
    unfolding notification_create_def
    by (intro preserves_intros preservesI) (simp add: insert_notification_def Let_def)
  ultimately show ?thesis
    unfolding handle_flood_wait_def persist_flood_wait_def Let_def option.case by (intro preserves_intros) auto
qed

theorem flood_wait_stops_polling_witness:
  "\<exists>r d' rows s'. handle_flood_wait 1 (PInt 400) None (DT 1800000000000000 (Some 0)) sample_db = (r, d') \<and>
    scheduler_run_once sample_loop (DT 1800000399000000 (Some 0)) \<lparr> tk_db = d', tk_draws = 0, tk_ids = 0 \<rparr> =
      (Inr (map job_record_of rows), s') \<and> 1 \<notin> set (map pj_channel_id rows)"
proof -
  obtain r d' where run: "handle_flood_wait 1 (PInt 400) None (DT 1800000000000000 (Some 0)) sample_db = (r, d')" by fastforce
  let ?s = "\<lparr> tk_db = d', tk_draws = 0, tk_ids = 0 \<rparr>"
  have jobs: "poll_jobs d' = []"
    using preserves_result [OF flood_wait_keeps_jobs _ run, of "[]"] by (simp add: sample_db_def empty_db_def)
  then have "fresh_ids sample_loop ?s"
    by (auto simp: fresh_ids_def sample_loop_def intro!: injI dest: arg_cong [of _ _ length])
  moreover have "draws_in_unit sample_loop" by (simp add: draws_in_unit_def sample_loop_def)
  moreover have "settings_ok sample_db" "1 \<in> channel_ids sample_db" "extract_wait_seconds (PInt 400) = Some 400"
    "instant (DT 1800000399000000 (Some 0)) < instant (DT 1800000000000000 (Some 0)) + 400 * 1000000"
    "0 \<le> poll_interval_seconds sample_loop" "0 \<le> jitter_ratio sample_loop" by code_simp+
  ultimately show ?thesis
    using flood_wait_stops_polling [OF sample_states_ok _ _ _ run, of 400 "DT 1800000399000000 (Some 0)" ?s sample_loop "''k''"] run jobs
    by auto
qed

end
